(* ===== verification/Prelude.thy ===== *)
theory Prelude
  imports Main "HOL-Library.Word"
begin

text \<open>
  Shared material of the development: the names of the machine types, the byte
  views of words that the C code obtains by casting pointers, lists cut into
  blocks, and the locale \<open>block_loop\<close>, the contract of every ``while a whole
  block is left, digest it'' loop of the hash functions under
  \<^verbatim>\<open>src/crypto\<close>.
\<close>

unbundle bit_operations_syntax

section \<open>Machine types\<close>

type_synonym byte = "8 word"
type_synonym u32 = "32 word"
type_synonym u64 = "64 word"

named_theorems step_simps \<open>unfolding rules for the operations of the components\<close>

section \<open>Little-endian views of words\<close>

text \<open>
  A pointer cast such as \<^verbatim>\<open>((uint64_t *) in)[i]\<close> reads
  little-endian on the targets the project builds for (x86 and ARM).
\<close>

fun word_of_le :: "byte list \<Rightarrow> 'a::len word" where
  "word_of_le [] = 0"
| "word_of_le (b # bs) = ucast b OR push_bit 8 (word_of_le bs)"

definition le_bytes :: "nat \<Rightarrow> 'a::len word \<Rightarrow> byte list" where
  "le_bytes n w = map (\<lambda>i. ucast (drop_bit (8 * i) w)) [0..<n]"

definition be_bytes :: "nat \<Rightarrow> 'a::len word \<Rightarrow> byte list" where
  "be_bytes n w = rev (le_bytes n w)"

lemma length_le_bytes [simp]: "length (le_bytes n w) = n"
  by (simp add: le_bytes_def)

lemma length_be_bytes [simp]: "length (be_bytes n w) = n"
  by (simp add: be_bytes_def)

lemma bit_word_of_le:
  "bit (word_of_le bs :: 'a::len word) k \<longleftrightarrow>
     k < LENGTH('a) \<and> k < 8 * length bs \<and> bit (bs ! (k div 8)) (k mod 8)"
proof (induction bs arbitrary: k)
  case Nil
  then show ?case by simp
next
  case (Cons b bs)
  show ?case
  proof (cases "k < 8")
    case True
    then show ?thesis by (auto simp: bit_simps)
  next
    case False
    then have "k div 8 = Suc ((k - 8) div 8)" "k mod 8 = (k - 8) mod 8"
      by (simp_all add: le_div_geq le_mod_geq)
    then show ?thesis
      using False bit_imp_le_length [of b k] by (auto simp: bit_simps Cons.IH)
  qed
qed

lemma word_of_le_bytes:
  assumes "LENGTH('a) = 8 * n"
  shows "word_of_le (le_bytes n w) = (w :: 'a::len word)"
proof (rule bit_word_eqI)
  fix k assume k: "k < LENGTH('a)"
  then have "k div 8 < n" using assms by auto
  moreover have "8 * (k div 8) + k mod 8 = k" by simp
  moreover have "k mod 8 < LENGTH(8)" by simp
  ultimately show "bit (word_of_le (le_bytes n w) :: 'a word) k \<longleftrightarrow> bit w k"
    using k assms by (simp add: bit_word_of_le le_bytes_def bit_simps add.commute)
qed

lemma le_bytes_word_of_le:
  assumes "length bs = n" and "8 * n \<le> LENGTH('a::len)"
  shows "le_bytes n (word_of_le bs :: 'a word) = bs"
proof (rule nth_equalityI)
  show "length (le_bytes n (word_of_le bs :: 'a word)) = length bs"
    using assms by simp
next
  fix i assume "i < length (le_bytes n (word_of_le bs :: 'a word))"
  then have i: "i < n" by simp
  show "le_bytes n (word_of_le bs :: 'a word) ! i = bs ! i"
  proof (rule bit_word_eqI)
    fix k assume "k < LENGTH(8)"
    then have k: "k < 8" by simp
    then have "8 * i + k < 8 * n" using i by linarith
    then show "bit (le_bytes n (word_of_le bs :: 'a word) ! i) k \<longleftrightarrow> bit (bs ! i) k"
      using i k assms by (simp add: le_bytes_def bit_simps bit_word_of_le)
  qed
qed

section \<open>Rotations\<close>

text \<open>The shift-or idiom of the C macros is a rotation, for a proper amount.\<close>

lemma shift_or_is_word_rotl:
  fixes w :: "'a::len word"
  assumes "0 < r" "r < LENGTH('a)"
  shows "push_bit r w OR drop_bit (LENGTH('a) - r) w = word_rotl r w"
proof (rule bit_word_eqI)
  fix n assume n: "n < LENGTH('a)"
  show "bit (push_bit r w OR drop_bit (LENGTH('a) - r) w) n = bit (word_rotl r w) n"
  proof (cases "n < r")
    case True
    then have "(n + LENGTH('a) - r) mod LENGTH('a) = LENGTH('a) - r + n" using assms by simp
    then show ?thesis using True n assms
      by (simp add: bit_word_rotl_iff bit_simps)
  next
    case False
    then have "(n + LENGTH('a) - r) mod LENGTH('a) = n - r" using n assms by (simp add: mod_if)
    moreover have "\<not> bit w (LENGTH('a) - r + n)"
      using False bit_imp_le_length [of w "LENGTH('a) - r + n"] assms by auto
    ultimately show ?thesis using False n assms
      by (simp add: bit_word_rotl_iff bit_simps)
  qed
qed

lemma shift_or_is_word_rotr:
  fixes w :: "'a::len word"
  assumes "0 < r" "r < LENGTH('a)"
  shows "push_bit (LENGTH('a) - r) w OR drop_bit r w = word_rotr r w"
proof (rule bit_word_eqI)
  fix n assume n: "n < LENGTH('a)"
  show "bit (push_bit (LENGTH('a) - r) w OR drop_bit r w) n = bit (word_rotr r w) n"
  proof (cases "n < LENGTH('a) - r")
    case True
    then have "(n + r) mod LENGTH('a) = r + n" by simp
    then show ?thesis using True n assms by (simp add: bit_word_rotr_iff bit_simps add.commute)
  next
    case False
    then have "(n + r) mod LENGTH('a) = n - (LENGTH('a) - r)" using n assms by (simp add: mod_if)
    moreover have "\<not> bit w (r + n)"
      using False bit_imp_le_length [of w "r + n"] by auto
    ultimately show ?thesis using False n assms by (simp add: bit_word_rotr_iff bit_simps)
  qed
qed

section \<open>Compound assignment to an array cell\<close>

text \<open>The C statement \<^verbatim>\<open>st[i] ^= t\<close>.\<close>

definition xor_at :: "nat \<Rightarrow> 'a::len word \<Rightarrow> 'a word list \<Rightarrow> 'a word list" where
  "xor_at i t st = st[i := st ! i XOR t]"

lemma length_xor_at [simp]: "length (xor_at i t st) = length st"
  by (simp add: xor_at_def)

lemma nth_xor_at:
  "k < length st \<Longrightarrow> xor_at i t st ! k = (if k = i then st ! k XOR t else st ! k)"
  by (cases "i = k") (simp_all add: xor_at_def)

section \<open>Lists cut into blocks\<close>

function chunks :: "nat \<Rightarrow> 'a list \<Rightarrow> 'a list list" where
  "chunks n xs = (if 0 < n \<and> n \<le> length xs then take n xs # chunks n (drop n xs) else [])"
  by pat_completeness auto
termination
  by (relation "measure (\<lambda>(n, xs). length xs)") auto

declare chunks.simps [simp del]

lemma chunks_short: "length xs < n \<Longrightarrow> chunks n xs = []"
  by (simp add: chunks.simps)

lemma chunks_step:
  "0 < n \<Longrightarrow> n \<le> length xs \<Longrightarrow> chunks n xs = take n xs # chunks n (drop n xs)"
  by (subst chunks.simps) simp

lemma chunks_one: "0 < n \<Longrightarrow> length xs = n \<Longrightarrow> chunks n xs = [xs]"
  by (simp add: chunks_step chunks_short)

lemma chunks_append:
  assumes "0 < n" and "n dvd length xs"
  shows "chunks n (xs @ ys) = chunks n xs @ chunks n ys"
  using assms
proof (induction n xs rule: chunks.induct)
  case (1 n xs)
  show ?case
  proof (cases "n \<le> length xs")
    case True
    with 1 show ?thesis by (simp add: chunks_step)
  next
    case False
    with 1 have "xs = []" by (auto dest: dvd_imp_le)
    then show ?thesis using \<open>0 < n\<close> by (simp add: chunks_short)
  qed
qed

lemma length_chunks: "0 < n \<Longrightarrow> length (chunks n xs) = length xs div n"
proof (induction n xs rule: chunks.induct)
  case (1 n xs)
  show ?case
  proof (cases "n \<le> length xs")
    case True
    then have "length xs div n = Suc ((length xs - n) div n)"
      using "1.prems" by (simp add: le_div_geq)
    then show ?thesis using "1.IH" "1.prems" True by (simp add: chunks_step)
  next
    case False
    then show ?thesis by (simp add: chunks_short)
  qed
qed

lemma chunks_length_all: "c \<in> set (chunks n xs) \<Longrightarrow> length c = n"
proof (induction n xs rule: chunks.induct)
  case (1 n xs)
  show ?case
  proof (cases "0 < n \<and> n \<le> length xs")
    case True
    then have "c = take n xs \<or> c \<in> set (chunks n (drop n xs))"
      using "1.prems" by (simp add: chunks_step)
    then show ?thesis using "1.IH" True by auto
  next
    case False
    then have "chunks n xs = []" by (subst chunks.simps) (simp only: if_False)
    then show ?thesis using "1.prems" by simp
  qed
qed

section \<open>The contract of a block loop\<close>

text \<open>
  A hash function digests its input with a loop that consumes one block per
  iteration and leaves a remainder shorter than a block. The provider promises
  the unfolding of its loop; the client gets the loop as a fold over the blocks,
  the length of what is left, and the law that says where a digest may be split.
\<close>

locale block_loop =
  fixes bsize :: nat
    and step :: "'s \<Rightarrow> 'b list \<Rightarrow> 's"
    and loop :: "'s \<Rightarrow> 'b list \<Rightarrow> 's \<times> 'b list"
  assumes bsize_pos: "0 < bsize"
    and loop_unfold: "loop s xs =
      (if bsize \<le> length xs then loop (step s (take bsize xs)) (drop bsize xs) else (s, xs))"
begin

lemma loop_short: "length xs < bsize \<Longrightarrow> loop s xs = (s, xs)"
  by (subst loop_unfold) simp

lemma loop_step:
  "bsize \<le> length xs \<Longrightarrow> loop s xs = loop (step s (take bsize xs)) (drop bsize xs)"
  by (subst loop_unfold) simp

lemma loop_is_fold:
  "loop s xs = (foldl step s (chunks bsize xs), drop (bsize * (length xs div bsize)) xs)"
proof (induction xs arbitrary: s rule: length_induct)
  case (1 xs)
  show ?case
  proof (cases "bsize \<le> length xs")
    case True
    have "length (drop bsize xs) < length xs"
      using True bsize_pos by simp
    with 1 have "loop s xs = (foldl step (step s (take bsize xs)) (chunks bsize (drop bsize xs)),
        drop (bsize * (length (drop bsize xs) div bsize)) (drop bsize xs))"
      using True by (simp add: loop_step)
    moreover have "length xs div bsize = Suc ((length xs - bsize) div bsize)"
      using True bsize_pos by (simp add: le_div_geq)
    ultimately show ?thesis
      using True bsize_pos by (simp add: chunks_step add.commute)
  next
    case False
    then show ?thesis by (simp add: loop_short chunks_short)
  qed
qed

lemma loop_rest_length: "length (snd (loop s xs)) = length xs mod bsize"
  by (simp add: loop_is_fold minus_mult_div_eq_mod)

lemma loop_rest_short: "length (snd (loop s xs)) < bsize"
  using bsize_pos by (simp add: loop_rest_length)

lemma loop_append:
  assumes "bsize dvd length xs"
  shows "loop s (xs @ ys) = loop (fst (loop s xs)) ys"
proof -
  have "(length xs + length ys) div bsize = length xs div bsize + length ys div bsize"
    using assms by (rule div_plus_div_distrib_dvd_left)
  moreover have "bsize * (length xs div bsize) = length xs"
    using assms by simp
  ultimately show ?thesis
    using bsize_pos assms by (simp add: loop_is_fold chunks_append distrib_left)
qed

end

end
