(* ===== verification/Keccak.thy ===== *)
theory Keccak
  imports Prelude
begin

text \<open>
  The Keccak permutation and sponge of \<^verbatim>\<open>src/crypto/c_keccak.c\<close>: the
  in-place rounds of \<open>keccakf\<close> on a list of 25 lanes, the hash \<open>keccak\<close> and
  the full-state variant \<open>keccak1600\<close> the miner uses. The specification half
  defines theta, rho, pi, chi and iota on the 5x5 array of lanes with the
  rotation offsets and the round constants computed by their generators, and
  the sponge over a padded message; the code is proved equal to it.
\<close>

section \<open>The code\<close>

text \<open>\<^verbatim>\<open>ROTL64\<close>: both shifts are in range for the amounts the code uses.\<close>

definition rotl64 :: "u64 \<Rightarrow> nat \<Rightarrow> u64" where
  "rotl64 x y = push_bit y x OR drop_bit (64 - y) x"

definition HASH_DATA_AREA :: nat where "HASH_DATA_AREA = 136"

definition KECCAK_ROUNDS :: nat where "KECCAK_ROUNDS = 24"

definition keccakf_rndc :: "u64 list" where
  "keccakf_rndc =
    [0x0000000000000001, 0x0000000000008082, 0x800000000000808a,
     0x8000000080008000, 0x000000000000808b, 0x0000000080000001,
     0x8000000080008081, 0x8000000000008009, 0x000000000000008a,
     0x0000000000000088, 0x0000000080008009, 0x000000008000000a,
     0x000000008000808b, 0x800000000000008b, 0x8000000000008089,
     0x8000000000008003, 0x8000000000008002, 0x8000000000000080,
     0x000000000000800a, 0x800000008000000a, 0x8000000080008081,
     0x8000000000008080, 0x0000000080000001, 0x8000000080008008]"

text \<open>Theta: the column parities, then the loop that xors each column of the state.\<close>

definition theta_bc :: "u64 list \<Rightarrow> u64 list" where
  "theta_bc st =
    [st ! 0 XOR st ! 5 XOR st ! 10 XOR st ! 15 XOR st ! 20,
     st ! 1 XOR st ! 6 XOR st ! 11 XOR st ! 16 XOR st ! 21,
     st ! 2 XOR st ! 7 XOR st ! 12 XOR st ! 17 XOR st ! 22,
     st ! 3 XOR st ! 8 XOR st ! 13 XOR st ! 18 XOR st ! 23,
     st ! 4 XOR st ! 9 XOR st ! 14 XOR st ! 19 XOR st ! 24]"

definition theta_column :: "u64 list \<Rightarrow> nat \<Rightarrow> u64 list \<Rightarrow> u64 list" where
  "theta_column bc i st =
    (let t = bc ! ((i + 4) mod 5) XOR rotl64 (bc ! ((i + 1) mod 5)) 1
     in xor_at (i + 20) t (xor_at (i + 15) t (xor_at (i + 10) t
          (xor_at (i + 5) t (xor_at i t st)))))"

definition keccak_theta :: "u64 list \<Rightarrow> u64 list" where
  "keccak_theta st = fold (theta_column (theta_bc st)) [0..<5] st"

text \<open>
  Rho and pi: one cycle of 24 assignments through the saved lane \<open>t\<close>; the
  list gives (target, source, rotation) in the order of the code.
\<close>

definition rho_pi_moves :: "(nat \<times> nat \<times> nat) list" where
  "rho_pi_moves =
    [(1, 6, 44), (6, 9, 20), (9, 22, 61), (22, 14, 39), (14, 20, 18), (20, 2, 62),
     (2, 12, 43), (12, 13, 25), (13, 19, 8), (19, 23, 56), (23, 15, 41), (15, 4, 27),
     (4, 24, 14), (24, 21, 2), (21, 8, 55), (8, 16, 45), (16, 5, 36), (5, 3, 28),
     (3, 18, 21), (18, 17, 15), (17, 11, 10), (11, 7, 6), (7, 10, 3)]"

definition keccak_rho_pi :: "u64 list \<Rightarrow> u64 list" where
  "keccak_rho_pi st =
    (let t = st ! 1;
         st = fold (\<lambda>(d, s, r) st. st[d := rotl64 (st ! s) r]) rho_pi_moves st
     in st[10 := rotl64 t 1])"

text \<open>Chi on the row that starts at \<open>j\<close>; the last row saves all five lanes.\<close>

definition chi_row :: "nat \<Rightarrow> u64 list \<Rightarrow> u64 list" where
  "chi_row j st =
    (let bc0 = st ! j; bc1 = st ! (j + 1);
         st = xor_at j (NOT (st ! (j + 1)) AND st ! (j + 2)) st;
         st = xor_at (j + 1) (NOT (st ! (j + 2)) AND st ! (j + 3)) st;
         st = xor_at (j + 2) (NOT (st ! (j + 3)) AND st ! (j + 4)) st;
         st = xor_at (j + 3) (NOT (st ! (j + 4)) AND bc0) st
     in xor_at (j + 4) (NOT bc0 AND bc1) st)"

definition chi_last_row :: "nat \<Rightarrow> u64 list \<Rightarrow> u64 list" where
  "chi_last_row j st =
    (let bc0 = st ! j; bc1 = st ! (j + 1); bc2 = st ! (j + 2); bc3 = st ! (j + 3);
         bc4 = st ! (j + 4);
         st = xor_at j (NOT bc1 AND bc2) st;
         st = xor_at (j + 1) (NOT bc2 AND bc3) st;
         st = xor_at (j + 2) (NOT bc3 AND bc4) st;
         st = xor_at (j + 3) (NOT bc4 AND bc0) st
     in xor_at (j + 4) (NOT bc0 AND bc1) st)"

definition keccak_chi :: "u64 list \<Rightarrow> u64 list" where
  "keccak_chi st =
    chi_last_row 20 (chi_row 15 (chi_row 10 (chi_row 5 (chi_row 0 st))))"

definition keccak_round :: "nat \<Rightarrow> u64 list \<Rightarrow> u64 list" where
  "keccak_round r st =
    (let st = keccak_chi (keccak_rho_pi (keccak_theta st))
     in xor_at 0 (keccakf_rndc ! r) st)"

definition keccakf :: "u64 list \<Rightarrow> nat \<Rightarrow> u64 list" where
  "keccakf st rounds = fold keccak_round [0..<rounds] st"

text \<open>The absorbing loops of \<open>keccak\<close>: a block is xored into the state word by word.\<close>

definition xor_block :: "nat \<Rightarrow> u64 list \<Rightarrow> byte list \<Rightarrow> u64 list" where
  "xor_block rsizw st blk =
    fold (\<lambda>i. xor_at i (word_of_le (take 8 (drop (8 * i) blk)))) [0..<rsizw] st"

definition keccak_absorb :: "nat \<Rightarrow> u64 list \<Rightarrow> byte list \<Rightarrow> u64 list" where
  "keccak_absorb rsiz st blk = keccakf (xor_block (rsiz div 8) st blk) KECCAK_ROUNDS"

function keccak_blocks :: "nat \<Rightarrow> u64 list \<Rightarrow> byte list \<Rightarrow> u64 list \<times> byte list" where
  "keccak_blocks rsiz st inp =
    (if 0 < rsiz \<and> rsiz \<le> length inp
     then keccak_blocks rsiz (keccak_absorb rsiz st (take rsiz inp)) (drop rsiz inp)
     else (st, inp))"
  by pat_completeness auto
termination
  by (relation "measure (\<lambda>(r, st, inp). length inp)") auto

declare keccak_blocks.simps [simp del]

text \<open>\<^verbatim>\<open>temp\<close>: the rest of the input, a byte 1, zeros, and the top bit of the last byte.\<close>

definition keccak_temp :: "nat \<Rightarrow> byte list \<Rightarrow> byte list" where
  "keccak_temp rsiz inp =
    (let temp = inp @ [1];
         temp = temp @ replicate (rsiz - length temp) 0
     in temp[rsiz - 1 := temp ! (rsiz - 1) OR 0x80])"

definition state_bytes :: "u64 list \<Rightarrow> byte list" where
  "state_bytes st = concat (map (le_bytes 8) st)"

text \<open>
  \<open>keccak\<close> for the digest lengths for which the C code is defined: the rate must
  be positive (or the loop would not advance) and fit the 144 bytes of
  \<^verbatim>\<open>temp\<close>; the output is copied from the 200 bytes of the state.
\<close>

definition keccak_rsiz :: "nat \<Rightarrow> nat option" where
  "keccak_rsiz mdlen =
    (if mdlen = 200 then Some HASH_DATA_AREA
     else if 28 \<le> mdlen \<and> mdlen < 100 then Some (200 - 2 * mdlen)
     else None)"

definition keccak :: "byte list \<Rightarrow> nat \<Rightarrow> byte list option" where
  "keccak inp mdlen =
    (case keccak_rsiz mdlen of
       None \<Rightarrow> None
     | Some rsiz \<Rightarrow>
        let (st, rest) = keccak_blocks rsiz (replicate 25 0) inp;
            st = xor_block (rsiz div 8) st (keccak_temp rsiz rest);
            st = keccakf st KECCAK_ROUNDS
        in Some (take mdlen (state_bytes st)))"

definition keccak1600 :: "byte list \<Rightarrow> byte list option" where
  "keccak1600 inp = keccak inp 200"

section \<open>The specification of the permutation\<close>

text \<open>Lanes are indexed by column \<open>x\<close> and row \<open>y\<close>, both below 5.\<close>

type_synonym lanes = "nat \<Rightarrow> nat \<Rightarrow> u64"

definition lane :: "u64 list \<Rightarrow> lanes" where
  "lane st x y = st ! (x + 5 * y)"

definition of_lanes :: "lanes \<Rightarrow> u64 list" where
  "of_lanes A = map (\<lambda>i. A (i mod 5) (i div 5)) [0..<25]"

definition theta_spec :: "lanes \<Rightarrow> lanes" where
  "theta_spec A x y =
    (let C = \<lambda>x. A x 0 XOR A x 1 XOR A x 2 XOR A x 3 XOR A x 4
     in A x y XOR (C ((x + 4) mod 5) XOR word_rotl 1 (C ((x + 1) mod 5))))"

text \<open>
  The rotation offsets are generated by the walk \<open>(x, y) \<mapsto> (y, 2x + 3y)\<close> from
  \<open>(1, 0)\<close>: its position at time \<open>t\<close> rotates by the \<open>t\<close>-th triangular number.
\<close>

fun rho_walk :: "nat \<Rightarrow> nat \<times> nat" where
  "rho_walk 0 = (1, 0)"
| "rho_walk (Suc t) = (case rho_walk t of (x, y) \<Rightarrow> (y, (2 * x + 3 * y) mod 5))"

definition rho_offset :: "nat \<Rightarrow> nat \<Rightarrow> nat" where
  "rho_offset x y =
    (case map_of (map (\<lambda>t. (rho_walk t, (t + 1) * (t + 2) div 2 mod 64)) [0..<24]) (x, y) of
       None \<Rightarrow> 0 | Some r \<Rightarrow> r)"

definition rho_spec :: "lanes \<Rightarrow> lanes" where
  "rho_spec A x y = word_rotl (rho_offset x y) (A x y)"

definition pi_spec :: "lanes \<Rightarrow> lanes" where
  "pi_spec A x y = A ((x + 3 * y) mod 5) x"

definition chi_spec :: "lanes \<Rightarrow> lanes" where
  "chi_spec A x y = A x y XOR (NOT (A ((x + 1) mod 5) y) AND A ((x + 2) mod 5) y)"

text \<open>The round constants: bit \<open>2 ^ j - 1\<close> of constant \<open>r\<close> is output \<open>j + 7 r\<close> of an LFSR.\<close>

definition lfsr_step :: "bool list \<Rightarrow> bool list" where
  "lfsr_step R =
    (let b = R ! 7; R = False # R
     in take 8 (R[0 := R ! 0 \<noteq> b, 4 := R ! 4 \<noteq> b, 5 := R ! 5 \<noteq> b, 6 := R ! 6 \<noteq> b]))"

fun lfsr_out :: "nat \<Rightarrow> bool list \<Rightarrow> bool list" where
  "lfsr_out 0 R = []"
| "lfsr_out (Suc n) R = R ! 0 # lfsr_out n (lfsr_step R)"

definition rc_bits :: "bool list" where
  "rc_bits = lfsr_out 168 (True # replicate 7 False)"

definition rc_spec :: "nat \<Rightarrow> u64" where
  "rc_spec r =
    foldl (\<lambda>w j. if rc_bits ! (j + 7 * r) then w OR push_bit (2 ^ j - 1) 1 else w) 0 [0..<7]"

definition iota_spec :: "nat \<Rightarrow> lanes \<Rightarrow> lanes" where
  "iota_spec r A x y = (if x = 0 \<and> y = 0 then A 0 0 XOR rc_spec r else A x y)"

definition round_spec :: "nat \<Rightarrow> lanes \<Rightarrow> lanes" where
  "round_spec r A = iota_spec r (chi_spec (pi_spec (rho_spec (theta_spec A))))"


lemma rotl64_word_rotl: "0 < r \<Longrightarrow> r < 64 \<Longrightarrow> rotl64 w r = word_rotl r w"
  using shift_or_is_word_rotl [of r w] by (simp add: rotl64_def)

lemma length_of_lanes [simp]: "length (of_lanes A) = 25"
  by (simp add: of_lanes_def)

lemma st25_cases:
  assumes "length st = 25"
  obtains a b c d e f g h i j k l m n p q r s t u v w x y z where
    "st = [a,b,c,d,e,f,g,h,i,j,k,l,m,n,p,q,r,s,t,u,v,w,x,y,z]"
proof -
  have "st = map ((!) st) [0..<25]" using map_nth [of st] assms by simp
  then show ?thesis using that by (simp add: upt_rec)
qed

lemma of_lanes_eqI:
  assumes "length st = 25" and "\<And>k. k < 25 \<Longrightarrow> st ! k = A (k mod 5) (k div 5)"
  shows "st = of_lanes A"
  using assms by (intro nth_equalityI) (auto simp: of_lanes_def)

lemma lane_of_lanes: "x < 5 \<Longrightarrow> y < 5 \<Longrightarrow> lane (of_lanes A) x y = A x y"
  by (simp add: lane_def of_lanes_def)

lemma lane_index: "k < 25 \<Longrightarrow> lane st (k mod 5) (k div 5) = st ! k"
  by (simp add: lane_def)

text \<open>A five-way case distinction that the row and column lemmas share.\<close>

lemma less5_cases: "(k::nat) < 5 \<Longrightarrow> k = 0 \<or> k = 1 \<or> k = 2 \<or> k = 3 \<or> k = 4"
  by arith

lemma rc_table: "map rc_spec [0..<24] = keccakf_rndc"
  by code_simp

lemma rho_table:
  "map (\<lambda>i. rho_offset (i mod 5) (i div 5)) [0..<25] =
    [0, 1, 62, 28, 27, 36, 44, 6, 55, 20, 3, 10, 43, 25, 39, 41, 45, 15, 21, 8, 18, 2, 61, 56, 14]"
  by code_simp

section \<open>Theta\<close>

definition theta_t :: "u64 list \<Rightarrow> nat \<Rightarrow> u64" where
  "theta_t bc i = bc ! ((i + 4) mod 5) XOR rotl64 (bc ! ((i + 1) mod 5)) 1"

lemma length_theta_column [simp]: "length (theta_column bc i st) = length st"
  by (simp add: theta_column_def Let_def)

lemma nth_xor_at5:
  "k < length st \<Longrightarrow>
    xor_at (i + 20) t (xor_at (i + 15) t (xor_at (i + 10) t (xor_at (i + 5) t (xor_at i t st)))) ! k =
    (if k = i \<or> k = i + 5 \<or> k = i + 10 \<or> k = i + 15 \<or> k = i + 20 then st ! k XOR t else st ! k)"
  by (simp add: nth_xor_at)

lemma less25_cases:
  assumes "(k::nat) < 25" obtains q m where "q < 5" "m < 5" "k = m + 5 * q"
  using assms that [of "k div 5" "k mod 5"] by simp

lemma theta_column_nth:
  assumes "length st = 25" "i < 5" "k < 25"
  shows "theta_column bc i st ! k = (if k mod 5 = i then st ! k XOR theta_t bc i else st ! k)"
proof -
  from \<open>k < 25\<close> obtain q m where k: "q < 5" "m < 5" "k = m + 5 * q" by (rule less25_cases)
  then have "m = i \<longleftrightarrow> k = i \<or> k = i + 5 \<or> k = i + 10 \<or> k = i + 15 \<or> k = i + 20"
    using less5_cases [of q] assms by auto
  moreover have "k < length st" "k mod 5 = m" using assms k by simp_all
  ultimately show ?thesis
    unfolding theta_column_def Let_def theta_t_def [symmetric] by (simp only: nth_xor_at5)
qed

lemma fold_theta_column_nth:
  assumes "length st = 25" "n \<le> 5" "k < 25"
  shows "length (fold (theta_column bc) [0..<n] st) = 25 \<and>
    fold (theta_column bc) [0..<n] st ! k =
      (if k mod 5 < n then st ! k XOR theta_t bc (k mod 5) else st ! k)"
  using assms(2)
proof (induction n)
  case 0
  then show ?case using assms by simp
next
  case (Suc n)
  then show ?case using assms by (auto simp: theta_column_nth less_Suc_eq)
qed

lemma theta_refines:
  assumes "length st = 25" shows "keccak_theta st = of_lanes (theta_spec (lane st))"
proof (rule of_lanes_eqI)
  show "length (keccak_theta st) = 25"
    using fold_theta_column_nth [of st 5 0] assms by (simp add: keccak_theta_def)
next
  fix k :: nat assume k: "k < 25"
  have bc: "theta_bc st ! x = lane st x 0 XOR lane st x 1 XOR lane st x 2 XOR lane st x 3 XOR lane st x 4"
    if "x < 5" for x
    using less5_cases [OF that] by (auto simp: theta_bc_def lane_def eval_nat_numeral)
  have "keccak_theta st ! k = st ! k XOR theta_t (theta_bc st) (k mod 5)"
    using fold_theta_column_nth [of st 5 k] assms k by (simp add: keccak_theta_def)
  then show "keccak_theta st ! k = theta_spec (lane st) (k mod 5) (k div 5)"
    using k by (simp add: theta_spec_def theta_t_def Let_def bc lane_index rotl64_word_rotl)
qed

section \<open>Chi\<close>

lemma length_chi_row [simp]: "length (chi_row j st) = length st"
  by (simp add: chi_row_def Let_def)

lemma chi_last_row_eq: "j + 5 \<le> length st \<Longrightarrow> chi_last_row j st = chi_row j st"
  by (simp add: chi_last_row_def chi_row_def Let_def nth_xor_at)

lemma chi_row_nth:
  assumes "j + 5 \<le> length st" "k < length st"
  shows "chi_row j st ! k =
    (if j \<le> k \<and> k < j + 5
     then st ! k XOR (NOT (st ! (j + (k - j + 1) mod 5)) AND st ! (j + (k - j + 2) mod 5))
     else st ! k)"
proof -
  consider "k < j \<or> j + 5 \<le> k" | "k = j" | "k = Suc j" | "k = j + 2" | "k = j + 3" | "k = j + 4"
    by linarith
  then show ?thesis
    using assms
    by cases (simp_all add: chi_row_def Let_def nth_xor_at add.commute)
qed


lemma chi_refines:
  assumes "length st = 25" shows "keccak_chi st = of_lanes (chi_spec (lane st))"
proof (rule of_lanes_eqI)
  show "length (keccak_chi st) = 25"
    using assms by (simp add: keccak_chi_def chi_last_row_eq)
next
  fix k :: nat assume k: "k < 25"
  from k obtain q m where qm: "q < 5" "m < 5" "k = m + 5 * q" by (rule less25_cases)
  obtain m1 m2 where m12: "Suc m mod 5 = m1" "Suc (Suc m) mod 5 = m2" "m1 < 5" "m2 < 5"
    by simp
  have "keccak_chi st ! k = st ! k XOR (NOT (st ! (5 * q + m1)) AND st ! (5 * q + m2))"
    using less5_cases [OF \<open>q < 5\<close>] qm m12 assms
    by (elim disjE)
      (simp_all add: keccak_chi_def chi_last_row_eq chi_row_nth)
  then show "keccak_chi st ! k = chi_spec (lane st) (k mod 5) (k div 5)"
    using qm m12 by (simp add: chi_spec_def lane_def add.commute)
qed

section \<open>Rho and pi\<close>

definition pi_sources :: "(nat \<times> nat) list" where
  "pi_sources =
    map (\<lambda>k. let x = k mod 5; y = k div 5; x' = (x + 3 * y) mod 5
             in (x' + 5 * x, rho_offset x' x)) [0..<25]"

lemma pi_sources_table:
  "pi_sources =
    [(0, 0), (6, 44), (12, 43), (18, 21), (24, 14), (3, 28), (9, 20), (10, 3), (16, 45), (22, 61),
     (1, 1), (7, 6), (13, 25), (19, 8), (20, 18), (4, 27), (5, 36), (11, 10), (17, 15), (23, 56),
     (2, 62), (8, 55), (14, 39), (15, 41), (21, 2)]"
  by code_simp

lemma word_rotl_0 [simp]: "word_rotl 0 w = (w :: 'a::len word)"
  by (rule bit_word_eqI) (simp add: bit_word_rotl_iff)

lemma rho_pi_table:
  assumes "length st = 25"
  shows "keccak_rho_pi st = map (\<lambda>(s, r). word_rotl r (st ! s)) pi_sources"
  using assms
  by (rule st25_cases)
    (simp add: keccak_rho_pi_def rho_pi_moves_def pi_sources_table rotl64_word_rotl)

lemma rho_pi_refines:
  assumes "length st = 25" shows "keccak_rho_pi st = of_lanes (pi_spec (rho_spec (lane st)))"
  unfolding rho_pi_table [OF assms] of_lanes_def pi_sources_def
  by (simp add: pi_spec_def rho_spec_def lane_def Let_def)


section \<open>Rounds\<close>

definition lanes_eq :: "lanes \<Rightarrow> lanes \<Rightarrow> bool" where
  "lanes_eq A B \<longleftrightarrow> (\<forall>x < 5. \<forall>y < 5. A x y = B x y)"

lemma lanes_eq_of_lanes: "lanes_eq A (lane (of_lanes A))"
  by (simp add: lanes_eq_def lane_of_lanes)

lemma of_lanes_cong: "lanes_eq A B \<Longrightarrow> of_lanes A = of_lanes B"
  by (simp add: of_lanes_def lanes_eq_def)

lemma lanes_eq_spec:
  assumes "lanes_eq A B"
  shows "lanes_eq (theta_spec A) (theta_spec B)" "lanes_eq (rho_spec A) (rho_spec B)"
    "lanes_eq (pi_spec A) (pi_spec B)" "lanes_eq (chi_spec A) (chi_spec B)"
    "lanes_eq (iota_spec r A) (iota_spec r B)"
  using assms
  by (simp_all add: lanes_eq_def theta_spec_def rho_spec_def pi_spec_def chi_spec_def iota_spec_def)

lemma lanes_eq_round: "lanes_eq A B \<Longrightarrow> lanes_eq (round_spec r A) (round_spec r B)"
  unfolding round_spec_def by (intro lanes_eq_spec)

lemma lanes_eq_sym: "lanes_eq A B \<Longrightarrow> lanes_eq B A"
  by (simp add: lanes_eq_def)

lemma rc_spec_nth: "r < 24 \<Longrightarrow> keccakf_rndc ! r = rc_spec r"
  by (simp add: rc_table [symmetric] del: upt_Suc)

lemma round_refines:
  assumes "length st = 25" "r < 24"
  shows "keccak_round r st = of_lanes (round_spec r (lane st))"
proof -
  let ?B = "pi_spec (rho_spec (theta_spec (lane st)))"
  have "keccak_chi (keccak_rho_pi (keccak_theta st)) =
      of_lanes (chi_spec (lane (of_lanes (pi_spec (rho_spec (lane (of_lanes (theta_spec (lane st)))))))))"
    using assms by (simp add: theta_refines rho_pi_refines chi_refines)
  also have "\<dots> = of_lanes (chi_spec ?B)"
  proof (intro of_lanes_cong lanes_eq_spec)
    have "lanes_eq (pi_spec (rho_spec (lane (of_lanes (theta_spec (lane st)))))) ?B"
      by (intro lanes_eq_spec lanes_eq_sym [OF lanes_eq_of_lanes])
    then show "lanes_eq (lane (of_lanes (pi_spec (rho_spec (lane (of_lanes (theta_spec (lane st)))))))) ?B"
      by (simp add: lanes_eq_def lane_of_lanes)
  qed
  finally have chi: "keccak_chi (keccak_rho_pi (keccak_theta st)) = of_lanes (chi_spec ?B)" .
  show ?thesis
    unfolding keccak_round_def chi Let_def round_spec_def
  proof (rule of_lanes_eqI)
    fix k :: nat assume "k < 25"
    then show "xor_at 0 (keccakf_rndc ! r) (of_lanes (chi_spec ?B)) ! k =
        iota_spec r (chi_spec ?B) (k mod 5) (k div 5)"
      using assms(2) mult_div_mod_eq [of 5 k]
      by (auto simp: nth_xor_at of_lanes_def iota_spec_def rc_spec_nth)
  qed simp
qed

definition keccak_f_spec :: "nat \<Rightarrow> lanes \<Rightarrow> lanes" where
  "keccak_f_spec n A = fold round_spec [0..<n] A"

lemma keccakf_refines:
  assumes "length st = 25" "n \<le> 24"
  shows "keccakf st n = of_lanes (keccak_f_spec n (lane st))"
  using assms(2)
proof (induction n)
  case 0
  have "st = of_lanes (lane st)"
    using assms by (intro of_lanes_eqI) (simp_all add: lane_index)
  then show ?case by (simp add: keccakf_def keccak_f_spec_def)
next
  case (Suc n)
  then have "keccakf st (Suc n) = keccak_round n (of_lanes (keccak_f_spec n (lane st)))"
    by (simp add: keccakf_def)
  also have "\<dots> = of_lanes (round_spec n (lane (of_lanes (keccak_f_spec n (lane st)))))"
    using Suc by (simp add: round_refines)
  also have "\<dots> = of_lanes (round_spec n (keccak_f_spec n (lane st)))"
    by (intro of_lanes_cong lanes_eq_round lanes_eq_sym [OF lanes_eq_of_lanes])
  finally show ?case by (simp add: keccak_f_spec_def)
qed

lemma length_keccakf [simp]: "length st = 25 \<Longrightarrow> n \<le> 24 \<Longrightarrow> length (keccakf st n) = 25"
  by (simp add: keccakf_refines)

section \<open>The sponge\<close>

definition pad_to :: "nat \<Rightarrow> nat \<Rightarrow> byte list" where
  "pad_to rate n =
    (let k = rate - n mod rate in if k = 1 then [0x81] else 1 # replicate (k - 2) 0 @ [0x80])"

definition keccak_pad :: "nat \<Rightarrow> byte list \<Rightarrow> byte list" where
  "keccak_pad rate msg = msg @ pad_to rate (length msg)"

definition lanes_of_bytes :: "byte list \<Rightarrow> lanes" where
  "lanes_of_bytes S x y = word_of_le (take 8 (drop (8 * (x + 5 * y)) S))"

definition f_bytes :: "byte list \<Rightarrow> byte list" where
  "f_bytes S = concat (map (le_bytes 8) (of_lanes (keccak_f_spec 24 (lanes_of_bytes S))))"

definition absorb_spec :: "nat \<Rightarrow> byte list \<Rightarrow> byte list \<Rightarrow> byte list" where
  "absorb_spec rate S blk = f_bytes (map2 (XOR) S (blk @ replicate (200 - rate) 0))"

definition keccak_spec :: "nat \<Rightarrow> nat \<Rightarrow> byte list \<Rightarrow> byte list" where
  "keccak_spec rate mdlen msg =
    take mdlen (foldl (absorb_spec rate) (replicate 200 0) (chunks rate (keccak_pad rate msg)))"

lemma length_state_bytes [simp]: "length (state_bytes st) = 8 * length st"
  by (induction st) (simp_all add: state_bytes_def)

lemma state_bytes_Cons: "state_bytes (w # st) = le_bytes 8 w @ state_bytes st"
  by (simp add: state_bytes_def)

lemma take_drop_state_bytes:
  "k < length st \<Longrightarrow> take 8 (drop (8 * k) (state_bytes st)) = le_bytes 8 (st ! k)"
proof (induction st arbitrary: k)
  case (Cons w st)
  then show ?case by (cases k) (simp_all add: state_bytes_Cons)
qed simp

lemma lanes_of_state_bytes:
  assumes "length st = 25" shows "lanes_eq (lanes_of_bytes (state_bytes st)) (lane st)"
  unfolding lanes_eq_def
proof (intro allI impI)
  fix x y :: nat assume "x < 5" "y < 5"
  then have "x + 5 * y < length st" using assms by simp
  then show "lanes_of_bytes (state_bytes st) x y = lane st x y"
    unfolding lanes_of_bytes_def lane_def by (simp only: take_drop_state_bytes) (simp add: word_of_le_bytes)
qed

lemma keccak_f_spec_cong:
  "lanes_eq A B \<Longrightarrow> lanes_eq (keccak_f_spec n A) (keccak_f_spec n B)"
  by (induction n) (simp_all add: keccak_f_spec_def lanes_eq_round)

lemma f_bytes_refines:
  assumes "length st = 25" shows "state_bytes (keccakf st 24) = f_bytes (state_bytes st)"
  using assms
  by (simp add: f_bytes_def state_bytes_def [of "of_lanes _"] keccakf_refines
      of_lanes_cong [OF keccak_f_spec_cong [OF lanes_of_state_bytes]])

lemma nth_state_bytes:
  "i < 8 * length st \<Longrightarrow> state_bytes st ! i = le_bytes 8 (st ! (i div 8)) ! (i mod 8)"
proof (induction st arbitrary: i)
  case (Cons w st)
  show ?case
  proof (cases "i < 8")
    case True
    then show ?thesis by (simp add: state_bytes_Cons nth_append)
  next
    case False
    then have "i div 8 = Suc ((i - 8) div 8)" "i mod 8 = (i - 8) mod 8"
      by (simp_all add: le_div_geq le_mod_geq)
    then show ?thesis using False Cons.prems Cons.IH [of "i - 8"]
      by (simp add: state_bytes_Cons nth_append)
  qed
qed simp

lemma le_bytes_xor: "i < n \<Longrightarrow> le_bytes n (v XOR w) ! i = le_bytes n v ! i XOR le_bytes n w ! i"
  by (rule bit_word_eqI) (simp add: le_bytes_def bit_simps)

lemma length_xor_block [simp]: "length (xor_block n st blk) = length st"
  by (induction n) (simp_all add: xor_block_def)

lemma nth_xor_block:
  "k < length st \<Longrightarrow> xor_block n st blk ! k =
    (if k < n then st ! k XOR word_of_le (take 8 (drop (8 * k) blk)) else st ! k)"
proof (induction n)
  case (Suc n)
  have "xor_block (Suc n) st blk = xor_at n (word_of_le (take 8 (drop (8 * n) blk))) (xor_block n st blk)"
    by (simp add: xor_block_def)
  then show ?case using Suc by (auto simp: nth_xor_at)
qed (simp add: xor_block_def)

lemma state_bytes_xor_block:
  assumes "length st = 25" "length blk = 8 * n" "n \<le> 25"
  shows "state_bytes (xor_block n st blk) =
    map2 (XOR) (state_bytes st) (blk @ replicate (200 - 8 * n) 0)"
proof (rule nth_equalityI)
  show "length (state_bytes (xor_block n st blk)) =
      length (map2 (XOR) (state_bytes st) (blk @ replicate (200 - 8 * n) 0))"
    using assms by simp
next
  fix i assume "i < length (state_bytes (xor_block n st blk))"
  then have i: "i < 200" using assms by simp
  then have k: "i div 8 < length st" using assms by simp
  have r: "i mod 8 < 8" by simp
  show "state_bytes (xor_block n st blk) ! i =
      map2 (XOR) (state_bytes st) (blk @ replicate (200 - 8 * n) 0) ! i"
  proof (cases "i div 8 < n")
    case True
    then have "i < length blk" using assms by auto
    moreover have "length (take 8 (drop (8 * (i div 8)) blk)) = 8" using True assms by auto
    moreover from calculation have "take 8 (drop (8 * (i div 8)) blk) ! (i mod 8) = blk ! i"
      using r by simp
    ultimately show ?thesis using True i k r assms
      by (simp add: nth_state_bytes nth_xor_block le_bytes_xor nth_append le_bytes_word_of_le
          del: nth_take nth_drop)
  next
    case False
    then have "\<not> i < length blk" using assms by auto
    then show ?thesis using False i k assms
      by (simp add: nth_state_bytes nth_xor_block nth_append)
  qed
qed

lemma absorb_refines:
  assumes "length st = 25" "length blk = r" "8 dvd r" "r \<le> 200"
  shows "state_bytes (keccakf (xor_block (r div 8) st blk) 24) = absorb_spec r (state_bytes st) blk"
  using assms by (auto simp: absorb_spec_def f_bytes_refines state_bytes_xor_block)

lemma foldl_absorb_refines:
  assumes "length st = 25" "8 dvd r" "r \<le> 200" "\<And>b. b \<in> set bs \<Longrightarrow> length b = r"
  shows "length (foldl (keccak_absorb r) st bs) = 25 \<and>
    state_bytes (foldl (keccak_absorb r) st bs) = foldl (absorb_spec r) (state_bytes st) bs"
  using assms(1,4)
proof (induction bs arbitrary: st)
  case (Cons b bs)
  then show ?case
    using assms absorb_refines [of st b r] by (simp add: keccak_absorb_def KECCAK_ROUNDS_def)
qed simp

interpretation keccak_loop: block_loop "Suc r" "keccak_absorb (Suc r)" "keccak_blocks (Suc r)" for r
  by unfold_locales (simp, subst keccak_blocks.simps, simp)

lemma keccak_temp_pad:
  assumes "length rest < r" shows "keccak_temp r rest = rest @ pad_to r (length rest)"
proof (cases "r - length rest = 1")
  case True
  then have "r - 1 = length rest" "r - Suc (length rest) = 0" by simp_all
  then show ?thesis using assms True
    by (simp add: keccak_temp_def Let_def pad_to_def list_update_append nth_append)
next
  case False
  define d where "d = r - length rest - 2"
  have r: "r = length rest + Suc (Suc d)" using assms False by (simp add: d_def)
  have "(rest @ [1]) @ replicate (r - length (rest @ [1])) 0 = (rest @ 1 # replicate d 0) @ [0::byte]"
    by (simp add: r replicate_append_same)
  moreover have "r - 1 = length (rest @ 1 # replicate d (0::byte))" by (simp add: r)
  ultimately have "keccak_temp r rest = (rest @ 1 # replicate d 0) @ [0 OR 0x80]"
    unfolding keccak_temp_def Let_def by (simp only: nth_append_length list_update_length)
  then have "keccak_temp r rest = rest @ 1 # replicate d 0 @ [0x80]" by simp
  moreover have "r - length rest mod r = Suc (Suc d)" using assms by (simp add: r)
  ultimately show ?thesis by (simp add: pad_to_def)
qed

lemma state_bytes_zero: "state_bytes (replicate 25 0) = replicate 200 0"
  by code_simp

lemma keccak_sponge:
  assumes "keccak_rsiz mdlen = Some r" and "8 dvd r"
  shows "keccak msg mdlen = Some (keccak_spec r mdlen msg)"
proof -
  have r: "0 < r" "r \<le> 144"
    using assms by (auto simp: keccak_rsiz_def HASH_DATA_AREA_def split: if_splits)
  then obtain r' where r': "r = Suc r'" by (cases r) auto
  let ?full = "take (r * (length msg div r)) msg" and ?rest = "drop (r * (length msg div r)) msg"
  let ?st = "foldl (keccak_absorb r) (replicate 25 0) (chunks r msg)"
  have loop: "keccak_blocks r (replicate 25 0) msg = (?st, ?rest)"
    unfolding r' by (rule keccak_loop.loop_is_fold)
  have rest: "length ?rest = length msg mod r" "length ?rest < r"
    using r by (simp_all add: minus_mult_div_eq_mod)
  have st: "length ?st = 25"
    "state_bytes ?st = foldl (absorb_spec r) (replicate 200 0) (chunks r msg)"
    using foldl_absorb_refines [of "replicate 25 0" r "chunks r msg"] r assms(2) chunks_length_all [of _ r msg]
    by (simp_all add: state_bytes_zero)
  have temp: "keccak_temp r ?rest = ?rest @ pad_to r (length msg)"
    using keccak_temp_pad [OF rest(2)] rest(1) by (simp add: pad_to_def)
  have len: "length (keccak_temp r ?rest) = r"
    using rest(2) r by (simp add: keccak_temp_def Let_def)
  have "keccak_pad r msg = ?full @ keccak_temp r ?rest"
    unfolding keccak_pad_def temp append_assoc [symmetric] append_take_drop_id ..
  moreover have "chunks r (?full @ keccak_temp r ?rest) = chunks r ?full @ [keccak_temp r ?rest]"
    using r len by (simp add: chunks_append chunks_one)
  moreover have "chunks r msg = chunks r ?full @ chunks r ?rest"
    using chunks_append [of r ?full ?rest] r by simp
  ultimately have "chunks r (keccak_pad r msg) = chunks r msg @ [keccak_temp r ?rest]"
    using rest(2) by (simp add: chunks_short)
  then show ?thesis
    using assms(1) r st absorb_refines [OF st(1) len assms(2)]
    by (simp add: keccak_def keccak_spec_def loop KECCAK_ROUNDS_def Let_def)
qed

lemma keccak_unpad:
  assumes "length rest < r"
  shows "(let t = keccak_temp r rest in
    if last t = 0x81 then butlast t else rev (tl (dropWhile ((=) 0) (rev (butlast t))))) = rest"
proof -
  have dw: "dropWhile ((=) 0) (replicate n (0::byte) @ xs) = dropWhile ((=) 0) xs" for n xs
    by (induction n) simp_all
  show ?thesis
    using assms by (simp add: keccak_temp_pad pad_to_def Let_def butlast_append dw)
qed

text \<open>C18: for every digest length whose rate is a whole number of lanes, \<open>keccak\<close>
  computes the sponge: it pads the message with 0x01 .. 0x80 to whole blocks, xors each block
  into the first bytes of the 1600-bit state, applies 24 rounds of the specified permutation
  after each, and returns the first \<open>mdlen\<close> bytes of the state.\<close>

theorem keccak_is_sponge:
  assumes "keccak_rsiz mdlen = Some r" and "8 dvd r"
  shows "keccak msg mdlen = Some (keccak_spec r mdlen msg)"
  by (rule keccak_sponge [OF assms])

theorem keccak_is_sponge_witness:
  "keccak_rsiz 32 = Some 136 \<and> keccak [0x61] 32 = Some (keccak_spec 136 32 [0x61])"
proof -
  have "keccak_rsiz 32 = Some 136" by (simp add: keccak_rsiz_def)
  then show ?thesis using keccak_is_sponge [of 32 136 "[0x61]"] by simp
qed

text \<open>The padding \<open>keccak\<close> writes into \<^verbatim>\<open>temp\<close> loses nothing: two
  different remainders shorter than the rate, of whatever lengths, become different blocks.\<close>

theorem keccak_temp_injective:
  assumes "length a < r" and "length b < r" and "a \<noteq> b"
  shows "keccak_temp r a \<noteq> keccak_temp r b"
  using keccak_unpad [OF assms(1)] keccak_unpad [OF assms(2)] assms(3) by metis

theorem keccak_temp_injective_witness:
  "keccak_temp 136 [7] \<noteq> keccak_temp 136 [7, 0]"
  using keccak_temp_injective [of "[7]" 136 "[7, 0]"] by simp

text \<open>C19: the in-place code of \<open>keccakf\<close> computes the Keccak permutation: on a state of 25
  lanes and up to 24 rounds, lane (x, y) of the result is the lane the composed theta, rho, pi,
  chi and iota maps give, with generated rotation offsets and round constants.\<close>

theorem keccakf_computes_permutation:
  assumes "length st = 25" and "n \<le> 24" and "x < 5" and "y < 5"
  shows "length (keccakf st n) = 25 \<and> lane (keccakf st n) x y = keccak_f_spec n (lane st) x y"
  using assms by (simp add: keccakf_refines lane_of_lanes)

theorem keccakf_computes_permutation_witness:
  "lane (keccakf (replicate 25 0) 24) 1 2 = keccak_f_spec 24 (lane (replicate 25 0)) 1 2"
  using keccakf_computes_permutation [of "replicate 25 0" 24 1 2] by simp

end
