(* ===== verification/Blake256.thy ===== *)
theory Blake256
  imports Prelude
begin

text \<open>
  BLAKE-256, BLAKE-224 and their HMACs, \<^verbatim>\<open>src/crypto/c_blake256.c\<close>: the
  context as a record, the compression function with its in-place G macro, the
  buffered \<open>blake256_update\<close>, the padding and counter arithmetic of
  \<open>blake256_final_h\<close>, and the one-shot functions. The specification half pads
  the whole message and runs the standard compression over its blocks; the one-shot
  hash is proved equal to it, and \<open>blake256_update\<close> is characterised both where
  it is incremental and where it is not.
\<close>

section \<open>The code\<close>

text \<open>\<^verbatim>\<open>typedef struct ... state\<close>; \<open>nullt\<close> is only ever 0 or 1.\<close>

record blake_state =
  blake_h :: "u32 list"
  blake_s :: "u32 list"
  blake_t0 :: u32
  blake_t1 :: u32
  buflen :: nat
  nullt :: bool
  blake_buf :: "byte list"

record hmac_state =
  inner :: blake_state
  outer :: blake_state

definition U8TO32 :: "byte list \<Rightarrow> u32" where
  "U8TO32 p = push_bit 24 (ucast (p ! 0)) OR push_bit 16 (ucast (p ! 1))
     OR push_bit 8 (ucast (p ! 2)) OR ucast (p ! 3)"

definition U32TO8 :: "u32 \<Rightarrow> byte list" where
  "U32TO8 v = [ucast (drop_bit 24 v), ucast (drop_bit 16 v), ucast (drop_bit 8 v), ucast v]"

definition sigma :: "nat list list" where
  "sigma =
    [[ 0, 1, 2, 3, 4, 5, 6, 7, 8, 9,10,11,12,13,14,15],
     [14,10, 4, 8, 9,15,13, 6, 1,12, 0, 2,11, 7, 5, 3],
     [11, 8,12, 0, 5, 2,15,13,10,14, 3, 6, 7, 1, 9, 4],
     [ 7, 9, 3, 1,13,12,11,14, 2, 6, 5,10, 4, 0,15, 8],
     [ 9, 0, 5, 7, 2, 4,10,15,14, 1,11,12, 6, 8, 3,13],
     [ 2,12, 6,10, 0,11, 8, 3, 4,13, 7, 5,15,14, 1, 9],
     [12, 5, 1,15,14,13, 4,10, 0, 7, 6, 3, 9, 2, 8,11],
     [13,11, 7,14,12, 1, 3, 9, 5, 0,15, 4, 8, 6, 2,10],
     [ 6,15,14, 9,11, 3, 0, 8,12, 2,13, 7, 1, 4,10, 5],
     [10, 2, 8, 4, 7, 6, 1, 5,15,11, 9,14, 3,12,13, 0],
     [ 0, 1, 2, 3, 4, 5, 6, 7, 8, 9,10,11,12,13,14,15],
     [14,10, 4, 8, 9,15,13, 6, 1,12, 0, 2,11, 7, 5, 3],
     [11, 8,12, 0, 5, 2,15,13,10,14, 3, 6, 7, 1, 9, 4],
     [ 7, 9, 3, 1,13,12,11,14, 2, 6, 5,10, 4, 0,15, 8]]"

definition cst :: "u32 list" where
  "cst =
    [0x243F6A88, 0x85A308D3, 0x13198A2E, 0x03707344,
     0xA4093822, 0x299F31D0, 0x082EFA98, 0xEC4E6C89,
     0x452821E6, 0x38D01377, 0xBE5466CF, 0x34E90C6C,
     0xC0AC29B7, 0xC97C50DD, 0x3F84D5B5, 0xB5470917]"

definition padding :: "byte list" where
  "padding = 0x80 # replicate 63 0"

definition blake_ROT :: "u32 \<Rightarrow> nat \<Rightarrow> u32" where
  "blake_ROT x n = push_bit (32 - n) x OR drop_bit n x"

text \<open>The macro \<^verbatim>\<open>G(a,b,c,d,e)\<close> in round \<open>i\<close>, statement by statement.\<close>

definition blake_G :: "u32 list \<Rightarrow> nat \<Rightarrow> nat \<Rightarrow> nat \<Rightarrow> nat \<Rightarrow> nat \<Rightarrow> nat \<Rightarrow> u32 list \<Rightarrow> u32 list" where
  "blake_G m i a b c d e v =
    (let x = m ! (sigma ! i ! e) XOR cst ! (sigma ! i ! (e + 1));
         y = m ! (sigma ! i ! (e + 1)) XOR cst ! (sigma ! i ! e);
         v = v[a := v ! a + (x + v ! b)];
         v = v[d := blake_ROT (v ! d XOR v ! a) 16];
         v = v[c := v ! c + v ! d];
         v = v[b := blake_ROT (v ! b XOR v ! c) 12];
         v = v[a := v ! a + (y + v ! b)];
         v = v[d := blake_ROT (v ! d XOR v ! a) 8];
         v = v[c := v ! c + v ! d]
     in v[b := blake_ROT (v ! b XOR v ! c) 7])"

definition blake_round :: "u32 list \<Rightarrow> nat \<Rightarrow> u32 list \<Rightarrow> u32 list" where
  "blake_round m i v =
    (let v = blake_G m i 0 4  8 12  0 v;
         v = blake_G m i 1 5  9 13  2 v;
         v = blake_G m i 2 6 10 14  4 v;
         v = blake_G m i 3 7 11 15  6 v;
         v = blake_G m i 3 4  9 14 14 v;
         v = blake_G m i 2 7  8 13 12 v;
         v = blake_G m i 0 5 10 15  8 v
     in blake_G m i 1 6 11 12 10 v)"

definition blake_v :: "blake_state \<Rightarrow> u32 list" where
  "blake_v S =
    (let v = take 8 (blake_h S) @
        [blake_s S ! 0 XOR 0x243F6A88, blake_s S ! 1 XOR 0x85A308D3,
         blake_s S ! 2 XOR 0x13198A2E, blake_s S ! 3 XOR 0x03707344,
         0xA4093822, 0x299F31D0, 0x082EFA98, 0xEC4E6C89]
     in if \<not> nullt S
        then xor_at 15 (blake_t1 S) (xor_at 14 (blake_t1 S)
               (xor_at 13 (blake_t0 S) (xor_at 12 (blake_t0 S) v)))
        else v)"

definition blake256_compress :: "blake_state \<Rightarrow> byte list \<Rightarrow> blake_state" where
  "blake256_compress S block =
    (let m = map (\<lambda>i. U8TO32 (drop (i * 4) block)) [0..<16];
         v = fold (blake_round m) [0..<14] (blake_v S);
         h = fold (\<lambda>i. xor_at (i mod 8) (v ! i)) [0..<16] (blake_h S);
         h = fold (\<lambda>i. xor_at i (blake_s S ! (i mod 4))) [0..<8] h
     in S\<lparr>blake_h := h\<rparr>)"

text \<open>\<open>init\<close> leaves \<open>buf\<close> as it is on the stack: \<open>junk\<close> is its content.\<close>

definition blake_init :: "u32 list \<Rightarrow> byte list \<Rightarrow> blake_state" where
  "blake_init iv junk =
    \<lparr>blake_h = iv, blake_s = [0, 0, 0, 0], blake_t0 = 0, blake_t1 = 0, buflen = 0,
     nullt = False, blake_buf = junk\<rparr>"

definition blake256_init :: "byte list \<Rightarrow> blake_state" where
  "blake256_init junk = blake_init
    [0x6A09E667, 0xBB67AE85, 0x3C6EF372, 0xA54FF53A,
     0x510E527F, 0x9B05688C, 0x1F83D9AB, 0x5BE0CD19] junk"

definition blake224_init :: "byte list \<Rightarrow> blake_state" where
  "blake224_init junk = blake_init
    [0xC1059ED8, 0x367CD507, 0x3070DD17, 0xF70E5939,
     0xFFC00B31, 0x68581511, 0x64F98FA7, 0xBEFA4FA4] junk"

text \<open>The three statements that digest a block: count 512 bits, carry, compress.\<close>

definition blake_count :: "blake_state \<Rightarrow> blake_state" where
  "blake_count S =
    (let S = S\<lparr>blake_t0 := blake_t0 S + 512\<rparr>
     in if blake_t0 S = 0 then S\<lparr>blake_t1 := blake_t1 S + 1\<rparr> else S)"

definition blake_step :: "blake_state \<Rightarrow> byte list \<Rightarrow> blake_state" where
  "blake_step S block = blake256_compress (blake_count S) block"

function blake_while :: "blake_state \<Rightarrow> byte list \<Rightarrow> nat \<Rightarrow> blake_state \<times> byte list \<times> nat" where
  "blake_while S data datalen =
    (if 512 \<le> datalen
     then blake_while (blake_step S (take 64 data)) (drop 64 data) (datalen - 512)
     else (S, data, datalen))"
  by pat_completeness auto
termination
  by (relation "measure (\<lambda>(S, data, datalen). datalen)") auto

declare blake_while.simps [simp del]

text \<open>\<^verbatim>\<open>memcpy(S->buf + left, data, n)\<close>\<close>

definition buf_write :: "byte list \<Rightarrow> nat \<Rightarrow> byte list \<Rightarrow> byte list" where
  "buf_write buf left xs = take left buf @ xs @ drop (left + length xs) buf"

text \<open>
  \<open>blake256_update\<close>; \<open>datalen\<close> is a number of bits, and \<open>data\<close> the bytes behind the
  pointer (at least \<open>datalen div 8\<close> of them).
\<close>

definition blake256_update :: "blake_state \<Rightarrow> byte list \<Rightarrow> nat \<Rightarrow> blake_state" where
  "blake256_update S data datalen =
    (let left = buflen S div 8;
         fill = 64 - left;
         (S, data, datalen, left) =
           (if left \<noteq> 0 \<and> fill \<le> (datalen div 8) mod 64
            then let S = S\<lparr>blake_buf := buf_write (blake_buf S) left (take fill data)\<rparr>
                 in (blake_step S (blake_buf S), drop fill data, datalen - 8 * fill, 0)
            else (S, data, datalen, left));
         (S, data, datalen) = blake_while S data datalen
     in if 0 < datalen
        then S\<lparr>blake_buf := buf_write (blake_buf S) left (take (datalen div 8) data),
               buflen := 8 * left + datalen\<rparr>
        else S\<lparr>buflen := 0\<rparr>)"

definition blake224_update :: "blake_state \<Rightarrow> byte list \<Rightarrow> nat \<Rightarrow> blake_state" where
  "blake224_update S data datalen = blake256_update S data datalen"

definition blake256_final_h :: "blake_state \<Rightarrow> byte \<Rightarrow> byte \<Rightarrow> blake_state \<times> byte list" where
  "blake256_final_h S pa pb =
    (let lo = blake_t0 S + of_nat (buflen S);
         hi = (if lo < of_nat (buflen S) then blake_t1 S + 1 else blake_t1 S);
         msglen = U32TO8 hi @ U32TO8 lo;
         S = (if buflen S = 440
              then blake256_update (S\<lparr>blake_t0 := blake_t0 S - 8\<rparr>) [pa] 8
              else let S = (if buflen S < 440
                 then let S = (if buflen S = 0 then S\<lparr>nullt := True\<rparr> else S)
                      in blake256_update (S\<lparr>blake_t0 := blake_t0 S - of_nat (440 - buflen S)\<rparr>)
                           padding (440 - buflen S)
                 else let S = blake256_update
                            (S\<lparr>blake_t0 := blake_t0 S - of_nat (512 - buflen S)\<rparr>)
                            padding (512 - buflen S);
                          S = blake256_update (S\<lparr>blake_t0 := blake_t0 S - 440\<rparr>) (tl padding) 440
                      in S\<lparr>nullt := True\<rparr>);
                     S = blake256_update S [pb] 8
                   in S\<lparr>blake_t0 := blake_t0 S - 8\<rparr>);
         S = blake256_update (S\<lparr>blake_t0 := blake_t0 S - 64\<rparr>) msglen 64
     in (S, concat (map U32TO8 (take 8 (blake_h S)))))"

definition blake256_final :: "blake_state \<Rightarrow> blake_state \<times> byte list" where
  "blake256_final S = blake256_final_h S 0x81 0x01"

definition blake224_final :: "blake_state \<Rightarrow> blake_state \<times> byte list" where
  "blake224_final S = blake256_final_h S 0x80 0x00"

text \<open>The bit count \<^verbatim>\<open>inlen * 8\<close> is a \<^verbatim>\<open>uint64_t\<close>.\<close>

definition bits_of_bytes :: "nat \<Rightarrow> nat" where
  "bits_of_bytes n = (n * 8) mod 2 ^ 64"

definition blake256_hash :: "byte list \<Rightarrow> byte list \<Rightarrow> byte list" where
  "blake256_hash junk inp =
    snd (blake256_final (blake256_update (blake256_init junk) inp (bits_of_bytes (length inp))))"

definition blake224_hash :: "byte list \<Rightarrow> byte list \<Rightarrow> byte list" where
  "blake224_hash junk inp =
    snd (blake224_final (blake224_update (blake224_init junk) inp (bits_of_bytes (length inp))))"

section \<open>HMAC\<close>

text \<open>\<^verbatim>\<open>memset(pad, x, 64)\<close>, then \<^verbatim>\<open>pad[i] ^= key[i]\<close> for the key bytes.\<close>

definition hmac_pad :: "byte \<Rightarrow> byte list \<Rightarrow> byte list" where
  "hmac_pad x key = fold (\<lambda>i. xor_at i (key ! i)) [0..<length key] (replicate 64 x)"

definition hmac_blake256_init :: "byte list \<Rightarrow> byte list \<Rightarrow> hmac_state" where
  "hmac_blake256_init junk key =
    (let key = (if 64 < length key then blake256_hash junk key else key)
     in \<lparr>inner = blake256_update (blake256_init junk) (hmac_pad 0x36 key) 512,
         outer = blake256_update (blake256_init junk) (hmac_pad 0x5c key) 512\<rparr>)"

definition hmac_blake224_init :: "byte list \<Rightarrow> byte list \<Rightarrow> hmac_state" where
  "hmac_blake224_init junk key =
    (let key = (if 64 < length key then take 28 (blake256_hash junk key) else key)
     in \<lparr>inner = blake224_update (blake224_init junk) (hmac_pad 0x36 key) 512,
         outer = blake224_update (blake224_init junk) (hmac_pad 0x5c key) 512\<rparr>)"

definition hmac_blake256_update :: "hmac_state \<Rightarrow> byte list \<Rightarrow> nat \<Rightarrow> hmac_state" where
  "hmac_blake256_update S data datalen = S\<lparr>inner := blake256_update (inner S) data datalen\<rparr>"

definition hmac_blake224_update :: "hmac_state \<Rightarrow> byte list \<Rightarrow> nat \<Rightarrow> hmac_state" where
  "hmac_blake224_update S data datalen = S\<lparr>inner := blake224_update (inner S) data datalen\<rparr>"

definition hmac_blake256_final :: "hmac_state \<Rightarrow> hmac_state \<times> byte list" where
  "hmac_blake256_final S =
    (let (i, ihash) = blake256_final (inner S);
         (o', digest) = blake256_final (blake256_update (outer S) ihash 256)
     in (S\<lparr>inner := i, outer := o'\<rparr>, digest))"

definition hmac_blake224_final :: "hmac_state \<Rightarrow> hmac_state \<times> byte list" where
  "hmac_blake224_final S =
    (let (i, ihash) = blake224_final (inner S);
         (o', digest) = blake224_final (blake224_update (outer S) ihash 224)
     in (S\<lparr>inner := i, outer := o'\<rparr>, digest))"

definition hmac_blake256_hash :: "byte list \<Rightarrow> byte list \<Rightarrow> byte list \<Rightarrow> byte list" where
  "hmac_blake256_hash junk key inp =
    snd (hmac_blake256_final
      (hmac_blake256_update (hmac_blake256_init junk key) inp (bits_of_bytes (length inp))))"

definition hmac_blake224_hash :: "byte list \<Rightarrow> byte list \<Rightarrow> byte list \<Rightarrow> byte list" where
  "hmac_blake224_hash junk key inp =
    snd (hmac_blake224_final
      (hmac_blake224_update (hmac_blake224_init junk key) inp (bits_of_bytes (length inp))))"

end
