(* ===== verification/Blake256_Correct.thy ===== *)
theory Blake256_Correct
  imports Blake256
begin

text \<open>
  BLAKE-256 against its standard: the compression function, the streaming law of
  \<open>blake256_update\<close> and its exact failure, and the one-shot hashes and HMAC as the
  padded hash of the message.
\<close>

section \<open>The standard compression function\<close>

text \<open>The standard's G on one column \<open>(a, b, c, d)\<close> with its two message words \<open>x\<close>, \<open>y\<close>.\<close>

definition g_spec :: "u32 \<Rightarrow> u32 \<Rightarrow> u32 \<times> u32 \<times> u32 \<times> u32 \<Rightarrow> u32 \<times> u32 \<times> u32 \<times> u32" where
  "g_spec x y = (\<lambda>(a, b, c, d).
    let a = a + b + x; d = word_rotr 16 (d XOR a);
        c = c + d; b = word_rotr 12 (b XOR c);
        a = a + b + y; d = word_rotr 8 (d XOR a);
        c = c + d; b = word_rotr 7 (b XOR c)
    in (a, b, c, d))"

text \<open>A half round applies G to the four columns at once; \<open>e\<close> is 0 for columns, 8 for diagonals.\<close>

definition msg_word :: "u32 list \<Rightarrow> nat \<Rightarrow> nat \<Rightarrow> nat \<Rightarrow> u32" where
  "msg_word m r i j = m ! (sigma ! (r mod 10) ! i) XOR cst ! (sigma ! (r mod 10) ! j)"

definition columns_spec :: "u32 list \<Rightarrow> nat \<Rightarrow> nat \<Rightarrow> u32 list \<Rightarrow> u32 list" where
  "columns_spec m r e v =
    (let q = map (\<lambda>j. g_spec (msg_word m r (e + 2 * j) (e + 2 * j + 1))
                             (msg_word m r (e + 2 * j + 1) (e + 2 * j))
                        (v ! j, v ! (4 + j), v ! (8 + j), v ! (12 + j))) [0..<4]
     in map fst q @ map (fst \<circ> snd) q @ map (fst \<circ> snd \<circ> snd) q @ map (snd \<circ> snd \<circ> snd) q)"

text \<open>The diagonals are the columns after row \<open>i\<close> is rotated left by \<open>i\<close>.\<close>

definition rotate_rows :: "(nat \<Rightarrow> nat) \<Rightarrow> u32 list \<Rightarrow> u32 list" where
  "rotate_rows n v = concat (map (\<lambda>i. let row = take 4 (drop (4 * i) v) in drop (n i) row @ take (n i) row) [0..<4])"

definition blake_round_spec :: "u32 list \<Rightarrow> nat \<Rightarrow> u32 list \<Rightarrow> u32 list" where
  "blake_round_spec m r v =
    rotate_rows (\<lambda>i. 4 - i) (columns_spec m r 8 (rotate_rows (\<lambda>i. i) (columns_spec m r 0 v)))"

definition compress_spec :: "u32 list \<Rightarrow> u32 list \<Rightarrow> byte list \<Rightarrow> nat \<Rightarrow> u32 list" where
  "compress_spec h s block counter =
    (let m = map (\<lambda>i. word_of_le (rev (take 4 (drop (i * 4) block)))) [0..<16];
         t0 = of_nat counter; t1 = of_nat (counter div 2 ^ 32);
         v = h @ map2 (XOR) (s @ [t0, t0, t1, t1]) (take 8 cst);
         v = fold (blake_round_spec m) [0..<14] v
     in map (\<lambda>i. h ! i XOR v ! i XOR v ! (i + 8) XOR s ! (i mod 4)) [0..<8])"

lemma blake_ROT_word_rotr: "0 < n \<Longrightarrow> n < 32 \<Longrightarrow> blake_ROT x n = word_rotr n x"
  using shift_or_is_word_rotr [of n x] by (simp add: blake_ROT_def)

lemma blake_G_is_g:
  assumes "distinct [a, b, c, d]" "a < length v" "b < length v" "c < length v" "d < length v"
  shows "blake_G m i a b c d e v =
    (case g_spec (m ! (sigma ! i ! e) XOR cst ! (sigma ! i ! (e + 1)))
                 (m ! (sigma ! i ! (e + 1)) XOR cst ! (sigma ! i ! e)) (v ! a, v ! b, v ! c, v ! d) of
       (a', b', c', d') \<Rightarrow> v[a := a', b := b', c := c', d := d'])"
    (is "?l = ?r")
proof (rule nth_equalityI)
  show "length ?l = length ?r" by (simp add: blake_G_def g_spec_def Let_def)
next
  fix k assume "k < length ?l"
  then have "k < length v" by (simp add: blake_G_def Let_def)
  then show "?l ! k = ?r ! k"
    using assms by (simp add: blake_G_def g_spec_def Let_def nth_list_update blake_ROT_word_rotr ac_simps)
qed

lemma sigma_period: "r < 14 \<Longrightarrow> sigma ! r = sigma ! (r mod 10)"
proof (cases "r < 10")
  case False
  moreover assume "r < 14"
  ultimately consider "r = 10" | "r = 11" | "r = 12" | "r = 13" by linarith
  then show ?thesis by cases (simp_all add: sigma_def)
qed simp

lemma list16_cases:
  assumes "length v = 16"
  obtains v0 v1 v2 v3 v4 v5 v6 v7 v8 v9 v10 v11 v12 v13 v14 v15 where
    "v = [v0, v1, v2, v3, v4, v5, v6, v7, v8, v9, v10, v11, v12, v13, v14, v15]"
proof -
  have "v = map ((!) v) [0..<16]" using map_nth [of v] assms by simp
  then show ?thesis using that by (simp add: upt_rec)
qed

lemma columns_refines:
  assumes "length v = 16" "r < 14"
  shows "blake_G m r 3 7 11 15 6 (blake_G m r 2 6 10 14 4
    (blake_G m r 1 5 9 13 2 (blake_G m r 0 4 8 12 0 v))) = columns_spec m r 0 v"
  using assms(1)
  by (rule list16_cases)
    (simp add: blake_G_is_g columns_spec_def msg_word_def sigma_period [OF assms(2)]
      case_prod_beta' upt_rec Let_def)

lemma length_columns_spec: "length (columns_spec m r e v) = 16"
  by (simp add: columns_spec_def Let_def)

lemma rotate_rows_16:
  fixes v0 :: u32
  shows "rotate_rows (\<lambda>i. i) [v0, v1, v2, v3, v4, v5, v6, v7, v8, v9, v10, v11, v12, v13, v14, v15] =
      [v0, v1, v2, v3, v5, v6, v7, v4, v10, v11, v8, v9, v15, v12, v13, v14]"
    and "rotate_rows (\<lambda>i. 4 - i) [v0, v1, v2, v3, v4, v5, v6, v7, v8, v9, v10, v11, v12, v13, v14, v15] =
      [v0, v1, v2, v3, v7, v4, v5, v6, v10, v11, v8, v9, v13, v14, v15, v12]"
  by (simp_all add: rotate_rows_def upt_rec)

lemma columns_spec_16:
  "columns_spec m r e [v0, v1, v2, v3, v4, v5, v6, v7, v8, v9, v10, v11, v12, v13, v14, v15] =
    (let q = \<lambda>j. g_spec (msg_word m r (e + 2 * j) (e + 2 * j + 1)) (msg_word m r (e + 2 * j + 1) (e + 2 * j));
         q0 = q 0 (v0, v4, v8, v12); q1 = q 1 (v1, v5, v9, v13);
         q2 = q 2 (v2, v6, v10, v14); q3 = q 3 (v3, v7, v11, v15)
     in [fst q0, fst q1, fst q2, fst q3, fst (snd q0), fst (snd q1), fst (snd q2), fst (snd q3),
         fst (snd (snd q0)), fst (snd (snd q1)), fst (snd (snd q2)), fst (snd (snd q3)),
         snd (snd (snd q0)), snd (snd (snd q1)), snd (snd (snd q2)), snd (snd (snd q3))])"
  by (simp add: columns_spec_def upt_rec Let_def)

lemma diagonals_refine:
  assumes "length v = 16" "r < 14"
  shows "blake_G m r 1 6 11 12 10 (blake_G m r 0 5 10 15 8
    (blake_G m r 2 7 8 13 12 (blake_G m r 3 4 9 14 14 v))) =
    rotate_rows (\<lambda>i. 4 - i) (columns_spec m r 8 (rotate_rows (\<lambda>i. i) v))"
  using assms(1)
  by (rule list16_cases)
    (simp add: blake_G_is_g rotate_rows_16 columns_spec_16 msg_word_def sigma_period [OF assms(2)]
      case_prod_beta' Let_def)

lemma blake_round_refines:
  assumes "length v = 16" "r < 14"
  shows "blake_round m r v = blake_round_spec m r v"
  unfolding blake_round_def blake_round_spec_def Let_def columns_refines [OF assms]
  by (rule diagonals_refine) (simp_all add: length_columns_spec assms)

section \<open>The compression function of the code\<close>

lemma U8TO32_be:
  assumes "4 \<le> length p" shows "U8TO32 p = word_of_le (rev (take 4 p))"
proof -
  obtain a b c d q where "p = a # b # c # d # q"
    using assms by (auto simp: numeral_eq_Suc Suc_le_length_iff)
  then show ?thesis by (simp add: U8TO32_def push_bit_or ac_simps)
qed

lemma length_rotate_rows: "length v = 16 \<Longrightarrow> length (rotate_rows n v) = 16"
  by (simp add: rotate_rows_def upt_rec Let_def)

lemma length_blake_round: "length v = 16 \<Longrightarrow> r < 14 \<Longrightarrow> length (blake_round m r v) = 16"
  by (simp add: blake_round_refines blake_round_spec_def length_rotate_rows length_columns_spec)

lemma blake_rounds_refine:
  assumes "length v = 16" "n \<le> 14"
  shows "length (fold (blake_round m) [0..<n] v) = 16 \<and>
    fold (blake_round m) [0..<n] v = fold (blake_round_spec m) [0..<n] v"
  using assms(2)
proof (induction n)
  case (Suc n)
  let ?w = "fold (blake_round m) [0..<n] v"
  from Suc have w: "length ?w = 16" "?w = fold (blake_round_spec m) [0..<n] v" "n < 14" by auto
  then have "length (blake_round m n ?w) = 16" by (simp only: length_blake_round)
  moreover have "blake_round m n ?w = blake_round_spec m n ?w"
    using w(1,3) by (rule blake_round_refines)
  moreover have "fold (blake_round m) [0..<Suc n] v = blake_round m n ?w"
    "fold (blake_round_spec m) [0..<Suc n] v = blake_round_spec m n ?w"
    using w(2) by simp_all
  ultimately show ?case by simp
qed (simp add: assms(1))

lemma nth_fold_xor_at:
  "k < length st \<Longrightarrow>
    fold (\<lambda>i. xor_at (f i) (g i)) is st ! k = fold (\<lambda>i a. if f i = k then a XOR g i else a) is (st ! k)"
  by (induction "is" arbitrary: st) (simp_all add: nth_xor_at)

lemma length_fold_xor_at [simp]: "length (fold (\<lambda>i. xor_at (f i) (g i)) is st) = length st"
  by (induction "is" arbitrary: st) simp_all

lemma less8_cases:
  "(k::nat) < 8 \<Longrightarrow> k = 0 \<or> k = 1 \<or> k = 2 \<or> k = 3 \<or> k = 4 \<or> k = 5 \<or> k = 6 \<or> k = 7"
  by arith

lemma upt_8: "[0..<8] = [0, 1, 2, 3, 4, 5, 6, 7 :: nat]"
  by (simp add: upt_rec)

lemma upt_16: "[0..<16] = [0, 1, 2, 3, 4, 5, 6, 7, 8, 9, 10, 11, 12, 13, 14, 15 :: nat]"
  by (simp add: upt_rec)

lemma feed_forward:
  assumes "length h = 8"
  shows "fold (\<lambda>i. xor_at i (s ! (i mod 4))) [0..<8] (fold (\<lambda>i. xor_at (i mod 8) (u ! i)) [0..<16] h) =
    map (\<lambda>i. h ! i XOR u ! i XOR u ! (i + 8) XOR s ! (i mod 4)) [0..<8]"
    (is "?l = ?r")
proof (rule nth_equalityI)
  show "length ?l = length ?r" using assms length_fold_xor_at [of id] by simp
next
  fix k assume "k < length ?l"
  then have k: "k < 8" using assms length_fold_xor_at [of id] by simp
  have "?l ! k = fold (\<lambda>i a. if i = k then a XOR s ! (i mod 4) else a) [0..<8]
      (fold (\<lambda>i a. if i mod 8 = k then a XOR u ! i else a) [0..<16] (h ! k))"
    using k assms by (simp only: nth_fold_xor_at length_fold_xor_at)
  then show "?l ! k = ?r ! k"
    using less8_cases [OF k] by (elim disjE) (simp_all add: upt_8 upt_16 ac_simps del: upt_Suc)
qed

lemma compress_refines:
  assumes "length (blake_h S) = 8" "length (blake_s S) = 4" "length block = 64"
    and c: "nullt S \<Longrightarrow> c = 0"
      "\<not> nullt S \<Longrightarrow> blake_t0 S = of_nat c \<and> blake_t1 S = of_nat (c div 2 ^ 32)"
  shows "blake256_compress S block = S\<lparr>blake_h := compress_spec (blake_h S) (blake_s S) block c\<rparr>"
proof -
  obtain s0 s1 s2 s3 where s: "blake_s S = [s0, s1, s2, s3]"
    using assms(2) by (auto simp: length_Suc_conv numeral_eq_Suc)
  have m: "map (\<lambda>i. U8TO32 (drop (i * 4) block)) [0..<16] =
      map (\<lambda>i. word_of_le (rev (take 4 (drop (i * 4) block)))) [0..<16]"
    using assms(3) by (intro map_cong refl U8TO32_be) simp
  have v: "blake_v S = blake_h S @ map2 (XOR) (blake_s S @ [of_nat c, of_nat c,
      of_nat (c div 2 ^ 32), of_nat (c div 2 ^ 32)]) (take 8 cst)"
    using assms(1) c by (cases "nullt S")
      (simp_all add: blake_v_def s cst_def xor_at_def Let_def ac_simps list_update_append nth_append)
  have "length (blake_v S) = 16" using assms by (simp add: v cst_def)
  note rounds = conjunct2 [OF blake_rounds_refine [OF this order_refl]]
  show ?thesis
    unfolding blake256_compress_def compress_spec_def Let_def m rounds feed_forward [OF assms(1)] unfolding v ..
qed

section \<open>Digesting blocks\<close>

definition core :: "blake_state \<Rightarrow> blake_state" where
  "core S = S\<lparr>blake_buf := [], buflen := 0\<rparr>"

text \<open>What a block step reads and writes: the buffer and its fill level play no part.\<close>

lemma compress_core: "blake256_compress (core S) b = core (blake256_compress S b)"
  by (cases S) (simp add: blake256_compress_def blake_v_def core_def Let_def)

lemma blake_count_core: "blake_count (core S) = core (blake_count S)"
  by (cases S) (simp add: blake_count_def core_def Let_def)

lemma blake_step_core: "core (blake_step S b) = blake_step (core S) b"
  by (simp add: blake_step_def blake_count_core compress_core)

lemma foldl_blake_step_core: "core (foldl blake_step S bs) = foldl blake_step (core S) bs"
  by (induction bs arbitrary: S) (simp_all add: blake_step_core)

lemma blake_step_frame [simp]:
  "buflen (blake_step S b) = buflen S" "blake_buf (blake_step S b) = blake_buf S"
  "blake_s (blake_step S b) = blake_s S" "nullt (blake_step S b) = nullt S"
  by (simp_all add: blake_step_def blake_count_def blake256_compress_def Let_def)

lemma foldl_blake_step_frame [simp]:
  "buflen (foldl blake_step S bs) = buflen S" "blake_buf (foldl blake_step S bs) = blake_buf S"
  "blake_s (foldl blake_step S bs) = blake_s S" "nullt (foldl blake_step S bs) = nullt S"
  by (induction bs arbitrary: S) simp_all

definition blake_loop :: "blake_state \<Rightarrow> byte list \<Rightarrow> blake_state \<times> byte list" where
  "blake_loop S data = (let (S, data, n) = blake_while S data (8 * length data) in (S, data))"

lemma blake_while_short: "n < 512 \<Longrightarrow> blake_while S data n = (S, data, n)"
  by (simp add: blake_while.simps)

lemma blake_while_step:
  "64 \<le> length xs \<Longrightarrow> blake_while S xs (8 * length xs) =
    blake_while (blake_step S (take 64 xs)) (drop 64 xs) (8 * length (drop 64 xs))"
  by (subst blake_while.simps) (simp add: diff_mult_distrib2)

interpretation blake_blocks: block_loop 64 blake_step blake_loop
proof
  show "blake_loop S xs =
      (if 64 \<le> length xs then blake_loop (blake_step S (take 64 xs)) (drop 64 xs) else (S, xs))"
    for S xs
    by (cases "64 \<le> length xs") (simp_all add: blake_loop_def blake_while_step blake_while_short)
qed simp

lemma blake_while_count: "snd (snd (blake_while S xs (8 * length xs))) = 8 * (length xs mod 64)"
proof (induction xs arbitrary: S rule: length_induct)
  case (1 xs)
  show ?case
  proof (cases "64 \<le> length xs")
    case True
    then have "length (drop 64 xs) < length xs" "length (drop 64 xs) mod 64 = length xs mod 64"
      by (simp_all add: le_mod_geq)
    with 1 show ?thesis by (metis True blake_while_step)
  qed (simp add: blake_while_short)
qed

lemma blake_while_fold:
  "blake_while S xs (8 * length xs) =
    (foldl blake_step S (chunks 64 xs), drop (64 * (length xs div 64)) xs, 8 * (length xs mod 64))"
proof -
  obtain S' xs' n' where w: "blake_while S xs (8 * length xs) = (S', xs', n')"
    by (cases "blake_while S xs (8 * length xs)") auto
  then have "n' = 8 * (length xs mod 64)" using blake_while_count [of S xs] by simp
  moreover have "(S', xs') = (foldl blake_step S (chunks 64 xs), drop (64 * (length xs div 64)) xs)"
    using blake_blocks.loop_is_fold [of S xs] w by (simp add: blake_loop_def)
  ultimately show ?thesis using w by simp
qed

section \<open>Where the update is incremental\<close>

text \<open>The context holds the bytes \<open>xs\<close> in its buffer.\<close>

definition buffered :: "blake_state \<Rightarrow> byte list \<Rightarrow> bool" where
  "buffered S xs \<longleftrightarrow> buflen S = 8 * length xs \<and> length xs < 64 \<and>
    length (blake_buf S) = 64 \<and> take (length xs) (blake_buf S) = xs"

lemma length_buf_write: "left + length xs \<le> length buf \<Longrightarrow> length (buf_write buf left xs) = length buf"
  by (simp add: buf_write_def)

lemma take_buf_write:
  "left \<le> length buf \<Longrightarrow> take (left + length xs) (buf_write buf left xs) = take left buf @ xs"
  by (simp add: buf_write_def)

text \<open>The two ways through \<open>blake256_update\<close>, and its common end.\<close>

definition update_tail :: "nat \<Rightarrow> blake_state \<times> byte list \<times> nat \<Rightarrow> blake_state" where
  "update_tail left = (\<lambda>(S, data, datalen).
    if 0 < datalen
    then S\<lparr>blake_buf := buf_write (blake_buf S) left (take (datalen div 8) data),
           buflen := 8 * left + datalen\<rparr>
    else S\<lparr>buflen := 0\<rparr>)"

lemma update_direct:
  assumes "buflen S = 8 * left" "left = 0 \<or> n mod 64 < 64 - left"
  shows "blake256_update S data (8 * n) = update_tail left (blake_while S data (8 * n))"
  using assms by (auto simp: blake256_update_def update_tail_def Let_def)

lemma update_via_buffer:
  assumes "buffered S xs" "xs \<noteq> []" "k = 64 - length xs" "k \<le> n mod 64" "k \<le> length data"
  shows "blake256_update S data (8 * n) =
    update_tail 0 (blake_while (blake_step (S\<lparr>blake_buf := xs @ take k data\<rparr>) (xs @ take k data))
      (drop k data) (8 * n - 8 * k))"
proof -
  have "buf_write (blake_buf S) (length xs) (take k data) = xs @ take k data"
    "buflen S div 8 = length xs"
    using assms by (auto simp: buffered_def buf_write_def)
  then show ?thesis using assms(2,3,4)
    by (simp add: blake256_update_def update_tail_def Let_def)
qed

lemma update_append:
  assumes "buffered S xs" "0 < k" "k \<le> length d" "length xs + k < 64"
  shows "blake256_update S d (8 * k) =
    S\<lparr>blake_buf := buf_write (blake_buf S) (length xs) (take k d), buflen := 8 * (length xs + k)\<rparr>"
proof -
  have "k < 64 - length xs" "k mod 64 = k" "8 * k < 512" using assms by auto
  then show ?thesis using assms update_direct [of S "length xs" k d]
    by (simp add: buffered_def blake_while_short update_tail_def distrib_left)
qed

lemma update_fill:
  assumes "buffered S xs" "xs \<noteq> []" "0 < k" "k \<le> length d" "length xs + k = 64"
  shows "blake256_update S d (8 * k) =
    (blake_step (S\<lparr>blake_buf := xs @ take k d\<rparr>) (xs @ take k d))\<lparr>buflen := 0\<rparr>"
proof -
  have "k < 64" "k = 64 - length xs" using assms(2,5) by (cases xs; simp)+
  then show ?thesis using update_via_buffer [OF assms(1,2), of k k d] assms
    by (simp add: blake_while_short update_tail_def)
qed

definition absorbed :: "blake_state \<Rightarrow> byte list \<Rightarrow> blake_state \<Rightarrow> bool" where
  "absorbed S0 msg S \<longleftrightarrow>
    core S = core (foldl blake_step S0 (chunks 64 msg)) \<and>
    buffered S (drop (64 * (length msg div 64)) msg)"

lemma update_aligned:
  assumes "buflen S = 0" "length (blake_buf S) = 64"
  shows "absorbed S d (blake256_update S d (8 * length d))"
proof -
  let ?r = "drop (64 * (length d div 64)) d"
  have r: "length ?r = length d mod 64" by (simp add: minus_mult_div_eq_mod)
  show ?thesis
  proof (cases "length d mod 64 = 0")
    case True
    then show ?thesis using assms r
      by (simp add: update_direct [of S 0] blake_while_fold update_tail_def absorbed_def buffered_def core_def)
  next
    case False
    have "take (length ?r) ?r = ?r" by simp
    then have "take (length d mod 64) ?r = ?r" using r by simp
    moreover have "length (buf_write (blake_buf S) 0 ?r) = 64"
      using r assms by (simp add: length_buf_write)
    moreover have "take (length d mod 64) (buf_write (blake_buf S) 0 ?r) = ?r"
      using r by (simp add: buf_write_def)
    ultimately show ?thesis using assms r False
      by (simp add: update_direct [of S 0] blake_while_fold update_tail_def absorbed_def buffered_def core_def)
  qed
qed

lemma absorbed_split:
  assumes "absorbed S0 xs S" "a = drop (64 * (length xs div 64)) xs"
  obtains full where "xs = full @ a" "64 dvd length full" "chunks 64 full = chunks 64 xs"
    "length a < 64" "buffered S a"
proof
  let ?full = "take (64 * (length xs div 64)) xs"
  show "xs = ?full @ a" using assms(2) by simp
  show "64 dvd length ?full" by simp
  moreover show "length a < 64" "buffered S a"
    using assms by (auto simp: absorbed_def buffered_def)
  ultimately show "chunks 64 ?full = chunks 64 xs"
    using chunks_append [of 64 ?full a] assms(2) by (simp add: chunks_short)
qed

lemma absorbedI:
  assumes "core S = core (foldl blake_step S0 (chunks 64 full))" "64 dvd length full"
    "buffered S a"
  shows "absorbed S0 (full @ a) S"
proof -
  have "length a < 64" using assms(3) by (simp add: buffered_def)
  then show ?thesis using assms
    by (auto simp: absorbed_def chunks_append chunks_short div_plus_div_distrib_dvd_left)
qed

lemma absorbed_trans:
  assumes "absorbed S0 full S" "64 dvd length full" "absorbed S d T"
  shows "absorbed S0 (full @ d) T"
proof -
  obtain a where a: "a = drop (64 * (length d div 64)) d" by simp
  from assms(3) a obtain full' where d: "d = full' @ a" "64 dvd length full'"
    "chunks 64 full' = chunks 64 d" "buffered T a" by (rule absorbed_split)
  have "core T = core (foldl blake_step S0 (chunks 64 (full @ full')))"
    using assms d(3) by (simp add: absorbed_def foldl_blake_step_core chunks_append)
  then have "absorbed S0 ((full @ full') @ a) T"
    by (rule absorbedI) (use assms(2) d in simp_all)
  then show ?thesis by (simp add: d)
qed

lemma blake_step_buflen: "blake_step (S\<lparr>buflen := n\<rparr>) b = (blake_step S b)\<lparr>buflen := n\<rparr>"
  by (cases S) (simp add: blake_step_def blake_count_def blake256_compress_def blake_v_def Let_def)

lemma foldl_blake_step_buflen:
  "foldl blake_step (S\<lparr>buflen := n\<rparr>) bs = (foldl blake_step S bs)\<lparr>buflen := n\<rparr>"
  by (induction bs arbitrary: S) (simp_all add: blake_step_buflen)

text \<open>Filling the buffer first is the same as a separate update that fills it exactly.\<close>

lemma update_fill_first:
  assumes "buffered S a" "a \<noteq> []" "k = 64 - length a" "k \<le> length d mod 64"
  shows "blake256_update S d (8 * length d) =
    blake256_update (blake256_update S d (8 * k)) (drop k d) (8 * length (drop k d))"
proof -
  have k: "0 < k" "k \<le> length d" "length a + k = 64" "length a \<noteq> 0"
    using assms mod_less_eq_dividend [of "length d" 64] by (auto simp: buffered_def)
  let ?S1 = "blake_step (S\<lparr>blake_buf := a @ take k d\<rparr>) (a @ take k d)"
  have "blake256_update S d (8 * length d) =
      update_tail 0 (blake_while ?S1 (drop k d) (8 * length (drop k d)))"
    using update_via_buffer [OF assms(1,2,3,4) k(2)] by (simp add: diff_mult_distrib2)
  also have "\<dots> = update_tail 0 (blake_while (?S1\<lparr>buflen := 0\<rparr>) (drop k d) (8 * length (drop k d)))"
    by (simp only: blake_while_fold foldl_blake_step_buflen) (simp add: update_tail_def)
  also have "\<dots> = blake256_update (?S1\<lparr>buflen := 0\<rparr>) (drop k d) (8 * length (drop k d))"
    by (rule update_direct [symmetric]) simp_all
  finally show ?thesis using update_fill [OF assms(1,2) k(1,2,3)] by simp
qed

lemma update_incremental:
  assumes "absorbed S0 xs S" "64 dvd length xs \<or> (d \<noteq> [] \<and>
    (length d < 64 \<or> 64 - length xs mod 64 \<le> length d mod 64))"
  shows "absorbed S0 (xs @ d) (blake256_update S d (8 * length d))"
proof -
  define a where "a = drop (64 * (length xs div 64)) xs"
  from assms(1) a_def obtain full where full: "xs = full @ a" "64 dvd length full"
    "chunks 64 full = chunks 64 xs" "length a < 64" "buffered S a" by (rule absorbed_split)
  have S: "core S = core (foldl blake_step S0 (chunks 64 full))"
    using assms(1) full by (simp add: absorbed_def)
  have xm: "length xs mod 64 = length a" using full by (auto elim!: dvdE)
  consider "a = []" | "a \<noteq> []" "d \<noteq> []" "length a + length d < 64"
    | "a \<noteq> []" "64 - length a \<le> length d mod 64"
  proof -
    have "64 dvd length xs \<longleftrightarrow> a = []" using xm by (simp add: dvd_eq_mod_eq_0)
    then show ?thesis using that assms(2) xm by fastforce
  qed
  then show ?thesis
  proof cases
    case 1
    have "absorbed S0 full S" using absorbedI [OF S full(2)] full(5) 1 by fastforce
    moreover have "absorbed S d (blake256_update S d (8 * length d))"
      using full(5) 1 by (intro update_aligned) (simp_all add: buffered_def)
    ultimately show ?thesis using absorbed_trans full(1,2) 1 by simp
  next
    case 2
    have u: "blake256_update S d (8 * length d) =
        S\<lparr>blake_buf := buf_write (blake_buf S) (length a) d, buflen := 8 * (length a + length d)\<rparr>"
      using update_append [OF full(5), of "length d" d] 2 by simp
    have "absorbed S0 (full @ (a @ d)) (blake256_update S d (8 * length d))"
    proof (rule absorbedI [OF _ full(2)])
      show "core (blake256_update S d (8 * length d)) = core (foldl blake_step S0 (chunks 64 full))"
        using S by (simp add: u core_def)
      show "buffered (blake256_update S d (8 * length d)) (a @ d)"
        using full(5) 2 by (simp add: u buffered_def length_buf_write take_buf_write)
    qed
    then show ?thesis by (simp add: full(1))
  next
    case 3
    define k where "k = 64 - length a"
    have k: "0 < k" "k \<le> length d" "length a + k = 64" "k \<le> length d mod 64"
      using 3 full(4) mod_less_eq_dividend [of "length d" 64] by (auto simp: k_def)
    let ?T = "blake256_update S d (8 * k)" and ?b = "a @ take k d"
    have T: "?T = (blake_step (S\<lparr>blake_buf := ?b\<rparr>) ?b)\<lparr>buflen := 0\<rparr>"
      using update_fill [OF full(5) 3(1) k(1,2,3)] .
    have lb: "length ?b = 64" using k by simp
    have "core ?T = blake_step (core S) ?b"
      unfolding T by (simp add: core_def blake_step_core [unfolded core_def] flip: blake_step_buflen)
    then have "core ?T = core (foldl blake_step S0 (chunks 64 (full @ ?b)))"
      using lb full(2) S by (simp add: chunks_append chunks_one foldl_blake_step_core blake_step_core)
    moreover have "buffered ?T []" using lb by (simp add: T buffered_def)
    ultimately have T0: "absorbed S0 (full @ ?b) ?T"
      using lb full(2) absorbedI [of ?T S0 "full @ ?b" "[]"] by simp
    have TT: "absorbed ?T (drop k d) (blake256_update ?T (drop k d) (8 * length (drop k d)))"
      using lb by (intro update_aligned) (simp_all add: T)
    have "absorbed S0 ((full @ ?b) @ drop k d)
        (blake256_update ?T (drop k d) (8 * length (drop k d)))"
      by (rule absorbed_trans [OF T0 _ TT]) (use lb full(2) in simp)
    then show ?thesis
      using update_fill_first [OF full(5) 3(1) k_def k(4)] by (simp add: full(1))
  qed
qed
end
