(* ===== verification/Blake256_Final.thy ===== *)
theory Blake256_Final
  imports Blake256_Correct
begin

text \<open>
  The last step of BLAKE: padding, length and counters. The standard's hash of a whole
  message is \<open>blake_spec\<close>; \<open>blake256_final_h\<close> is proved to produce it from any
  state that has absorbed the message, and the one-shot hashes and HMACs follow.
\<close>

section \<open>The padded hash\<close>

text \<open>
  The standard pads with a one bit, zeros, and a last bit \<open>pb\<close> (1 for BLAKE-256, 0 for
  BLAKE-224) so that the 64-bit length completes a block; the counter of a block is the
  number of message bits up to its end, or 0 when the block has no message bit.
\<close>

definition blake_pad :: "byte \<Rightarrow> nat \<Rightarrow> byte list" where
  "blake_pad pb n =
    (let k = (if n mod 64 < 56 then 56 - n mod 64 else 120 - n mod 64)
     in map (\<lambda>i. (if i = 0 then 0x80 else 0) OR (if i = k - 1 then pb else 0)) [0..<k])"

definition blake_counter :: "nat \<Rightarrow> nat \<Rightarrow> nat" where
  "blake_counter n i = (if 64 * i < n then min (512 * (i + 1)) (8 * n) else 0)"

fun blake_run :: "u32 list \<Rightarrow> nat \<Rightarrow> nat \<Rightarrow> u32 list \<Rightarrow> byte list list \<Rightarrow> u32 list" where
  "blake_run s n i h [] = h"
| "blake_run s n i h (b # bs) = blake_run s n (Suc i) (compress_spec h s b (blake_counter n i)) bs"

definition blake_length_bytes :: "nat \<Rightarrow> byte list" where
  "blake_length_bytes n = be_bytes 8 (of_nat (8 * n) :: u64)"

definition blake_spec :: "u32 list \<Rightarrow> byte \<Rightarrow> byte list \<Rightarrow> byte list" where
  "blake_spec iv pb msg =
    concat (map (be_bytes 4) (blake_run [0, 0, 0, 0] (length msg) 0 iv
      (chunks 64 (msg @ blake_pad pb (length msg) @ blake_length_bytes (length msg)))))"

lemma blake_run_append:
  "blake_run s n i h (bs @ cs) = blake_run s n (i + length bs) (blake_run s n i h bs) cs"
  by (induction bs arbitrary: i h) simp_all

lemma U32TO8_be: "U32TO8 v = be_bytes 4 v"
  by (simp add: U32TO8_def be_bytes_def le_bytes_def upt_rec)

lemma drop_bit_32_of_nat:
  assumes "m < 2 ^ 64" shows "drop_bit 32 (of_nat m :: u64) = of_nat (m div 2 ^ 32)"
proof (rule bit_word_eqI)
  fix k
  have "take_bit 64 m = m" using assms by (rule take_bit_nat_eq_self)
  then have "bit m (32 + k) \<longleftrightarrow> 32 + k < 64 \<and> bit m (32 + k)" by (metis bit_take_bit_iff)
  moreover have "m div 2 ^ 32 = drop_bit 32 m" by (simp only: drop_bit_eq_div)
  ultimately show "bit (drop_bit 32 (of_nat m :: u64)) k \<longleftrightarrow> bit (of_nat (m div 2 ^ 32) :: u64) k"
    by (auto simp: bit_simps)
qed

lemma msglen_bytes_of_nat:
  assumes "m < 2 ^ 64"
  shows "U32TO8 (of_nat (m div 2 ^ 32)) @ U32TO8 (of_nat m) = be_bytes 8 (of_nat m :: u64)"
proof -
  have lo: "(ucast (drop_bit k (of_nat x :: u32)) :: byte) = ucast (drop_bit k (of_nat x :: u64))"
    if "k + 8 \<le> 32" for k x
    by (rule bit_word_eqI) (use that in \<open>simp add: bit_simps\<close>)
  have hi: "drop_bit (32 + k) (of_nat m :: u64) = drop_bit k (of_nat (m div 2 ^ 32))" for k
    unfolding drop_bit_32_of_nat [OF assms, symmetric] by (simp add: add.commute)
  show ?thesis
    using lo [of 24] lo [of 16] lo [of 8] lo [of 0] hi [of 24] hi [of 16] hi [of 8] hi [of 0]
    by (simp add: U32TO8_be be_bytes_def le_bytes_def upt_rec drop_bit_32_of_nat [OF assms])
qed

lemma blake_pad_long:
  assumes "k = (if n mod 64 < 56 then 56 - n mod 64 else 120 - n mod 64)" "k = Suc (Suc j)"
  shows "blake_pad pb n = 0x80 # replicate j 0 @ [pb]"
proof -
  let ?f = "\<lambda>i. (if i = 0 then 0x80 else 0) OR (if i = k - 1 then pb else 0)"
  have "[0..<k] = 0 # [1..<Suc j] @ [Suc j]" unfolding assms(2) by (simp add: upt_conv_Cons)
  moreover have "map ?f [1..<Suc j] = map (\<lambda>i. 0) [1..<Suc j]"
    using assms(2) by (intro map_cong refl) auto
  ultimately have "map ?f [0..<k] = 0x80 # replicate j 0 @ [pb]"
    using assms(2) by (simp add: map_replicate_const del: upt_Suc)
  then show ?thesis by (simp add: blake_pad_def Let_def flip: assms(1))
qed

text \<open>The counter words after whole blocks.\<close>

definition counted :: "blake_state \<Rightarrow> nat \<Rightarrow> bool" where
  "counted S c \<longleftrightarrow> blake_t0 S = of_nat c \<and> blake_t1 S = of_nat (c div 2 ^ 32)"

lemma of_nat_u32_eq_0: "(of_nat m :: u32) = 0 \<longleftrightarrow> 2 ^ 32 dvd m"
  by (simp add: word_of_nat_eq_0_iff)

lemma bump_high:
  assumes "512 dvd c"
  shows "(of_nat ((c + 512) div 2 ^ 32) :: u32) =
    (if (of_nat (c + 512) :: u32) = 0 then of_nat (c div 2 ^ 32) + 1 else of_nat (c div 2 ^ 32))"
proof -
  obtain q where c: "c = 512 * q" using assms by blast
  have e: "c + 512 = 512 * (q + 1)" "(2::nat) ^ 32 = 512 * 2 ^ 23" by (simp_all add: c)
  have "(c + 512) div 2 ^ 32 = (q + 1) div 2 ^ 23" "c div 2 ^ 32 = q div 2 ^ 23"
    unfolding e unfolding c by (rule div_mult_mult1, simp)+
  moreover have "2 ^ 32 dvd (c + 512) \<longleftrightarrow> 2 ^ 23 dvd (q + 1)"
    unfolding e by (subst nat_mult_dvd_cancel_disj) simp
  moreover have "(q + 1) div 2 ^ 23 = (if 2 ^ 23 dvd (q + 1) then Suc (q div 2 ^ 23) else q div 2 ^ 23)"
    using div_Suc [of q "2 ^ 23"] by (simp add: dvd_eq_mod_eq_0)
  ultimately show ?thesis unfolding of_nat_u32_eq_0 by simp
qed


lemma not_multiple:
  assumes "512 dvd c" "0 < e" "e < (512::nat)"
  shows "\<not> 2 ^ 32 dvd c + e" "(c + e) div 2 ^ 32 = c div 2 ^ 32"
proof -
  obtain q where c: "c = 512 * q" using assms by blast
  have "\<not> 512 dvd c + e" using assms by (auto simp: c dvd_eq_mod_eq_0)
  moreover have "(512::nat) dvd 2 ^ 32" by simp
  ultimately show "\<not> 2 ^ 32 dvd c + e" using dvd_trans by blast
  have "(c + e) div (512 * 2 ^ 23) = c div (512 * 2 ^ 23)"
    using assms(3) by (simp only: div_mult2_eq c) simp
  then show "(c + e) div 2 ^ 32 = c div 2 ^ 32" by simp
qed

section \<open>Running the blocks\<close>

text \<open>A context that can be compressed: eight chaining words and four salt words.\<close>

definition sized :: "blake_state \<Rightarrow> bool" where
  "sized S \<longleftrightarrow> length (blake_h S) = 8 \<and> length (blake_s S) = 4"

lemma length_compress_spec [simp]: "length (compress_spec h s b c) = 8"
  by (simp add: compress_spec_def Let_def)

lemma blake_count_frame [simp]:
  "blake_h (blake_count S) = blake_h S" "blake_s (blake_count S) = blake_s S"
  "nullt (blake_count S) = nullt S" "sized (blake_count S) = sized S"
  by (simp_all add: blake_count_def Let_def sized_def)

lemma step_null:
  assumes "sized S" "length b = 64" "nullt S"
  shows "blake_h (blake_step S b) = compress_spec (blake_h S) (blake_s S) b 0 \<and> sized (blake_step S b)"
  using assms compress_refines [of "blake_count S" b 0] by (simp add: blake_step_def sized_def)

lemma step_counting:
  assumes "sized S" "length b = 64" "\<not> nullt S"
    and "blake_t0 S + 512 = of_nat c"
    and "(if (of_nat c :: u32) = 0 then blake_t1 S + 1 else blake_t1 S) = of_nat (c div 2 ^ 32)"
  shows "blake_h (blake_step S b) = compress_spec (blake_h S) (blake_s S) b c \<and>
    counted (blake_step S b) c \<and> sized (blake_step S b)"
proof -
  have c: "counted (blake_count S) c"
    using assms(4,5) by (auto simp: blake_count_def counted_def Let_def)
  then have "blake_step S b = (blake_count S)\<lparr>blake_h := compress_spec (blake_h S) (blake_s S) b c\<rparr>"
    using assms compress_refines [of "blake_count S" b c]
    by (simp add: blake_step_def sized_def counted_def)
  then show ?thesis using c assms(1) by (simp add: counted_def sized_def)
qed

lemma step_whole_block:
  assumes "sized S" "length b = 64" "\<not> nullt S" "counted S c" "512 dvd c"
  shows "blake_h (blake_step S b) = compress_spec (blake_h S) (blake_s S) b (c + 512) \<and>
    counted (blake_step S b) (c + 512) \<and> sized (blake_step S b)"
  using assms(4) bump_high [OF assms(5)]
  by (intro step_counting [OF assms(1,2,3)]) (simp_all add: counted_def)

lemma run_blocks:
  assumes "length iv = 8" "64 * length bs \<le> n" "\<And>b. b \<in> set bs \<Longrightarrow> length b = 64"
  shows "let S = foldl blake_step (blake_init iv junk) bs
    in blake_h S = blake_run [0, 0, 0, 0] n 0 iv bs \<and> counted S (512 * length bs) \<and> sized S"
  using assms(2,3)
proof (induction bs rule: rev_induct)
  case Nil
  then show ?case using assms(1) by (simp add: blake_init_def counted_def sized_def Let_def)
next
  case (snoc b bs)
  let ?S = "foldl blake_step (blake_init iv junk) bs"
  have S: "blake_h ?S = blake_run [0, 0, 0, 0] n 0 iv bs" "counted ?S (512 * length bs)" "sized ?S"
    "\<not> nullt ?S" "blake_s ?S = [0, 0, 0, 0]"
    using snoc by (simp_all add: Let_def) (simp_all add: blake_init_def)
  have "blake_counter n (length bs) = 512 * length bs + 512"
    using snoc.prems by (simp add: blake_counter_def)
  then show ?case
    using step_whole_block [OF S(3) _ S(4) S(2), of b] snoc.prems S
    by (simp add: blake_run_append Let_def add.commute)
qed


section \<open>Finalisation\<close>

lemma append_buffered:
  assumes "buffered S xs" "0 < k" "k \<le> length d" "length xs + k < 64"
  obtains buf' where
    "blake256_update S d (8 * k) = S\<lparr>blake_buf := buf', buflen := 8 * (length xs + k)\<rparr>"
    "buffered (blake256_update S d (8 * k)) (xs @ take k d)"
proof
  let ?b = "buf_write (blake_buf S) (length xs) (take k d)"
  show eq: "blake256_update S d (8 * k) = S\<lparr>blake_buf := ?b, buflen := 8 * (length xs + k)\<rparr>"
    using assms by (rule update_append)
  have "length xs + length (take k d) = length xs + k" using assms(3) by simp
  moreover have "length xs \<le> length (blake_buf S)" "take (length xs) (blake_buf S) = xs"
    using assms(1) by (auto simp: buffered_def)
  ultimately have "take (length xs + k) ?b = xs @ take k d"
    using take_buf_write [of "length xs" "blake_buf S" "take k d"] by simp
  then show "buffered (blake256_update S d (8 * k)) (xs @ take k d)"
    using assms unfolding eq by (simp add: buffered_def length_buf_write)
qed

lemma blake_step_buf: "blake_h (blake_step (S\<lparr>blake_buf := x\<rparr>) b) = blake_h (blake_step S b)"
  by (cases S) (simp add: blake_step_def blake_count_def blake256_compress_def blake_v_def Let_def)

text \<open>The last update writes the eight length bytes behind 56 buffered ones.\<close>

lemma last_update:
  assumes "buffered S a" "length a = 56" "length ml = 8"
  shows "blake_h (blake256_update S ml 64) = blake_h (blake_step S (a @ ml))"
proof -
  have "a \<noteq> []" using assms(2) by auto
  then show ?thesis using update_fill [of S a 8 ml] assms by (simp add: blake_step_buf)
qed

text \<open>
  The situation at the start of \<open>blake256_final_h\<close>: \<open>c\<close> bits in whole blocks have been
  counted, \<open>rest\<close> is in the buffer.
\<close>

definition ready :: "blake_state \<Rightarrow> nat \<Rightarrow> byte list \<Rightarrow> bool" where
  "ready S c rest \<longleftrightarrow> sized S \<and> \<not> nullt S \<and> counted S c \<and> 512 dvd c \<and> buffered S rest"

lemma buffered_frame [simp]:
  "buffered (S\<lparr>blake_t0 := t\<rparr>) xs = buffered S xs" "buffered (S\<lparr>nullt := b\<rparr>) xs = buffered S xs"
  by (simp_all add: buffered_def)

lemma sized_frame [simp]:
  "sized (S\<lparr>blake_t0 := t\<rparr>) = sized S" "sized (S\<lparr>nullt := b\<rparr>) = sized S"
  "sized (S\<lparr>blake_buf := x\<rparr>) = sized S" "sized (S\<lparr>buflen := n\<rparr>) = sized S"
  by (simp_all add: sized_def)

definition counts_to :: "blake_state \<Rightarrow> nat \<Rightarrow> bool" where
  "counts_to S e \<longleftrightarrow> (if nullt S then e = 0 else blake_t0 S + 512 = of_nat e \<and>
    (if (of_nat e :: u32) = 0 then blake_t1 S + 1 else blake_t1 S) = of_nat (e div 2 ^ 32))"

lemma counts_toI:
  assumes "counted S c" "512 dvd c" "0 < e" "e < 512" "\<not> nullt S'"
    "blake_t1 S' = blake_t1 S" "blake_t0 S' + 512 = blake_t0 S + of_nat e"
  shows "counts_to S' (c + e)"
  using assms not_multiple [OF assms(2,3,4)] of_nat_u32_eq_0 [of "c + e"]
  by (simp add: counts_to_def counted_def)

lemma step_counts_to:
  assumes "sized S" "length b = 64" "counts_to S e"
  shows "blake_h (blake_step S b) = compress_spec (blake_h S) (blake_s S) b e \<and> sized (blake_step S b)"
proof (cases "nullt S")
  case True
  then show ?thesis using assms step_null [of S b] by (simp add: counts_to_def)
next
  case False
  then show ?thesis using assms step_counting [of S b e] by (simp add: counts_to_def)
qed

lemma last_block:
  assumes "buffered P a" "length a = 56" "length ml = 8" "sized P"
    and "counts_to (P\<lparr>blake_t0 := blake_t0 P - 64\<rparr>) e"
  shows "blake_h (blake256_update (P\<lparr>blake_t0 := blake_t0 P - 64\<rparr>) ml 64) =
    compress_spec (blake_h P) (blake_s P) (a @ ml) e"
  using assms last_update [of "P\<lparr>blake_t0 := blake_t0 P - 64\<rparr>" a ml]
    step_counts_to [of "P\<lparr>blake_t0 := blake_t0 P - 64\<rparr>" "a @ ml" e]
  by simp

text \<open>Case 1: 55 bytes are buffered, one padding byte completes them.\<close>

lemma final_one_byte:
  assumes "ready S c rest" "length rest = 55" "length ml = 8"
  shows "blake_h (let S = blake256_update (S\<lparr>blake_t0 := blake_t0 S - 8\<rparr>) [pa] 8
      in blake256_update (S\<lparr>blake_t0 := blake_t0 S - 64\<rparr>) ml 64) =
    compress_spec (blake_h S) (blake_s S) (rest @ [pa] @ ml) (c + 8 * length rest)"
proof -
  let ?A = "S\<lparr>blake_t0 := blake_t0 S - 8\<rparr>" and ?B = "blake256_update (S\<lparr>blake_t0 := blake_t0 S - 8\<rparr>) [pa] 8"
  have S: "sized S" "\<not> nullt S" "counted S c" "512 dvd c" "buffered ?A rest"
    using assms(1) by (simp_all add: ready_def)
  obtain b where B: "?B = ?A\<lparr>blake_buf := b, buflen := 448\<rparr>" "buffered ?B (rest @ [pa])"
    by (rule append_buffered [OF S(5), of 1 "[pa]"]) (use assms(2) in simp_all)
  have "counts_to (?B\<lparr>blake_t0 := blake_t0 ?B - 64\<rparr>) (c + 440)"
    by (rule counts_toI [OF S(3,4)]) (simp_all add: B(1) S)
  then show ?thesis
    using last_block [OF B(2) _ assms(3), of "c + 440"] assms(2) S B(1) by (simp add: Let_def)
qed

text \<open>Case 2: fewer than 55 bytes are buffered; zeros and the closing byte fill up to 56.\<close>

lemma final_short:
  assumes "ready S c rest" "length rest < 55" "length ml = 8"
  shows "blake_h (let S = (if buflen S = 0 then S\<lparr>nullt := True\<rparr> else S);
        S = blake256_update (S\<lparr>blake_t0 := blake_t0 S - of_nat (440 - buflen S)\<rparr>) padding (440 - buflen S);
        S = blake256_update S [pb] 8; S = S\<lparr>blake_t0 := blake_t0 S - 8\<rparr>
      in blake256_update (S\<lparr>blake_t0 := blake_t0 S - 64\<rparr>) ml 64) =
    compress_spec (blake_h S) (blake_s S) (rest @ take (55 - length rest) padding @ [pb] @ ml)
      (if rest = [] then 0 else c + 8 * length rest)"
proof -
  define k where "k = 55 - length rest"
  have k: "0 < k" "k \<le> length padding" "length rest + k < 64" "440 - 8 * length rest = 8 * k"
    using assms(2) by (auto simp: k_def padding_def)
  define A where "A = (if buflen S = 0 then S\<lparr>nullt := True\<rparr> else S)"
  define A' where "A' = A\<lparr>blake_t0 := blake_t0 A - of_nat (440 - buflen A)\<rparr>"
  have S: "sized S" "\<not> nullt S" "counted S c" "512 dvd c" "buffered S rest" "buflen S = 8 * length rest"
    using assms(1) by (simp_all add: ready_def buffered_def)
  have A: "buffered A' rest" "nullt A' = (rest = [])" "buflen A = 8 * length rest" "sized A'"
    "blake_h A' = blake_h S" "blake_s A' = blake_s S" "blake_t1 A' = blake_t1 S"
    "blake_t0 A' = blake_t0 S - of_nat (8 * k)"
    using S k(4) by (auto simp: A'_def A_def)
  define B where "B = blake256_update A' padding (8 * k)"
  obtain b where B: "B = A'\<lparr>blake_buf := b, buflen := 8 * (length rest + k)\<rparr>"
    "buffered B (rest @ take k padding)"
    unfolding B_def by (rule append_buffered [OF A(1) k(1,2,3)])
  define C where "C = blake256_update B [pb] 8"
  obtain b' where C: "C = B\<lparr>blake_buf := b', buflen := 448\<rparr>" "buffered C (rest @ take k padding @ [pb])"
    unfolding C_def by (rule append_buffered [OF B(2), of 1 "[pb]"]) (use k in \<open>simp_all add: k_def\<close>)
  define P where "P = C\<lparr>blake_t0 := blake_t0 C - 8\<rparr>"
  have P: "blake_h P = blake_h S" "blake_s P = blake_s S" "sized P"
    "buffered P (rest @ take k padding @ [pb])"
    using A B(1) C by (simp_all add: P_def)
  have "counts_to (P\<lparr>blake_t0 := blake_t0 P - 64\<rparr>) (if rest = [] then 0 else c + 8 * length rest)"
  proof (cases "rest = []")
    case True
    then show ?thesis using A B(1) C(1) by (simp add: counts_to_def P_def)
  next
    case False
    have "(of_nat (8 * k) :: u32) = 440 - of_nat (8 * length rest)"
      using assms(2) by (subst k(4) [symmetric], subst of_nat_diff) simp_all
    then have "counts_to (P\<lparr>blake_t0 := blake_t0 P - 64\<rparr>) (c + 8 * length rest)"
      using False assms(2) A B(1) C(1)
      by (intro counts_toI [OF S(3,4)]) (simp_all add: P_def)
    then show ?thesis using False by simp
  qed
  moreover have "length (rest @ take k padding @ [pb]) = 56" using k by (simp add: k_def)
  ultimately have "blake_h (blake256_update (P\<lparr>blake_t0 := blake_t0 P - 64\<rparr>) ml 64) =
      compress_spec (blake_h S) (blake_s S) ((rest @ take k padding @ [pb]) @ ml)
        (if rest = [] then 0 else c + 8 * length rest)"
    using last_block [OF P(4) _ assms(3) P(3)] P(1,2) by simp
  then show ?thesis
    unfolding P_def C_def B_def A'_def A_def Let_def using k(4) S(6) by (simp add: k_def split: if_splits)
qed


text \<open>Case 3: 56 or more bytes are buffered; the padding fills the block and needs another.\<close>

lemma final_long:
  assumes "ready S c rest" "55 < length rest" "length ml = 8"
  shows "blake_h (let S = blake256_update (S\<lparr>blake_t0 := blake_t0 S - of_nat (512 - buflen S)\<rparr>)
            padding (512 - buflen S);
        S = blake256_update (S\<lparr>blake_t0 := blake_t0 S - 440\<rparr>) (tl padding) 440;
        S = S\<lparr>nullt := True\<rparr>; S = blake256_update S [pb] 8; S = S\<lparr>blake_t0 := blake_t0 S - 8\<rparr>
      in blake256_update (S\<lparr>blake_t0 := blake_t0 S - 64\<rparr>) ml 64) =
    compress_spec (compress_spec (blake_h S) (blake_s S) (rest @ take (64 - length rest) padding)
        (c + 8 * length rest))
      (blake_s S) (replicate 55 0 @ [pb] @ ml) 0"
proof -
  define k where "k = 64 - length rest"
  define A where "A = S\<lparr>blake_t0 := blake_t0 S - of_nat (512 - buflen S)\<rparr>"
  have S: "sized S" "\<not> nullt S" "counted S c" "512 dvd c" "buffered S rest" "buflen S = 8 * length rest"
    "length rest < 64"
    using assms(1) by (simp_all add: ready_def buffered_def)
  have k: "0 < k" "k \<le> length padding" "length rest + k = 64" "512 - 8 * length rest = 8 * k"
    using S(7) by (auto simp: k_def padding_def)
  have A: "buffered A rest" "sized A" "\<not> nullt A" using S by (simp_all add: A_def)
  let ?b1 = "rest @ take k padding"
  define B where "B = blake256_update A padding (8 * k)"
  have "rest \<noteq> []" using assms(2) by auto
  then have B: "B = (blake_step (A\<lparr>blake_buf := ?b1\<rparr>) ?b1)\<lparr>buflen := 0\<rparr>"
    using update_fill [OF A(1) _ k(1,2,3)] by (simp add: B_def)
  have "(of_nat (8 * k) :: u32) = 512 - of_nat (8 * length rest)"
    using S(7) by (subst k(4) [symmetric], subst of_nat_diff) simp_all
  then have "counts_to A (c + 8 * length rest)"
    using S(6,7) k(4) A(3) \<open>rest \<noteq> []\<close> by (intro counts_toI [OF S(3,4)]) (simp_all add: A_def)
  then have "blake_h (blake_step A ?b1) = compress_spec (blake_h A) (blake_s A) ?b1 (c + 8 * length rest)
      \<and> sized (blake_step A ?b1)"
    using k A(2) by (intro step_counts_to) simp_all
  then have B': "blake_h B = compress_spec (blake_h S) (blake_s S) ?b1 (c + 8 * length rest)"
    "blake_s B = blake_s S" "sized B" "buffered B []"
    using k S(1) by (simp_all add: B blake_step_buf A_def sized_def buffered_def)
  define C where "C = blake256_update (B\<lparr>blake_t0 := blake_t0 B - 440\<rparr>) (tl padding) 440"
  have "buffered (B\<lparr>blake_t0 := blake_t0 B - 440\<rparr>) []" using B'(4) by simp
  then obtain b where C: "C = B\<lparr>blake_t0 := blake_t0 B - 440, blake_buf := b, buflen := 440\<rparr>"
    "buffered C (replicate 55 0)"
    unfolding C_def
    by (rule append_buffered [of _ _ 55 "tl padding"]) (simp_all add: padding_def)
  define D where "D = blake256_update (C\<lparr>nullt := True\<rparr>) [pb] 8"
  have "buffered (C\<lparr>nullt := True\<rparr>) (replicate 55 0)" using C(2) by simp
  then obtain b' where D: "D = C\<lparr>nullt := True, blake_buf := b', buflen := 448\<rparr>"
    "buffered D (replicate 55 0 @ [pb])"
    unfolding D_def by (rule append_buffered [of _ _ 1 "[pb]"]) simp_all
  define P where "P = D\<lparr>blake_t0 := blake_t0 D - 8\<rparr>"
  have P: "blake_h P = blake_h B" "blake_s P = blake_s S" "sized P"
    "counts_to (P\<lparr>blake_t0 := blake_t0 P - 64\<rparr>) 0"
    using B' C(1) D(1) by (simp_all add: P_def counts_to_def)
  have bP: "buffered P (replicate 55 0 @ [pb])" using D(2) by (simp add: P_def)
  have "blake_h (blake256_update (P\<lparr>blake_t0 := blake_t0 P - 64\<rparr>) ml 64) =
      compress_spec (blake_h B) (blake_s S) ((replicate 55 0 @ [pb]) @ ml) 0"
    using last_block [OF bP _ assms(3) P(3) P(4)] P(1,2) by simp
  then show ?thesis
    unfolding P_def D_def C_def B_def A_def Let_def using k(4) S(6) B'(1)
    unfolding B_def A_def by (simp add: k_def)
qed

lemma take_padding: "0 < k \<Longrightarrow> k \<le> 64 \<Longrightarrow> take k padding = 0x80 # replicate (k - 1) 0"
  by (cases k) (simp_all add: padding_def)

text \<open>What the blocks of the padded message are, given the unfinished block \<open>rest\<close>.\<close>

definition tail_blocks :: "byte \<Rightarrow> byte list \<Rightarrow> byte list \<Rightarrow> byte list list" where
  "tail_blocks pb rest ml =
    (if length rest = 55 then [rest @ [0x80 OR pb] @ ml]
     else if length rest < 55 then [rest @ take (55 - length rest) padding @ [pb] @ ml]
     else [rest @ take (64 - length rest) padding, replicate 55 0 @ [pb] @ ml])"

lemma chunks_two: "0 < n \<Longrightarrow> length a = n \<Longrightarrow> length b = n \<Longrightarrow> chunks n (a @ b) = [a, b]"
  by (simp add: chunks_append chunks_one)

lemma chunks_padded:
  assumes "64 dvd length full" "length rest < 64" "length ml = 8" "n = length (full @ rest)"
  shows "chunks 64 ((full @ rest) @ blake_pad pb n @ ml) = chunks 64 full @ tail_blocks pb rest ml"
proof -
  have n: "n mod 64 = length rest" using assms by (auto elim!: dvdE)
  have "chunks 64 (rest @ blake_pad pb n @ ml) = tail_blocks pb rest ml"
  proof (cases "length rest < 55")
    case True
    have "blake_pad pb n = 0x80 # replicate (54 - length rest) 0 @ [pb]"
      using True n by (intro blake_pad_long [OF refl]) simp
    then have "blake_pad pb n = take (55 - length rest) padding @ [pb]"
      using True by (simp add: take_padding)
    then show ?thesis using True assms(3)
      by (simp add: tail_blocks_def chunks_one take_padding)
  next
    case False
    show ?thesis
    proof (cases "length rest = 55")
      case True
      then show ?thesis using n assms(3)
        by (simp add: tail_blocks_def chunks_one blake_pad_def)
    next
      case ne: False
      define j where "j = 118 - length rest"
      have "blake_pad pb n = 0x80 # replicate j 0 @ [pb]"
        using False ne n assms(2) by (intro blake_pad_long [OF refl]) (simp add: j_def)
      moreover have "replicate j (0::byte) = replicate (63 - length rest) 0 @ replicate 55 0"
        using assms(2) by (simp add: j_def flip: replicate_add)
      ultimately have "rest @ blake_pad pb n @ ml =
          (rest @ take (64 - length rest) padding) @ (replicate 55 0 @ [pb] @ ml)"
        using assms(2) by (simp add: take_padding)
      moreover have "length (rest @ take (64 - length rest) padding) = 64"
        using assms(2) by (simp add: padding_def)
      ultimately have "chunks 64 (rest @ blake_pad pb n @ ml) =
          [rest @ take (64 - length rest) padding, replicate 55 0 @ [pb] @ ml]"
        using assms(3) by (simp only: chunks_two length_append length_replicate list.size)
      then show ?thesis using False ne by (simp add: tail_blocks_def)
    qed
  qed
  then show ?thesis using assms(1) by (simp add: chunks_append)
qed


section \<open>The hash\<close>

text \<open>What \<open>blake256_final_h\<close> returns, for a context that has absorbed \<open>msg\<close>.\<close>

lemma run_tail_blocks:
  assumes "length h = 8" "n = 64 * j + length rest" "length rest < 64"
  shows "blake_run s n j h (tail_blocks pb rest ml) =
    (if length rest = 55 then compress_spec h s (rest @ [0x80 OR pb] @ ml) (8 * n)
     else if length rest < 55
     then compress_spec h s (rest @ take (55 - length rest) padding @ [pb] @ ml) (if rest = [] then 0 else 8 * n)
     else compress_spec (compress_spec h s (rest @ take (64 - length rest) padding) (8 * n)) s
            (replicate 55 0 @ [pb] @ ml) 0)"
proof -
  have "blake_counter n j = (if rest = [] then 0 else 8 * n)" "blake_counter n (Suc j) = 0"
    using assms(2,3) by (auto simp: blake_counter_def)
  then show ?thesis using assms by (auto simp: tail_blocks_def)
qed

lemma final_message_length:
  assumes "512 dvd c" "r < 512" "counted S c" "buflen S = r"
  shows "blake_t0 S + of_nat (buflen S) = of_nat (c + r)"
    and "(if of_nat (c + r) < (of_nat r :: u32) then blake_t1 S + 1 else blake_t1 S) =
      of_nat ((c + r) div 2 ^ 32)"
proof -
  obtain q where c: "c = 512 * q" using assms(1) by blast
  have "(c + r) mod (512 * 2 ^ 23) = 512 * (q mod 2 ^ 23) + r"
    using assms(2) by (simp only: mod_mult2_eq c) simp
  then have "r \<le> (c + r) mod 2 ^ 32" by simp
  then have "\<not> of_nat (c + r) < (of_nat r :: u32)"
    using assms(2) by (simp add: word_less_nat_alt unat_of_nat not_less del: of_nat_add)
  moreover have "(c + r) div 2 ^ 32 = c div 2 ^ 32"
    using not_multiple(2) [OF assms(1), of r] assms(2) by (cases "r = 0") simp_all
  ultimately show "(if of_nat (c + r) < (of_nat r :: u32) then blake_t1 S + 1 else blake_t1 S) =
      of_nat ((c + r) div 2 ^ 32)"
    using assms(3) by (simp add: counted_def)
  show "blake_t0 S + of_nat (buflen S) = of_nat (c + r)"
    using assms(3,4) by (simp add: counted_def)
qed

lemma final_h_chaining:
  assumes "ready S c rest" "pa = 0x80 OR pb" "n = 64 * j + length rest" "c = 512 * j"
    and "8 * n < 2 ^ 64"
  shows "blake_h (fst (blake256_final_h S pa pb)) =
    blake_run (blake_s S) n j (blake_h S) (tail_blocks pb rest (blake_length_bytes n))"
proof -
  have S: "counted S c" "512 dvd c" "buflen S = 8 * length rest" "length rest < 64" "length (blake_h S) = 8"
    using assms(1) by (simp_all add: ready_def buffered_def sized_def)
  have n8: "c + 8 * length rest = 8 * n" using assms(3,4) by simp
  have "8 * length rest < 512" using S(4) by simp
  note len = final_message_length [OF S(2) this S(1,3), unfolded n8, folded S(3)]
  note ml = msglen_bytes_of_nat [OF assms(5), folded blake_length_bytes_def]
  have lml: "length (blake_length_bytes n) = 8" by (simp add: blake_length_bytes_def)
  note [simp del] = of_nat_mult of_nat_add
  consider "length rest = 55" | "length rest < 55" | "55 < length rest" by linarith
  then show ?thesis
  proof cases
    case 1
    then have "8 * length rest = 440" by simp
    then show ?thesis
      using final_one_byte [OF assms(1) 1 lml, of pa] run_tail_blocks [OF S(5) assms(3) S(4)] S(3) assms(2) 1
      unfolding blake256_final_h_def Let_def len(1) unfolding len(2) ml n8 by (simp split del: if_split)
  next
    case 2
    then have "8 * length rest < 440" "8 * length rest \<noteq> 440" by auto
    then show ?thesis
      using final_short [OF assms(1) 2 lml, of pb] run_tail_blocks [OF S(5) assms(3) S(4)] S(3) 2
      unfolding blake256_final_h_def Let_def len(1) unfolding len(2) ml n8 by (simp split del: if_split)
  next
    case 3
    then have "\<not> 8 * length rest < 440" "8 * length rest \<noteq> 440" by auto
    then show ?thesis
      using final_long [OF assms(1) 3 lml, of pb] run_tail_blocks [OF S(5) assms(3) S(4)] S(3) 3
      unfolding blake256_final_h_def Let_def len(1) unfolding len(2) ml n8 by (simp split del: if_split)
  qed
qed

lemma final_is_spec:
  assumes "length iv = 8" "absorbed (blake_init iv junk) msg S" "8 * length msg < 2 ^ 64"
    and "pa = 0x80 OR pb"
  shows "snd (blake256_final_h S pa pb) = blake_spec iv pb msg"
proof -
  define n where "n = length msg"
  define rest where "rest = drop (64 * (length msg div 64)) msg"
  from assms(2) rest_def obtain full where full: "msg = full @ rest" "64 dvd length full"
    "chunks 64 full = chunks 64 msg" "length rest < 64" "buffered S rest" by (rule absorbed_split)
  define c where "c = 8 * length full"
  let ?S0 = "foldl blake_step (blake_init iv junk) (chunks 64 full)"
  have lf: "64 * length (chunks 64 full) = length full" using full(2) by (simp add: length_chunks)
  have core: "core S = core ?S0" using assms(2) full(3) by (simp add: absorbed_def)
  then have S0: "blake_h S = blake_h ?S0" "blake_s S = [0, 0, 0, 0]" "nullt S = False"
    "blake_t0 S = blake_t0 ?S0" "blake_t1 S = blake_t1 ?S0"
    unfolding core_def by (auto simp: blake_init_def dest: arg_cong [where f = blake_h]
        arg_cong [where f = blake_s] arg_cong [where f = blake_t0] arg_cong [where f = blake_t1]
        arg_cong [where f = nullt])
  have lc: "512 * length (chunks 64 full) = c" using lf by (simp add: c_def)
  have run: "blake_h S = blake_run [0, 0, 0, 0] n 0 iv (chunks 64 full)" "counted ?S0 c" "sized ?S0"
    using run_blocks [OF assms(1), of "chunks 64 full" n junk] chunks_length_all [of _ 64 full] full(1) lf S0(1)
    by (auto simp: n_def lc Let_def)
  have ready: "ready S c rest"
    using run S0 full unfolding ready_def by (auto simp: sized_def counted_def c_def elim!: dvdE)
  have ml: "length (blake_length_bytes n) = 8" by (simp add: blake_length_bytes_def)
  have n8: "8 * n = c + 8 * length rest" by (simp add: n_def c_def full(1))
  have "length (blake_h S) = 8" using ready by (simp add: ready_def sized_def)
  then have "blake_h (fst (blake256_final_h S pa pb)) = blake_run [0, 0, 0, 0] n 0 iv
      (chunks 64 full @ tail_blocks pb rest (blake_length_bytes n))"
    using final_h_chaining [OF ready assms(4), of n "length (chunks 64 full)"] lc lf n8 assms(3) run(1) S0(2)
    by (simp add: blake_run_append n_def full(1))
  also have "\<dots> = blake_run [0, 0, 0, 0] n 0 iv (chunks 64 (msg @ blake_pad pb n @ blake_length_bytes n))"
    using chunks_padded [OF full(2,4) ml, of n pb] by (simp add: n_def full(1))
  finally have "blake_h (fst (blake256_final_h S pa pb)) = \<dots>" .
  moreover have "snd (blake256_final_h S pa pb) =
      concat (map U32TO8 (take 8 (blake_h (fst (blake256_final_h S pa pb)))))"
    by (simp add: blake256_final_h_def Let_def)
  moreover have "length (blake_run s n i h bs) = 8" if "length h = 8" for s n i h bs
    using that by (induction bs arbitrary: i h) simp_all
  ultimately show ?thesis
    using assms(1) by (simp add: blake_spec_def n_def U32TO8_be [abs_def])
qed

section \<open>The hashes\<close>

definition iv256 :: "u32 list" where
  "iv256 = [0x6A09E667, 0xBB67AE85, 0x3C6EF372, 0xA54FF53A,
            0x510E527F, 0x9B05688C, 0x1F83D9AB, 0x5BE0CD19]"

definition iv224 :: "u32 list" where
  "iv224 = [0xC1059ED8, 0x367CD507, 0x3070DD17, 0xF70E5939,
            0xFFC00B31, 0x68581511, 0x64F98FA7, 0xBEFA4FA4]"

lemma blake_inits: "blake256_init junk = blake_init iv256 junk" "blake224_init junk = blake_init iv224 junk"
  by (simp_all add: blake256_init_def blake224_init_def iv256_def iv224_def)

lemma length_ivs [simp]: "length iv256 = 8" "length iv224 = 8"
  by (simp_all add: iv256_def iv224_def)

lemma length_blake_spec: "length iv = 8 \<Longrightarrow> length (blake_spec iv pb msg) = 32"
proof -
  assume iv: "length iv = 8"
  have run: "length h = 8 \<Longrightarrow> length (blake_run s n i h bs) = 8" for s n i h bs
    by (induction bs arbitrary: i h) simp_all
  have "length (concat (map (be_bytes 4) (hs :: u32 list))) = 4 * length hs" for hs
    by (induction hs) (simp_all add: be_bytes_def length_le_bytes)
  then show ?thesis using run [OF iv] by (simp add: blake_spec_def)
qed

lemma bits_of_bytes_small: "8 * n < 2 ^ 64 \<Longrightarrow> bits_of_bytes n = 8 * n"
  by (simp add: bits_of_bytes_def mult.commute)

lemma absorbed_init:
  "length junk = 64 \<Longrightarrow> absorbed (blake_init iv junk) d (blake256_update (blake_init iv junk) d (8 * length d))"
  by (rule update_aligned) (simp_all add: blake_init_def)

lemma final256:
  assumes "absorbed (blake_init iv256 junk) msg S" "8 * length msg < 2 ^ 64"
  shows "snd (blake256_final S) = blake_spec iv256 1 msg"
  unfolding blake256_final_def by (rule final_is_spec [OF _ assms]) simp_all

lemma final224:
  assumes "absorbed (blake_init iv224 junk) msg S" "8 * length msg < 2 ^ 64"
  shows "snd (blake224_final S) = blake_spec iv224 0 msg"
  unfolding blake224_final_def by (rule final_is_spec [OF _ assms]) simp_all

lemma hash256:
  assumes "length junk = 64" "8 * length inp < 2 ^ 64"
  shows "blake256_hash junk inp = blake_spec iv256 1 inp"
  unfolding blake256_hash_def blake_inits bits_of_bytes_small [OF assms(2)]
  by (rule final256 [OF absorbed_init [OF assms(1)] assms(2)])

text \<open>C20: \<open>blake256_hash\<close> is BLAKE-256: for every message whose bit count fits the
  \<^verbatim>\<open>uint64_t\<close> argument and whatever the uninitialised buffer holds, the digest is the
  padded hash of the standard.\<close>

theorem blake256_hash_is_blake256:
  assumes "length junk = 64" and "8 * length inp < 2 ^ 64"
  shows "blake256_hash junk inp = blake_spec iv256 0x01 inp"
  using hash256 [OF assms] by simp

theorem blake256_hash_is_blake256_witness:
  "blake256_hash (replicate 64 0xA5) (replicate 200 0x41) = blake_spec iv256 1 (replicate 200 0x41)"
  using blake256_hash_is_blake256 [of "replicate 64 0xA5" "replicate 200 0x41"] by simp

text \<open>\<open>blake224_hash\<close> is the padded hash with the BLAKE-224 initial value and no
  trailing padding bit. It writes all eight words of the chaining value, 32 bytes and not 28.\<close>

theorem blake224_hash_is_blake224:
  assumes "length junk = 64" and "8 * length inp < 2 ^ 64"
  shows "blake224_hash junk inp = blake_spec iv224 0x00 inp \<and> length (blake224_hash junk inp) = 32"
proof -
  have "blake224_hash junk inp = blake_spec iv224 0 inp"
    unfolding blake224_hash_def blake_inits blake224_update_def bits_of_bytes_small [OF assms(2)]
    by (rule final224 [OF absorbed_init [OF assms(1)] assms(2)])
  then show ?thesis by (simp add: length_blake_spec)
qed

theorem blake224_hash_is_blake224_witness:
  "length (blake224_hash (replicate 64 0) [1, 2, 3]) = 32"
  by (rule conjunct2 [OF blake224_hash_is_blake224 [of "replicate 64 0" "[1, 2, 3]"]]) simp_all

text \<open>The block compression of \<open>blake256_compress\<close>, with its in-place G macro and its
  round-number sigma rows, computes the standard's compression function (columns, then
  diagonals as columns of rotated rows) with the bit counter \<open>c\<close>, or 0 when \<open>nullt\<close> is set.\<close>

theorem blake256_compress_is_blake:
  assumes "length (blake_h S) = 8" and "length (blake_s S) = 4" and "length block = 64"
    and "c = (if nullt S then 0 else unat (blake_t0 S) + 2 ^ 32 * unat (blake_t1 S))"
  shows "blake256_compress S block = S\<lparr>blake_h := compress_spec (blake_h S) (blake_s S) block c\<rparr>"
proof (rule compress_refines [OF assms(1,2,3)])
  assume n: "\<not> nullt S"
  have "unat (blake_t0 S) < 2 ^ 32" using unsigned_less [of "blake_t0 S"] by simp
  then have "(unat (blake_t0 S) + 2 ^ 32 * unat (blake_t1 S)) div 2 ^ 32 = unat (blake_t1 S)" by simp
  moreover have "(of_nat (unat (blake_t0 S) + 2 ^ 32 * unat (blake_t1 S)) :: u32) = blake_t0 S"
    using \<open>unat (blake_t0 S) < 2 ^ 32\<close> by (subst word_unat_eq_iff) (simp only: unat_of_nat, simp)
  ultimately show "blake_t0 S = of_nat c \<and> blake_t1 S = of_nat (c div 2 ^ 32)"
    using n by (simp add: assms(4) del: of_nat_add)
qed (simp add: assms(4))

theorem blake256_compress_is_blake_witness:
  "blake_h (blake256_compress (blake256_init []) (replicate 64 1)) =
    compress_spec (blake_h (blake256_init [])) [0, 0, 0, 0] (replicate 64 1) 0"
  using blake256_compress_is_blake [of "blake256_init []" "replicate 64 1" 0]
  by (simp add: blake256_init_def blake_init_def)

text \<open>\<open>blake256_update\<close> is incremental when the context has no buffered byte, or when
  the new data stay in the buffer, or fill it and reach beyond it by the code's test
  \<^verbatim>\<open>((datalen >> 3) & 0x3F) >= fill\<close>: a digest over two updates is the hash of the
  concatenation.\<close>

theorem blake256_update_incremental:
  assumes "length junk = 64" and "8 * length (xs @ d) < 2 ^ 64"
    and "length xs mod 64 = 0 \<or> d \<noteq> [] \<and> (length d < 64 \<or> 64 - length xs mod 64 \<le> length d mod 64)"
  shows "snd (blake256_final (blake256_update (blake256_update (blake256_init junk) xs (8 * length xs))
    d (8 * length d))) = blake_spec iv256 1 (xs @ d)"
proof -
  let ?S = "blake256_update (blake256_init junk) xs (8 * length xs)"
  have "absorbed (blake_init iv256 junk) xs ?S"
    using absorbed_init [OF assms(1), of iv256 xs] by (simp add: blake_inits)
  then have "absorbed (blake_init iv256 junk) (xs @ d) (blake256_update ?S d (8 * length d))"
    by (rule update_incremental) (use assms(3) in \<open>simp add: dvd_eq_mod_eq_0\<close>)
  then show ?thesis by (rule final256) (rule assms(2))
qed

theorem blake256_update_incremental_witness:
  "snd (blake256_final (blake256_update (blake256_update (blake256_init (replicate 64 0)) [1, 2] 16) [3] 8))
    = blake_spec iv256 1 [1, 2, 3]"
  using blake256_update_incremental [of "replicate 64 0" "[1, 2]" "[3]"] by simp

text \<open>C36: and nowhere else: when bytes are buffered and the new data are whole blocks, the test
  fails, the blocks are digested ahead of the buffered bytes, and those are then dropped. The
  digest is that of the new data alone, whatever was fed before.\<close>

theorem blake256_update_drops_buffered:
  assumes "length junk = 64" and "8 * length d < 2 ^ 64"
    and "0 < length xs" and "length xs < 64" and "length d mod 64 = 0"
  shows "snd (blake256_final (blake256_update (blake256_update (blake256_init junk) xs (8 * length xs))
    d (8 * length d))) = blake_spec iv256 1 d"
proof -
  let ?init = "blake_init iv256 junk" and ?S = "blake256_update (blake256_init junk) xs (8 * length xs)"
  have a: "absorbed ?init xs ?S" using absorbed_init [OF assms(1), of iv256 xs] by (simp add: blake_inits)
  then have S: "core ?S = core ?init" "buffered ?S xs"
    using assms(4) by (simp_all add: absorbed_def chunks_short)
  have "blake256_update ?S d (8 * length d) = (foldl blake_step ?S (chunks 64 d))\<lparr>buflen := 0\<rparr>"
    using S(2) assms(4,5) by (simp add: buffered_def update_direct [of _ "length xs"] blake_while_fold update_tail_def)
  moreover have "core (foldl blake_step ?S (chunks 64 d)) = core (foldl blake_step ?init (chunks 64 d))"
    using S(1) by (simp add: foldl_blake_step_core)
  ultimately have "absorbed ?init d (blake256_update ?S d (8 * length d))"
    using S(2) assms(5) by (simp add: absorbed_def buffered_def core_def minus_mod_eq_mult_div [symmetric])
  then show ?thesis by (rule final256) (rule assms(2))
qed

theorem blake256_update_drops_buffered_witness:
  "snd (blake256_final (blake256_update (blake256_update (blake256_init (replicate 64 0)) [1, 2, 3] 24)
    (replicate 64 7) 512)) = blake_spec iv256 1 (replicate 64 7)"
  using blake256_update_drops_buffered [of "replicate 64 0" "replicate 64 7" "[1, 2, 3]"] by simp

section \<open>HMAC\<close>

lemma hmac_pad_xor:
  assumes "length key \<le> 64"
  shows "hmac_pad x key = map (\<lambda>i. if i < length key then x XOR key ! i else x) [0..<64]"
proof -
  have "length (fold (\<lambda>i. xor_at i (key ! i)) is st) = length st" for "is" st
    by (induction "is" arbitrary: st) simp_all
  moreover have "k < length st \<Longrightarrow> n \<le> length st \<Longrightarrow> fold (\<lambda>i. xor_at i (key ! i)) [0..<n] st ! k =
      (if k < n then st ! k XOR key ! k else st ! k)" for k n st
  proof (induction n)
    case (Suc n)
    then show ?case using calculation [of "[0..<n]" st]
      by (auto simp: nth_xor_at less_Suc_eq)
  qed simp
  ultimately show ?thesis
    using assms by (intro nth_equalityI) (simp_all add: hmac_pad_def)
qed

lemma length_hmac_pad: "length key \<le> 64 \<Longrightarrow> length (hmac_pad x key) = 64"
  by (simp add: hmac_pad_xor)

lemma hmac_absorbed:
  assumes "length junk = 64" "length pad = 64"
  shows "absorbed (blake_init iv junk) (pad @ d)
    (blake256_update (blake256_update (blake_init iv junk) pad 512) d (8 * length d))"
  using update_incremental [OF absorbed_init [OF assms(1), of iv pad], of d] assms(2) by simp

definition hmac_spec :: "(byte list \<Rightarrow> byte list) \<Rightarrow> byte list \<Rightarrow> byte list \<Rightarrow> byte list" where
  "hmac_spec H key msg =
    (let pad = (\<lambda>x. map (\<lambda>i. if i < length key then x XOR key ! i else x) [0..<64])
     in H (pad 0x5c @ H (pad 0x36 @ msg)))"

text \<open>C37: \<open>hmac_blake256_hash\<close> is HMAC over BLAKE-256, keys longer than a block being
  hashed first.\<close>

theorem hmac_blake256_hash_is_hmac:
  assumes "length junk = 64" and "8 * length key < 2 ^ 64" and "8 * (64 + length inp) < 2 ^ 64"
  shows "hmac_blake256_hash junk key inp = hmac_spec (blake_spec iv256 1)
    (if 64 < length key then blake_spec iv256 1 key else key) inp"
proof -
  define k where "k = (if 64 < length key then blake256_hash junk key else key)"
  have k: "length k \<le> 64" "k = (if 64 < length key then blake_spec iv256 1 key else key)"
    using hash256 [OF assms(1,2)] by (simp_all add: k_def length_blake_spec)
  note pads = hmac_absorbed [OF assms(1) length_hmac_pad [OF k(1)], of iv256]
  let ?ih = "blake_spec iv256 1 (hmac_pad 0x36 k @ inp)"
  have i: "snd (blake256_final (blake256_update (blake256_update (blake256_init junk) (hmac_pad 0x36 k) 512)
      inp (8 * length inp))) = ?ih"
    unfolding blake_inits by (rule final256 [OF pads]) (use assms(3) k in \<open>simp add: length_hmac_pad\<close>)
  have "length ?ih = 32" by (simp add: length_blake_spec)
  then have o: "snd (blake256_final (blake256_update (blake256_update (blake256_init junk) (hmac_pad 0x5c k) 512)
      ?ih 256)) = blake_spec iv256 1 (hmac_pad 0x5c k @ ?ih)"
    using final256 [OF pads, where d1 = ?ih and x2 = "0x5c"] k by (simp add: length_hmac_pad blake_inits)
  have bits: "bits_of_bytes (length inp) = 8 * length inp"
    using assms(3) by (intro bits_of_bytes_small) simp
  show ?thesis
    using i o by (simp add: hmac_blake256_hash_def hmac_blake256_init_def hmac_blake256_update_def
        hmac_blake256_final_def bits k_def [symmetric] k(2) [symmetric] hmac_spec_def hmac_pad_xor [OF k(1)]
        case_prod_beta' Let_def)
qed

theorem hmac_blake256_hash_is_hmac_witness:
  "hmac_blake256_hash (replicate 64 0) (replicate 65 1) [2] =
    hmac_spec (blake_spec iv256 1) (blake_spec iv256 1 (replicate 65 1)) [2]"
  using hmac_blake256_hash_is_hmac [of "replicate 64 0" "replicate 65 1" "[2]"] by simp

text \<open>\<open>hmac_blake224_init\<close> hashes a long key with \<open>blake256_hash\<close>: the pads it
  absorbs come from 28 bytes of the BLAKE-256 digest of the key, not from its BLAKE-224 digest.\<close>

theorem hmac_blake224_long_key:
  assumes "length junk = 64" and "64 < length key" and "8 * length key < 2 ^ 64"
  shows "hmac_blake224_init junk key = hmac_blake224_init junk (take 28 (blake_spec iv256 1 key))"
  using assms hash256 [OF assms(1,3)] by (simp add: hmac_blake224_init_def Let_def length_blake_spec)

theorem hmac_blake224_long_key_witness:
  "hmac_blake224_init (replicate 64 0) (replicate 65 1) =
    hmac_blake224_init (replicate 64 0) (take 28 (blake_spec iv256 1 (replicate 65 1)))"
  using hmac_blake224_long_key [of "replicate 64 0" "replicate 65 1"] by simp
end
