(* ===== verification/Job.thy ===== *)
theory Job
  imports Prelude
begin

text \<open>
  Mining jobs and results: \<^verbatim>\<open>src/net/Job.cpp\<close>, \<^verbatim>\<open>Job.h\<close>,
  \<^verbatim>\<open>JobId.h\<close> and \<^verbatim>\<open>JobResult.h\<close>. C strings are HOL strings without
  the terminator; \<open>None\<close> of type \<open>string option\<close> is the null pointer. What a function reads from
  uninitialised stack memory is its argument \<open>junk\<close>. The proxy build's raw copies
  (\<^verbatim>\<open>XMRIG_PROXY_PROJECT\<close>) are not compiled into the miner and not modelled.
\<close>

section \<open>Hexadecimal\<close>

text \<open>\<open>hf_hex2bin\<close> returns the digit and whether it set \<^verbatim>\<open>err\<close>.\<close>

definition hf_hex2bin :: "char \<Rightarrow> byte \<times> bool" where
  "hf_hex2bin ch =
    (let c = (of_char ch :: nat)
     in if of_char (CHR ''0'') \<le> c \<and> c \<le> of_char (CHR ''9'') then (of_nat (c - of_char (CHR ''0'')), False)
        else if of_char (CHR ''a'') \<le> c \<and> c \<le> of_char (CHR ''f'') then (of_nat (c - of_char (CHR ''a'') + 0xA), False)
        else if of_char (CHR ''A'') \<le> c \<and> c \<le> of_char (CHR ''F'') then (of_nat (c - of_char (CHR ''A'') + 0xA), False)
        else (0, True))"

definition hf_bin2hex :: "byte \<Rightarrow> char" where
  "hf_bin2hex c =
    (if c \<le> 9 then char_of (of_char (CHR ''0'') + unat c :: nat)
     else char_of (of_char (CHR ''a'') - 0xA + unat c :: nat))"

text \<open>
  The loop of \<open>Job::fromHex\<close> at index \<open>i\<close>: the byte is stored before the error is looked
  at, so a failed call leaves the bytes before the bad digit, and one more, in \<open>out\<close>.
\<close>

function fromHex_at :: "string \<Rightarrow> nat \<Rightarrow> nat \<Rightarrow> byte list \<Rightarrow> bool \<times> byte list" where
  "fromHex_at inp len i out =
    (if i < len
     then let (hi, e1) = hf_hex2bin (inp ! i);
              (lo, e2) = hf_hex2bin (inp ! (i + 1));
              out = out[i div 2 := push_bit 4 hi OR lo]
          in if e1 \<or> e2 then (False, out) else fromHex_at inp len (i + 2) out
     else (True, out))"
  by pat_completeness auto
termination
  by (relation "measure (\<lambda>(inp, len, i, out). len - i)") auto

declare fromHex_at.simps [simp del]

definition fromHex :: "string \<Rightarrow> nat \<Rightarrow> byte list \<Rightarrow> bool \<times> byte list" where
  "fromHex inp len out = fromHex_at inp len 0 out"

definition toHex :: "byte list \<Rightarrow> nat \<Rightarrow> string" where
  "toHex inp len =
    concat (map (\<lambda>i. [hf_bin2hex (drop_bit 4 (inp ! i AND 0xF0)), hf_bin2hex (inp ! i AND 0x0F)]) [0..<len])"

section \<open>Job identifiers\<close>

text \<open>\<^verbatim>\<open>char m_data[64]\<close>\<close>

type_synonym JobId = "char list"

definition JobId_empty :: JobId where
  "JobId_empty = replicate 64 (CHR 0x00)"

text \<open>
  \<open>JobId::setId\<close>: the new contents and the result. \<open>size - sizeFix\<close> is a
  \<^verbatim>\<open>size_t\<close>; no caller passes a \<open>sizeFix\<close> above the length.
\<close>

definition JobId_setId :: "string option \<Rightarrow> nat \<Rightarrow> JobId \<times> bool" where
  "JobId_setId t sizeFix =
    (case t of
       None \<Rightarrow> (JobId_empty, False)
     | Some s \<Rightarrow>
         (if 64 \<le> length s then (JobId_empty, False)
          else (take (length s - sizeFix) s @ drop (length s - sizeFix) JobId_empty, True)))"

definition JobId_eq :: "JobId \<Rightarrow> JobId \<Rightarrow> bool" where
  "JobId_eq a b \<longleftrightarrow> take 64 a = take 64 b"

definition JobId_isValid :: "JobId \<Rightarrow> bool" where
  "JobId_isValid a \<longleftrightarrow> a ! 0 \<noteq> CHR 0x00"

text \<open>What \<^verbatim>\<open>printf("%s", id.data())\<close> shows.\<close>

definition JobId_data :: "JobId \<Rightarrow> string" where
  "JobId_data a = takeWhile (\<lambda>c. c \<noteq> CHR 0x00) a"

section \<open>Jobs\<close>

record job =
  m_blob :: "byte list"
  m_nicehash :: bool
  m_poolId :: int
  m_threadId :: int
  m_id :: JobId
  m_size :: nat
  m_diff :: u64
  m_target :: u64

text \<open>The constructor does not initialise \<^verbatim>\<open>m_blob[84]\<close>.\<close>

definition Job :: "byte list \<Rightarrow> int \<Rightarrow> bool \<Rightarrow> job" where
  "Job junk poolId nicehash =
    \<lparr>m_blob = take 84 junk, m_nicehash = nicehash, m_poolId = poolId, m_threadId = -1,
     m_id = JobId_empty, m_size = 0, m_diff = 0, m_target = 0\<rparr>"

text \<open>\<^verbatim>\<open>*reinterpret_cast<uint32_t*>(m_blob + 39)\<close>\<close>

definition nonce_at :: "byte list \<Rightarrow> u32" where
  "nonce_at blob = word_of_le (take 4 (drop 39 blob))"

definition isValid :: "job \<Rightarrow> bool" where
  "isValid j \<longleftrightarrow> 0 < m_size j \<and> 0 < m_diff j"

definition diff :: "job \<Rightarrow> u32" where
  "diff j = ucast (m_diff j)"

text \<open>\<open>toDiff\<close> divides by the target; \<open>None\<close> is the division by zero.\<close>

definition toDiff :: "u64 \<Rightarrow> u64 option" where
  "toDiff target = (if target = 0 then None else Some (0xFFFFFFFFFFFFFFFF div target))"

definition Job_setId :: "job \<Rightarrow> string option \<Rightarrow> job \<times> bool" where
  "Job_setId j s = (let (d, ok) = JobId_setId s 0 in (j\<lparr>m_id := d\<rparr>, ok))"

definition setBlob :: "job \<Rightarrow> string option \<Rightarrow> job \<times> bool" where
  "setBlob j blob =
    (case blob of
       None \<Rightarrow> (j, False)
     | Some s \<Rightarrow>
        (let j = j\<lparr>m_size := length s\<rparr>
         in if m_size j mod 2 \<noteq> 0 then (j, False)
            else let j = j\<lparr>m_size := m_size j div 2\<rparr>
              in if m_size j < 76 \<or> 84 \<le> m_size j then (j, False)
                 else let (ok, out) = fromHex s (m_size j * 2) (m_blob j);
                          j = j\<lparr>m_blob := out\<rparr>
                   in if \<not> ok then (j, False)
                      else if nonce_at (m_blob j) \<noteq> 0 \<and> \<not> m_nicehash j
                           then (j\<lparr>m_nicehash := True\<rparr>, True)
                           else (j, True)))"

text \<open>
  \<open>Job::setTarget\<close>: \<^verbatim>\<open>char str[8]\<close> (or 16) is filled with the string's characters
  and read in full, so a shorter string is completed by whatever the stack held.
\<close>

definition setTarget :: "string \<Rightarrow> job \<Rightarrow> string option \<Rightarrow> job \<times> bool" where
  "setTarget junk j target =
    (case target of
       None \<Rightarrow> (j, False)
     | Some s \<Rightarrow>
        (let len = length s
         in if len \<le> 8
            then let (ok, out) = fromHex (s @ drop len (take 8 junk)) 8 (replicate 4 0);
                     tmp = (word_of_le out :: u32)
                 in if \<not> ok \<or> tmp = 0 then (j, False)
                    else let j = j\<lparr>m_target := 0xFFFFFFFFFFFFFFFF div (0xFFFFFFFF div ucast tmp)\<rparr>
                         in (j\<lparr>m_diff := the (toDiff (m_target j))\<rparr>, True)
            else if len \<le> 16
            then let (ok, out) = fromHex (s @ drop len (take 16 junk)) 16 (replicate 8 0);
                     j = j\<lparr>m_target := word_of_le out\<rparr>
                 in if \<not> ok \<or> m_target j = 0 then (j, False)
                    else (j\<lparr>m_diff := the (toDiff (m_target j))\<rparr>, True)
            else (j, False)))"

definition Job_eq :: "job \<Rightarrow> job \<Rightarrow> bool" where
  "Job_eq a b \<longleftrightarrow> JobId_eq (m_id a) (m_id b) \<and> take 84 (m_blob a) = take 84 (m_blob b)"

section \<open>Results\<close>

record JobResult =
  poolId :: int
  jobId :: JobId
  r_diff :: u32
  nonce :: u32
  result :: "byte list"

text \<open>The constructor from a job leaves \<^verbatim>\<open>result[32]\<close> to the caller.\<close>

definition JobResult_of :: "byte list \<Rightarrow> job \<Rightarrow> JobResult" where
  "JobResult_of junk j =
    \<lparr>poolId = m_poolId j, jobId = m_id j, r_diff = diff j, nonce = nonce_at (m_blob j), result = junk\<rparr>"

text \<open>\<^verbatim>\<open>operator=\<close> keeps the nonce and the hash.\<close>

definition JobResult_assign :: "JobResult \<Rightarrow> job \<Rightarrow> JobResult" where
  "JobResult_assign r j = r\<lparr>jobId := m_id j, poolId := m_poolId j, r_diff := diff j\<rparr>"

definition hash_word :: "byte list \<Rightarrow> u64" where
  "hash_word h = word_of_le (take 8 (drop 24 h))"

definition actualDiff :: "JobResult \<Rightarrow> u64 option" where
  "actualDiff r = toDiff (hash_word (result r))"

section \<open>Hexadecimal\<close>

definition is_hex :: "char \<Rightarrow> bool" where
  "is_hex c \<longleftrightarrow> \<not> snd (hf_hex2bin c)"

definition hex_val :: "char \<Rightarrow> byte" where
  "hex_val c = fst (hf_hex2bin c)"

fun hex_bytes :: "string \<Rightarrow> byte list" where
  "hex_bytes (a # b # s) = (push_bit 4 (hex_val a) OR hex_val b) # hex_bytes s"
| "hex_bytes _ = []"

lemma length_hex_bytes [simp]: "length (hex_bytes s) = length s div 2"
  by (induction s rule: hex_bytes.induct) simp_all

lemma hex_bytes_append: "even (length s) \<Longrightarrow> hex_bytes (s @ t) = hex_bytes s @ hex_bytes t"
  by (induction s rule: hex_bytes.induct) simp_all

lemma fromHex_at_step:
  "i < len \<Longrightarrow> fromHex_at inp len i out =
    (let out = out[i div 2 := push_bit 4 (hex_val (inp ! i)) OR hex_val (inp ! (i + 1))]
     in if is_hex (inp ! i) \<and> is_hex (inp ! (i + 1)) then fromHex_at inp len (i + 2) out else (False, out))"
  by (subst fromHex_at.simps) (simp add: is_hex_def hex_val_def case_prod_beta' Let_def)

lemma fromHex_at_end: "len \<le> i \<Longrightarrow> fromHex_at inp len i out = (True, out)"
  by (subst fromHex_at.simps) simp

lemma fromHex_at_suffix:
  assumes "even (length s)" "length pre = 2 * n" "length s div 2 \<le> length out - n" "n \<le> length out"
    "list_all is_hex s"
  shows "fromHex_at (pre @ s) (2 * n + length s) (2 * n) out =
    (True, take n out @ hex_bytes s @ drop (n + length s div 2) out)"
  using assms
proof (induction s arbitrary: pre n out rule: hex_bytes.induct)
  case (1 a b s)
  let ?v = "push_bit 4 (hex_val a) OR hex_val b"
  have n: "n < length out" using 1(4) by simp
  have "fromHex_at (pre @ a # b # s) (2 * n + length (a # b # s)) (2 * n) out =
      fromHex_at ((pre @ [a, b]) @ s) (2 * Suc n + length s) (2 * Suc n) (out[n := ?v])"
    using 1(3,6) by (subst fromHex_at_step) (simp_all add: nth_append)
  also have "\<dots> = (True, take (Suc n) (out[n := ?v]) @ hex_bytes s @ drop (Suc n + length s div 2) (out[n := ?v]))"
    using 1(2,3,4,6) n by (intro 1(1)) auto
  also have "take (Suc n) (out[n := ?v]) = take n out @ [?v]"
    using n by (simp add: take_Suc_conv_app_nth)
  finally show ?case using n by simp
qed (simp_all add: fromHex_at_end)

lemma fromHex_at_fails:
  assumes "even (length s)" "length pre = 2 * n" "\<not> list_all is_hex s"
  shows "\<not> fst (fromHex_at (pre @ s) (2 * n + length s) (2 * n) out)"
  using assms
proof (induction s arbitrary: pre n out rule: hex_bytes.induct)
  case (1 a b s)
  show ?case
  proof (cases "is_hex a \<and> is_hex b")
    case True
    then have "\<not> fst (fromHex_at ((pre @ [a, b]) @ s) (2 * Suc n + length s) (2 * Suc n) out)" for out
      using 1(2-) by (intro 1(1)) auto
    then show ?thesis using True 1(3) by (subst fromHex_at_step) (simp_all add: nth_append Let_def)
  next
    case False
    then show ?thesis using 1(3) by (subst fromHex_at_step) (auto simp: nth_append Let_def)
  qed
qed simp_all

text \<open>\<open>fromHex\<close> on an even number of characters that fit the buffer.\<close>

lemma fromHex_ok:
  assumes "even (length s)" "length s div 2 \<le> length out" "list_all is_hex s"
  shows "fromHex s (length s) out = (True, hex_bytes s @ drop (length s div 2) out)"
  using fromHex_at_suffix [of s "[]" 0 out] assms by (simp add: fromHex_def)

lemma fromHex_bad:
  assumes "even (length s)" "\<not> list_all is_hex s"
  shows "\<not> fst (fromHex s (length s) out)"
  using fromHex_at_fails [of s "[]" 0 out] assms by (simp add: fromHex_def)

lemma fst_fromHex:
  assumes "even (length s)" "length s div 2 \<le> length out"
  shows "fst (fromHex s (length s) out) \<longleftrightarrow> list_all is_hex s"
  using fromHex_ok [OF assms] fromHex_bad [OF assms(1)] by auto

lemma hex2bin_bin2hex: "c < 16 \<Longrightarrow> hf_hex2bin (hf_bin2hex c) = (c, False)"
proof -
  assume "c < 16"
  then have "unat c \<in> set [0..<16]" by (simp add: word_less_nat_alt)
  moreover have "hf_hex2bin (hf_bin2hex (of_nat n)) = (of_nat n, False)" if "n \<in> set [0..<16]" for n
    using that by (auto simp: upt_rec hf_hex2bin_def hf_bin2hex_def Let_def)
  ultimately show ?thesis by fastforce
qed


lemma is_hex_bin2hex: "c < 16 \<Longrightarrow> is_hex (hf_bin2hex c)" "c < 16 \<Longrightarrow> hex_val (hf_bin2hex c) = c"
  by (simp_all add: is_hex_def hex_val_def hex2bin_bin2hex)

definition hex_digits :: "byte \<Rightarrow> string" where
  "hex_digits b = [hf_bin2hex (drop_bit 4 (b AND 0xF0)), hf_bin2hex (b AND 0x0F)]"

lemma toHex_map: "toHex inp (length inp) = concat (map hex_digits inp)"
proof -
  have "map (\<lambda>i. hex_digits (inp ! i)) [0..<length inp] = map hex_digits inp"
    by (rule nth_equalityI) simp_all
  then show ?thesis by (simp add: toHex_def hex_digits_def [abs_def])
qed

lemma nibbles:
  fixes b :: byte
  shows "drop_bit 4 (b AND 0xF0) < 16" "b AND 0x0F < 16"
    "push_bit 4 (drop_bit 4 (b AND 0xF0)) OR (b AND 0x0F) = b"
proof -
  have m: "(0xF0::byte) = push_bit 4 (mask 4)" "(0x0F::byte) = mask 4" by (simp_all add: mask_eq_exp_minus_1)
  have "b AND 0x0F \<le> 0x0F" by (rule word_and_le1)
  then show "b AND 0x0F < 16" by (rule order.strict_trans1) simp
  have "unat (b AND 0xF0) < 2 ^ 8" using unsigned_less [of "b AND 0xF0"] by simp
  then show "drop_bit 4 (b AND 0xF0) < 16"
    by (simp add: word_less_nat_alt unat_drop_bit_eq drop_bit_eq_div unat_div less_mult_imp_div_less)
  show "push_bit 4 (drop_bit 4 (b AND 0xF0)) OR (b AND 0x0F) = b"
    unfolding m by (rule bit_word_eqI) (auto simp: bit_simps)
qed

lemma hex_bytes_digits: "hex_bytes (hex_digits b @ s) = b # hex_bytes s" "list_all is_hex (hex_digits b)"
  by (simp_all only: hex_digits_def append.simps hex_bytes.simps is_hex_bin2hex nibbles list.pred_inject
      simp_thms)

lemma hex_bytes_toHex: "hex_bytes (concat (map hex_digits bs)) = bs"
  "length (concat (map hex_digits bs)) = 2 * length bs" "list_all is_hex (concat (map hex_digits bs))"
  by (induction bs) (simp_all add: hex_bytes_digits, simp_all add: hex_digits_def)

lemma is_hex_iff: "is_hex c \<longleftrightarrow> c \<in> set ''0123456789abcdefABCDEF''"
proof -
  have "\<forall>c. is_hex c = (c \<in> set ''0123456789abcdefABCDEF'')" by code_simp
  then show ?thesis by blast
qed

lemma fromHex_full:
  assumes "length s = 2 * length out" "list_all is_hex s"
  shows "fromHex s (2 * length out) out = (True, hex_bytes s)"
  using fromHex_ok [of s out] assms by simp

section \<open>Blobs\<close>

lemma setBlob_length_fails:
  "odd (length s) \<or> length s < 152 \<or> 168 \<le> length s \<Longrightarrow> \<not> snd (setBlob j (Some s))"
  by (auto simp: setBlob_def Let_def odd_iff_mod_2_eq_one)

lemma setBlob_cases:
  assumes "length (m_blob j) = 84" "even (length s)" "152 \<le> length s" "length s < 168"
  shows "list_all is_hex s \<Longrightarrow> setBlob j (Some s) =
      (j\<lparr>m_size := length s div 2, m_blob := hex_bytes s @ drop (length s div 2) (m_blob j),
         m_nicehash := m_nicehash j \<or> nonce_at (hex_bytes s) \<noteq> 0\<rparr>, True)"
    and "\<not> list_all is_hex s \<Longrightarrow> \<not> snd (setBlob j (Some s))"
proof -
  have l: "length s div 2 * 2 = length s" "\<not> length s div 2 < 76" "\<not> 84 \<le> length s div 2" "length s mod 2 = 0"
    using assms(2-) by auto
  have n: "nonce_at (hex_bytes s @ xs) = nonce_at (hex_bytes s)" for xs
    using assms(3) by (simp add: nonce_at_def)
  show "setBlob j (Some s) =
      (j\<lparr>m_size := length s div 2, m_blob := hex_bytes s @ drop (length s div 2) (m_blob j),
         m_nicehash := m_nicehash j \<or> nonce_at (hex_bytes s) \<noteq> 0\<rparr>, True)"
    if "list_all is_hex s"
    using fromHex_ok [of s "m_blob j"] that assms l
    by (cases j) (auto simp: setBlob_def Let_def n)
  show "\<not> snd (setBlob j (Some s))" if "\<not> list_all is_hex s"
    using fromHex_bad [of s "m_blob j"] that assms(2) l
    by (simp add: setBlob_def Let_def case_prod_beta')
qed

lemma setBlob_succeeds_iff:
  assumes "length (m_blob j) = 84"
  shows "snd (setBlob j (Some s)) \<longleftrightarrow>
    even (length s) \<and> 152 \<le> length s \<and> length s < 168 \<and> list_all is_hex s"
  using setBlob_cases [OF assms, of s] setBlob_length_fails [of s j] by (cases "list_all is_hex s") force+

lemma setBlob_result:
  assumes "length (m_blob j) = 84" "snd (setBlob j (Some s))"
  shows "fst (setBlob j (Some s)) =
    j\<lparr>m_size := length s div 2, m_blob := hex_bytes s @ drop (length s div 2) (m_blob j),
      m_nicehash := m_nicehash j \<or> nonce_at (hex_bytes s) \<noteq> 0\<rparr>"
  using setBlob_cases(1) [OF assms(1), of s] setBlob_succeeds_iff [OF assms(1), of s] assms(2) by simp

section \<open>Targets\<close>

lemma nat_div_div:
  fixes N q :: nat
  assumes "0 < q" "q * q \<le> N"
  shows "N div (N div q) = q"
proof -
  define t where "t = N div q"
  have "q \<le> t" using div_le_mono [OF assms(2), of q] assms(1) by (simp add: t_def)
  moreover have "N mod q < q" using assms(1) by simp
  moreover have N: "N = q * t + N mod q" by (simp add: t_def)
  ultimately have "N mod q < t" by simp
  then have "(q * t + N mod q) div t = q" by simp
  then show ?thesis using N by (simp add: t_def)
qed

lemma ucast_u32_u64: "unat (ucast (v :: u32) :: u64) = unat v"
proof -
  have "unat v < 2 ^ 32" using unsigned_less [of v] by simp
  then have "unat v < 2 ^ 64" by simp
  then show ?thesis by (simp add: unsigned_ucast_eq take_bit_nat_eq_self)
qed

lemma target_of_difficulty:
  fixes tmp :: u32
  assumes "tmp \<noteq> 0"
  defines "q \<equiv> (0xFFFFFFFF :: u64) div ucast tmp"
  shows "q \<noteq> 0" "(0xFFFFFFFFFFFFFFFF :: u64) div q \<noteq> 0"
    "toDiff (0xFFFFFFFFFFFFFFFF div q) = Some q"
proof -
  have t: "0 < unat tmp" "unat tmp < 2 ^ 32"
    using assms(1) unsigned_less [of tmp] by (simp_all add: unat_gt_0)
  have q: "unat q = 0xFFFFFFFF div unat tmp" by (simp add: q_def unat_div ucast_u32_u64)
  have "0xFFFFFFFF div unat tmp \<ge> 1" using t by (simp add: div_greater_zero_iff Suc_le_eq)
  then have q0: "0 < unat q" using q by simp
  have "unat q \<le> 0xFFFFFFFF" unfolding q by (rule div_le_dividend)
  then have "unat q * unat q \<le> 0xFFFFFFFF * 0xFFFFFFFF" by (intro mult_le_mono)
  then have qq: "unat q * unat q \<le> 0xFFFFFFFFFFFFFFFF" by simp
  show qn: "q \<noteq> 0" using q0 by auto
  have d: "unat (0xFFFFFFFFFFFFFFFF div q) = 0xFFFFFFFFFFFFFFFF div unat q" by (simp add: unat_div)
  have "0 < 0xFFFFFFFFFFFFFFFF div unat q"
    using q0 \<open>unat q \<le> 0xFFFFFFFF\<close> by (simp add: div_greater_zero_iff)
  then show T: "(0xFFFFFFFFFFFFFFFF :: u64) div q \<noteq> 0" using d by (metis unat_0 less_irrefl)
  have "unat (0xFFFFFFFFFFFFFFFF div (0xFFFFFFFFFFFFFFFF div q)) = unat q"
    using nat_div_div [OF q0 qq] by (simp add: unat_div)
  then show "toDiff (0xFFFFFFFFFFFFFFFF div q) = Some q"
    using T by (simp add: toDiff_def word_unat_eq_iff)
qed

lemma setTarget_8:
  fixes tmp :: u32
  assumes "length s = 8" "list_all is_hex s" "tmp = word_of_le (hex_bytes s)"
  shows "setTarget junk j (Some s) = (if tmp = 0 then (j, False)
    else (j\<lparr>m_target := 0xFFFFFFFFFFFFFFFF div (0xFFFFFFFF div ucast tmp),
            m_diff := 0xFFFFFFFF div ucast tmp\<rparr>, True))"
  using fromHex_full [of s "replicate 4 0"] target_of_difficulty [of tmp] assms
  by (simp add: setTarget_def Let_def)

lemma setTarget_16:
  assumes "length s = 16" "list_all is_hex s" "t = word_of_le (hex_bytes s)" "t \<noteq> 0"
  shows "setTarget junk j (Some s) = (j\<lparr>m_target := t, m_diff := 0xFFFFFFFFFFFFFFFF div t\<rparr>, True)"
  using fromHex_full [of s "replicate 8 0"] assms by (simp add: setTarget_def Let_def toDiff_def)

lemma setTarget_short:
  assumes "length s \<le> 8" "length junk = 16"
  shows "snd (setTarget junk j (Some s)) \<longleftrightarrow>
    (let w = s @ drop (length s) (take 8 junk) in list_all is_hex w \<and> word_of_le (hex_bytes w) \<noteq> (0 :: u32))"
proof -
  let ?w = "s @ drop (length s) (take 8 junk)"
  have l: "length ?w = 8" using assms by simp
  show ?thesis
  proof (cases "list_all is_hex ?w")
    case True
    then show ?thesis
      using fromHex_full [of ?w "replicate 4 0"] l assms(1)
      by (simp add: setTarget_def Let_def del: append_eq_conv_conj)
  next
    case False
    then show ?thesis
      using fromHex_bad [OF _ False, unfolded l, of "replicate 4 0"] assms(1)
      by (simp add: setTarget_def Let_def case_prod_beta' del: list_all_append)
  qed
qed

lemma toDiff_antimono:
  fixes a b :: u64
  assumes "a < b" "a \<noteq> 0"
  shows "0xFFFFFFFFFFFFFFFF div b \<le> (0xFFFFFFFFFFFFFFFF :: u64) div a"
proof -
  have "(0xFFFFFFFFFFFFFFFF :: nat) div unat b \<le> 0xFFFFFFFFFFFFFFFF div unat a"
    using assms by (intro div_le_mono2) (simp_all add: word_less_nat_alt unat_gt_0)
  then show ?thesis by (simp add: word_le_nat_alt unat_div)
qed

text \<open>A job whose difficulty is its target's.\<close>

definition diff_ok :: "job \<Rightarrow> bool" where
  "diff_ok j \<longleftrightarrow> toDiff (m_target j) = Some (m_diff j)"

lemma setTarget_diff_ok: "snd (setTarget junk j t) \<Longrightarrow> diff_ok (fst (setTarget junk j t))"
  using target_of_difficulty
  by (auto simp: setTarget_def Let_def diff_ok_def toDiff_def case_prod_beta' split: option.splits if_splits)

section \<open>Identifiers\<close>

definition c_string :: "string \<Rightarrow> bool" where
  "c_string s \<longleftrightarrow> CHR 0x00 \<notin> set s"

lemma JobId_data_setId:
  assumes "c_string s" "length s < 64"
  shows "JobId_data (fst (JobId_setId (Some s) 0)) = s"
proof -
  have "takeWhile (\<lambda>c. c \<noteq> CHR 0x00) s = s" using assms(1) by (auto simp: c_string_def takeWhile_eq_all_conv)
  then show ?thesis using assms
    by (simp add: JobId_data_def JobId_setId_def JobId_empty_def c_string_def takeWhile_append)
qed

lemma length_JobId_setId [simp]: "length (fst (JobId_setId t n)) = 64"
  by (simp add: JobId_setId_def JobId_empty_def split: option.split)

section \<open>Properties\<close>

text \<open>C34: hexadecimal text written by \<open>Job::toHex\<close> is read back by \<open>Job::fromHex\<close> as the same
  bytes, the rest of the output buffer untouched.\<close>

theorem fromHex_toHex:
  assumes "length bs \<le> length out"
  shows "fromHex (toHex bs (length bs)) (2 * length bs) out = (True, bs @ drop (length bs) out)"
  using fromHex_ok [of "concat (map hex_digits bs)" out] assms by (simp add: toHex_map hex_bytes_toHex)

theorem fromHex_toHex_witness:
  "fromHex (toHex [0x1F, 0xA0] 2) 4 [0, 0, 7] = (True, [0x1F, 0xA0, 7])"
  using fromHex_toHex [of "[0x1F, 0xA0]" "[0, 0, 7]"] by (simp flip: numeral_2_eq_2)

text \<open>C33: \<open>setBlob\<close> accepts exactly the hexadecimal strings of 76 to 83 bytes; it then holds
  the decoded bytes followed by what the blob held before, and turns nicehash on when the
  nonce field is not zero. So a blob of 84 bytes, the maximum by the comment on m_blob and
  the size of its array, is refused.\<close>

theorem setBlob_accepts:
  assumes "length (m_blob j) = 84"
  shows "if even (length s) \<and> 152 \<le> length s \<and> length s < 168 \<and> set s \<subseteq> set ''0123456789abcdefABCDEF''
    then setBlob j (Some s) =
      (j\<lparr>m_size := length s div 2, m_blob := hex_bytes s @ drop (length s div 2) (m_blob j),
         m_nicehash := m_nicehash j \<or> nonce_at (hex_bytes s) \<noteq> 0\<rparr>, True)
    else \<not> snd (setBlob j (Some s))"
proof -
  have "list_all is_hex s \<longleftrightarrow> set s \<subseteq> set ''0123456789abcdefABCDEF''"
    unfolding list_all_iff is_hex_iff by blast
  then show ?thesis
    using setBlob_cases(1) [OF assms, of s] setBlob_succeeds_iff [OF assms, of s] by (simp only: split: if_split) blast
qed

theorem setBlob_accepts_witness:
  "setBlob (Job (replicate 84 0xEE) 0 False) (Some (replicate 152 (CHR ''1''))) =
    (Job (replicate 84 0xEE) 0 False\<lparr>m_size := 76, m_blob := replicate 76 0x11 @ replicate 8 0xEE,
       m_nicehash := True\<rparr>, True)"
proof -
  have "hex_bytes (replicate 152 (CHR ''1'')) = replicate 76 0x11" by code_simp
  moreover have "nonce_at (replicate 76 0x11) \<noteq> 0" by code_simp
  ultimately show ?thesis
    using setBlob_accepts [of "Job (replicate 84 0xEE) 0 False" "replicate 152 (CHR ''1'')"]
    by (simp add: Job_def)
qed

text \<open>For a 4-byte target the difficulty survives its conversion to a 64-bit target and
  back: \<open>m_diff\<close> is exactly \<open>0xFFFFFFFF div tmp\<close> of the little-endian value \<open>tmp\<close>.\<close>

theorem setTarget_short_form:
  fixes tmp :: u32
  assumes "length s = 8" and "set s \<subseteq> set ''0123456789abcdefABCDEF''"
    and "tmp = word_of_le (hex_bytes s)" and "tmp \<noteq> 0"
  shows "setTarget junk j (Some s) =
      (j\<lparr>m_target := 0xFFFFFFFFFFFFFFFF div (0xFFFFFFFF div ucast tmp), m_diff := 0xFFFFFFFF div ucast tmp\<rparr>, True)"
proof -
  have "list_all is_hex s" using assms(2) unfolding list_all_iff is_hex_iff by blast
  from setTarget_8 [OF assms(1) this assms(3)] assms(4) show ?thesis by simp
qed

theorem setTarget_short_form_witness:
  "m_diff (fst (setTarget [] (Job [] 0 False) (Some ''b88d0600''))) = 10000"
proof -
  have "word_of_le (hex_bytes ''b88d0600'') = (0x00068db8 :: u32)" by code_simp
  then show ?thesis
    using setTarget_short_form [where s = "''b88d0600''" and tmp = "0x00068db8" and junk = "[]" and j = "Job [] 0 False"]
    by simp
qed

text \<open>A target string shorter than 8 characters is completed from uninitialised stack
  bytes: for every such string the result of the call depends on them, one stack content
  making it fail and another making it succeed.\<close>

theorem setTarget_reads_uninitialised:
  assumes "length s < 8" and "set s \<subseteq> set ''0123456789abcdefABCDEF''"
  shows "\<not> snd (setTarget (replicate 16 (CHR ''?'')) j (Some s))
    \<and> snd (setTarget (replicate 16 (CHR ''f'')) j (Some s))"
proof -
  have hex: "list_all is_hex s" using assms(2) unfolding list_all_iff is_hex_iff by blast
  have q: "\<not> is_hex (CHR ''?'')" "is_hex (CHR ''f'')" by (simp_all add: is_hex_iff)
  obtain n where n: "8 - length s = Suc n" using assms(1) by (cases "8 - length s") auto
  have bad: "\<not> list_all is_hex (s @ replicate (8 - length s) (CHR ''?''))"
    using q n by simp
  let ?w = "s @ replicate (8 - length s) (CHR ''f'')"
  have w: "list_all is_hex ?w" "length ?w = 8" using q hex assms(1) by (simp_all add: list_all_iff)
  have "hex_bytes ?w ! 3 = push_bit 4 (hex_val (?w ! 6)) OR hex_val (?w ! 7)"
  proof -
    have "length v = 8 \<Longrightarrow> hex_bytes v ! 3 = push_bit 4 (hex_val (v ! 6)) OR hex_val (v ! 7)" for v
      by (auto simp: numeral_eq_Suc length_Suc_conv)
    then show ?thesis using w(2) by blast
  qed
  moreover have "?w ! 7 = CHR ''f''" using assms(1) by (simp add: nth_append)
  ultimately have "bit (hex_bytes ?w ! 3) 0"
    by (simp add: bit_simps hex_val_def hf_hex2bin_def)
  then have "bit (word_of_le (hex_bytes ?w) :: u32) 24" using w(2) by (simp add: bit_word_of_le)
  then have "word_of_le (hex_bytes ?w) \<noteq> (0 :: u32)" by auto
  then show ?thesis
    using bad w setTarget_short [of s "replicate 16 (CHR ''?'')" j] setTarget_short [of s "replicate 16 (CHR ''f'')" j] assms(1)
    by (simp add: Let_def min_def)
qed

theorem setTarget_reads_uninitialised_witness:
  "snd (setTarget (replicate 16 (CHR ''?'')) (Job [] 0 False) (Some ''ffff''))
    \<noteq> snd (setTarget (replicate 16 (CHR ''f'')) (Job [] 0 False) (Some ''ffff''))"
  using setTarget_reads_uninitialised [of "''ffff''" "Job [] 0 False"] by simp

text \<open>C25: a share that meets a job's target is worth at least the job's difficulty: when
  \<open>setTarget\<close> has accepted the target and the hash's last word is below it, the
  actual difficulty is at least \<open>m_diff\<close>, or the word is zero, where \<open>actualDiff\<close> divides by zero.\<close>

theorem share_reaches_difficulty:
  assumes "snd (setTarget junk j t)" and "hash_word (result r) < m_target (fst (setTarget junk j t))"
  shows "case actualDiff r of None \<Rightarrow> hash_word (result r) = 0
    | Some d \<Rightarrow> m_diff (fst (setTarget junk j t)) \<le> d"
  using setTarget_diff_ok [OF assms(1)] toDiff_antimono [OF assms(2)]
  by (auto simp: actualDiff_def toDiff_def diff_ok_def split: if_splits)

theorem share_reaches_difficulty_witness:
  "10000 \<le> the (actualDiff (JobResult_of (replicate 31 0 @ [0x00]) (Job [] 0 False)\<lparr>result := replicate 24 0 @ [0, 0, 0, 0, 0, 1, 0, 0]\<rparr>))"
proof -
  have h: "hash_word (replicate 24 0 @ [0, 0, 0, 0, 0, 1, 0, 0]) = 0x10000000000" by code_simp
  have t: "word_of_le (hex_bytes ''b88d0600'') = (0x00068db8 :: u32)" by code_simp
  have "list_all is_hex ''b88d0600''" by code_simp
  note t8 = setTarget_8 [OF _ this t [symmetric], of "[]" "Job [] 0 False"]
  show ?thesis
    using share_reaches_difficulty [of "[]" "Job [] 0 False" "Some ''b88d0600''"
        "JobResult_of (replicate 31 0 @ [0x00]) (Job [] 0 False)\<lparr>result := replicate 24 0 @ [0, 0, 0, 0, 0, 1, 0, 0]\<rparr>"]
    by (simp add: t8 h actualDiff_def toDiff_def)
qed

text \<open>Identifiers of fewer than 64 characters are kept whole, and two stored ones are
  equal exactly when the strings are; longer ones are refused and leave an empty identifier.\<close>

theorem JobId_setId_faithful:
  assumes "c_string s" and "c_string t" and "length s < 64"
  shows "JobId_data (fst (JobId_setId (Some s) 0)) = s
    \<and> (snd (JobId_setId (Some t) 0) \<longleftrightarrow> length t < 64)
    \<and> (JobId_eq (fst (JobId_setId (Some s) 0)) (fst (JobId_setId (Some t) 0)) \<longleftrightarrow>
        s = (if length t < 64 then t else []))"
proof -
  have t: "JobId_data (fst (JobId_setId (Some t) 0)) = (if length t < 64 then t else [])"
    using JobId_data_setId [OF assms(2)] by (simp add: JobId_setId_def JobId_data_def JobId_empty_def)
  have e: "fst (JobId_setId (Some t) 0) = fst (JobId_setId (Some []) 0)" if "64 \<le> length t"
    using that by (simp add: JobId_setId_def)
  have "JobId_eq (fst (JobId_setId (Some s) 0)) (fst (JobId_setId (Some t) 0)) \<longleftrightarrow>
      fst (JobId_setId (Some s) 0) = fst (JobId_setId (Some t) 0)" by (simp add: JobId_eq_def)
  moreover have "snd (JobId_setId (Some t) 0) \<longleftrightarrow> length t < 64" by (simp add: JobId_setId_def)
  ultimately show ?thesis using JobId_data_setId [OF assms(1,3)] t e by (metis leI)
qed

theorem JobId_setId_faithful_witness:
  "\<not> JobId_eq (fst (JobId_setId (Some ''job1'') 0)) (fst (JobId_setId (Some ''job2'') 0))"
  using JobId_setId_faithful [of "''job1''" "''job2''"] by (simp add: c_string_def)

text \<open>The job made of the three strings of a job message, on a stack holding \<open>junk\<close>.\<close>

definition filled_job :: "byte list \<Rightarrow> int \<Rightarrow> bool \<Rightarrow> string option \<Rightarrow> string \<Rightarrow> string \<Rightarrow> string option \<Rightarrow> job" where
  "filled_job junk p n idt s str t =
    fst (setTarget str (fst (setBlob (fst (Job_setId (Job junk p n) idt)) (Some s))) t)"

text \<open>Job equality compares all 84 bytes of the blob although no accepted blob fills them:
  two jobs built from the same id, blob and target strings are equal exactly when the bytes behind
  the blob, which the constructor leaves uninitialised, happen to agree.\<close>

theorem Job_eq_compares_uninitialised:
  assumes "length a = 84" and "length b = 84"
    and "snd (setBlob (fst (Job_setId (Job a p n) idt)) (Some s))"
  shows "Job_eq (filled_job a p n idt s str t) (filled_job b p n idt s str t) \<longleftrightarrow> drop (length s div 2) a = drop (length s div 2) b"
proof -
  have target_frame: "m_blob (fst (setTarget str j t)) = m_blob j \<and> m_id (fst (setTarget str j t)) = m_id j" for j
    by (simp add: setTarget_def Let_def case_prod_beta' split: option.split)
  have j: "length (m_blob (fst (Job_setId (Job x p n) idt))) = 84" if "length x = 84" for x
    using that by (simp add: Job_setId_def Job_def Let_def case_prod_beta')
  have s: "even (length s) \<and> 152 \<le> length s \<and> length s < 168 \<and> list_all is_hex s"
    using assms(3) setBlob_succeeds_iff [OF j [OF assms(1)]] by simp
  have r: "fst (setBlob (fst (Job_setId (Job x p n) idt)) (Some s)) = fst (Job_setId (Job x p n) idt)
      \<lparr>m_size := length s div 2, m_blob := hex_bytes s @ drop (length s div 2) x,
       m_nicehash := n \<or> nonce_at (hex_bytes s) \<noteq> 0\<rparr>" if "length x = 84" for x
    using setBlob_cases(1) [OF j [OF that], of s] s that by (simp add: Job_setId_def Job_def Let_def case_prod_beta')
  have "m_blob (filled_job x p n idt s str t) = hex_bytes s @ drop (length s div 2) x \<and> m_id (filled_job x p n idt s str t) = fst (JobId_setId idt 0)"
    if "length x = 84" for x
    using r [OF that] target_frame by (simp add: filled_job_def Job_setId_def Let_def case_prod_beta')
  then show ?thesis using assms(1,2) s by (simp add: Job_eq_def JobId_eq_def)
qed

theorem Job_eq_compares_uninitialised_witness:
  "\<not> Job_eq (filled_job (replicate 84 0) 0 False (Some ''1'') (replicate 152 (CHR ''0'')) [] (Some ''b88d0600''))
     (filled_job (replicate 84 1) 0 False (Some ''1'') (replicate 152 (CHR ''0'')) [] (Some ''b88d0600''))"
proof -
  have "list_all is_hex (replicate 152 (CHR ''0''))" by code_simp
  then have "snd (setBlob (fst (Job_setId (Job (replicate 84 0) 0 False) (Some ''1''))) (Some (replicate 152 (CHR ''0''))))"
    by (subst setBlob_succeeds_iff) (simp_all add: Job_setId_def Job_def Let_def case_prod_beta')
  from Job_eq_compares_uninitialised [OF _ _ this, of "replicate 84 1" "[]" "Some ''b88d0600''"] show ?thesis
    by simp
qed

end
