(* ===== verification/Url.thy ===== *)
theory Url
  imports Prelude
begin

text \<open>
  Pool addresses, \<^verbatim>\<open>src/net/Url.cpp\<close> and \<^verbatim>\<open>Url.h\<close>, with the C string
  functions they rest on. C strings are HOL strings without the terminator and \<open>None\<close> is the
  null pointer; \<^verbatim>\<open>long\<close> has 64 bits, as on the Unix targets.
\<close>

section \<open>C string functions\<close>

fun strstr :: "string \<Rightarrow> string \<Rightarrow> bool" where
  "strstr hay needle =
    (take (length needle) hay = needle \<or> (case hay of [] \<Rightarrow> False | _ # t \<Rightarrow> strstr t needle))"

declare strstr.simps [simp del]

definition tolower :: "char \<Rightarrow> char" where
  "tolower c = (let n = (of_char c :: nat) in if 65 \<le> n \<and> n \<le> 90 then char_of (n + 32) else c)"

text \<open>\<^verbatim>\<open>strncasecmp(a, b, n) == 0\<close>\<close>

definition strncaseeq :: "string \<Rightarrow> string \<Rightarrow> nat \<Rightarrow> bool" where
  "strncaseeq a b n \<longleftrightarrow> map tolower (take n a) = map tolower (take n b)"

definition isspace :: "char \<Rightarrow> bool" where
  "isspace c = (let n = (of_char c :: nat) in n = 32 \<or> 9 \<le> n \<and> n \<le> 13)"

definition isdigit :: "char \<Rightarrow> bool" where
  "isdigit c = (let n = (of_char c :: nat) in 48 \<le> n \<and> n \<le> 57)"

definition decimal :: "string \<Rightarrow> nat" where
  "decimal s = foldl (\<lambda>v c. 10 * v + (of_char c - 48)) 0 s"

text \<open>\<^verbatim>\<open>strtol(s, nullptr, 10)\<close>, saturating at the ends of \<^verbatim>\<open>long\<close>.\<close>

definition strtol :: "string \<Rightarrow> int" where
  "strtol s =
    (let s = dropWhile isspace s;
         neg = (case s of c # _ \<Rightarrow> c = CHR ''-'' | [] \<Rightarrow> False);
         s = (case s of c # t \<Rightarrow> if c = CHR ''-'' \<or> c = CHR ''+'' then t else s | [] \<Rightarrow> s);
         v = int (decimal (takeWhile isdigit s))
     in if neg then max (- (2 ^ 63)) (- v) else min (2 ^ 63 - 1) v)"

section \<open>The class\<close>

record url =
  m_keepAlive :: bool
  url_nicehash :: bool
  m_host :: "string option"
  m_password :: "string option"
  m_user :: "string option"
  m_port :: "16 word"

definition kDefaultPassword :: string where "kDefaultPassword = ''x''"

definition kDefaultUser :: string where "kDefaultUser = ''x''"

definition kDefaultPort :: "16 word" where "kDefaultPort = 3333"

definition Url_empty :: url where
  "Url_empty = \<lparr>m_keepAlive = False, url_nicehash = False, m_host = None, m_password = None,
     m_user = None, m_port = kDefaultPort\<rparr>"

definition url_isValid :: "url \<Rightarrow> bool" where
  "url_isValid u \<longleftrightarrow> m_host u \<noteq> None \<and> 0 < m_port u"

definition password :: "url \<Rightarrow> string" where
  "password u = (case m_password u of Some p \<Rightarrow> p | None \<Rightarrow> kDefaultPassword)"

definition user :: "url \<Rightarrow> string" where
  "user u = (case m_user u of Some p \<Rightarrow> p | None \<Rightarrow> kDefaultUser)"

definition url_parse :: "url \<Rightarrow> string \<Rightarrow> url \<times> bool" where
  "url_parse u s =
    (let p = strstr s ''://''
     in if p \<and> \<not> strncaseeq s ''stratum+tcp://'' 14 then (u, False)
        else let base = (if p then drop 14 s else s)
          in if base = [] \<or> hd base = CHR ''/'' then (u, False)
             else if CHR '':'' \<notin> set base then (u\<lparr>m_host := Some base\<rparr>, False)
             else let host = takeWhile (\<lambda>c. c \<noteq> CHR '':'') base;
                      port = drop (length host + 1) base
               in (u\<lparr>m_host := Some host, m_port := word_of_int (strtol port)\<rparr>, True))"

text \<open>The constructor from a string ignores the result of \<open>parse\<close>.\<close>

definition Url_of :: "string \<Rightarrow> url" where
  "Url_of s = fst (url_parse Url_empty s)"

definition Url_make :: "string \<Rightarrow> 16 word \<Rightarrow> string option \<Rightarrow> string option \<Rightarrow> bool \<Rightarrow> bool \<Rightarrow> url" where
  "Url_make host port usr pass keepAlive nicehash =
    \<lparr>m_keepAlive = keepAlive, url_nicehash = nicehash, m_host = Some host, m_password = pass,
     m_user = usr, m_port = port\<rparr>"

definition setUserpass :: "url \<Rightarrow> string \<Rightarrow> url \<times> bool" where
  "setUserpass u userpass =
    (if CHR '':'' \<notin> set userpass then (u, False)
     else let p = length (takeWhile (\<lambda>c. c \<noteq> CHR '':'') userpass)
       in (u\<lparr>m_user := Some (take p userpass), m_password := Some (drop (p + 1) userpass)\<rparr>, True))"

definition applyExceptions :: "url \<Rightarrow> url" where
  "applyExceptions u =
    (if \<not> url_isValid u then u
     else let h = the (m_host u);
              u = (if strstr h ''.nicehash.com'' then u\<lparr>m_keepAlive := False, url_nicehash := True\<rparr> else u)
       in if strstr h ''.minergate.com'' then u\<lparr>m_keepAlive := False\<rparr> else u)"

definition setPassword :: "url \<Rightarrow> string option \<Rightarrow> url" where
  "setPassword u p = (case p of None \<Rightarrow> u | Some _ \<Rightarrow> u\<lparr>m_password := p\<rparr>)"

definition setUser :: "url \<Rightarrow> string option \<Rightarrow> url" where
  "setUser u p = (case p of None \<Rightarrow> u | Some _ \<Rightarrow> u\<lparr>m_user := p\<rparr>)"

text \<open>Assignment copies the host with \<^verbatim>\<open>strdup\<close>: \<open>None\<close> when there is no host to copy.\<close>

definition url_assign :: "url \<Rightarrow> url \<Rightarrow> url option" where
  "url_assign u other =
    (let u = u\<lparr>m_keepAlive := m_keepAlive other, url_nicehash := url_nicehash other, m_port := m_port other\<rparr>
     in case m_host other of
          None \<Rightarrow> None
        | Some h \<Rightarrow> Some (setUser (setPassword (u\<lparr>m_host := Some h\<rparr>) (m_password other)) (m_user other)))"

section \<open>Decimal numbers\<close>

fun digits :: "nat \<Rightarrow> string" where
  "digits n = (if n < 10 then [char_of (48 + n)] else digits (n div 10) @ [char_of (48 + n mod 10)])"

declare digits.simps [simp del]

lemma of_char_digit: "(n :: nat) < 10 \<Longrightarrow> (of_char (char_of (48 + n) :: char) :: nat) = 48 + n"
  by (simp)

lemma isdigit_digit: "(n :: nat) < 10 \<Longrightarrow> isdigit (char_of (48 + n))"
  by (simp only: isdigit_def of_char_digit Let_def) simp

lemma digits_isdigit: "list_all isdigit (digits n)"
proof (induction n rule: digits.induct)
  case (1 n)
  show ?case
  proof (cases "n < 10")
    case True
    then show ?thesis by (subst digits.simps) (simp only: if_True list.pred_inject isdigit_digit simp_thms)
  next
    case False
    then show ?thesis using 1 isdigit_digit [of "n mod 10"] by (subst digits.simps) simp
  qed
qed

lemma decimal_snoc: "decimal (s @ [c]) = 10 * decimal s + (of_char c - 48)"
  by (simp add: decimal_def)

lemma decimal_digits: "decimal (digits n) = n"
proof (induction n rule: digits.induct)
  case (1 n)
  show ?case
  proof (cases "n < 10")
    case True
    then show ?thesis using decimal_snoc [of "[]"] of_char_digit [OF True]
      by (subst digits.simps) (simp add: decimal_def)
  next
    case False
    then show ?thesis using 1 of_char_digit [of "n mod 10"]
      by (subst digits.simps) (simp only: decimal_snoc if_False, simp)
  qed
qed

lemma digits_first: "\<exists>c s. digits n = c # s \<and> isdigit c"
  using digits_isdigit [of n] by (cases "digits n") (subst (asm) digits.simps, auto split: if_splits)+

lemma isdigit_not: "isdigit c \<Longrightarrow> \<not> isspace c" "isdigit c \<Longrightarrow> c \<noteq> CHR ''-''"
  "isdigit c \<Longrightarrow> c \<noteq> CHR ''+''"
  by (auto simp: isdigit_def isspace_def Let_def)

lemma strtol_digits:
  assumes "n < 2 ^ 63" shows "strtol (digits n) = int n"
proof -
  obtain c s where c: "digits n = c # s" "isdigit c" using digits_first by blast
  have "dropWhile isspace (digits n) = digits n" using c isdigit_not by simp
  moreover have "takeWhile isdigit (digits n) = digits n"
    using digits_isdigit by (simp add: list_all_iff takeWhile_eq_all_conv)
  moreover have "strtol s = min (2 ^ 63 - 1) (int (decimal (takeWhile isdigit s)))"
    if "dropWhile isspace s = s" "s = c # t" "isdigit c" for s t
    using that(1) isdigit_not(2,3) [OF that(3)] unfolding that(2) by (simp only: strtol_def Let_def) simp
  ultimately have "strtol (digits n) = min (2 ^ 63 - 1) (int (decimal (digits n)))"
    using c by metis
  then show ?thesis using assms by (simp add: decimal_digits)
qed

section \<open>Substrings\<close>

lemma strstr_iff: "strstr hay needle \<longleftrightarrow> (\<exists>a b. hay = a @ needle @ b)"
proof (induction hay)
  case Nil
  show ?case by (subst strstr.simps) auto
next
  case (Cons c t)
  have "take (length needle) (c # t) = needle \<longleftrightarrow> (\<exists>b. c # t = needle @ b)"
    by (metis append_eq_conv_conj append_take_drop_id)
  then show ?case
    by (subst strstr.simps) (auto simp: Cons intro: exI [of _ "[]"], (metis append_Cons append_Nil neq_Nil_conv list.inject)+)
qed

lemma strstr_colon: "CHR '':'' \<notin> set s \<Longrightarrow> \<not> strstr s ''://''"
  by (auto simp: strstr_iff)

section \<open>Parsing\<close>

definition host_ok :: "string \<Rightarrow> bool" where
  "host_ok h \<longleftrightarrow> h \<noteq> [] \<and> CHR '':'' \<notin> set h \<and> hd h \<noteq> CHR ''/''"

text \<open>The scheme in any mixture of cases.\<close>

definition is_scheme :: "string \<Rightarrow> bool" where
  "is_scheme s \<longleftrightarrow> map tolower s = ''stratum+tcp://''"

lemma scheme_length: "is_scheme s \<Longrightarrow> length s = 14"
  unfolding is_scheme_def by (drule arg_cong [where f = length]) simp

lemma tolower_stratum: "map tolower ''stratum+tcp://'' = ''stratum+tcp://''"
  by code_simp

lemma tolower_sym: "(tolower c = CHR '':'') = (c = CHR '':'')" "(tolower c = CHR ''/'') = (c = CHR ''/'')"
proof -
  have "\<forall>c. (tolower c = CHR '':'') = (c = CHR '':'') \<and> (tolower c = CHR ''/'') = (c = CHR ''/'')"
    by code_simp
  then show "(tolower c = CHR '':'') = (c = CHR '':'')" "(tolower c = CHR ''/'') = (c = CHR ''/'')" by blast+
qed

lemma scheme_tail: assumes "is_scheme s" shows "drop 11 s = ''://''"
proof -
  have "map tolower (drop 11 s) = drop 11 (map tolower s)" by (simp add: drop_map)
  then have "map tolower (drop 11 s) = ''://''" using assms by (simp add: is_scheme_def)
  then show ?thesis by (auto simp: map_eq_Cons_conv tolower_sym)
qed

text \<open>What \<open>parse\<close> does after the scheme.\<close>

definition parse_base :: "url \<Rightarrow> string \<Rightarrow> url \<times> bool" where
  "parse_base u base =
    (if base = [] \<or> hd base = CHR ''/'' then (u, False)
     else if CHR '':'' \<notin> set base then (u\<lparr>m_host := Some base\<rparr>, False)
     else let host = takeWhile (\<lambda>c. c \<noteq> CHR '':'') base;
              port = drop (length host + 1) base
       in (u\<lparr>m_host := Some host, m_port := word_of_int (strtol port)\<rparr>, True))"

lemma url_parse_scheme:
  assumes "is_scheme s" shows "url_parse u (s @ rest) = parse_base u rest"
proof -
  have "s @ rest = take 11 s @ ''://'' @ rest"
    using scheme_tail [OF assms] append_take_drop_id [of 11 s] by (metis append.assoc)
  then have "strstr (s @ rest) ''://''" unfolding strstr_iff by blast
  moreover have "strncaseeq (s @ rest) ''stratum+tcp://'' 14"
    using assms scheme_length [OF assms] tolower_stratum by (simp add: strncaseeq_def is_scheme_def)
  ultimately show ?thesis using scheme_length [OF assms]
    by (simp add: url_parse_def parse_base_def Let_def)
qed

lemma url_parse_plain: "\<not> strstr t ''://'' \<Longrightarrow> url_parse u t = parse_base u t"
  by (simp add: url_parse_def parse_base_def Let_def)

lemma no_scheme_host_port:
  assumes "CHR '':'' \<notin> set h" "CHR '':'' \<notin> set d" "d = [] \<or> hd d \<noteq> CHR ''/''"
  shows "\<not> strstr (h @ CHR '':'' # d) ''://''"
proof -
  let ?dw = "dropWhile (\<lambda>c. c \<noteq> CHR '':'')"
  have h: "?dw (h @ CHR '':'' # d) = CHR '':'' # d"
    using assms(1) by (subst dropWhile_append2) auto
  have "False" if "h @ CHR '':'' # d = a @ ''://'' @ b" for a b
  proof (cases "CHR '':'' \<in> set a")
    case True
    have "?dw (a @ ''://'' @ b) = ?dw a @ ''://'' @ b"
      by (rule dropWhile_append1 [OF True]) simp
    moreover have "?dw a \<noteq> []" using True by (auto simp: dropWhile_eq_Nil_conv)
    ultimately have "CHR '':'' # d = ?dw a @ ''://'' @ b" "?dw a \<noteq> []" using h that by simp_all
    then show False using assms(2) by (cases "?dw a") auto
  next
    case False
    then have "?dw (a @ ''://'' @ b) = ''://'' @ b"
      by (subst dropWhile_append2) auto
    then show False using h that assms(3) by auto
  qed
  then show ?thesis unfolding strstr_iff by blast
qed


lemma parse_base_host: "host_ok h \<Longrightarrow> parse_base u h = (u\<lparr>m_host := Some h\<rparr>, False)"
  by (simp add: parse_base_def host_ok_def)

lemma parse_base_host_port:
  assumes "host_ok h"
  shows "parse_base u (h @ CHR '':'' # d) = (u\<lparr>m_host := Some h, m_port := word_of_int (strtol d)\<rparr>, True)"
proof -
  have "takeWhile (\<lambda>c. c \<noteq> CHR '':'') (h @ CHR '':'' # d) = h"
    using assms by (subst takeWhile_append2) (auto simp: host_ok_def)
  then show ?thesis using assms by (cases h) (simp_all add: parse_base_def host_ok_def Let_def)
qed

lemma digits_no_colon: "CHR '':'' \<notin> set (digits n)" "hd (digits n) \<noteq> CHR ''/''"
  using digits_isdigit [of n] digits_first [of n] by (auto simp: list_all_iff isdigit_def)

lemma schemes: "s = [] \<or> is_scheme s \<Longrightarrow> host_ok h \<Longrightarrow>
    d = [] \<or> (\<exists>n. d = CHR '':'' # digits n) \<Longrightarrow> url_parse u (s @ h @ d) = parse_base u (h @ d)"
  using url_parse_scheme url_parse_plain no_scheme_host_port [of h] digits_no_colon strstr_colon [of h]
  by (fastforce simp: host_ok_def)

section \<open>Properties\<close>

text \<open>C35: the four documented forms of a pool address, with the scheme in any case, give the host
  and the port, 3333 when there is none. The port is taken modulo 65536, so \<open>host:65537\<close>
  is a valid address of port 1 and \<open>host:65536\<close> an invalid one.\<close>

theorem Url_documented_forms:
  assumes "s = [] \<or> is_scheme s" and "host_ok h" and "n < 2 ^ 63"
  shows "Url_of (s @ h) = Url_empty\<lparr>m_host := Some h, m_port := 3333\<rparr> \<and> url_isValid (Url_of (s @ h))
    \<and> Url_of (s @ h @ CHR '':'' # digits n) = Url_empty\<lparr>m_host := Some h, m_port := of_nat n\<rparr>
    \<and> (url_isValid (Url_of (s @ h @ CHR '':'' # digits n)) \<longleftrightarrow> n mod 65536 \<noteq> 0)"
proof -
  have p: "url_parse Url_empty (s @ h) = parse_base Url_empty h"
    "url_parse Url_empty (s @ h @ CHR '':'' # digits n) = parse_base Url_empty (h @ CHR '':'' # digits n)"
    using schemes [OF assms(1,2), of "[]"] schemes [OF assms(1,2), of "CHR '':'' # digits n"] by auto
  have "(of_nat n :: 16 word) = 0 \<longleftrightarrow> n mod 65536 = 0"
    by (simp add: word_of_nat_eq_0_iff dvd_eq_mod_eq_0)
  then show ?thesis
    using strtol_digits [OF assms(3)] p parse_base_host [OF assms(2)] parse_base_host_port [OF assms(2)]
    by (simp add: Url_of_def url_isValid_def Url_empty_def kDefaultPort_def word_gt_0)
qed

theorem Url_documented_forms_witness:
  "m_port (Url_of (''Stratum+TCP://'' @ ''pool.example'' @ CHR '':'' # digits 65537)) = 1"
proof -
  have "is_scheme ''Stratum+TCP://''" by code_simp
  then show ?thesis
    using Url_documented_forms [of "''Stratum+TCP://''" "''pool.example''" 65537] by (simp add: host_ok_def)
qed

text \<open>What \<open>parse\<close> returns is not whether the address was understood: on a documented address
  without a port it stores the host and returns false.\<close>

theorem url_parse_portless_false:
  assumes "s = [] \<or> is_scheme s" and "host_ok h" and "0 < m_port u"
  shows "\<not> snd (url_parse u (s @ h)) \<and> url_isValid (fst (url_parse u (s @ h)))"
  using schemes [OF assms(1,2), of "[]" u] parse_base_host [OF assms(2), of u] assms(3)
  by (simp add: url_isValid_def)

theorem url_parse_portless_false_witness:
  "\<not> snd (url_parse Url_empty ''example.com'') \<and> url_isValid (fst (url_parse Url_empty ''example.com''))"
  using url_parse_portless_false [of "[]" "''example.com''" Url_empty]
  by (simp add: host_ok_def Url_empty_def kDefaultPort_def)

text \<open>Any other scheme, and a missing host, is refused and leaves the address as it was.\<close>

theorem url_parse_refuses:
  assumes "s = a @ ''://'' @ b" and "\<not> is_scheme (take 14 s) \<or> (\<exists>t. drop 14 s = CHR ''/'' # t) \<or> drop 14 s = []"
  shows "url_parse u s = (u, False)"
proof -
  have "strstr s ''://''" using assms(1) strstr_iff by blast
  moreover have "strncaseeq s ''stratum+tcp://'' 14 \<longleftrightarrow> is_scheme (take 14 s)"
    using tolower_stratum by (simp add: strncaseeq_def is_scheme_def)
  ultimately show ?thesis using assms(2) by (auto simp: url_parse_def Let_def)
qed

theorem url_parse_refuses_witness:
  "url_parse Url_empty ''https://pool.example:443'' = (Url_empty, False)"
  using url_parse_refuses [of "''https://pool.example:443''" "''https''" "''pool.example:443''" Url_empty]
  by (simp add: is_scheme_def tolower_def Let_def)

text \<open>\<open>user:password\<close> is split at the first colon, so a password may contain colons and a user
  may not; without a colon nothing changes.\<close>

theorem setUserpass_splits:
  assumes "CHR '':'' \<notin> set usr"
  shows "setUserpass u (usr @ CHR '':'' # pass) = (u\<lparr>m_user := Some usr, m_password := Some pass\<rparr>, True)
    \<and> setUserpass u usr = (u, False)"
proof -
  have "takeWhile (\<lambda>c. c \<noteq> CHR '':'') (usr @ CHR '':'' # pass) = usr"
    using assms by (subst takeWhile_append2) auto
  then show ?thesis using assms by (simp add: setUserpass_def)
qed

theorem setUserpass_splits_witness:
  "user (fst (setUserpass Url_empty ''wallet:x:y'')) = ''wallet''"
  using setUserpass_splits [of "''wallet''" Url_empty "''x:y''"] by (simp add: user_def)

text \<open>Assignment copies address, port and flags, but a missing password or user of the source
  does not clear the one that was there: the assigned address then logs in with the old
  credentials instead of the source's defaults.\<close>

theorem url_assign_keeps_credentials:
  assumes "m_host other = Some h"
  shows "\<exists>v. url_assign u other = Some v \<and> m_host v = Some h \<and> m_port v = m_port other
    \<and> m_keepAlive v = m_keepAlive other \<and> url_nicehash v = url_nicehash other
    \<and> user v = (if m_user other = None then user u else user other)
    \<and> password v = (if m_password other = None then password u else password other)"
  using assms by (auto simp: url_assign_def setUser_def setPassword_def user_def password_def Let_def
      split: option.split)

theorem url_assign_keeps_credentials_witness:
  "\<exists>v. url_assign (Url_make ''a'' 1 (Some ''wallet1'') None False False) (Url_make ''b'' 2 None None False False) = Some v
    \<and> m_host v = Some ''b'' \<and> user v = ''wallet1''"
  using url_assign_keeps_credentials [of "Url_make ''b'' 2 None None False False" "''b''"
      "Url_make ''a'' 1 (Some ''wallet1'') None False False"]
  by (auto simp: Url_make_def user_def)

end
