(* ===== verification/Hashrate.thy ===== *)
theory Hashrate
  imports Prelude Complex_Main
begin

text \<open>
  The hash rate meter, \<^verbatim>\<open>src/workers/Hashrate.cpp\<close>: per thread a ring of 4096
  (count, timestamp) samples, and the rate over a window of milliseconds. Words are kept at
  their width; the quotient of two doubles is an exact rational and \<^verbatim>\<open>nan\<close> is \<open>None\<close>, so
  rounding is not modelled. The reports (\<open>print\<close>, \<open>format\<close>) and the timer are output only.
\<close>

section \<open>The class\<close>

definition ShortInterval :: u64 where "ShortInterval = 2500"
definition MediumInterval :: u64 where "MediumInterval = 60000"
definition LargeInterval :: u64 where "LargeInterval = 900000"

definition kBucketSize :: nat where "kBucketSize = 4096"

definition kBucketMask :: u64 where "kBucketMask = of_nat (kBucketSize - 1)"

record hashrate =
  m_highest :: rat
  m_threads :: nat
  m_top :: "nat list"
  m_counts :: "u64 list list"
  m_timestamps :: "u64 list list"

text \<open>
  The constructor: \<^verbatim>\<open>new uint64_t[kBucketSize]\<close> leaves rows with the contents \<open>junk\<close>
  of the heap; in every round of its loop the two \<^verbatim>\<open>memset\<close> calls clear row 0.
\<close>

definition init_row :: "u64 list \<Rightarrow> nat \<Rightarrow> u64 list list \<Rightarrow> u64 list list" where
  "init_row junk i rows = (rows[i := take kBucketSize junk])[0 := replicate kBucketSize 0]"

definition Hashrate :: "(nat \<Rightarrow> u64 list) \<Rightarrow> (nat \<Rightarrow> u64 list) \<Rightarrow> nat \<Rightarrow> hashrate" where
  "Hashrate junk_counts junk_stamps threads =
    \<lparr>m_highest = 0, m_threads = threads, m_top = replicate threads 0,
     m_counts = fold (\<lambda>i. init_row (junk_counts i) i) [0..<threads] (replicate threads []),
     m_timestamps = fold (\<lambda>i. init_row (junk_stamps i) i) [0..<threads] (replicate threads [])\<rparr>"

record calc_vars =
  earliestHashCount :: u64
  earliestStamp :: u64
  lastestStamp :: u64
  lastestHashCnt :: u64

definition bucket :: "nat \<Rightarrow> nat \<Rightarrow> nat" where
  "bucket tp i = unat ((of_nat tp - of_nat i) AND kBucketMask)"

text \<open>The loop of \<open>calc\<close>; the flag is \<open>haveFullSet\<close>.\<close>

function calc_loop :: "u64 list \<Rightarrow> u64 list \<Rightarrow> nat \<Rightarrow> u64 \<Rightarrow> u64 \<Rightarrow> nat \<Rightarrow> calc_vars \<Rightarrow> calc_vars \<times> bool" where
  "calc_loop counts stamps tp now ms i v =
    (if i < kBucketSize
     then let idx = bucket tp i
       in if stamps ! idx = 0 then (v, False)
          else let v = (if lastestStamp v = 0
                        then v\<lparr>lastestStamp := stamps ! idx, lastestHashCnt := counts ! idx\<rparr> else v)
            in if now - stamps ! idx > ms then (v, True)
               else calc_loop counts stamps tp now ms (i + 1)
                 (v\<lparr>earliestStamp := stamps ! idx, earliestHashCount := counts ! idx\<rparr>)
     else (v, False))"
  by pat_completeness auto
termination
  by (relation "measure (\<lambda>(c, s, t, n, m, i, v). kBucketSize - i)") auto

declare calc_loop.simps [simp del]

definition calc_thread :: "hashrate \<Rightarrow> nat \<Rightarrow> u64 \<Rightarrow> u64 \<Rightarrow> rat option" where
  "calc_thread hr t now ms =
    (let (v, haveFullSet) = calc_loop (m_counts hr ! t) (m_timestamps hr ! t) (m_top hr ! t) now ms 1
           \<lparr>earliestHashCount = 0, earliestStamp = 0, lastestStamp = 0, lastestHashCnt = 0\<rparr>
     in if \<not> haveFullSet \<or> earliestStamp v = 0 \<or> lastestStamp v = 0 then None
        else if lastestStamp v - earliestStamp v = 0 then None
        else let hashes = (of_nat (unat (lastestHashCnt v)) :: rat) - of_nat (unat (earliestHashCount v));
                 time = (of_nat (unat (lastestStamp v)) - of_nat (unat (earliestStamp v))) / 1000
          in Some (hashes / time))"

text \<open>The sum skips what is not \<^verbatim>\<open>isnormal\<close>: nan, and zero, which adds nothing.\<close>

definition calc :: "hashrate \<Rightarrow> u64 \<Rightarrow> u64 \<Rightarrow> rat" where
  "calc hr now ms =
    foldl (\<lambda>result i. case calc_thread hr i now ms of Some d \<Rightarrow> result + d | None \<Rightarrow> result) 0 [0..<m_threads hr]"

definition add :: "hashrate \<Rightarrow> nat \<Rightarrow> u64 \<Rightarrow> u64 \<Rightarrow> hashrate" where
  "add hr t count timestamp =
    (let tp = m_top hr ! t
     in hr\<lparr>m_counts := (m_counts hr)[t := (m_counts hr ! t)[tp := count]],
           m_timestamps := (m_timestamps hr)[t := (m_timestamps hr ! t)[tp := timestamp]],
           m_top := (m_top hr)[t := unat ((of_nat tp + 1) AND kBucketMask)]\<rparr>)"

definition updateHighest :: "hashrate \<Rightarrow> u64 \<Rightarrow> hashrate" where
  "updateHighest hr now =
    (let highest = calc hr now ShortInterval
     in if highest \<noteq> 0 \<and> m_highest hr < highest then hr\<lparr>m_highest := highest\<rparr> else hr)"

section \<open>The samples behind the ring\<close>

text \<open>All samples of a thread, newest first, and the rate over a window of them.\<close>

type_synonym sample = "u64 \<times> u64"

definition rate_spec :: "sample list \<Rightarrow> u64 \<Rightarrow> u64 \<Rightarrow> rat option" where
  "rate_spec xs now ms =
    (let known = takeWhile (\<lambda>(c, s). s \<noteq> 0) (take 4095 xs);
         window = takeWhile (\<lambda>(c, s). now - s \<le> ms) known
     in if window = [] \<or> length window = length known \<or> snd (hd window) = snd (last window) then None
        else Some ((of_nat (unat (fst (hd window))) - of_nat (unat (fst (last window)))) /
          ((of_nat (unat (snd (hd window))) - of_nat (unat (snd (last window)))) / 1000)))"

text \<open>The row of a thread holds the last 4096 samples and is zero elsewhere.\<close>

definition slot :: "hashrate \<Rightarrow> nat \<Rightarrow> nat \<Rightarrow> sample" where
  "slot hr t i = (m_counts hr ! t ! i, m_timestamps hr ! t ! i)"

definition ring_holds :: "hashrate \<Rightarrow> nat \<Rightarrow> sample list \<Rightarrow> bool" where
  "ring_holds hr t xs \<longleftrightarrow> t < length (m_top hr) \<and> t < length (m_counts hr) \<and> t < length (m_timestamps hr) \<and>
    length (m_counts hr ! t) = 4096 \<and> length (m_timestamps hr ! t) = 4096 \<and> m_top hr ! t < 4096 \<and>
    (\<forall>k < 4096. slot hr t ((m_top hr ! t + 4095 - k) mod 4096) = (if k < length xs then xs ! k else (0, 0)))"

lemma mask_mod: "unat (w AND kBucketMask) = unat w mod 4096"
proof -
  have "w AND kBucketMask = take_bit 12 w"
    by (simp add: kBucketMask_def kBucketSize_def take_bit_eq_mask mask_eq_exp_minus_1)
  then have "unat (w AND kBucketMask) = take_bit 12 (unat w)" by (simp only: unsigned_take_bit_eq)
  then show ?thesis by (simp add: take_bit_eq_mod)
qed

lemma bucket_mod:
  assumes "tp < 4096" "i < 4096" shows "bucket tp i = (tp + 4096 - i) mod 4096"
proof (cases "i \<le> tp")
  case True
  then have "(of_nat tp - of_nat i :: u64) = of_nat (tp - i)" by simp
  then have "bucket tp i = (tp - i) mod 4096"
    using assms by (simp add: bucket_def mask_mod unat_of_nat)
  also have "\<dots> = (tp + 4096 - i) mod 4096" using True
    by (metis Nat.add_diff_assoc2 mod_add_self2)
  finally show ?thesis .
next
  case False
  have "(of_nat tp - of_nat i :: u64) = of_nat (2 ^ 64 + tp) - of_nat i"
    by (simp only: of_nat_add of_nat_power) simp
  also have "\<dots> = of_nat (2 ^ 64 + tp - i)" using assms(2) by (subst of_nat_diff) simp_all
  finally have "bucket tp i = (2 ^ 64 + tp - i) mod 2 ^ 64 mod 4096"
    unfolding bucket_def mask_mod by (simp only: unat_of_nat) simp
  also have "\<dots> = (2 ^ 64 + tp - i) mod 4096" by (rule mod_mod_cancel) simp
  also have "2 ^ 64 + tp - i = 4096 * (2 ^ 52 - 1) + (tp + 4096 - i)" using False assms by simp
  finally show ?thesis by (simp only: mod_mult_self4)
qed

lemma add_samples:
  assumes "ring_holds hr t xs"
  shows "ring_holds (add hr t c s) t ((c, s) # xs)"
    and "u \<noteq> t \<Longrightarrow> ring_holds hr u ys \<Longrightarrow> ring_holds (add hr t c s) u ys"
proof -
  let ?tp = "m_top hr ! t"
  have r: "t < length (m_top hr)" "t < length (m_counts hr)" "t < length (m_timestamps hr)"
    "length (m_counts hr ! t) = 4096" "length (m_timestamps hr ! t) = 4096" "?tp < 4096"
    "\<And>k. k < 4096 \<Longrightarrow> slot hr t ((?tp + 4095 - k) mod 4096) = (if k < length xs then xs ! k else (0, 0))"
    using assms unfolding ring_holds_def by auto
  have tp: "m_top (add hr t c s) ! t = (?tp + 1) mod 4096"
    using r(1,6) by (simp add: add_def Let_def mask_mod unat_word_ariths(1) unat_of_nat)
  have slot: "slot (add hr t c s) t i = (if i = ?tp then (c, s) else slot hr t i)" for i
    using r by (simp add: add_def Let_def slot_def)
  have "slot (add hr t c s) t (((?tp + 1) mod 4096 + 4095 - k) mod 4096) =
      (if k < Suc (length xs) then ((c, s) # xs) ! k else (0, 0))" if "k < 4096" for k
  proof (cases k)
    case 0
    have "((?tp + 1) mod 4096 + 4095) mod 4096 = ?tp" using r(6) by (cases "?tp = 4095") auto
    then show ?thesis using 0 slot by simp
  next
    case (Suc j)
    have e: "((?tp + 1) mod 4096 + 4095 - k) mod 4096 = (?tp + 4095 - j) mod 4096"
      using r(6) that Suc by (cases "?tp = 4095") (simp_all add: mod_if add.commute)
    have "(?tp + 4095 - j) mod 4096 \<noteq> ?tp"
    proof (cases "?tp \<le> j")
      case True
      then have "(?tp + 4095 - j) mod 4096 = ?tp + 4095 - j" using that Suc by simp
      then show ?thesis using that Suc by simp
    next
      case False
      then have "?tp + 4095 - j = 4096 + (?tp - Suc j)" by simp
      then have "(?tp + 4095 - j) mod 4096 = (?tp - Suc j) mod 4096" by (simp only: mod_add_self1)
      then have "(?tp + 4095 - j) mod 4096 = ?tp - Suc j" using r(6) by simp
      then show ?thesis using False by simp
    qed
    then show ?thesis unfolding e slot using r(7) [of j] that Suc by simp
  qed
  then show "ring_holds (add hr t c s) t ((c, s) # xs)"
    using r tp by (simp add: ring_holds_def) (simp add: add_def Let_def)
  show "ring_holds (add hr t c s) u ys" if "u \<noteq> t" "ring_holds hr u ys"
    using that by (simp add: ring_holds_def slot_def add_def Let_def)
qed

section \<open>The loop over the samples\<close>

fun sample_loop :: "u64 \<Rightarrow> u64 \<Rightarrow> sample list \<Rightarrow> calc_vars \<Rightarrow> calc_vars \<times> bool" where
  "sample_loop now ms [] v = (v, False)"
| "sample_loop now ms ((c, s) # zs) v =
    (if s = 0 then (v, False)
     else let v = (if lastestStamp v = 0 then v\<lparr>lastestStamp := s, lastestHashCnt := c\<rparr> else v)
       in if now - s > ms then (v, True)
          else sample_loop now ms zs (v\<lparr>earliestStamp := s, earliestHashCount := c\<rparr>))"

lemma calc_loop_samples:
  "calc_loop counts stamps tp now ms i v =
    sample_loop now ms (map (\<lambda>i. (counts ! bucket tp i, stamps ! bucket tp i)) [i..<kBucketSize]) v"
proof (induction "kBucketSize - i" arbitrary: i v)
  case 0
  then show ?case by (subst calc_loop.simps) simp
next
  case (Suc n)
  then have i: "i < kBucketSize" "n = kBucketSize - (i + 1)" by simp_all
  show ?case using Suc(1) [OF i(2)] i(1)
    by (subst calc_loop.simps) (simp add: upt_conv_Cons Let_def)
qed

lemma ring_samples:
  assumes "ring_holds hr t xs"
  shows "map (\<lambda>i. (m_counts hr ! t ! bucket (m_top hr ! t) i, m_timestamps hr ! t ! bucket (m_top hr ! t) i))
      [1..<kBucketSize] = take 4095 (xs @ replicate 4095 (0, 0))"
proof (rule nth_equalityI)
  fix k assume "k < length (map (\<lambda>i. (m_counts hr ! t ! bucket (m_top hr ! t) i,
      m_timestamps hr ! t ! bucket (m_top hr ! t) i)) [1..<kBucketSize])"
  then have k: "k < 4095" by (simp add: kBucketSize_def)
  then have "bucket (m_top hr ! t) (1 + k) = (m_top hr ! t + 4095 - k) mod 4096"
    using assms bucket_mod [of "m_top hr ! t" "1 + k"] by (simp add: ring_holds_def add.commute)
  then show "map (\<lambda>i. (m_counts hr ! t ! bucket (m_top hr ! t) i,
      m_timestamps hr ! t ! bucket (m_top hr ! t) i)) [1..<kBucketSize] ! k =
      take 4095 (xs @ replicate 4095 (0, 0)) ! k"
    using k assms by (simp add: kBucketSize_def ring_holds_def slot_def nth_append add.commute)
qed (simp add: kBucketSize_def)

text \<open>With a latest sample already noted, the loop finds the last sample of the window.\<close>

lemma sample_loop_window:
  assumes "lastestStamp v \<noteq> 0"
  shows "sample_loop now ms zs v =
    (let known = takeWhile (\<lambda>(c, s). s \<noteq> 0) zs; window = takeWhile (\<lambda>(c, s). now - s \<le> ms) known
     in (if window = [] then v
         else v\<lparr>earliestStamp := snd (last window), earliestHashCount := fst (last window)\<rparr>,
         length window \<noteq> length known))"
  using assms
proof (induction zs arbitrary: v)
  case (Cons z zs)
  obtain c s where z: "z = (c, s)" by (cases z)
  show ?case
  proof (cases "s = 0 \<or> now - s > ms")
    case True
    then show ?thesis using Cons.prems by (auto simp: z Let_def not_le)
  next
    case False
    then show ?thesis
      using Cons.IH [of "v\<lparr>earliestStamp := s, earliestHashCount := c\<rparr>"] Cons.prems
      by (cases v) (simp add: z Let_def not_le)
  qed
qed simp

lemma calc_thread_rate:
  assumes "ring_holds hr t xs"
  shows "calc_thread hr t now ms = rate_spec xs now ms"
proof -
  let ?zs = "take 4095 (xs @ replicate 4095 (0, 0)) :: sample list"
  let ?v0 = "\<lparr>earliestHashCount = 0, earliestStamp = 0, lastestStamp = 0, lastestHashCnt = 0\<rparr>"
  have known: "takeWhile (\<lambda>(c, s). s \<noteq> 0) ?zs = takeWhile (\<lambda>(c, s). s \<noteq> 0) (take 4095 xs)"
  proof -
    have "takeWhile (\<lambda>(c, s). s \<noteq> 0) (ys @ replicate n (0, 0)) = takeWhile (\<lambda>(c, s). s \<noteq> (0::u64)) (ys :: sample list)"
      for ys n by (induction ys) (auto simp: takeWhile_replicate)
    then show ?thesis by simp
  qed
  have loop: "calc_loop (m_counts hr ! t) (m_timestamps hr ! t) (m_top hr ! t) now ms 1 ?v0 =
      sample_loop now ms ?zs ?v0"
    by (simp only: calc_loop_samples ring_samples [OF assms])
  show ?thesis
  proof (cases "takeWhile (\<lambda>(c, s). s \<noteq> 0) (take 4095 xs)")
    case Nil
    then have "sample_loop now ms ?zs ?v0 = (?v0, False)"
      using known by (cases ?zs) (auto split: if_splits)
    then show ?thesis unfolding calc_thread_def loop by (simp add: rate_spec_def Nil)
  next
    case (Cons z known')
    obtain c s where z: "z = (c, s)" by (cases z)
    obtain zs' where zs: "?zs = (c, s) # zs'" "s \<noteq> 0" "known' = takeWhile (\<lambda>(c, s). s \<noteq> 0) zs'"
      using Cons known z by (cases ?zs) (auto split: if_splits)
    let ?v1 = "?v0\<lparr>lastestStamp := s, lastestHashCnt := c\<rparr>"
    have step: "sample_loop now ms ?zs ?v0 = sample_loop now ms ?zs ?v1"
      unfolding zs(1) using zs(2) by simp
    have "lastestStamp ?v1 \<noteq> 0" using zs(2) by simp
    note w = sample_loop_window [OF this, of now ms ?zs, unfolded known Cons z]
    let ?w = "takeWhile (\<lambda>(c, s). now - s \<le> ms) ((c, s) # known')"
    show ?thesis
    proof (cases "now - s \<le> ms")
      case True
      then have h: "?w \<noteq> []" "hd ?w = (c, s)" by simp_all
      then have "last ?w \<in> set ((c, s) # known')" using set_takeWhileD last_in_set by metis
      moreover have "\<forall>y \<in> set ((c, s) # known'). snd y \<noteq> 0"
        using zs(2,3) by (auto dest: set_takeWhileD)
      ultimately have "snd (last ?w) \<noteq> 0" by blast
      then show ?thesis
        using h zs(2) unfolding calc_thread_def loop step w rate_spec_def Cons z Let_def
        by (simp del: takeWhile.simps)
    next
      case False
      then have "?w = []" by simp
      then show ?thesis
        unfolding calc_thread_def loop step w rate_spec_def Cons z Let_def by (simp del: takeWhile.simps)
    qed
  qed
qed


section \<open>From the constructor on\<close>

lemma init_rows:
  assumes "n \<le> threads" "i < threads"
  shows "length (fold (\<lambda>i. init_row (junk i) i) [0..<n] (replicate threads [])) = threads"
    and "i < n \<Longrightarrow> fold (\<lambda>i. init_row (junk i) i) [0..<n] (replicate threads []) ! i =
      (if i = 0 then replicate 4096 0 else take 4096 (junk i))"
  using assms by (induction n) (auto simp: init_row_def kBucketSize_def nth_list_update less_Suc_eq)

definition add_all :: "(nat \<times> sample) list \<Rightarrow> hashrate \<Rightarrow> hashrate" where
  "add_all = fold (\<lambda>(t, c, s) hr. add hr t c s)"

definition samples_of :: "nat \<Rightarrow> (nat \<times> sample) list \<Rightarrow> sample list" where
  "samples_of t evs = rev (map snd (filter (\<lambda>(u, _). u = t) evs))"

lemma samples_of_Cons: "samples_of t ((u, x) # evs) = samples_of t evs @ (if u = t then [x] else [])"
  by (simp add: samples_of_def)

lemma add_other:
  "u \<noteq> t \<Longrightarrow> ring_holds hr u ys \<Longrightarrow> ring_holds (add hr t c s) u ys"
  by (simp add: ring_holds_def slot_def add_def Let_def)

lemma add_all_holds:
  "ring_holds hr t xs \<Longrightarrow> ring_holds (add_all evs hr) t (samples_of t evs @ xs)"
proof (induction evs arbitrary: hr xs)
  case (Cons e evs)
  obtain u c s where e: "e = (u, c, s)" by (cases e) auto
  show ?case
  proof (cases "u = t")
    case True
    then show ?thesis using Cons.IH [OF add_samples(1) [OF Cons.prems, of c s]]
      by (simp add: e add_all_def samples_of_Cons)
  next
    case False
    then show ?thesis using Cons.IH [OF add_other [OF _ Cons.prems, of u c s]]
      by (simp add: e add_all_def samples_of_Cons)
  qed
qed (simp add: add_all_def samples_of_def)

lemma Hashrate_thread0: "0 < threads \<Longrightarrow> ring_holds (Hashrate jc js threads) 0 []"
  using init_rows(1) [of threads threads 0] init_rows(2) [of threads threads 0]
  by (simp add: ring_holds_def Hashrate_def slot_def)

section \<open>Properties\<close>

text \<open>C24: the ring of thread 0 refines the list of its samples: after any sequence of \<open>add\<close>
  calls of all threads the rate of a window is that of the samples themselves: from the latest to
  the earliest one inside the window, once some sample is older than the window.\<close>

theorem calc_thread_refines_samples:
  assumes "0 < threads"
  shows "calc_thread (add_all evs (Hashrate jc js threads)) 0 now ms = rate_spec (samples_of 0 evs) now ms"
  using calc_thread_rate [OF add_all_holds [OF Hashrate_thread0 [OF assms], of evs]] by simp

theorem calc_thread_refines_samples_witness:
  "calc_thread (add_all [(0, 100, 1000), (1, 7, 1000), (0, 160, 2000), (0, 220, 3000)]
    (Hashrate (\<lambda>_. []) (\<lambda>_. []) 2)) 0 3500 2000 = Some 60"
proof -
  have "samples_of 0 [(0, 100, 1000), (1, 7, 1000), (0, 160, 2000), (0, 220, 3000)] =
      [(220, 3000), (160, 2000), (100, 1000)]" by (simp add: samples_of_def)
  then show ?thesis
    using calc_thread_refines_samples [of 2 "[(0, 100, 1000), (1, 7, 1000), (0, 160, 2000), (0, 220, 3000)]"]
    by (simp add: rate_spec_def)
qed

text \<open>The rows of the other threads are never cleared: the \<^verbatim>\<open>memset\<close> in the loop of the
  constructor clears row 0 every time. The rate of a thread with no sample yet is computed from
  whatever the allocation held.\<close>

theorem Hashrate_rows_uninitialised:
  assumes "t < threads"
  shows "m_timestamps (Hashrate jc js threads) ! t = (if t = 0 then replicate 4096 0 else take 4096 (js t))
    \<and> m_counts (Hashrate jc js threads) ! t = (if t = 0 then replicate 4096 0 else take 4096 (jc t))"
  using init_rows(2) [OF order_refl assms] assms by (simp add: Hashrate_def)

theorem Hashrate_rows_uninitialised_witness:
  "m_timestamps (Hashrate (\<lambda>_. []) (\<lambda>i. [of_nat i, 5]) 3) ! 2 = [2, 5]"
  using Hashrate_rows_uninitialised [of 2 3 "\<lambda>_. []" "\<lambda>i. [of_nat i, 5]"] by simp

text \<open>The highest rate is the maximum of the short-interval rates it was updated with.\<close>

lemma updateHighest_max:
  "m_highest (updateHighest hr now) =
    (if calc hr now ShortInterval = 0 then m_highest hr else max (m_highest hr) (calc hr now ShortInterval))"
  by (auto simp: updateHighest_def Let_def)

end
