(* ===== verification/Client.thy ===== *)
theory Client
  imports Job Url
begin

text \<open>
  The stratum client, \<^verbatim>\<open>src/net/Client.cpp\<close> and \<^verbatim>\<open>Client.h\<close>: the socket state
  machine, the receive buffer, the JSON-RPC handlers and the bookkeeping of submitted results.

  What libuv answers, the clock, the JSON library and the contents of uninitialised stack
  memory are fields of the environment record \<open>uv\<close>. The listener is a function \<open>react\<close> on an event,
  the listener's own state and the client: a listener may call the client's public operations while
  the client's handler runs. \<open>None\<close> as the result of an operation is undefined behaviour of the
  code: an access outside a buffer or a division by zero. Logging is left out.
\<close>

section \<open>JSON values\<close>

text \<open>
  The values of the JSON library; a number is an integer of 64 bits or something else. A missing
  member is the null value and \<open>GetString\<close> of a value that is no string and has no heap part is the
  null pointer (the library's assertions are compiled out). Objects and arrays, whose
  \<open>GetString\<close> would be a pointer into the library's heap, are treated likewise.
\<close>

datatype json = JNull | JBool bool | JInt int | JNum string | JStr string | JArr "json list"
  | JObj "(string \<times> json) list"

definition IsObject :: "json \<Rightarrow> bool" where
  "IsObject j = (case j of JObj _ \<Rightarrow> True | _ \<Rightarrow> False)"

definition member :: "json \<Rightarrow> string \<Rightarrow> json" where
  "member j k = (case j of JObj ms \<Rightarrow> (case map_of ms k of Some v \<Rightarrow> v | None \<Rightarrow> JNull) | _ \<Rightarrow> JNull)"

definition GetString :: "json \<Rightarrow> string option" where
  "GetString j = (case j of JStr s \<Rightarrow> Some s | _ \<Rightarrow> None)"

definition IsInt64 :: "json \<Rightarrow> int option" where
  "IsInt64 j = (case j of JInt i \<Rightarrow> if - (2 ^ 63) \<le> i \<and> i < 2 ^ 63 then Some i else None | _ \<Rightarrow> None)"

section \<open>State\<close>

datatype SocketState = UnconnectedState | HostLookupState | ConnectingState | ConnectedState | ClosingState

record SubmitResult =
  sr_seq :: int
  sr_diff :: u32
  sr_actualDiff :: u64
  sr_elapsed :: u64
  sr_start :: u64

record uv =
  uv_now :: u64
  uv_hrtime :: u64
  uv_getaddrinfo :: int
  uv_is_writable :: bool
  uv_try_write :: int
  json_insitu :: "char list \<Rightarrow> json option \<times> char list"
  json_write :: "json \<Rightarrow> string"
  stack_blob :: "byte list"
  stack_str :: string

text \<open>Requests the client makes of libuv, in order.\<close>

datatype request = Getaddrinfo "string option" | TcpConnect "16 word" | UvClose | Write string

text \<open>
  \<open>m_socket\<close> is \<open>None\<close> for the null pointer and else whether \<^verbatim>\<open>uv_is_closing\<close> holds of it;
  \<open>m_stream\<close> is whether the pointer is set, \<open>m_keepAliveTimer\<close> whether the timer runs.
\<close>

record client =
  m_quiet :: bool
  m_buf :: "char list"
  m_rpcId :: string
  m_agent :: string
  c_id :: int
  m_retryPause :: int
  m_failures :: int
  m_job :: job
  m_recvBufPos :: nat
  m_state :: SocketState
  m_results :: "int \<Rightarrow> SubmitResult option"
  m_expire :: u64
  m_url :: url
  m_stream :: bool
  m_socket :: "bool option"
  m_keepAliveTimer :: bool
  requests :: "request list"

datatype client_event = OnClose int | OnJobReceived job | OnLoginSuccess
  | OnResultAccepted SubmitResult "string option"

type_synonym 's listener = "client_event \<Rightarrow> 's \<Rightarrow> client \<Rightarrow> 's \<times> client"

definition kResponseTimeout :: u64 where "kResponseTimeout = 20 * 1000"

definition SubmitResult_new :: "uv \<Rightarrow> int \<Rightarrow> u32 \<Rightarrow> u64 \<Rightarrow> SubmitResult" where
  "SubmitResult_new env seq df actual =
    \<lparr>sr_seq = seq, sr_diff = df, sr_actualDiff = actual, sr_elapsed = 0, sr_start = uv_hrtime env\<rparr>"

definition sr_done :: "uv \<Rightarrow> SubmitResult \<Rightarrow> SubmitResult" where
  "sr_done env r = r\<lparr>sr_elapsed := (uv_hrtime env - sr_start r) div 1000000\<rparr>"

text \<open>The constructor; \<open>junk\<close> stands for the members it does not set.\<close>

definition Client :: "char list \<Rightarrow> byte list \<Rightarrow> int \<Rightarrow> string \<Rightarrow> client" where
  "Client junk junk_blob i agent =
    \<lparr>m_quiet = False, m_buf = take 2048 junk, m_rpcId = take 63 (drop 2048 junk), m_agent = agent, c_id = i,
     m_retryPause = 5000, m_failures = 0, m_job = Job junk_blob (-2) False, m_recvBufPos = 0,
     m_state = UnconnectedState, m_results = (\<lambda>_. None), m_expire = 0, m_url = Url_empty,
     m_stream = False, m_socket = None, m_keepAliveTimer = False, requests = []\<rparr>"

section \<open>Connecting and closing\<close>

definition isReady :: "client \<Rightarrow> bool" where
  "isReady c \<longleftrightarrow> m_state c = ConnectedState \<and> m_failures c = 0"

definition setState :: "client \<Rightarrow> SocketState \<Rightarrow> client" where
  "setState c st = (if m_state c = st then c else c\<lparr>m_state := st\<rparr>)"

definition request :: "request \<Rightarrow> client \<Rightarrow> client" where
  "request r c = c\<lparr>requests := requests c @ [r]\<rparr>"

definition close :: "client \<Rightarrow> client" where
  "close c =
    (if m_state c = UnconnectedState \<or> m_state c = ClosingState \<or> m_socket c = None then c
     else let c = setState c ClosingState
       in if m_socket c = Some False then request UvClose (c\<lparr>m_socket := Some True\<rparr>) else c)"

definition setUrl :: "client \<Rightarrow> url option \<Rightarrow> client" where
  "setUrl c u =
    (case u of
       None \<Rightarrow> c
     | Some v \<Rightarrow> if \<not> url_isValid v then c else c\<lparr>m_url := the (url_assign (m_url c) v)\<rparr>)"

text \<open>The result of \<open>resolve\<close> is whether \<^verbatim>\<open>uv_getaddrinfo\<close> failed; no caller looks at it.\<close>

definition resolve :: "uv \<Rightarrow> client \<Rightarrow> string option \<Rightarrow> client \<times> int" where
  "resolve env c host =
    (let c = setState c HostLookupState;
         c = c\<lparr>m_expire := 0, m_recvBufPos := 0\<rparr>;
         c = (if m_failures c = -1 then c\<lparr>m_failures := 0\<rparr> else c);
         c = request (Getaddrinfo host) c
     in if uv_getaddrinfo env \<noteq> 0 then (c, 1) else (c, 0))"

definition connect :: "uv \<Rightarrow> client \<Rightarrow> client" where
  "connect env c = fst (resolve env c (m_host (m_url c)))"

definition connect_url :: "uv \<Rightarrow> client \<Rightarrow> url option \<Rightarrow> client" where
  "connect_url env c u = connect env (setUrl c u)"

definition disconnect :: "client \<Rightarrow> client" where
  "disconnect c = close (c\<lparr>m_keepAliveTimer := False, m_expire := 0, m_failures := -1\<rparr>)"

definition tick :: "uv \<Rightarrow> u64 \<Rightarrow> client \<Rightarrow> client" where
  "tick env t c =
    (if m_expire c = 0 \<or> t < m_expire c then c
     else let c = (if m_state c = ConnectedState then close c else c)
       in if m_state c = ConnectingState then connect env c else c)"

definition connect_addr :: "client \<Rightarrow> client" where
  "connect_addr c =
    request (TcpConnect (m_port (m_url c))) ((setState c ConnectingState)\<lparr>m_socket := Some False\<rparr>)"

definition startTimeout :: "client \<Rightarrow> client" where
  "startTimeout c =
    (let c = c\<lparr>m_expire := 0\<rparr>
     in if \<not> m_keepAlive (m_url c) then c else c\<lparr>m_keepAliveTimer := True\<rparr>)"

text \<open>The listener gets \<^verbatim>\<open>(int) m_failures\<close>, 32 of the counter's 64 bits.\<close>

definition reconnect :: "uv \<Rightarrow> 's listener \<Rightarrow> 's \<Rightarrow> client \<Rightarrow> 's \<times> client" where
  "reconnect env react s c =
    (let c = setState c ConnectingState;
         c = (if m_keepAlive (m_url c) then c\<lparr>m_keepAliveTimer := False\<rparr> else c)
     in if m_failures c = -1 then react (OnClose (-1)) s c
        else let c = c\<lparr>m_failures := m_failures c + 1\<rparr>;
                 (s, c) = react (OnClose (sint (word_of_int (m_failures c) :: u32))) s c
          in (s, c\<lparr>m_expire := uv_now env + word_of_int (m_retryPause c)\<rparr>))"

definition onClose :: "uv \<Rightarrow> 's listener \<Rightarrow> 's \<Rightarrow> client \<Rightarrow> 's \<times> client" where
  "onClose env react s c =
    reconnect env react s (setState (c\<lparr>m_stream := False, m_socket := None\<rparr>) UnconnectedState)"

text \<open>\<open>addrs\<close> holds the IPv4 flags of the resolved addresses, in order; any of the IPv4 ones is taken.\<close>

definition onResolved :: "uv \<Rightarrow> 's listener \<Rightarrow> int \<Rightarrow> bool list \<Rightarrow> 's \<Rightarrow> client \<Rightarrow> 's \<times> client" where
  "onResolved env react status addrs s c =
    (if status < 0 then reconnect env react s c
     else if filter (\<lambda>v4. v4) addrs = [] then reconnect env react s c
     else (s, connect_addr c))"

section \<open>Sending\<close>

text \<open>The result, the new \<open>m_sequence\<close> (a static member, shared by all clients) and the client.\<close>

definition send :: "uv \<Rightarrow> int \<Rightarrow> client \<Rightarrow> string \<Rightarrow> int \<times> int \<times> client" where
  "send env m_sequence c msg =
    (if m_state c \<noteq> ConnectedState \<or> \<not> uv_is_writable env then (-1, m_sequence, c)
     else if uv_try_write env < 0 then (-1, m_sequence, close c)
     else (m_sequence, m_sequence + 1,
           request (Write (take (nat (uv_try_write env)) msg))
             (c\<lparr>m_expire := uv_now env + kResponseTimeout\<rparr>)))"

fun dec_digits :: "nat \<Rightarrow> string" where
  "dec_digits n = (if n < 10 then [char_of (48 + n)] else dec_digits (n div 10) @ [char_of (48 + n mod 10)])"

declare dec_digits.simps [simp del]

definition PRI64 :: "int \<Rightarrow> string" where
  "PRI64 i = (if i < 0 then CHR ''-'' # dec_digits (nat (- i)) else dec_digits (nat i))"

definition submit_message :: "int \<Rightarrow> string \<Rightarrow> JobResult \<Rightarrow> string" where
  "submit_message m_sequence rpcId r =
    (let q = [CHR 0x22]; fld = (\<lambda>n. q @ n @ q @ '':'')
     in ''{'' @ fld ''id'' @ PRI64 m_sequence @ '','' @ fld ''jsonrpc'' @ q @ ''2.0'' @ q @ '',''
        @ fld ''method'' @ q @ ''submit'' @ q @ '','' @ fld ''params'' @ ''{'' @ fld ''id'' @ q @ rpcId @ q @ '',''
        @ fld ''job_id'' @ q @ JobId_data (jobId r) @ q @ '','' @ fld ''nonce'' @ q @ toHex (le_bytes 4 (nonce r)) 4 @ q
        @ '','' @ fld ''result'' @ q @ toHex (result r) 32 @ q @ ''}}'' @ [CHR 0x0A])"

definition submit :: "uv \<Rightarrow> int \<Rightarrow> client \<Rightarrow> JobResult \<Rightarrow> (int \<times> int \<times> client) option" where
  "submit env m_sequence c r =
    (case actualDiff r of
       None \<Rightarrow> None
     | Some ad \<Rightarrow>
        Some (send env m_sequence
          (c\<lparr>m_results := (m_results c)(m_sequence := Some (SubmitResult_new env m_sequence (r_diff r) ad))\<rparr>)
          (submit_message m_sequence (m_rpcId c) r)))"

definition ping_message :: "int \<Rightarrow> string \<Rightarrow> string" where
  "ping_message m_sequence rpcId =
    (let q = [CHR 0x22]; fld = (\<lambda>n. q @ n @ q @ '':'')
     in ''{'' @ fld ''id'' @ PRI64 m_sequence @ '','' @ fld ''jsonrpc'' @ q @ ''2.0'' @ q @ '',''
        @ fld ''method'' @ q @ ''keepalived'' @ q @ '','' @ fld ''params'' @ ''{'' @ fld ''id'' @ q @ rpcId @ q @ ''}}''
        @ [CHR 0x0A])"

text \<open>\<open>ping\<close> runs in the callback of the one-shot keep-alive timer.\<close>

definition ping :: "uv \<Rightarrow> int \<Rightarrow> client \<Rightarrow> int \<times> int \<times> client" where
  "ping env m_sequence c =
    send env m_sequence (c\<lparr>m_keepAliveTimer := False\<rparr>) (ping_message m_sequence (m_rpcId c))"

definition login_doc :: "client \<Rightarrow> json" where
  "login_doc c =
    JObj [(''id'', JInt 1), (''jsonrpc'', JStr ''2.0''), (''method'', JStr ''login''),
      (''params'', JObj [(''login'', JStr (user (m_url c))), (''pass'', JStr (password (m_url c))),
                         (''agent'', JStr (m_agent c))])]"

text \<open>
  The message is copied with a newline and a terminator into \<^verbatim>\<open>char m_sendBuf[768]\<close>, but the
  test is against the size of \<open>m_buf\<close>: \<open>None\<close> when the copy leaves \<open>m_sendBuf\<close>.
\<close>

definition login :: "uv \<Rightarrow> int \<Rightarrow> client \<Rightarrow> (int \<times> client) option" where
  "login env m_sequence c =
    (let c = c\<lparr>m_results := (\<lambda>_. None)\<rparr>;
         msg = json_write env (login_doc c)
     in if length msg > 2048 - 2 then Some (m_sequence, c)
        else if length msg + 2 > 768 then None
        else Some (snd (send env m_sequence c (msg @ [CHR 0x0A]))))"

definition onConnect :: "uv \<Rightarrow> int \<Rightarrow> int \<Rightarrow> client \<Rightarrow> (int \<times> client) option" where
  "onConnect env status m_sequence c =
    (if status < 0 then Some (m_sequence, close c)
     else login env m_sequence (setState (c\<lparr>m_stream := True\<rparr>) ConnectedState))"

section \<open>Messages from the pool\<close>

definition isCriticalError :: "string option \<Rightarrow> bool" where
  "isCriticalError message =
    (case message of
       None \<Rightarrow> False
     | Some m \<Rightarrow> strncaseeq m ''Unauthenticated'' 15 \<or> strncaseeq m ''your IP is banned'' 17 \<or>
         strncaseeq m ''IP Address currently banned'' 27)"

text \<open>The result is whether a new job was taken, and the error code, unchanged when nothing sets it.\<close>

definition parseJob :: "uv \<Rightarrow> client \<Rightarrow> json \<Rightarrow> int \<Rightarrow> client \<times> bool \<times> int" where
  "parseJob env c params code =
    (if \<not> IsObject params then (c, False, 2)
     else let job = Job (stack_blob env) (c_id c) (url_nicehash (m_url c));
              (job, ok) = Job_setId job (GetString (member params ''job_id''))
       in if \<not> ok then (c, False, 3)
          else let (job, ok) = setBlob job (GetString (member params ''blob''))
            in if \<not> ok then (c, False, 4)
               else let (job, ok) = setTarget (stack_str env) job (GetString (member params ''target''))
                 in if \<not> ok then (c, False, 5)
                    else if Job_eq (m_job c) job then (close c, False, code)
                    else (c\<lparr>m_job := job\<rparr>, True, code))"

definition parseLogin :: "uv \<Rightarrow> client \<Rightarrow> json \<Rightarrow> int \<Rightarrow> client \<times> bool \<times> int" where
  "parseLogin env c res code =
    (case GetString (member res ''id'') of
       None \<Rightarrow> (c, False, 1)
     | Some i \<Rightarrow>
         if 64 \<le> length i then (c, False, 1)
         else parseJob env (c\<lparr>m_rpcId := i\<rparr>) (member res ''job'') code)"

definition parseNotification :: "uv \<Rightarrow> 's listener \<Rightarrow> string option \<Rightarrow> json \<Rightarrow> json \<Rightarrow> 's \<Rightarrow> client \<Rightarrow> 's \<times> client" where
  "parseNotification env react method params error s c =
    (if IsObject error then (s, c)
     else case method of
       None \<Rightarrow> (s, c)
     | Some m \<Rightarrow>
         if m = ''job''
         then let (c, ok, code) = parseJob env c params (-1)
           in if ok then react (OnJobReceived (m_job c)) s c else (s, c)
         else (s, c))"

text \<open>The entry of a result is reported and then erased.\<close>

definition report_result :: "uv \<Rightarrow> 's listener \<Rightarrow> int \<Rightarrow> SubmitResult \<Rightarrow> string option \<Rightarrow> 's \<Rightarrow> client \<Rightarrow> 's \<times> client" where
  "report_result env react i r message s c =
    (let r = sr_done env r;
         c = c\<lparr>m_results := (m_results c)(i := Some r)\<rparr>;
         (s, c) = react (OnResultAccepted r message) s c
     in (s, c\<lparr>m_results := (m_results c)(i := None)\<rparr>))"

definition parseResponse :: "uv \<Rightarrow> 's listener \<Rightarrow> int \<Rightarrow> json \<Rightarrow> json \<Rightarrow> 's \<Rightarrow> client \<Rightarrow> 's \<times> client" where
  "parseResponse env react i res error s c =
    (if IsObject error
     then let message = GetString (member error ''message'');
              (s, c) = (case m_results c i of
                          Some r \<Rightarrow> report_result env react i r message s c
                        | None \<Rightarrow> (s, c))
       in if i = 1 \<or> isCriticalError message then (s, close c) else (s, c)
     else if \<not> IsObject res then (s, c)
     else if i = 1
     then let (c, ok, code) = parseLogin env c res (-1)
       in if \<not> ok then (s, close c)
          else let c = c\<lparr>m_failures := 0\<rparr>;
                   (s, c) = react OnLoginSuccess s c
            in react (OnJobReceived (m_job c)) s c
     else case m_results c i of
            Some r \<Rightarrow> report_result env react i r None s c
          | None \<Rightarrow> (s, c))"

text \<open>
  \<open>parse\<close> of the \<open>len\<close> characters at offset \<open>start\<close> of \<open>m_buf\<close>: the last one, the newline,
  becomes the terminator and the JSON library parses in place, up to the first terminator.
\<close>

definition write_buf :: "client \<Rightarrow> nat \<Rightarrow> char list \<Rightarrow> client" where
  "write_buf c start xs = c\<lparr>m_buf := take start (m_buf c) @ xs @ drop (start + length xs) (m_buf c)\<rparr>"

definition parse :: "uv \<Rightarrow> 's listener \<Rightarrow> nat \<Rightarrow> nat \<Rightarrow> 's \<Rightarrow> client \<Rightarrow> 's \<times> client" where
  "parse env react start len s c =
    (let c = startTimeout c;
         c = write_buf c (start + len - 1) [CHR 0x00];
         (doc, memory) = json_insitu env (take len (drop start (m_buf c)));
         c = write_buf c start memory
     in case doc of
          None \<Rightarrow> (s, c)
        | Some d \<Rightarrow>
            if \<not> IsObject d then (s, c)
            else case IsInt64 (member d ''id'') of
                Some i \<Rightarrow> parseResponse env react i (member d ''result'') (member d ''error'') s c
              | None \<Rightarrow> parseNotification env react (GetString (member d ''method''))
                  (member d ''params'') (member d ''error'') s c)"

section \<open>Reading\<close>

text \<open>\<open>onAllocBuffer\<close>: the offset in \<open>m_buf\<close> and the size offered to libuv.\<close>

definition onAllocBuffer :: "client \<Rightarrow> nat \<times> nat" where
  "onAllocBuffer c = (m_recvBufPos c, 2048 - m_recvBufPos c)"

text \<open>
  \<^verbatim>\<open>memchr(start, '\n', remaining)\<close>: the offset of the first newline, \<open>Some None\<close> when there is
  none, and \<open>None\<close> when the search leaves \<open>m_buf\<close>.
\<close>

definition memchr_newline :: "char list \<Rightarrow> nat \<Rightarrow> nat \<Rightarrow> nat option option" where
  "memchr_newline buf start remaining =
    (let s = takeWhile (\<lambda>x. x \<noteq> CHR 0x0A) (take remaining (drop start buf))
     in if length s < length (take remaining (drop start buf)) then Some (Some (start + length s))
        else if length buf < start + remaining then None else Some None)"

text \<open>
  The loop of \<open>onRead\<close>. A line is never empty, so the number of bytes \<open>remaining\<close> decreases.
\<close>

function read_loop :: "uv \<Rightarrow> 's listener \<Rightarrow> nat \<Rightarrow> nat \<Rightarrow> 's \<Rightarrow> client \<Rightarrow> (nat \<times> nat \<times> 's \<times> client) option" where
  "read_loop env react start remaining s c =
    (case memchr_newline (m_buf c) start remaining of
       None \<Rightarrow> None
     | Some None \<Rightarrow> Some (start, remaining, s, c)
     | Some (Some e) \<Rightarrow>
         (let end' = e + 1; len = end' - start; (s, c) = parse env react start len s c
          in read_loop env react end' (remaining - len) s c))"
  by pat_completeness auto
termination
proof (relation "measure (\<lambda>(env, react, start, remaining, s, c). remaining)", goal_cases)
  case 2
  then show ?case by (auto simp: memchr_newline_def Let_def split: if_splits)
qed simp

declare read_loop.simps [simp del]

definition onRead :: "uv \<Rightarrow> 's listener \<Rightarrow> int \<Rightarrow> nat \<Rightarrow> 's \<Rightarrow> client \<Rightarrow> ('s \<times> client) option" where
  "onRead env react nread base s c =
    (if nread < 0 then Some (s, close c)
     else if nat nread > 2048 - 8 - m_recvBufPos c then Some (s, close c)
     else let c = c\<lparr>m_recvBufPos := m_recvBufPos c + nat nread\<rparr>
       in case read_loop env react base (m_recvBufPos c) s c of
            None \<Rightarrow> None
          | Some (start, remaining, s, c) \<Rightarrow>
              if remaining = 0 then Some (s, c\<lparr>m_recvBufPos := 0\<rparr>)
              else if start = base then Some (s, c)
              else Some (s, (write_buf c base (take remaining (drop start (m_buf c))))\<lparr>m_recvBufPos := remaining\<rparr>))"

text \<open>
  What libuv does with arriving bytes: it asks for a buffer, fills it and calls \<open>onRead\<close>.
\<close>

definition receive :: "uv \<Rightarrow> 's listener \<Rightarrow> char list \<Rightarrow> 's \<Rightarrow> client \<Rightarrow> ('s \<times> client) option" where
  "receive env react data s c =
    (let (base, size) = onAllocBuffer c; data = take size data
     in onRead env react (int (length data)) base s (write_buf c base data))"

end
