(* ===== verification/Client_Correct.thy ===== *)
theory Client_Correct
  imports Client
begin

text \<open>
  The client's promises: received bytes are cut into lines and handled one by one when nothing is
  buffered (and what happens when a fragment is), the state invariant over every call into the
  client, the messages' sizes. What holds for every listener is proved in the locale
  \<open>client_listener\<close>, the contract of \<^verbatim>\<open>IClientListener\<close>.
\<close>

section \<open>The receive buffer is independent of the rest\<close>

definition with_buf :: "char list \<Rightarrow> nat \<Rightarrow> client \<Rightarrow> client" where
  "with_buf b p c = c\<lparr>m_buf := b, m_recvBufPos := p\<rparr>"

lemma with_buf_sel [simp]:
  "m_buf (with_buf b p c) = b" "m_recvBufPos (with_buf b p c) = p" "m_state (with_buf b p c) = m_state c"
  "m_socket (with_buf b p c) = m_socket c" "m_results (with_buf b p c) = m_results c"
  "m_url (with_buf b p c) = m_url c" "m_job (with_buf b p c) = m_job c" "c_id (with_buf b p c) = c_id c"
  "m_failures (with_buf b p c) = m_failures c" "m_rpcId (with_buf b p c) = m_rpcId c"
  "m_stream (with_buf b p c) = m_stream c" "m_expire (with_buf b p c) = m_expire c"
  "requests (with_buf b p c) = requests c"
  "with_buf b p (with_buf b' p' c) = with_buf b p c"
  by (simp_all add: with_buf_def)

lemma with_buf_same: "with_buf (m_buf c) (m_recvBufPos c) c = c"
  by (simp add: with_buf_def)

lemma with_buf_updates:
  "(with_buf b p c)\<lparr>m_results := r\<rparr> = with_buf b p (c\<lparr>m_results := r\<rparr>)"
  "(with_buf b p c)\<lparr>m_job := j\<rparr> = with_buf b p (c\<lparr>m_job := j\<rparr>)"
  "(with_buf b p c)\<lparr>m_failures := f\<rparr> = with_buf b p (c\<lparr>m_failures := f\<rparr>)"
  "(with_buf b p c)\<lparr>m_rpcId := i\<rparr> = with_buf b p (c\<lparr>m_rpcId := i\<rparr>)"
  "(with_buf b p c)\<lparr>m_expire := e\<rparr> = with_buf b p (c\<lparr>m_expire := e\<rparr>)"
  "(with_buf b p c)\<lparr>m_keepAliveTimer := k\<rparr> = with_buf b p (c\<lparr>m_keepAliveTimer := k\<rparr>)"
  "(with_buf b p c)\<lparr>m_recvBufPos := q\<rparr> = with_buf b q c"
  "(with_buf b p c)\<lparr>m_buf := d\<rparr> = with_buf d p c"
  by (simp_all add: with_buf_def)

lemma close_with_buf: "close (with_buf b p c) = with_buf b p (close c)"
  by (simp add: close_def setState_def request_def with_buf_def Let_def)

lemma disconnect_with_buf: "disconnect (with_buf b p c) = with_buf b p (disconnect c)"
  by (simp add: disconnect_def with_buf_updates close_with_buf)

lemma parseJob_with_buf:
  "parseJob env (with_buf b p c) params code = (case parseJob env c params code of (c', r) \<Rightarrow> (with_buf b p c', r))"
  by (simp add: parseJob_def close_with_buf with_buf_updates Let_def case_prod_beta')

lemma parseLogin_with_buf:
  "parseLogin env (with_buf b p c) res code = (case parseLogin env c res code of (c', r) \<Rightarrow> (with_buf b p c', r))"
  by (simp add: parseLogin_def with_buf_updates parseJob_with_buf split: option.split)

lemma startTimeout_with_buf: "startTimeout (with_buf b p c) = with_buf b p (startTimeout c)"
  by (simp add: startTimeout_def with_buf_updates Let_def)

lemma write_buf_with_buf:
  "write_buf (with_buf b p c) start xs = with_buf (take start b @ xs @ drop (start + length xs) b) p c"
  by (simp add: write_buf_def with_buf_updates)

section \<open>The effect of a line\<close>

text \<open>The effect of a line, apart from the buffer.\<close>

definition handle_line :: "uv \<Rightarrow> 's listener \<Rightarrow> char list \<Rightarrow> 's \<Rightarrow> client \<Rightarrow> 's \<times> client" where
  "handle_line env react line s c =
    (let c = startTimeout c
     in case fst (json_insitu env (butlast line @ [CHR 0x00])) of
          None \<Rightarrow> (s, c)
        | Some d \<Rightarrow>
            if \<not> IsObject d then (s, c)
            else case IsInt64 (member d ''id'') of
                Some i \<Rightarrow> parseResponse env react i (member d ''result'') (member d ''error'') s c
              | None \<Rightarrow> parseNotification env react (GetString (member d ''method''))
                  (member d ''params'') (member d ''error'') s c)"

definition handle_lines :: "uv \<Rightarrow> 's listener \<Rightarrow> char list list \<Rightarrow> 's \<times> client \<Rightarrow> 's \<times> client" where
  "handle_lines env react = fold (\<lambda>l (s, c). handle_line env react l s c)"

section \<open>The listener's contract\<close>

text \<open>
  What the client relies on while one of its handlers runs a callback: the listener does not look
  at or touch the receive buffer, and keeps the client's other promises \<open>keeps\<close>.
\<close>

definition client_inv :: "client \<Rightarrow> bool" where
  "client_inv c \<longleftrightarrow> (m_state c = ConnectedState \<longrightarrow> m_stream c \<and> m_socket c \<noteq> None)
    \<and> (m_state c = ClosingState \<longrightarrow> m_socket c = Some True)
    \<and> length (m_buf c) = 2048 \<and> m_recvBufPos c \<le> 2040 \<and> -1 \<le> m_failures c \<and> length (m_rpcId c) \<le> 63
    \<and> (\<forall>i r. m_results c i = Some r \<longrightarrow> sr_seq r = i)"

locale client_listener =
  fixes react :: "'s listener"
  assumes react_buf: "react e s (with_buf b p c) = (fst (react e s c), with_buf b p (snd (react e s c)))"
    and react_inv: "client_inv c \<Longrightarrow> client_inv (snd (react e s c))"
    and react_results: "m_results (snd (react e s c)) = m_results c"
begin

abbreviation lift_buf :: "char list \<Rightarrow> nat \<Rightarrow> 's \<times> client \<Rightarrow> 's \<times> client" where
  "lift_buf b p \<equiv> \<lambda>(s, c). (s, with_buf b p c)"

lemma react_lift: "react e s (with_buf b p c) = lift_buf b p (react e s c)"
  by (simp add: react_buf case_prod_beta')

lemma report_result_buf:
  "report_result env react i r m s (with_buf b p c) = lift_buf b p (report_result env react i r m s c)"
  by (simp add: report_result_def with_buf_updates react_lift case_prod_beta' Let_def)

lemma parseNotification_buf:
  "parseNotification env react m params err s (with_buf b p c) = lift_buf b p (parseNotification env react m params err s c)"
  by (simp add: parseNotification_def parseJob_with_buf react_lift case_prod_beta' Let_def split: option.split)

lemma parseResponse_buf:
  "parseResponse env react i res err s (with_buf b p c) = lift_buf b p (parseResponse env react i res err s c)"
  by (simp add: parseResponse_def parseLogin_with_buf report_result_buf react_lift close_with_buf with_buf_updates
      case_prod_beta' Let_def split: option.split)

lemma handle_line_buf: "handle_line env react line s (with_buf b p c) = lift_buf b p (handle_line env react line s c)"
  by (simp add: handle_line_def startTimeout_with_buf parseResponse_buf parseNotification_buf Let_def
      split: option.split)

lemma parse_line:
  assumes "line \<noteq> []" "take (length line) (drop start b) = line" "start + length line \<le> length b"
    and "\<And>x. length (snd (json_insitu env x)) = length x"
  shows "parse env react start (length line) s (with_buf b p c) =
    lift_buf (take start b @ snd (json_insitu env (butlast line @ [CHR 0x00])) @ drop (start + length line) b) p
      (handle_line env react line s c)"
proof -
  let ?n = "length line"
  have b: "b = take start b @ line @ drop (start + ?n) b"
    using assms(2) by (metis add.commute append_take_drop_id drop_drop)
  have n: "start + ?n - 1 = length (take start b @ butlast line)" "start + ?n - 1 + 1 = start + ?n"
    using assms(1,3) by (simp_all add: min_absorb2 Suc_leI)
  let ?b = "take (start + ?n - 1) b @ [CHR 0x00] @ drop (start + ?n - 1 + length [CHR 0x00]) b"
  have "take (start + ?n - 1) b = take start b @ butlast line"
  proof -
    have "b = (take start b @ butlast line) @ [last line] @ drop (start + ?n) b"
      using b append_butlast_last_id [OF assms(1)] by (metis append_assoc)
    then show ?thesis unfolding n(1) by (metis append_eq_conv_conj)
  qed
  then have B: "?b = take start b @ (butlast line @ [CHR 0x00]) @ drop (start + ?n) b"
    using n(2) by simp
  have l: "length (take start b) = start" "length (butlast line @ [CHR 0x00]) = ?n"
    using assms(1,3) by simp_all
  have t: "take ?n (drop start ?b) = butlast line @ [CHR 0x00]" unfolding B using l by simp
  let ?m = "snd (json_insitu env (butlast line @ [CHR 0x00]))"
  have m: "length ?m = ?n" using assms(1,4) by simp
  have W: "take start ?b @ ?m @ drop (start + length ?m) ?b = take start b @ ?m @ drop (start + ?n) b"
    unfolding B m using l by simp
  show ?thesis
    unfolding parse_def startTimeout_with_buf write_buf_with_buf Let_def
    by (simp only: with_buf_sel t case_prod_beta' W handle_line_def Let_def
        parseResponse_buf parseNotification_buf split: option.split)
      (auto simp: case_prod_beta')
qed

end

section \<open>Lines\<close>

definition is_line :: "char list \<Rightarrow> bool" where
  "is_line l \<longleftrightarrow> l \<noteq> [] \<and> last l = CHR 0x0A \<and> CHR 0x0A \<notin> set (butlast l)"

lemma takeWhile_line: "is_line l \<Longrightarrow> takeWhile (\<lambda>x. x \<noteq> CHR 0x0A) (l @ xs) = butlast l"
proof -
  assume l: "is_line l"
  then have A: "l @ xs = butlast l @ CHR 0x0A # xs"
    unfolding is_line_def using append_butlast_last_id [of l] by (metis append.assoc append_Cons append_Nil)
  have "CHR 0x0A \<notin> set (butlast l)" using l by (simp add: is_line_def)
  then have B: "takeWhile (\<lambda>x. x \<noteq> CHR 0x0A) (butlast l @ CHR 0x0A # xs) = butlast l"
    by (subst takeWhile_append2) auto
  show ?thesis unfolding A by (rule B)
qed

lemma memchr_line:
  assumes "is_line l" "take n (drop start b) = l @ xs"
  shows "memchr_newline b start n = Some (Some (start + length l - 1))"
proof -
  have "0 < length l" using assms(1) by (simp add: is_line_def)
  then show ?thesis using takeWhile_line [OF assms(1)] unfolding memchr_newline_def assms(2)
    by (cases l) (simp_all add: Let_def)
qed

lemma memchr_none:
  assumes "CHR 0x0A \<notin> set xs" "take (length xs) (drop start b) = xs" "start + length xs \<le> length b"
  shows "memchr_newline b start (length xs) = Some None"
proof -
  have T: "takeWhile (\<lambda>x. x \<noteq> CHR 0x0A) xs = xs" using assms(1) by (auto simp: takeWhile_eq_all_conv)
  show ?thesis unfolding memchr_newline_def assms(2) Let_def T using assms(3) by simp
qed

context client_listener
begin

lemma handle_lines_buf:
  "handle_lines env react ls (s, with_buf b p c) = lift_buf b p (handle_lines env react ls (s, c))"
proof (induction ls arbitrary: s c)
  case (Cons l ls)
  then show ?case by (cases "handle_line env react l s c") (simp add: handle_lines_def handle_line_buf)
qed (simp add: handle_lines_def)

lemma read_loop_lines:
  assumes "\<And>l. l \<in> set ls \<Longrightarrow> is_line l" "CHR 0x0A \<notin> set rest"
    and "take (length (concat ls @ rest)) (drop start b) = concat ls @ rest"
    and "start + length (concat ls @ rest) \<le> length b"
    and "\<And>x. length (snd (json_insitu env x)) = length x"
  shows "\<exists>b'. read_loop env react start (length (concat ls @ rest)) s (with_buf b p c) =
      Some (start + length (concat ls), length rest, lift_buf b' p (handle_lines env react ls (s, c)))
    \<and> length b' = length b \<and> drop (start + length (concat ls)) b' = drop (start + length (concat ls)) b"
  using assms(1,3,4)
proof (induction ls arbitrary: start b s c)
  case Nil
  have "memchr_newline b start (length rest) = Some None"
    using Nil assms(2) by (intro memchr_none) simp_all
  then show ?case by (subst read_loop.simps) (auto simp: handle_lines_def)
next
  case (Cons l ls)
  let ?D = "concat ls @ rest"
  have l: "is_line l" "l \<noteq> []" "0 < length l" using Cons.prems(1) by (auto simp: is_line_def)
  have D: "take (length l + length ?D) (drop start b) = l @ ?D" "start + (length l + length ?D) \<le> length b"
    using Cons.prems(2,3) by simp_all
  have m: "memchr_newline b start (length (concat (l # ls) @ rest)) = Some (Some (start + length l - 1))"
    using l(1) D(1) by (intro memchr_line [where xs = ?D]) simp_all
  have tl: "take (length l) (drop start b) = l"
    using arg_cong [OF D(1), of "take (length l)"] by (simp add: min_def)
  have td: "take (length ?D) (drop (start + length l) b) = ?D"
    using arg_cong [OF D(1), of "drop (length l)"] by (simp add: drop_take add.commute)
  let ?b = "take start b @ snd (json_insitu env (butlast l @ [CHR 0x00])) @ drop (start + length l) b"
  have parse: "parse env react start (length l) s (with_buf b p c) = lift_buf ?b p (handle_line env react l s c)"
    using l(2) tl D(2) assms(5) by (intro parse_line) simp_all
  have lb: "length ?b = length b" "drop (start + length l) ?b = drop (start + length l) b"
    using D(2) l(3) by (simp_all add: assms(5))
  obtain s1 c1 where h: "handle_line env react l s c = (s1, c1)" by (cases "handle_line env react l s c")
  have "take (length ?D) (drop (start + length l) ?b) = ?D" "start + length l + length ?D \<le> length ?b"
    using td D(2) lb by simp_all
  then obtain b' where b': "read_loop env react (start + length l) (length ?D) s1 (with_buf ?b p c1) =
      Some (start + length l + length (concat ls), length rest, lift_buf b' p (handle_lines env react ls (s1, c1)))"
    "length b' = length ?b"
    "drop (start + length l + length (concat ls)) b' = drop (start + length l + length (concat ls)) ?b"
    using Cons.IH [of "start + length l" ?b s1 c1] Cons.prems(1) by auto
  have e: "start + length l - 1 + 1 = start + length l" "start + length l - start = length l"
    "length (concat (l # ls) @ rest) - length l = length ?D" using l(3) by simp_all
  have "read_loop env react start (length (concat (l # ls) @ rest)) s (with_buf b p c) =
      read_loop env react (start + length l) (length ?D) s1 (with_buf ?b p c1)"
    by (subst read_loop.simps) (simp only: with_buf_sel m option.case e parse h Let_def prod.case)
  moreover have "drop (start + length l + length (concat ls)) ?b = drop (start + length l + length (concat ls)) b"
    using lb(2) by (metis drop_drop add.commute)
  ultimately show ?case
    using b' lb(1) h by (auto simp: handle_lines_def add.assoc intro!: exI [of _ b'])
qed

lemma receive_lines:
  assumes "m_recvBufPos c = 0" "length (m_buf c) = 2048" "data = concat ls @ rest" "length data \<le> 2040"
    and "\<And>l. l \<in> set ls \<Longrightarrow> is_line l" "CHR 0x0A \<notin> set rest"
    and "\<And>x. length (snd (json_insitu env x)) = length x"
  shows "\<exists>b. receive env react data s c = Some (lift_buf b (length rest) (handle_lines env react ls (s, c)))
    \<and> length b = 2048 \<and> take (length rest) b = rest"
proof -
  let ?n = "length data"
  let ?b0 = "data @ drop ?n (m_buf c)"
  have "write_buf c 0 data = with_buf ?b0 0 c" using assms(1)
    by (cases c) (simp add: write_buf_def with_buf_def)
  then have r: "receive env react data s c = onRead env react (int ?n) 0 s (with_buf ?b0 0 c)"
    using assms(1,4) by (simp add: receive_def onAllocBuffer_def Let_def)
  obtain b' where b': "read_loop env react 0 ?n s (with_buf ?b0 ?n c) =
      Some (0 + length (concat ls), length rest, lift_buf b' ?n (handle_lines env react ls (s, c)))"
    "length b' = length ?b0" "drop (0 + length (concat ls)) b' = drop (0 + length (concat ls)) ?b0"
    using read_loop_lines [of ls rest 0 ?b0 env s ?n c] assms by auto
  obtain s1 c1 where h: "handle_lines env react ls (s, c) = (s1, c1)" by (cases "handle_lines env react ls (s, c)")
  have lb: "length ?b0 = 2048" using assms(2,4) by simp
  have rest: "take (length rest) (drop (length (concat ls)) b') = rest"
    using b'(3) assms(3) by simp
  have o: "onRead env react (int ?n) 0 s (with_buf ?b0 0 c) =
      (if rest = [] then Some (s1, with_buf b' 0 c1)
       else if concat ls = [] then Some (s1, with_buf b' ?n c1)
       else Some (s1, with_buf (rest @ drop (length rest) b') (length rest) c1))"
    using assms(4) rest by (auto simp: onRead_def with_buf_updates b'(1) h Let_def write_buf_def)
  show ?thesis
  proof (cases "rest = [] \<or> concat ls = []")
    case True
    have "take (length rest) b' = rest" if "concat ls = []"
      using rest unfolding that by simp
    then have "take (length rest) b' = rest" using True by auto
    moreover have "rest = [] \<or> ?n = length rest" using True assms(3) by auto
    ultimately show ?thesis using True o r h b'(2) lb by (auto intro!: exI [of _ b'])
  next
    case False
    have "length rest \<le> 2048" using assms(3,4) by simp
    then show ?thesis using False o r h b'(2) lb
      by (auto intro!: exI [of _ "rest @ drop (length rest) b'"])
  qed
qed

end

section \<open>The invariant\<close>

lemma inv_updates [simp]:
  "client_inv c \<Longrightarrow> client_inv (c\<lparr>m_expire := e\<rparr>)"
  "client_inv c \<Longrightarrow> client_inv (c\<lparr>m_keepAliveTimer := k\<rparr>)"
  "client_inv c \<Longrightarrow> client_inv (c\<lparr>m_job := j\<rparr>)"
  "client_inv c \<Longrightarrow> client_inv (c\<lparr>m_url := u\<rparr>)"
  "client_inv c \<Longrightarrow> client_inv (c\<lparr>requests := q\<rparr>)"
  "client_inv c \<Longrightarrow> client_inv (c\<lparr>m_results := \<lambda>_. None\<rparr>)"
  "client_inv c \<Longrightarrow> -1 \<le> f \<Longrightarrow> client_inv (c\<lparr>m_failures := f\<rparr>)"
  "client_inv c \<Longrightarrow> length rpc \<le> 63 \<Longrightarrow> client_inv (c\<lparr>m_rpcId := rpc\<rparr>)"
  "client_inv c \<Longrightarrow> n \<le> 2040 \<Longrightarrow> client_inv (c\<lparr>m_recvBufPos := n\<rparr>)"
  "client_inv c \<Longrightarrow> sr_seq r = i \<Longrightarrow> client_inv (c\<lparr>m_results := (m_results c)(i := Some r)\<rparr>)"
  "client_inv c \<Longrightarrow> client_inv (c\<lparr>m_results := (m_results c)(i := None)\<rparr>)"
  by (auto simp: client_inv_def)

lemma close_inv: "client_inv c \<Longrightarrow> client_inv (close c)"
  by (auto simp: client_inv_def close_def setState_def request_def Let_def)

lemma request_inv: "client_inv c \<Longrightarrow> client_inv (request r c)"
  by (simp add: request_def)

lemma setState_inv:
  "client_inv c \<Longrightarrow> st \<noteq> ConnectedState \<Longrightarrow> st \<noteq> ClosingState \<Longrightarrow> client_inv (setState c st)"
  by (auto simp: setState_def client_inv_def)

lemma resolve_inv: "client_inv c \<Longrightarrow> client_inv (fst (resolve env c h))"
  by (simp add: resolve_def setState_inv request_inv Let_def)

lemma connect_inv: "client_inv c \<Longrightarrow> client_inv (connect env c)"
  by (simp add: connect_def resolve_inv)

lemma setUrl_inv: "client_inv c \<Longrightarrow> client_inv (setUrl c u)"
  by (simp add: setUrl_def split: option.split)

lemma disconnect_inv: "client_inv c \<Longrightarrow> client_inv (disconnect c)"
  by (simp add: disconnect_def close_inv)

lemma tick_inv: "client_inv c \<Longrightarrow> client_inv (tick env t c)"
  by (simp add: tick_def close_inv connect_inv Let_def)

lemma connect_addr_inv: "client_inv c \<Longrightarrow> client_inv (connect_addr c)"
  by (auto simp: connect_addr_def request_def setState_def client_inv_def)

lemma startTimeout_inv: "client_inv c \<Longrightarrow> client_inv (startTimeout c)"
  by (simp add: startTimeout_def Let_def)

lemma send_inv: "client_inv c \<Longrightarrow> client_inv (snd (snd (send env q c m)))"
  by (simp add: send_def close_inv request_inv)

lemma submit_inv: "client_inv c \<Longrightarrow> submit env q c r = Some (v, q', c') \<Longrightarrow> client_inv c'"
proof -
  assume a: "client_inv c" "submit env q c r = Some (v, q', c')"
  then obtain ad where "send env q
      (c\<lparr>m_results := (m_results c)(q := Some (SubmitResult_new env q (r_diff r) ad))\<rparr>) (submit_message q (m_rpcId c) r)
      = (v, q', c')"
    by (auto simp: submit_def split: option.splits)
  moreover have "client_inv (c\<lparr>m_results := (m_results c)(q := Some (SubmitResult_new env q (r_diff r) ad))\<rparr>)"
    using a(1) by (rule inv_updates) (simp add: SubmitResult_new_def)
  ultimately show "client_inv c'" using send_inv by (metis snd_conv)
qed

lemma ping_inv: "client_inv c \<Longrightarrow> client_inv (snd (snd (ping env q c)))"
  by (simp add: ping_def send_inv)

lemma login_inv: "client_inv c \<Longrightarrow> login env q c = Some (q', c') \<Longrightarrow> client_inv c'"
  using send_inv [of "c\<lparr>m_results := \<lambda>_. None\<rparr>" env q "json_write env (login_doc (c\<lparr>m_results := \<lambda>_. None\<rparr>)) @ [CHR 0x0A]"]
  by (auto simp: login_def Let_def split: if_splits)

lemma onConnect_inv:
  assumes "client_inv c" "m_socket c \<noteq> None" "onConnect env status q c = Some (q', c')"
  shows "client_inv c'"
proof (cases "status < 0")
  case False
  have "client_inv (setState (c\<lparr>m_stream := True\<rparr>) ConnectedState)"
    using assms(1,2) by (simp add: setState_def client_inv_def)
  then show ?thesis using False assms(3) login_inv by (simp add: onConnect_def)
qed (use assms in \<open>auto simp: onConnect_def close_inv\<close>)

lemma parseJob_inv: "client_inv c \<Longrightarrow> client_inv (fst (parseJob env c params code))"
  by (simp add: parseJob_def close_inv Let_def case_prod_beta')

lemma parseLogin_inv: "client_inv c \<Longrightarrow> client_inv (fst (parseLogin env c res code))"
  by (auto simp: parseLogin_def parseJob_inv split: option.split)

lemma write_buf_inv:
  "client_inv c \<Longrightarrow> start + length xs \<le> 2048 \<Longrightarrow> client_inv (write_buf c start xs)"
  by (simp add: write_buf_def client_inv_def)

text \<open>The JSON library parses a line in its place.\<close>

definition env_ok :: "uv \<Rightarrow> bool" where
  "env_ok env \<longleftrightarrow> (\<forall>x. length (snd (json_insitu env x)) = length x)"

context client_listener
begin

lemma reconnect_inv: "client_inv c \<Longrightarrow> client_inv (snd (reconnect env react s c))"
proof -
  assume "client_inv c"
  then have "client_inv (if m_keepAlive (m_url (setState c ConnectingState))
      then (setState c ConnectingState)\<lparr>m_keepAliveTimer := False\<rparr> else setState c ConnectingState)" (is "client_inv ?c")
    by (simp add: setState_inv)
  moreover have "-1 \<le> m_failures ?c" using calculation by (simp add: client_inv_def)
  ultimately show ?thesis
    unfolding reconnect_def Let_def by (simp add: case_prod_beta' react_inv)
qed

lemma onClose_inv: "client_inv c \<Longrightarrow> client_inv (snd (onClose env react s c))"
  unfolding onClose_def by (rule reconnect_inv) (auto simp: setState_def client_inv_def)

lemma onResolved_inv: "client_inv c \<Longrightarrow> client_inv (snd (onResolved env react status addrs s c))"
  by (simp add: onResolved_def reconnect_inv connect_addr_inv)

lemma report_result_inv:
  "client_inv c \<Longrightarrow> m_results c i = Some r \<Longrightarrow> client_inv (snd (report_result env react i r m s c))"
proof -
  assume a: "client_inv c" "m_results c i = Some r"
  then have "sr_seq (sr_done env r) = i" by (simp add: client_inv_def sr_done_def)
  then show ?thesis using a(1) by (simp add: report_result_def Let_def case_prod_beta' react_inv)
qed

lemma parseNotification_inv: "client_inv c \<Longrightarrow> client_inv (snd (parseNotification env react m params err s c))"
  by (simp add: parseNotification_def parseJob_inv react_inv Let_def case_prod_beta' split: option.split)

lemma parseResponse_inv: "client_inv c \<Longrightarrow> client_inv (snd (parseResponse env react i res err s c))"
  by (simp add: parseResponse_def parseLogin_inv close_inv react_inv report_result_inv Let_def case_prod_beta'
      split: option.split)

lemma parse_inv:
  assumes "client_inv c" "env_ok env" "0 < len" "start + len \<le> 2048"
  shows "client_inv (snd (parse env react start len s c))"
proof -
  have "client_inv (write_buf (startTimeout c) (start + len - 1) [CHR 0x00])" (is "client_inv ?c")
    using assms by (intro write_buf_inv startTimeout_inv) simp_all
  moreover have "length (snd (json_insitu env (take len (drop start (m_buf ?c))))) = len"
    using assms calculation by (simp add: env_ok_def client_inv_def)
  ultimately have "client_inv (write_buf ?c start (snd (json_insitu env (take len (drop start (m_buf ?c))))))"
    using assms(4) write_buf_inv by metis
  then show ?thesis unfolding parse_def Let_def
    by (simp add: parseResponse_inv parseNotification_inv case_prod_beta' split: option.split)
qed

lemma read_loop_inv:
  assumes "client_inv c" "env_ok env" "read_loop env react start remaining s c = Some (start', remaining', s', c')"
  shows "client_inv c' \<and> start \<le> start' \<and> remaining' \<le> remaining \<and> start' + remaining' \<le> 2048"
  using assms
proof (induction remaining arbitrary: start s c rule: less_induct)
  case (less remaining)
  note 1 = this
  show ?case
  proof (cases "memchr_newline (m_buf c) start remaining")
    case None
    then show ?thesis using 1(4) by (subst (asm) read_loop.simps) simp
  next
    case (Some m)
    show ?thesis
    proof (cases m)
      case None
      then have "start + remaining \<le> length (m_buf c)"
        using Some by (auto simp: memchr_newline_def Let_def split: if_splits)
      then show ?thesis using 1(2,4) Some None by (subst (asm) read_loop.simps) (simp add: client_inv_def)
    next
      case (Some e)
      note m = \<open>memchr_newline (m_buf c) start remaining = Some m\<close>[unfolded Some]
      have e: "start \<le> e" "e < length (m_buf c)" "e < start + remaining"
        using m by (auto simp: memchr_newline_def Let_def split: if_splits)
      obtain s1 c1 where p: "parse env react start (e + 1 - start) s c = (s1, c1)"
        by (cases "parse env react start (e + 1 - start) s c")
      have "length (m_buf c) = 2048" using 1(2) by (simp add: client_inv_def)
      then have "client_inv (snd (parse env react start (e + 1 - start) s c))"
        using e parse_inv [OF 1(2) 1(3), of "e + 1 - start" start s] by simp
      then have c1: "client_inv c1" using p by simp
      have r: "read_loop env react (e + 1) (remaining - (e + 1 - start)) s1 c1 =
          Some (start', remaining', s', c')"
        using 1(4) m p by (subst (asm) read_loop.simps) simp
      have "remaining - (e + 1 - start) < remaining" using e by simp
      then have "client_inv c' \<and> e + 1 \<le> start' \<and> remaining' \<le> remaining - (e + 1 - start) \<and> start' + remaining' \<le> 2048"
        by (rule 1(1) [OF _ c1 1(3) r])
      then show ?thesis using e(1) by (meson diff_le_self le_trans le_add1)
    qed
  qed
qed


lemma receive_inv:
  assumes "client_inv c" "env_ok env" "receive env react data s c = Some (s', c')"
  shows "client_inv c'"
proof -
  let ?p = "m_recvBufPos c"
  define d where "d = take (2048 - ?p) data"
  have c: "length (m_buf c) = 2048" "?p \<le> 2040" using assms(1) by (simp_all add: client_inv_def)
  have w: "client_inv (write_buf c ?p d)" (is "client_inv ?c")
    using assms(1) c(2) by (intro write_buf_inv) (simp_all add: d_def)
  have wp: "m_recvBufPos ?c = ?p" by (simp add: write_buf_def)
  have r: "receive env react data s c = onRead env react (int (length d)) ?p s ?c"
    by (simp add: receive_def onAllocBuffer_def d_def)
  show ?thesis
  proof (cases "length d > 2048 - 8 - ?p")
    case True
    then show ?thesis using assms(3) close_inv [OF w] by (auto simp: r onRead_def wp)
  next
    case False
    let ?c2 = "?c\<lparr>m_recvBufPos := ?p + length d\<rparr>"
    have c2: "client_inv ?c2" using w False c(2) by simp
    obtain start remaining s1 c1 where l: "read_loop env react ?p (?p + length d) s ?c2 = Some (start, remaining, s1, c1)"
      using assms(3) False by (auto simp: r onRead_def wp Let_def split: option.splits)
    have i: "client_inv c1" "?p \<le> start" "remaining \<le> ?p + length d" "start + remaining \<le> 2048"
      using read_loop_inv [OF c2 assms(2) l] by auto
    have "client_inv (write_buf c1 ?p (take remaining (drop start (m_buf c1))))"
      using i by (intro write_buf_inv) simp_all
    moreover have "remaining \<le> 2040" using i(3) False c(2) by simp
    ultimately show ?thesis
      using assms(3) False i(1) by (auto simp: r onRead_def wp l Let_def split: if_splits)
  qed
qed

end

section \<open>All events of a connection\<close>

text \<open>
  One call into the client: a public operation, or a callback of libuv. A connect callback comes
  with a socket and a close callback after \<open>uv_close\<close>; everything else may come at any time.
\<close>

inductive client_step :: "'s listener \<Rightarrow> 's \<times> client \<Rightarrow> 's \<times> client \<Rightarrow> bool" for react where
  step_connect: "client_step react (s, c) (s, connect env c)"
| step_connect_url: "client_step react (s, c) (s, connect_url env c u)"
| step_setUrl: "client_step react (s, c) (s, setUrl c u)"
| step_disconnect: "client_step react (s, c) (s, disconnect c)"
| step_tick: "client_step react (s, c) (s, tick env t c)"
| step_submit: "submit env q c r = Some (v, q', c') \<Longrightarrow> client_step react (s, c) (s, c')"
| step_ping: "client_step react (s, c) (s, snd (snd (ping env q c)))"
| step_resolved: "client_step react (s, c) (onResolved env react status addrs s c)"
| step_onConnect: "m_socket c \<noteq> None \<Longrightarrow> onConnect env status q c = Some (q', c') \<Longrightarrow> client_step react (s, c) (s, c')"
| step_receive: "env_ok env \<Longrightarrow> receive env react data s c = Some (s', c') \<Longrightarrow> client_step react (s, c) (s', c')"
| step_onClose: "m_socket c = Some True \<Longrightarrow> client_step react (s, c) (onClose env react s c)"
| step_readError: "nread < 0 \<Longrightarrow> onRead env react nread base s c = Some (s', c') \<Longrightarrow> client_step react (s, c) (s', c')"

context client_listener
begin

lemma step_inv: "client_step react x y \<Longrightarrow> client_inv (snd x) \<Longrightarrow> client_inv (snd y)"
proof (induction rule: client_step.induct)
  case (step_connect s c env)
  then show ?case by (simp add: connect_inv)
next
  case (step_connect_url s c env u)
  then show ?case by (simp add: connect_url_def connect_inv setUrl_inv)
next
  case (step_setUrl s c u)
  then show ?case by (simp add: setUrl_inv)
next
  case (step_disconnect s c)
  then show ?case by (simp add: disconnect_inv)
next
  case (step_tick s c env t)
  then show ?case by (simp add: tick_inv)
next
  case (step_submit env q c r v q' c' s)
  then show ?case by (simp add: submit_inv)
next
  case (step_ping s c env q)
  then show ?case by (simp add: ping_inv)
next
  case (step_resolved s c env status addrs)
  then show ?case by (simp add: onResolved_inv)
next
  case (step_onConnect c env status q q' c' s)
  then show ?case using onConnect_inv by fastforce
next
  case (step_receive env data s c s' c')
  then show ?case using receive_inv by fastforce
next
  case (step_onClose c s env)
  then show ?case by (simp add: onClose_inv)
next
  case (step_readError nread env base s c s' c')
  then have "c' = close c" by (simp add: onRead_def)
  then show ?case using step_readError close_inv by simp
qed

lemma steps_inv: "(client_step react)\<^sup>*\<^sup>* x y \<Longrightarrow> client_inv (snd x) \<Longrightarrow> client_inv (snd y)"
  by (induction rule: rtranclp_induct) (simp_all add: step_inv)

text \<open>A line that arrives in a second read, after a fragment \<open>a\<close> of \<open>p\<close> bytes.\<close>

lemma receive_after_fragment:
  assumes "0 < m_recvBufPos c" "length (m_buf c) = 2048" "is_line l" "m_recvBufPos c + length l \<le> 2040"
    and "2 * m_recvBufPos c + length l \<le> 2048"
    and "stale = take (m_recvBufPos c) (drop (m_recvBufPos c + length l) (m_buf c))" "CHR 0x0A \<notin> set stale"
    and "env_ok env"
  shows "\<exists>b. receive env react l s c = Some (lift_buf b (m_recvBufPos c) (handle_line env react l s c))"
proof -
  let ?p = "m_recvBufPos c" and ?n = "length l"
  let ?b0 = "take ?p (m_buf c) @ l @ drop (?p + ?n) (m_buf c)"
  have w: "write_buf c ?p l = with_buf ?b0 ?p c" by (cases c) (simp add: write_buf_def with_buf_def)
  then have r: "receive env react l s c = onRead env react (int ?n) ?p s (with_buf ?b0 ?p c)"
    using assms(4) by (simp add: receive_def onAllocBuffer_def Let_def)
  have ls: "length stale = ?p" using assms(2,5,6) by simp
  have "take (?n + ?p) (drop ?p ?b0) = l @ stale"
    using assms(2,5,6) by simp
  then obtain b' where b': "read_loop env react ?p (?p + ?n) s (with_buf ?b0 (?p + ?n) c) =
      Some (?p + ?n, ?p, lift_buf b' (?p + ?n) (handle_lines env react [l] (s, c)))"
    using read_loop_lines [of "[l]" stale ?p ?b0 env s "?p + ?n" c] assms ls
    by (auto simp: env_ok_def add.commute)
  obtain s1 c1 where h: "handle_line env react l s c = (s1, c1)" by (cases "handle_line env react l s c")
  have "?n \<noteq> 0" "\<not> 2048 - 8 - ?p < ?n" using assms(3,4) by (simp_all add: is_line_def)
  then have "onRead env react (int ?n) ?p s (with_buf ?b0 ?p c) =
      Some (s1, (write_buf (with_buf b' (?p + ?n) c1) ?p (take ?p (drop (?p + ?n) b')))\<lparr>m_recvBufPos := ?p\<rparr>)"
    using assms(1,4) b' h by (simp add: onRead_def with_buf_updates handle_lines_def Let_def)
  then show ?thesis unfolding r h write_buf_with_buf with_buf_updates by auto
qed

end

section \<open>Messages fit the send buffer\<close>

lemma length_dec_digits: "n < 10 ^ k \<Longrightarrow> 0 < k \<Longrightarrow> length (dec_digits n) \<le> k"
proof (induction n arbitrary: k rule: dec_digits.induct)
  case (1 n)
  show ?case
  proof (cases "n < 10")
    case True
    then show ?thesis using 1(3) by (subst dec_digits.simps) simp
  next
    case False
    then obtain k' where k: "k = Suc k'" "0 < k'" using 1(2) by (cases k; cases "k - 1") auto
    have "n div 10 < 10 ^ k'" using 1(2) by (simp add: k(1) div_less_iff_less_mult)
    then show ?thesis using 1(1) [OF False _ k(2)] False by (subst dec_digits.simps) (simp add: k(1))
  qed
qed

lemma length_PRI64: "- (2 ^ 63) \<le> i \<Longrightarrow> i < 2 ^ 63 \<Longrightarrow> length (PRI64 i) \<le> 20"
  using length_dec_digits [of "nat i" 19] length_dec_digits [of "nat (- i)" 19]
  by (auto simp: PRI64_def nat_less_iff)

lemma length_toHex: "length (toHex b n) = 2 * n"
  by (induction n) (simp_all add: toHex_def)

text \<open>The submit message of any result with identifiers the client accepts fits
  \<^verbatim>\<open>m_sendBuf[768]\<close> with its terminator, so \<^verbatim>\<open>snprintf\<close> never truncates it.\<close>

theorem submit_message_fits:
  assumes "length rpc \<le> 63" and "length (jobId r) = 64" and "JobId_data (jobId r) \<noteq> jobId r"
    and "- (2 ^ 63) \<le> q" and "q < 2 ^ 63"
  shows "length (submit_message q rpc r) + 1 \<le> 768"
proof -
  have "length (JobId_data (jobId r)) < 64"
    using assms(2,3) length_takeWhile_le [of _ "jobId r"] takeWhile_eq_all_conv
    by (metis JobId_data_def le_neq_implies_less takeWhile_eq_take take_all_iff order_refl)
  then show ?thesis using assms(1) length_PRI64 [OF assms(4,5)]
    by (simp add: submit_message_def Let_def length_toHex)
qed

text \<open>The login message is checked against the size of the receive buffer, 2048, and then
  copied into the send buffer of 768 bytes: the copy leaves it exactly for messages of 767 to
  2046 bytes, which a long user name or password makes.\<close>

theorem login_overflows_send_buffer:
  "login env q c = None \<longleftrightarrow>
    length (json_write env (login_doc c)) \<in> {767..2046}"
proof -
  have "login_doc (c\<lparr>m_results := \<lambda>_. None\<rparr>) = login_doc c" by (simp add: login_doc_def)
  then show ?thesis by (auto simp: login_def Let_def)
qed

section \<open>Closing\<close>

text \<open>A client that is still resolving the pool's name cannot be disconnected: the call leaves
  it in the lookup state and the answer of the resolver goes on to connect it.\<close>

theorem disconnect_during_lookup:
  assumes "m_state c = HostLookupState" and "m_socket c = None" and "True \<in> set addrs" and "0 \<le> status"
  shows "m_state (disconnect c) = HostLookupState
    \<and> m_state (snd (onResolved env react status addrs s (disconnect c))) = ConnectingState
    \<and> m_socket (snd (onResolved env react status addrs s (disconnect c))) = Some False"
proof -
  have "filter (\<lambda>v4. v4) addrs \<noteq> []" using assms(3) by (auto simp: filter_empty_conv)
  then show ?thesis using assms
    by (simp add: disconnect_def close_def onResolved_def connect_addr_def request_def setState_def)
qed

section \<open>Answers to submitted results\<close>

text \<open>
  What can happen once a share is sent: other calls into the client, a new login, and lines from the pool, each in
  the environment it finds. The listener writes down the events.
\<close>

datatype exchange = SubmitCall JobResult | PingCall | LoginCall | TickCall u64 | PoolLine "char list"

definition recorder :: "client_event list listener" where
  "recorder e s c = (s @ [e], c)"

fun exchange_step :: "uv \<times> exchange \<Rightarrow> int \<times> client_event list \<times> client \<Rightarrow> (int \<times> client_event list \<times> client) option" where
  "exchange_step (env, SubmitCall r) (q, s, c) = map_option (\<lambda>(v, q, c). (q, s, c)) (submit env q c r)"
| "exchange_step (env, PingCall) (q, s, c) = (case ping env q c of (v, q, c) \<Rightarrow> Some (q, s, c))"
| "exchange_step (env, LoginCall) (q, s, c) = map_option (\<lambda>(q, c). (q, s, c)) (login env q c)"
| "exchange_step (env, TickCall t) (q, s, c) = Some (q, s, tick env t c)"
| "exchange_step (env, PoolLine l) (q, s, c) = Some (q, handle_line env recorder l s c)"

fun exchanges :: "(uv \<times> exchange) list \<Rightarrow> int \<times> client_event list \<times> client \<Rightarrow> (int \<times> client_event list \<times> client) option" where
  "exchanges [] st = Some st"
| "exchanges (x # xs) st = Option.bind (exchange_step x st) (exchanges xs)"

text \<open>
  The verdict of a line on the request \<open>i\<close>: the message of an error object, or no message for a result object. The
  answer with number 1 is that to the login, which no share has. The verdict of a run is that of its first line with
  one, unless a new login comes before.
\<close>

definition answer_to :: "uv \<Rightarrow> int \<Rightarrow> char list \<Rightarrow> string option option" where
  "answer_to env i line =
    (case fst (json_insitu env (butlast line @ [CHR 0x00])) of
       None \<Rightarrow> None
     | Some d \<Rightarrow>
         if \<not> IsObject d \<or> IsInt64 (member d ''id'') \<noteq> Some i then None
         else if IsObject (member d ''error'') then Some (GetString (member (member d ''error'') ''message''))
         else if IsObject (member d ''result'') \<and> i \<noteq> 1 then Some None else None)"

fun verdict :: "int \<Rightarrow> (uv \<times> exchange) list \<Rightarrow> (uv \<times> string option) option" where
  "verdict i [] = None"
| "verdict i ((env, PoolLine l) # xs) = (case answer_to env i l of Some m \<Rightarrow> Some (env, m) | None \<Rightarrow> verdict i xs)"
| "verdict i ((env, LoginCall) # xs) = None"
| "verdict i (_ # xs) = verdict i xs"

fun reports :: "int \<Rightarrow> client_event \<Rightarrow> bool" where
  "reports i (OnResultAccepted r m) \<longleftrightarrow> sr_seq r = i"
| "reports i _ \<longleftrightarrow> False"

interpretation recorder: client_listener recorder
  by unfold_locales (simp_all add: recorder_def)

lemma results_kept [simp]:
  "m_results (setState c st) = m_results c" "m_results (request r c) = m_results c" "m_results (close c) = m_results c"
  "m_results (startTimeout c) = m_results c" "m_results (fst (parseJob env c p k)) = m_results c"
  "m_results (fst (parseLogin env c p k)) = m_results c" "m_results (snd (snd (send env q c msg))) = m_results c"
  "m_results (tick env t c) = m_results c"
proof -
  show s: "m_results (setState c st) = m_results c" for c st by (simp add: setState_def)
  show r: "m_results (request r c) = m_results c" for r c by (simp add: request_def)
  show cl: "m_results (close c) = m_results c" for c by (simp add: close_def s r Let_def)
  show "m_results (startTimeout c) = m_results c" by (simp add: startTimeout_def Let_def)
  show j: "m_results (fst (parseJob env c p k)) = m_results c" for c p by (simp add: parseJob_def cl Let_def case_prod_beta')
  show "m_results (fst (parseLogin env c p k)) = m_results c" by (simp add: parseLogin_def j split: option.split)
  show "m_results (snd (snd (send env q c msg))) = m_results c" by (simp add: send_def cl r)
  show "m_results (tick env t c) = m_results c" by (simp add: tick_def connect_def resolve_def cl s r Let_def)
qed

lemma notification_results:
  "m_results (snd (parseNotification env recorder m p err s c)) = m_results c"
  "filter (reports i) (fst (parseNotification env recorder m p err s c)) = filter (reports i) s"
  by (simp_all add: parseNotification_def recorder_def Let_def case_prod_beta' split: option.split)

definition response_to :: "int \<Rightarrow> int \<Rightarrow> json \<Rightarrow> json \<Rightarrow> string option option" where
  "response_to i j res err =
    (if j \<noteq> i then None else if IsObject err then Some (GetString (member err ''message''))
     else if IsObject res \<and> i \<noteq> 1 then Some None else None)"

lemma response_results:
  assumes "\<forall>i r. m_results c i = Some r \<longrightarrow> sr_seq r = i"
  shows "m_results (snd (parseResponse env recorder j res err s c)) i =
      (if response_to i j res err = None then m_results c i else None)"
    "filter (reports i) (fst (parseResponse env recorder j res err s c)) = filter (reports i) s @
      (case (m_results c i, response_to i j res err) of (Some r, Some m) \<Rightarrow> [OnResultAccepted (sr_done env r) m] | _ \<Rightarrow> [])"
  using assms
  by (auto simp: parseResponse_def response_to_def report_result_def recorder_def sr_done_def Let_def case_prod_beta'
      split: option.splits)

lemma line_results:
  assumes "\<forall>i r. m_results c i = Some r \<longrightarrow> sr_seq r = i"
  shows "m_results (snd (handle_line env recorder l s c)) i = (if answer_to env i l = None then m_results c i else None)"
    "filter (reports i) (fst (handle_line env recorder l s c)) = filter (reports i) s @
      (case (m_results c i, answer_to env i l) of (Some r, Some m) \<Rightarrow> [OnResultAccepted (sr_done env r) m] | _ \<Rightarrow> [])"
proof -
  define d where "d = fst (json_insitu env (butlast l @ [CHR 0x00]))"
  have c: "\<forall>i r. m_results (startTimeout c) i = Some r \<longrightarrow> sr_seq r = i" using assms by simp
  note r = response_results [OF c, where i = i and env = env and s = s]
  have a: "answer_to env i l = (case d of None \<Rightarrow> None | Some d \<Rightarrow> if \<not> IsObject d then None else
      case IsInt64 (member d ''id'') of None \<Rightarrow> None | Some j \<Rightarrow> response_to i j (member d ''result'') (member d ''error''))"
    by (simp add: answer_to_def d_def [symmetric] response_to_def split: option.split)
  show "m_results (snd (handle_line env recorder l s c)) i = (if answer_to env i l = None then m_results c i else None)"
    unfolding a by (simp add: handle_line_def d_def [symmetric] Let_def r(1) notification_results split: option.split)
  show "filter (reports i) (fst (handle_line env recorder l s c)) = filter (reports i) s @
      (case (m_results c i, answer_to env i l) of (Some r, Some m) \<Rightarrow> [OnResultAccepted (sr_done env r) m] | _ \<Rightarrow> [])"
    unfolding a by (simp add: handle_line_def d_def [symmetric] Let_def r(2) notification_results split: option.split)
qed

lemma send_number: "fst (snd (send env q c msg)) = q \<or> fst (snd (send env q c msg)) = q + 1"
  by (simp add: send_def)

lemma submit_parts:
  assumes "submit env p c r = Some (v, p', c')"
  shows "m_results c' = (m_results c)(p := Some (SubmitResult_new env p (r_diff r) (the (actualDiff r))))" "p \<le> p'"
proof -
  obtain c0 msg where "send env p c0 msg = (v, p', c')"
    "m_results c0 = (m_results c)(p := Some (SubmitResult_new env p (r_diff r) (the (actualDiff r))))"
    using assms by (fastforce simp: submit_def split: option.splits)
  then show "m_results c' = (m_results c)(p := Some (SubmitResult_new env p (r_diff r) (the (actualDiff r))))" "p \<le> p'"
    using results_kept(7) [of env p c0 msg] send_number [of env p c0 msg] by auto
qed

lemma exchange_results:
  assumes "exchange_step x (p, s, c) = Some (p', s', c')" "i < p" "\<forall>i r. m_results c i = Some r \<longrightarrow> sr_seq r = i"
  shows "i < p'" "\<forall>i r. m_results c' i = Some r \<longrightarrow> sr_seq r = i"
    "case snd x of
       PoolLine l \<Rightarrow> m_results c' i = (if answer_to (fst x) i l = None then m_results c i else None) \<and>
         filter (reports i) s' = filter (reports i) s @ (case (m_results c i, answer_to (fst x) i l) of
           (Some r, Some m) \<Rightarrow> [OnResultAccepted (sr_done (fst x) r) m] | _ \<Rightarrow> [])
     | LoginCall \<Rightarrow> m_results c' i = None \<and> s' = s
     | _ \<Rightarrow> m_results c' i = m_results c i \<and> s' = s"
proof -
  obtain env e where x: "x = (env, e)" by fastforce
  have "i < p' \<and> (\<forall>i r. m_results c' i = Some r \<longrightarrow> sr_seq r = i) \<and> (case e of
       PoolLine l \<Rightarrow> m_results c' i = (if answer_to env i l = None then m_results c i else None) \<and>
         filter (reports i) s' = filter (reports i) s @ (case (m_results c i, answer_to env i l) of
           (Some r, Some m) \<Rightarrow> [OnResultAccepted (sr_done env r) m] | _ \<Rightarrow> [])
     | LoginCall \<Rightarrow> m_results c' i = None \<and> s' = s
     | _ \<Rightarrow> m_results c' i = m_results c i \<and> s' = s)"
  proof (cases e)
    case (SubmitCall r)
    then obtain v where v: "submit env p c r = Some (v, p', c')" "s' = s" using assms(1) by (auto simp: x)
    then show ?thesis using submit_parts [OF v(1)] assms(2,3) SubmitCall by (auto simp: SubmitResult_new_def)
  next
    case PingCall
    obtain v where "send env p (c\<lparr>m_keepAliveTimer := False\<rparr>) (ping_message p (m_rpcId c)) = (v, p', c')" "s' = s"
      using assms(1) PingCall by (auto simp: x ping_def split: prod.splits)
    then show ?thesis using PingCall assms(2,3) results_kept(7) [of env p "c\<lparr>m_keepAliveTimer := False\<rparr>" "ping_message p (m_rpcId c)"]
        send_number [of env p "c\<lparr>m_keepAliveTimer := False\<rparr>" "ping_message p (m_rpcId c)"] by auto
  next
    case LoginCall
    define c0 where "c0 = c\<lparr>m_results := (\<lambda>_. None)\<rparr>"
    define msg where "msg = json_write env (login_doc c0)"
    have "p' = p \<and> c' = c0 \<or> p' = fst (snd (send env p c0 (msg @ [CHR 0x0A]))) \<and> c' = snd (snd (send env p c0 (msg @ [CHR 0x0A])))" "s' = s"
      using assms(1) LoginCall by (auto simp: x login_def c0_def [symmetric] msg_def [symmetric] Let_def split: if_splits)
    then have "m_results c' = (\<lambda>_. None)" "p \<le> p'"
      using results_kept(7) [of env p c0 "msg @ [CHR 0x0A]"] send_number [of env p c0 "msg @ [CHR 0x0A]"]
      by (auto simp: c0_def)
    then show ?thesis using LoginCall assms(2) \<open>s' = s\<close> by simp
  next
    case (TickCall t)
    then show ?thesis using assms by (auto simp: x)
  next
    case (PoolLine l)
    then have h: "handle_line env recorder l s c = (s', c')" "p' = p" using assms(1) by (auto simp: x)
    then have "m_results c' j = (if answer_to env j l = None then m_results c j else None)" for j
      using line_results(1) [OF assms(3), of env l s j] by simp
    then show ?thesis using PoolLine assms(2,3) h line_results(2) [OF assms(3), of i env l s] by simp
  qed
  then show "i < p'" "\<forall>i r. m_results c' i = Some r \<longrightarrow> sr_seq r = i"
    "case snd x of
       PoolLine l \<Rightarrow> m_results c' i = (if answer_to (fst x) i l = None then m_results c i else None) \<and>
         filter (reports i) s' = filter (reports i) s @ (case (m_results c i, answer_to (fst x) i l) of
           (Some r, Some m) \<Rightarrow> [OnResultAccepted (sr_done (fst x) r) m] | _ \<Rightarrow> [])
     | LoginCall \<Rightarrow> m_results c' i = None \<and> s' = s
     | _ \<Rightarrow> m_results c' i = m_results c i \<and> s' = s" unfolding x fst_conv snd_conv by blast+
qed

lemma exchanges_results:
  assumes "exchanges xs (p, s, c) = Some (p', s', c')" "i < p" "\<forall>i r. m_results c i = Some r \<longrightarrow> sr_seq r = i"
  shows "filter (reports i) s' = filter (reports i) s @
      (case (m_results c i, verdict i xs) of (Some r, Some (env, m)) \<Rightarrow> [OnResultAccepted (sr_done env r) m] | _ \<Rightarrow> [])
    \<and> (verdict i xs \<noteq> None \<or> m_results c i = None \<longrightarrow> m_results c' i = None)"
  using assms
proof (induction xs arbitrary: p s c)
  case (Cons x xs)
  obtain p1 s1 c1 where 1: "exchange_step x (p, s, c) = Some (p1, s1, c1)" "exchanges xs (p1, s1, c1) = Some (p', s', c')"
    using Cons.prems(1) by (auto simp: bind_eq_Some_conv)
  note E = exchange_results [OF 1(1) Cons.prems(2,3)]
  note IH = Cons.IH [OF 1(2) E(1,2)]
  obtain env e where x: "x = (env, e)" by fastforce
  show ?case
  proof (cases e)
    case (PoolLine l)
    then show ?thesis using IH E(3) by (simp add: x split: option.splits prod.splits if_splits)
  next
    case LoginCall
    then show ?thesis using IH E(3) by (cases "m_results c i") (simp_all add: x)
  qed (use IH E(3) in \<open>simp_all add: x split: option.splits prod.splits\<close>)
qed (simp split: option.split)

text \<open>
  An error object without a message string is reported with a null message, which the listener cannot tell from an
  accepted result.
\<close>

lemma silent_error_looks_accepted:
  assumes "fst (json_insitu env (butlast l @ [CHR 0x00])) = Some d" "IsObject d" "IsInt64 (member d ''id'') = Some i"
    and "IsObject (member d ''error'')" "GetString (member (member d ''error'') ''message'') = None"
  shows "answer_to env i l = Some None"
  using assms by (simp add: answer_to_def)

text \<open>C40: a share that is sent is reported to the listener exactly once if the pool answers it before the next login,
  and never otherwise, whatever else is submitted, pinged, timed out or received in between: with the entry that submit
  stored under its sequence number, the elapsed time at the first line that answers it, the message of the error object
  or none for a result object, also when the error is critical and closes the connection. Further answers with the same
  number report nothing, and neither does any answer to another share.\<close>

theorem share_reported_once:
  assumes "client_inv c" "submit env q c r = Some (q, q + 1, c1)"
    and "exchanges xs (q + 1, [], c1) = Some (p, events, c2)"
  shows "filter (reports q) events =
      (case verdict q xs of
         None \<Rightarrow> []
       | Some (env', m) \<Rightarrow> [OnResultAccepted (sr_done env' (SubmitResult_new env q (r_diff r) (the (actualDiff r)))) m])
    \<and> (verdict q xs \<noteq> None \<longrightarrow> m_results c2 q = None)"
proof -
  have c1: "m_results c1 q = Some (SubmitResult_new env q (r_diff r) (the (actualDiff r)))"
    using submit_parts(1) [OF assms(2)] by simp
  have "\<forall>i r. m_results c1 i = Some r \<longrightarrow> sr_seq r = i" using submit_inv [OF assms(1,2)] by (simp add: client_inv_def)
  from exchanges_results [OF assms(3) _ this, of q] show ?thesis
    by (simp add: c1 split: option.splits)
qed

text \<open>A client that is logged in, a share, and a pool that answers every line with a result for request 2.\<close>

definition answer_env :: uv where
  "answer_env = \<lparr>uv_now = 1, uv_hrtime = 0, uv_getaddrinfo = 0, uv_is_writable = True, uv_try_write = 0,
     json_insitu = (\<lambda>x. (Some (JObj [(''id'', JInt 2), (''result'', JObj [])]), x)), json_write = (\<lambda>_. []),
     stack_blob = [], stack_str = []\<rparr>"

definition ready_client :: client where
  "ready_client = (Client (replicate 2200 CHR 0x00) [] 0 [])\<lparr>m_state := ConnectedState, m_stream := True, m_socket := Some False\<rparr>"

definition some_share :: JobResult where
  "some_share = \<lparr>poolId = 0, jobId = replicate 64 CHR 0x00, r_diff = 1, nonce = 7, result = replicate 32 1\<rparr>"

theorem share_reported_once_witness:
  "\<exists>c1 p events c2.
    submit answer_env 2 ready_client some_share = Some (2, 3, c1) \<and>
    exchanges [(answer_env, PingCall), (answer_env, PoolLine ''a''), (answer_env, PoolLine ''b'')] (3, [], c1) = Some (p, events, c2) \<and>
    filter (reports 2) events =
      [OnResultAccepted (sr_done answer_env (SubmitResult_new answer_env 2 1 (the (actualDiff some_share)))) None] \<and>
    m_results c2 2 = None"
proof -
  have "client_inv ready_client" by (simp add: client_inv_def ready_client_def Client_def)
  have "take 8 (drop 24 (replicate 32 (1 :: byte))) = [1, 1, 1, 1, 1, 1, 1, 1]" by (simp add: numeral_eq_Suc)
  then have "hash_word (result some_share) = 0x0101010101010101" by (simp add: hash_word_def some_share_def)
  then have "actualDiff some_share \<noteq> None" by (simp add: actualDiff_def toDiff_def)
  then obtain c1 where s: "submit answer_env 2 ready_client some_share = Some (2, 3, c1)"
    by (auto simp: submit_def send_def answer_env_def ready_client_def Client_def)
  let ?xs = "[(answer_env, PingCall), (answer_env, PoolLine ''a''), (answer_env, PoolLine ''b'')]"
  obtain v p ca where 1: "ping answer_env 3 c1 = (v, p, ca)" by (cases "ping answer_env 3 c1") auto
  obtain sa cb where 2: "handle_line answer_env recorder ''a'' [] ca = (sa, cb)" by fastforce
  obtain events c2 where 3: "handle_line answer_env recorder ''b'' sa cb = (events, c2)" by fastforce
  have x: "exchanges ?xs (3, [], c1) = Some (p, events, c2)" by (simp add: 1 2 3)
  have v: "verdict 2 ?xs = Some (answer_env, None)"
    by (simp add: answer_to_def answer_env_def IsObject_def member_def IsInt64_def)
  from share_reported_once [OF \<open>client_inv ready_client\<close>, of answer_env 2 some_share c1 ?xs p events c2] s x v
  show ?thesis by (simp add: some_share_def)
qed

end
