(* ===== verification/Strategies.thy ===== *)
theory Strategies
  imports Client_Correct
begin

text \<open>
  The pool strategies under \<^verbatim>\<open>src/net/strategies\<close>: fail-over over an ordered list of pools, a
  single pool, and the donation schedule. A strategy is the listener of its clients; what it tells
  its own listener, the network, is a list of events. Options (\<open>retries\<close>, the retry
  pause, the donation level) are arguments.
\<close>

datatype strategy_event = OnActive int url | OnJob int url job | OnPause
  | OnResult int SubmitResult "string option"

section \<open>Fail-over\<close>

record failover =
  fo_active :: int
  fo_index :: nat
  fo_pools :: "client list"

definition fo_isActive :: "failover \<Rightarrow> bool" where
  "fo_isActive st \<longleftrightarrow> 0 \<le> fo_active st"

definition setRetryPause :: "client \<Rightarrow> int \<Rightarrow> client" where
  "setRetryPause c ms = c\<lparr>m_retryPause := ms\<rparr>"

text \<open>\<open>junk\<close> gives the members that the client's constructor leaves alone.\<close>

definition fo_add :: "(nat \<Rightarrow> char list \<times> byte list) \<Rightarrow> int \<Rightarrow> string \<Rightarrow> url \<Rightarrow> failover \<Rightarrow> failover" where
  "fo_add junk retryPause agent u st =
    (let n = length (fo_pools st);
         client = Client (fst (junk n)) (snd (junk n)) (int n) agent;
         client = setUrl client (Some u);
         client = setRetryPause client (retryPause * 1000)
     in st\<lparr>fo_pools := fo_pools st @ [client]\<rparr>)"

definition FailoverStrategy :: "(nat \<Rightarrow> char list \<times> byte list) \<Rightarrow> int \<Rightarrow> string \<Rightarrow> url list \<Rightarrow> failover" where
  "FailoverStrategy junk retryPause agent urls =
    fold (fo_add junk retryPause agent) urls \<lparr>fo_active = -1, fo_index = 0, fo_pools = []\<rparr>"

definition pool_update :: "nat \<Rightarrow> (client \<Rightarrow> client) \<Rightarrow> failover \<Rightarrow> failover" where
  "pool_update i f st = st\<lparr>fo_pools := (fo_pools st)[i := f (fo_pools st ! i)]\<rparr>"

text \<open>\<^verbatim>\<open>m_pools[m_active]->submit(result)\<close>: \<open>None\<close> is an access outside the vector.\<close>

definition fo_submit :: "uv \<Rightarrow> int \<Rightarrow> failover \<Rightarrow> JobResult \<Rightarrow> (int \<times> int \<times> failover) option" where
  "fo_submit env m_sequence st r =
    (if fo_active st < 0 \<or> int (length (fo_pools st)) \<le> fo_active st then None
     else case submit env m_sequence (fo_pools st ! nat (fo_active st)) r of
            None \<Rightarrow> None
          | Some (v, q, c) \<Rightarrow> Some (v, q, pool_update (nat (fo_active st)) (\<lambda>_. c) st))"

definition fo_connect :: "uv \<Rightarrow> failover \<Rightarrow> failover" where
  "fo_connect env st = pool_update (fo_index st) (connect env) st"

definition fo_resume :: "failover \<Rightarrow> strategy_event list" where
  "fo_resume st =
    (if \<not> fo_isActive st then []
     else let c = fo_pools st ! nat (fo_active st) in [OnJob (c_id c) (m_url c) (m_job c)])"

definition fo_stop :: "failover \<Rightarrow> failover \<times> strategy_event list" where
  "fo_stop st =
    (st\<lparr>fo_pools := map disconnect (fo_pools st), fo_index := 0, fo_active := -1\<rparr>, [OnPause])"

definition fo_tick :: "uv \<Rightarrow> u64 \<Rightarrow> failover \<Rightarrow> failover" where
  "fo_tick env now st = st\<lparr>fo_pools := map (tick env now) (fo_pools st)\<rparr>"

definition fo_onClose :: "uv \<Rightarrow> int \<Rightarrow> int \<Rightarrow> int \<Rightarrow> failover \<Rightarrow> failover \<times> strategy_event list" where
  "fo_onClose env retries i failures st =
    (if failures = -1 then (st, [])
     else let (st, out) = (if fo_active st = i then (st\<lparr>fo_active := -1\<rparr>, [OnPause]) else (st, []))
       in if fo_index st = 0 \<and> failures < retries then (st, out)
          else if int (fo_index st) = i \<and> 1 < length (fo_pools st) - fo_index st
          then let st = st\<lparr>fo_index := fo_index st + 1\<rparr>
            in (pool_update (fo_index st) (connect env) st, out)
          else (st, out))"

definition fo_onJobReceived :: "int \<Rightarrow> url \<Rightarrow> job \<Rightarrow> failover \<Rightarrow> failover \<times> strategy_event list" where
  "fo_onJobReceived i u job st = (if fo_active st = i then (st, [OnJob i u job]) else (st, []))"

text \<open>The loop that disconnects every pool but the first and the one to be active.\<close>

definition disconnect_others :: "int \<Rightarrow> failover \<Rightarrow> failover" where
  "disconnect_others active st =
    fold (\<lambda>i st. if active \<noteq> int i then pool_update i disconnect st else st) [1..<length (fo_pools st)] st"

definition fo_onLoginSuccess :: "int \<Rightarrow> url \<Rightarrow> failover \<Rightarrow> failover \<times> strategy_event list" where
  "fo_onLoginSuccess i u st =
    (let active = fo_active st;
         active = (if i = 0 \<or> \<not> fo_isActive st then i else active);
         st = disconnect_others active st
     in if 0 \<le> active \<and> active \<noteq> fo_active st
        then (st\<lparr>fo_index := nat active, fo_active := active\<rparr>, [OnActive i u])
        else (st, []))"

definition fo_onResultAccepted :: "int \<Rightarrow> SubmitResult \<Rightarrow> string option \<Rightarrow> failover \<Rightarrow> failover \<times> strategy_event list" where
  "fo_onResultAccepted i r error st = (st, [OnResult i r error])"

definition fo_event :: "uv \<Rightarrow> int \<Rightarrow> int \<Rightarrow> url \<Rightarrow> client_event \<Rightarrow> failover \<Rightarrow> failover \<times> strategy_event list" where
  "fo_event env retries i u e st =
    (case e of
       OnClose failures \<Rightarrow> fo_onClose env retries i failures st
     | OnJobReceived job \<Rightarrow> fo_onJobReceived i u job st
     | OnLoginSuccess \<Rightarrow> fo_onLoginSuccess i u st
     | OnResultAccepted r error \<Rightarrow> fo_onResultAccepted i r error st)"

text \<open>
  The strategy as the listener of the client at position \<open>i\<close> while a handler of that client runs:
  the handler's current client takes its place in the list for the callback, and leaves it after.
\<close>

definition fo_react :: "uv \<Rightarrow> int \<Rightarrow> nat \<Rightarrow> (failover \<times> strategy_event list) listener" where
  "fo_react env retries i = (\<lambda>e (st, out) c.
    if length (fo_pools st) \<le> i then ((st, out), c)
    else let old = fo_pools st ! i;
             (st, out') = fo_event env retries (int i) (m_url c) e (pool_update i (\<lambda>_. c) st)
      in ((pool_update i (\<lambda>_. old) st, out @ out'), fo_pools st ! i))"

section \<open>A single pool\<close>

record single_pool =
  sp_active :: bool
  sp_client :: client

definition SinglePoolStrategy :: "char list \<times> byte list \<Rightarrow> int \<Rightarrow> string \<Rightarrow> url \<Rightarrow> single_pool" where
  "SinglePoolStrategy junk retryPause agent u =
    \<lparr>sp_active = False,
     sp_client = setRetryPause (setUrl (Client (fst junk) (snd junk) 0 agent) (Some u)) (retryPause * 1000)\<rparr>"

definition sp_submit :: "uv \<Rightarrow> int \<Rightarrow> single_pool \<Rightarrow> JobResult \<Rightarrow> (int \<times> int \<times> single_pool) option" where
  "sp_submit env m_sequence st r =
    (case submit env m_sequence (sp_client st) r of
       None \<Rightarrow> None
     | Some (v, q, c) \<Rightarrow> Some (v, q, st\<lparr>sp_client := c\<rparr>))"

definition sp_connect :: "uv \<Rightarrow> single_pool \<Rightarrow> single_pool" where
  "sp_connect env st = st\<lparr>sp_client := connect env (sp_client st)\<rparr>"

definition sp_resume :: "single_pool \<Rightarrow> strategy_event list" where
  "sp_resume st =
    (if \<not> sp_active st then []
     else [OnJob (c_id (sp_client st)) (m_url (sp_client st)) (m_job (sp_client st))])"

definition sp_stop :: "single_pool \<Rightarrow> single_pool" where
  "sp_stop st = st\<lparr>sp_client := disconnect (sp_client st)\<rparr>"

definition sp_tick :: "uv \<Rightarrow> u64 \<Rightarrow> single_pool \<Rightarrow> single_pool" where
  "sp_tick env now st = st\<lparr>sp_client := tick env now (sp_client st)\<rparr>"

definition sp_event :: "int \<Rightarrow> url \<Rightarrow> client_event \<Rightarrow> bool \<Rightarrow> bool \<times> strategy_event list" where
  "sp_event i u e active =
    (case e of
       OnClose failures \<Rightarrow> if \<not> active then (active, []) else (False, [OnPause])
     | OnJobReceived job \<Rightarrow> (active, [OnJob i u job])
     | OnLoginSuccess \<Rightarrow> (True, [OnActive i u])
     | OnResultAccepted r error \<Rightarrow> (active, [OnResult i r error]))"

text \<open>The listener's own state is \<open>m_active\<close>.\<close>

definition sp_react :: "(bool \<times> strategy_event list) listener" where
  "sp_react = (\<lambda>e (active, out) c.
    let (active, out') = sp_event (c_id c) (m_url c) e active in ((active, out @ out'), c))"

section \<open>Donation\<close>

text \<open>The timer is \<open>None\<close> or armed with a timeout in milliseconds.\<close>

record donate =
  ds_active :: bool
  ds_timer :: "int option"
  ds_donateTime :: int
  ds_idleTime :: int

definition ds_idle :: "donate \<Rightarrow> donate" where
  "ds_idle st = st\<lparr>ds_timer := Some (ds_idleTime st)\<rparr>"

definition donate_url :: "bool \<Rightarrow> url" where
  "donate_url lite = Url_make ''pool.aeonminingpool.com'' (if lite then 80 else 443)
    (Some ''WmsStc2WoC1Koxehidwtbn43bSGuMaC6Vf73nXdUeMAJLG7WfhvFeEH7a3K4Az2WjHW9zL1E81eRJSRxqLpktY8t34utqxcGL'')
    (Some ''FeeHash'') False False"

definition DonateStrategy :: "char list \<times> byte list \<Rightarrow> int \<Rightarrow> bool \<Rightarrow> int \<Rightarrow> string \<Rightarrow> donate \<times> client" where
  "DonateStrategy junk level lite retryPause agent =
    (ds_idle \<lparr>ds_active = False, ds_timer = None, ds_donateTime = level * 60 * 1000,
       ds_idleTime = (100 - level) * 60 * 1000\<rparr>,
     (setRetryPause (setUrl (Client (fst junk) (snd junk) (-1) agent) (Some (donate_url lite))) (retryPause * 1000))
       \<lparr>m_quiet := True\<rparr>)"

definition ds_stop :: "donate \<times> client \<Rightarrow> donate \<times> client" where
  "ds_stop = (\<lambda>(st, c). (st\<lparr>ds_timer := None\<rparr>, disconnect c))"

definition ds_event :: "int \<Rightarrow> url \<Rightarrow> client_event \<Rightarrow> donate \<Rightarrow> donate \<times> strategy_event list" where
  "ds_event i u e st =
    (case e of
       OnClose failures \<Rightarrow> (st, [])
     | OnJobReceived job \<Rightarrow> (st, [OnJob i u job])
     | OnLoginSuccess \<Rightarrow>
         (let st = (if \<not> ds_active st then st\<lparr>ds_timer := Some (ds_donateTime st)\<rparr> else st)
          in (st\<lparr>ds_active := True\<rparr>, [OnActive i u]))
     | OnResultAccepted r error \<Rightarrow> (st, [OnResult i r error]))"

definition ds_react :: "(donate \<times> strategy_event list) listener" where
  "ds_react = (\<lambda>e (st, out) c. let (st, out') = ds_event (c_id c) (m_url c) e st in ((st, out @ out'), c))"

definition ds_suspend :: "donate \<times> client \<Rightarrow> (donate \<times> client) \<times> strategy_event list" where
  "ds_suspend = (\<lambda>(st, c). ((ds_idle (st\<lparr>ds_active := False\<rparr>), disconnect c), [OnPause]))"

text \<open>The one-shot timer has fired.\<close>

definition ds_onTimer :: "uv \<Rightarrow> donate \<times> client \<Rightarrow> (donate \<times> client) \<times> strategy_event list" where
  "ds_onTimer env = (\<lambda>(st, c).
    let st = st\<lparr>ds_timer := None\<rparr>
    in if \<not> ds_active st then ((st, connect env c), []) else ds_suspend (st, c))"

end
