(* ===== verification/Strategies_Correct.thy ===== *)
theory Strategies_Correct
  imports Strategies
begin

text \<open>
  The strategies satisfy the client's listener contract, the fail-over state invariant over every
  step, which pool is tried next, which one wins, and where a result is submitted. The client's
  promises are restated here for its real listeners.
\<close>

section \<open>The strategies as listeners\<close>

lemma pool_update_sel [simp]:
  "fo_active (pool_update i f st) = fo_active st" "fo_index (pool_update i f st) = fo_index st"
  "length (fo_pools (pool_update i f st)) = length (fo_pools st)"
  by (simp_all add: pool_update_def)

lemma pool_update_nth:
  "i < length (fo_pools st) \<Longrightarrow>
    fo_pools (pool_update j f st) ! i = (if i = j then f (fo_pools st ! i) else fo_pools st ! i)"
  by (simp add: pool_update_def)

lemma fold_disconnect:
  "(let st' = fold (\<lambda>i st. if active \<noteq> int i then pool_update i disconnect st else st) [k..<n] st
    in fo_active st' = fo_active st \<and> fo_index st' = fo_index st \<and> length (fo_pools st') = length (fo_pools st)
      \<and> (\<forall>j < length (fo_pools st). fo_pools st' ! j =
        (if k \<le> j \<and> j < n \<and> active \<noteq> int j then disconnect (fo_pools st ! j) else fo_pools st ! j)))"
proof (induction n)
  case (Suc n)
  then show ?case by (cases "k \<le> n") (auto simp: Let_def pool_update_nth less_Suc_eq)
qed simp

lemma disconnect_others:
  "fo_active (disconnect_others active st) = fo_active st"
  "fo_index (disconnect_others active st) = fo_index st"
  "length (fo_pools (disconnect_others active st)) = length (fo_pools st)"
  "j < length (fo_pools st) \<Longrightarrow> fo_pools (disconnect_others active st) ! j =
    (if 1 \<le> j \<and> active \<noteq> int j then disconnect (fo_pools st ! j) else fo_pools st ! j)"
  using fold_disconnect [of active 1 "length (fo_pools st)" st]
  by (simp_all add: disconnect_others_def Let_def)

lemma fo_event_shape:
  assumes "i < length (fo_pools st)"
  shows "length (fo_pools (fst (fo_event env retries (int i) u e st))) = length (fo_pools st)"
    and "fo_pools (fst (fo_event env retries (int i) u e st)) ! i = fo_pools st ! i \<or>
         fo_pools (fst (fo_event env retries (int i) u e st)) ! i = disconnect (fo_pools st ! i)"
  using assms disconnect_others(3,4)
  by (cases e; auto simp: fo_event_def fo_onClose_def fo_onJobReceived_def fo_onLoginSuccess_def
      fo_onResultAccepted_def Let_def pool_update_nth)+

text \<open>The place of the client itself plays no part in what a callback does elsewhere.\<close>

definition own_irrelevant :: "nat \<Rightarrow> failover \<Rightarrow> failover \<Rightarrow> bool" where
  "own_irrelevant i st st' \<longleftrightarrow> fo_active st' = fo_active st \<and> fo_index st' = fo_index st \<and>
    length (fo_pools st') = length (fo_pools st) \<and>
    (\<forall>j < length (fo_pools st). j \<noteq> i \<longrightarrow> fo_pools st' ! j = fo_pools st ! j)"

lemma own_irrelevantD:
  "own_irrelevant i st st' \<Longrightarrow> i < length (fo_pools st) \<Longrightarrow> pool_update i (\<lambda>_. x) st' = pool_update i (\<lambda>_. x) st"
  by (auto simp: own_irrelevant_def pool_update_def nth_list_update intro!: failover.equality nth_equalityI)

lemma own_irrelevantI:
  "fo_active st' = fo_active st \<Longrightarrow> fo_index st' = fo_index st \<Longrightarrow> length (fo_pools st') = length (fo_pools st) \<Longrightarrow>
    (\<And>j. j < length (fo_pools st) \<Longrightarrow> j \<noteq> i \<Longrightarrow> fo_pools st' ! j = fo_pools st ! j) \<Longrightarrow> own_irrelevant i st st'"
  by (simp add: own_irrelevant_def)

lemma own_irrelevant_sel:
  assumes "own_irrelevant i st st'"
  shows "fo_active st' = fo_active st" "fo_index st' = fo_index st" "length (fo_pools st') = length (fo_pools st)"
    "j < length (fo_pools st) \<Longrightarrow> j \<noteq> i \<Longrightarrow> fo_pools st' ! j = fo_pools st ! j"
  using assms by (simp_all add: own_irrelevant_def)

lemma own_pool_update:
  "own_irrelevant i st st' \<Longrightarrow> own_irrelevant i (pool_update j f st) (pool_update j f st')"
  by (cases "j < length (fo_pools st)") (auto simp: own_irrelevant_def pool_update_def nth_list_update)

lemma own_active: "own_irrelevant i st st' \<Longrightarrow> own_irrelevant i (st\<lparr>fo_active := a\<rparr>) (st'\<lparr>fo_active := a\<rparr>)"
  and own_index: "own_irrelevant i st st' \<Longrightarrow> own_irrelevant i (st\<lparr>fo_index := n\<rparr>) (st'\<lparr>fo_index := n\<rparr>)"
  by (simp_all add: own_irrelevant_def)

lemma own_disconnect_others:
  "own_irrelevant i st st' \<Longrightarrow> own_irrelevant i (disconnect_others a st) (disconnect_others a st')"
  by (rule own_irrelevantI) (auto simp: disconnect_others own_irrelevant_sel)

lemma fo_event_own:
  assumes "own_irrelevant i st st'"
  shows "own_irrelevant i (fst (fo_event env retries k u e st)) (fst (fo_event env retries k u e st'))"
    and "snd (fo_event env retries k u e st') = snd (fo_event env retries k u e st)"
  using assms own_irrelevant_sel(1-3) [OF assms]
  by (cases e; simp add: fo_event_def fo_onClose_def fo_onJobReceived_def fo_onLoginSuccess_def
      fo_onResultAccepted_def fo_isActive_def disconnect_others Let_def own_active own_index own_pool_update
      own_disconnect_others)+

lemma fo_event_buf:
  assumes "own_irrelevant i st st'" "i < length (fo_pools st)" "fo_pools st' ! i = with_buf b p (fo_pools st ! i)"
  shows "fo_pools (fst (fo_event env retries (int i) u e st')) ! i =
      with_buf b p (fo_pools (fst (fo_event env retries (int i) u e st)) ! i)"
  using assms(2,3) own_irrelevant_sel(1-3) [OF assms(1)]
  by (cases e; simp add: fo_event_def fo_onClose_def fo_onJobReceived_def fo_onLoginSuccess_def
      fo_onResultAccepted_def fo_isActive_def disconnect_others Let_def pool_update_nth disconnect_with_buf)+

interpretation fo_listener: client_listener "fo_react env retries i" for env retries i
proof
  show "fo_react env retries i e s (with_buf b p c) =
      (fst (fo_react env retries i e s c), with_buf b p (snd (fo_react env retries i e s c)))" for e s b p c
  proof (cases s)
    case (Pair st out)
    show ?thesis
    proof (cases "i < length (fo_pools st)")
      case True
      let ?st = "pool_update i (\<lambda>_. c) st" and ?st' = "pool_update i (\<lambda>_. with_buf b p c) st"
      let ?f = "\<lambda>st. fo_event env retries (int i) (m_url c) e st"
      have own: "own_irrelevant i ?st ?st'" "i < length (fo_pools ?st)"
        using True by (simp_all add: own_irrelevant_def pool_update_nth)
      note E = fo_event_own [OF own(1), of env retries "int i" "m_url c" e]
      have "fo_pools ?st' ! i = with_buf b p (fo_pools ?st ! i)" using True by (simp add: pool_update_nth)
      note e3 = fo_event_buf [OF own this]
      have "pool_update i (\<lambda>_. x) (fst (?f ?st')) = pool_update i (\<lambda>_. x) (fst (?f ?st))" for x
        using own_irrelevantD [OF E(1)] fo_event_shape(1) [OF own(2)] own(2) by simp
      then show ?thesis using True Pair E(2) e3
        by (simp add: fo_react_def Let_def case_prod_beta')
    qed (simp add: Pair fo_react_def)
  qed
next
  have own: "snd (fo_react env retries i e s c) = c \<or> snd (fo_react env retries i e s c) = disconnect c" for e s c
  proof (cases s)
    case (Pair st out)
    show ?thesis
    proof (cases "i < length (fo_pools st)")
      case True
      then show ?thesis using Pair fo_event_shape(2) [of i "pool_update i (\<lambda>_. c) st" env retries "m_url c" e]
        by (simp add: fo_react_def Let_def case_prod_beta' pool_update_nth)
    qed (simp add: Pair fo_react_def)
  qed
  show "client_inv (snd (fo_react env retries i e s c))" if "client_inv c" for e s c
    using own [of e s c] that disconnect_inv by auto
  have "m_results (disconnect c) = m_results c" for c
    by (simp add: disconnect_def close_def setState_def request_def Let_def)
  then show "m_results (snd (fo_react env retries i e s c)) = m_results c" for e s c
    using own [of e s c] by auto
qed

interpretation sp_listener: client_listener sp_react
  by unfold_locales (auto simp: sp_react_def Let_def case_prod_beta' with_buf_def)

interpretation ds_listener: client_listener ds_react
  by unfold_locales (auto simp: ds_react_def Let_def case_prod_beta' with_buf_def)

section \<open>What the listener keeps is kept by the client's handlers\<close>

definition listener_keeps :: "('s \<Rightarrow> bool) \<Rightarrow> 's listener \<Rightarrow> bool" where
  "listener_keeps P react \<longleftrightarrow> (\<forall>e s c. P s \<longrightarrow> P (fst (react e s c)))"

lemma listener_keepsD: "listener_keeps P react \<Longrightarrow> P s \<Longrightarrow> P (fst (react e s c))"
  by (simp add: listener_keeps_def)

lemma reconnect_keeps: "listener_keeps P react \<Longrightarrow> P s \<Longrightarrow> P (fst (reconnect env react s c))"
  by (simp add: reconnect_def listener_keepsD case_prod_beta' Let_def)

lemma report_result_keeps: "listener_keeps P react \<Longrightarrow> P s \<Longrightarrow> P (fst (report_result env react i r m s c))"
  by (simp add: report_result_def listener_keepsD case_prod_beta' Let_def)

lemma parse_keeps: "listener_keeps P react \<Longrightarrow> P s \<Longrightarrow> P (fst (parse env react start len s c))"
  by (simp add: parse_def parseResponse_def parseNotification_def report_result_keeps listener_keepsD
      case_prod_beta' Let_def split: option.split)

lemma read_loop_keeps:
  "listener_keeps P react \<Longrightarrow> P s \<Longrightarrow> read_loop env react start remaining s c = Some (start', remaining', s', c') \<Longrightarrow> P s'"
proof (induction remaining arbitrary: start s c rule: less_induct)
  case (less remaining)
  show ?case
  proof (cases "memchr_newline (m_buf c) start remaining")
    case None
    then show ?thesis using less(4) by (subst (asm) read_loop.simps) simp
  next
    case (Some m)
    show ?thesis
    proof (cases m)
      case None
      then show ?thesis using less(3,4) Some by (subst (asm) read_loop.simps) simp
    next
      case (Some e)
      note m = \<open>memchr_newline (m_buf c) start remaining = Some m\<close>[unfolded Some]
      obtain s1 c1 where p: "parse env react start (e + 1 - start) s c = (s1, c1)"
        by (cases "parse env react start (e + 1 - start) s c")
      have "P s1" using parse_keeps [OF less(2,3), of env start "e + 1 - start" c] p by simp
      moreover have "remaining - (e + 1 - start) < remaining"
        using m by (auto simp: memchr_newline_def Let_def split: if_splits)
      moreover have "read_loop env react (e + 1) (remaining - (e + 1 - start)) s1 c1 =
          Some (start', remaining', s', c')"
        using less(4) m p by (subst (asm) read_loop.simps) simp
      ultimately show ?thesis using less(1,2) by blast
    qed
  qed
qed

lemma onRead_keeps:
  "listener_keeps P react \<Longrightarrow> P s \<Longrightarrow> onRead env react nread base s c = Some (s', c') \<Longrightarrow> P s'"
  by (auto simp: onRead_def Let_def split: if_splits option.splits dest: read_loop_keeps)

lemma client_step_keeps:
  "client_step react x y \<Longrightarrow> listener_keeps P react \<Longrightarrow> P (fst x) \<Longrightarrow> P (fst y)"
proof (induction rule: client_step.induct)
  case (step_resolved s c env status addrs)
  then show ?case by (simp add: onResolved_def reconnect_keeps)
next
  case (step_receive env data s c s' c')
  then show ?case by (auto simp: receive_def onAllocBuffer_def Let_def dest: onRead_keeps)
next
  case (step_onClose c s env)
  then show ?case by (simp add: onClose_def reconnect_keeps)
next
  case (step_readError nread env base s c s' c')
  then show ?case by (auto dest: onRead_keeps)
qed simp_all

section \<open>The fail-over invariant\<close>

definition clients_ok :: "failover \<Rightarrow> bool" where
  "clients_ok st \<longleftrightarrow> (\<forall>i < length (fo_pools st). client_inv (fo_pools st ! i))"

definition fo_inv :: "failover \<Rightarrow> bool" where
  "fo_inv st \<longleftrightarrow> fo_pools st \<noteq> [] \<and> -1 \<le> fo_active st \<and> fo_active st < int (length (fo_pools st))
    \<and> fo_index st < length (fo_pools st) \<and> (0 \<le> fo_active st \<longrightarrow> fo_index st = nat (fo_active st))
    \<and> clients_ok st"

lemma clients_ok_updates [simp]:
  "clients_ok (st\<lparr>fo_active := a\<rparr>) = clients_ok st" "clients_ok (st\<lparr>fo_index := n\<rparr>) = clients_ok st"
  by (simp_all add: clients_ok_def)

lemma clients_ok_pool_update:
  "clients_ok st \<Longrightarrow> (\<And>c. client_inv c \<Longrightarrow> client_inv (f c)) \<Longrightarrow> clients_ok (pool_update i f st)"
  by (simp add: clients_ok_def pool_update_nth)

lemma clients_ok_disconnect_others: "clients_ok st \<Longrightarrow> clients_ok (disconnect_others a st)"
  by (simp add: clients_ok_def disconnect_others disconnect_inv)

lemma pool_update_nonempty [simp]: "fo_pools (pool_update i f st) = [] \<longleftrightarrow> fo_pools st = []"
  "fo_pools (disconnect_others a st) = [] \<longleftrightarrow> fo_pools st = []"
  using disconnect_others(3) [of a st] by (simp_all flip: length_0_conv)

lemma fo_event_inv:
  assumes "fo_inv st" "i < length (fo_pools st)"
  shows "fo_inv (fst (fo_event env retries (int i) u e st))"
proof (cases e)
  case (OnClose f)
  define st1 where "st1 = (if fo_active st = int i then st\<lparr>fo_active := -1\<rparr> else st)"
  have st1: "fo_inv st1" "fo_index st1 = fo_index st" "length (fo_pools st1) = length (fo_pools st)"
    using assms by (simp_all add: st1_def fo_inv_def)
  have r: "fst (fo_event env retries (int i) u e st) =
      (if f = -1 then st else if fo_index st = 0 \<and> f < retries then st1
       else if int (fo_index st) = int i \<and> 1 < length (fo_pools st) - fo_index st
       then pool_update (fo_index st + 1) (connect env) (st1\<lparr>fo_index := fo_index st + 1\<rparr>) else st1)"
    unfolding OnClose fo_event_def client_event.case fo_onClose_def st1_def Let_def by auto
  have next_pool: "fo_inv (st1\<lparr>fo_index := fo_index st + 1\<rparr>)" if "fo_index st = i" "1 < length (fo_pools st) - fo_index st"
  proof -
    have "fo_active st = int i" if "0 \<le> fo_active st"
      using assms(1) \<open>fo_index st = i\<close> that by (simp add: fo_inv_def)
    then have "fo_active st1 < 0" by (cases "0 \<le> fo_active st") (simp_all add: st1_def)
    then show ?thesis using st1 that(2) by (simp add: fo_inv_def)
  qed
  have upd: "fo_inv (pool_update k (connect env) st')" if "fo_inv st'" for k st'
    using that by (simp add: fo_inv_def clients_ok_pool_update connect_inv)
  show ?thesis
  proof (cases "fo_index st = i \<and> 1 < length (fo_pools st) - fo_index st")
    case True
    then show ?thesis unfolding r using assms(1) st1(1) upd [OF next_pool] by simp
  next
    case False
    then show ?thesis unfolding r using assms(1) st1(1) by auto
  qed
next
  case OnLoginSuccess
  then show ?thesis using assms
    by (auto simp: fo_event_def fo_onLoginSuccess_def fo_inv_def fo_isActive_def Let_def disconnect_others
        clients_ok_disconnect_others)
qed (use assms in \<open>simp_all add: fo_event_def fo_onJobReceived_def fo_onResultAccepted_def\<close>)

lemma fo_event_length: "length (fo_pools (fst (fo_event env retries k u e st))) = length (fo_pools st)"
  by (cases e) (simp_all add: fo_event_def fo_onClose_def fo_onJobReceived_def fo_onLoginSuccess_def
      fo_onResultAccepted_def Let_def disconnect_others)

lemma pool_update_twice: "pool_update i (\<lambda>_. x) (pool_update i (\<lambda>_. y) st) = pool_update i (\<lambda>_. x) st"
  by (simp add: pool_update_def)

lemma pool_update_id: "i < length (fo_pools st) \<Longrightarrow> pool_update i (\<lambda>_. fo_pools st ! i) st = st"
  by (simp add: pool_update_def)

lemma fo_react_keeps: "listener_keeps (\<lambda>(st, out). fo_inv st \<and> length (fo_pools st) = n) (fo_react env retries i)"
  unfolding listener_keeps_def
proof (intro allI impI)
  fix e c and s :: "failover \<times> strategy_event list"
  assume "case s of (st, out) \<Rightarrow> fo_inv st \<and> length (fo_pools st) = n"
  then obtain st out where st: "fo_inv st" "n = length (fo_pools st)" "s = (st, out)" by (cases s) auto
  show "case fst (fo_react env retries i e s c) of (st', out') \<Rightarrow> fo_inv st' \<and> length (fo_pools st') = n"
  proof (cases "i < length (fo_pools st)")
    case True
    let ?ev = "\<lambda>st. fst (fo_event env retries (int i) (m_url c) e st)"
    let ?old = "fo_pools st ! i" and ?st = "pool_update i (\<lambda>_. c) st"
    have "own_irrelevant i st ?st" using True by (simp add: own_irrelevant_def pool_update_nth)
    from fo_event_own(1) [OF this]
    have "own_irrelevant i (?ev st) (?ev ?st)" .
    then have "pool_update i (\<lambda>_. ?old) (?ev ?st) = pool_update i (\<lambda>_. ?old) (?ev st)"
      using True by (intro own_irrelevantD) (simp_all add: fo_event_length)
    moreover have "fo_inv (pool_update i (\<lambda>_. ?old) (?ev st))"
    proof -
      have "client_inv ?old" using st True by (simp add: fo_inv_def clients_ok_def)
      then show ?thesis using fo_event_inv [OF st(1) True, of env retries "m_url c" e]
        by (simp add: fo_inv_def clients_ok_pool_update)
    qed
    ultimately show ?thesis using True st by (simp add: fo_react_def Let_def case_prod_beta' fo_event_length)
  qed (simp add: fo_react_def st)
qed

text \<open>Steps of the whole strategy: the network's calls, and a call into one of its clients.\<close>

inductive fo_step :: "failover \<Rightarrow> failover \<Rightarrow> bool" where
  fo_step_connect: "fo_step st (fo_connect env st)"
| fo_step_stop: "fo_step st (fst (fo_stop st))"
| fo_step_tick: "fo_step st (fo_tick env now st)"
| fo_step_submit: "fo_submit env q st r = Some (v, q', st') \<Longrightarrow> fo_step st st'"
| fo_step_client: "i < length (fo_pools st) \<Longrightarrow>
    client_step (fo_react env retries i) ((st, []), fo_pools st ! i) ((st', out), c') \<Longrightarrow>
    fo_step st (pool_update i (\<lambda>_. c') st')"

lemma fo_step_inv: "fo_step st st' \<Longrightarrow> fo_inv st \<Longrightarrow> fo_inv st'"
proof (induction rule: fo_step.induct)
  case (fo_step_connect st env)
  then show ?case by (simp add: fo_connect_def fo_inv_def connect_inv clients_ok_pool_update)
next
  case (fo_step_submit env q st r v q' st')
  let ?i = "nat (fo_active st)"
  from fo_step_submit obtain c' where c': "submit env q (fo_pools st ! ?i) r = Some (v, q', c')"
    "st' = pool_update ?i (\<lambda>_. c') st" "?i < length (fo_pools st)"
    by (auto simp: fo_submit_def split: if_splits option.splits)
  then have "client_inv c'" using submit_inv [OF _ c'(1)] fo_step_submit(2) by (simp add: fo_inv_def clients_ok_def)
  then show ?case using fo_step_submit(2) c'(2)
    by (simp add: fo_inv_def clients_ok_pool_update)
next
  case (fo_step_client i st env retries st' out c')
  have "client_inv c'"
    using fo_listener.step_inv [OF fo_step_client(2)] fo_step_client(1,3)
    by (simp add: fo_inv_def clients_ok_def)
  moreover have "fo_inv st'"
    using client_step_keeps [OF fo_step_client(2) fo_react_keeps [of "length (fo_pools st)"]] fo_step_client(3) by simp
  ultimately show ?case by (simp add: fo_inv_def clients_ok_pool_update)
qed (auto simp: clients_ok_def fo_stop_def fo_tick_def fo_inv_def disconnect_inv tick_inv)

section \<open>The client under a fail-over listener\<close>

text \<open>An environment in which nothing happens, for the examples.\<close>

definition idle_env :: uv where
  "idle_env = \<lparr>uv_now = 1, uv_hrtime = 0, uv_getaddrinfo = 0, uv_is_writable = True, uv_try_write = 0,
     json_insitu = (\<lambda>x. (None, x)), json_write = (\<lambda>_. []), stack_blob = [], stack_str = []\<rparr>"

text \<open>C13: when nothing is buffered, the bytes of a read are cut at the newlines, every complete line
  is handled in order, and the unfinished rest is moved to the front of the buffer, where it
  is what \<open>m_recvBufPos\<close> says.\<close>

theorem receive_handles_lines:
  assumes "m_recvBufPos c = 0" and "length (m_buf c) = 2048" and "length (concat ls @ rest) \<le> 2040"
    and "\<forall>l \<in> set ls. is_line l" and "CHR 0x0A \<notin> set rest" and "env_ok env"
  shows "\<exists>b. receive env (fo_react env' retries i) (concat ls @ rest) s c =
      (case handle_lines env (fo_react env' retries i) ls (s, c) of (s', c') \<Rightarrow> Some (s', with_buf b (length rest) c'))
    \<and> length b = 2048 \<and> take (length rest) b = rest"
proof -
  have "\<exists>b. receive env (fo_react env' retries i) (concat ls @ rest) s c =
      Some (fo_listener.lift_buf b (length rest) (handle_lines env (fo_react env' retries i) ls (s, c)))
    \<and> length b = 2048 \<and> take (length rest) b = rest"
    by (rule fo_listener.receive_lines [OF assms(1,2) refl assms(3)]) (use assms(4-6) in \<open>auto simp: env_ok_def\<close>)
  then show ?thesis by (simp add: case_prod_beta')
qed

theorem receive_handles_lines_witness:
  "\<exists>b. receive idle_env (fo_react idle_env 5 0) (''{}'' @ [CHR 0x0A] @ ''ab'')
      (\<lparr>fo_active = -1, fo_index = 0, fo_pools = []\<rparr>, []) (Client (replicate 2112 CHR 0x00) [] 0 []) =
    Some ((\<lparr>fo_active = -1, fo_index = 0, fo_pools = []\<rparr>, []), with_buf b 2 (Client (replicate 2112 CHR 0x00) [] 0 []))
    \<and> take 2 b = ''ab''"
proof -
  let ?c = "Client (replicate 2112 CHR 0x00) [] 0 []" and ?s = "(\<lparr>fo_active = -1, fo_index = 0, fo_pools = []\<rparr>, [])"
  have "is_line (''{}'' @ [CHR 0x0A])" by (simp add: is_line_def)
  moreover have "handle_lines idle_env (fo_react idle_env 5 0) [''{}'' @ [CHR 0x0A]] (?s, ?c) = (?s, ?c)"
    by (simp add: handle_lines_def handle_line_def idle_env_def startTimeout_def Client_def Url_empty_def)
  moreover have "length (m_buf ?c) = 2048" "m_recvBufPos ?c = 0" "env_ok idle_env"
    by (simp_all add: Client_def env_ok_def idle_env_def)
  ultimately show ?thesis
    using receive_handles_lines [of ?c "[''{}'' @ [CHR 0x0A]]" "''ab''" idle_env idle_env 5 0 ?s] by (auto simp flip: numeral_2_eq_2)
qed

text \<open>C14: a message split over two reads is lost. With a fragment of \<open>p\<close> bytes buffered, the
  newline-terminated rest \<open>l\<close> of the message is handled as a message of its own, without the
  fragment; and although everything received has been consumed, \<open>p\<close> bytes from behind the
  received data are kept as if they were input.\<close>

theorem fragmented_message_lost:
  assumes "p = m_recvBufPos c" and "0 < p" and "length (m_buf c) = 2048" and "is_line l"
    and "p + length l \<le> 2040" and "2 * p + length l \<le> 2048"
    and "CHR 0x0A \<notin> set (take p (drop (p + length l) (m_buf c)))" and "env_ok env"
  shows "\<exists>b. receive env (fo_react env' retries i) l s c =
    (case handle_line env (fo_react env' retries i) l s c of (s', c') \<Rightarrow> Some (s', with_buf b p c'))"
  using fo_listener.receive_after_fragment [OF _ _ _ _ _ refl, of c l env env' retries i s] assms
  by (auto simp: case_prod_beta')

theorem fragmented_message_lost_witness:
  "\<exists>b. receive idle_env (fo_react idle_env 5 0) (''}'' @ [CHR 0x0A]) (\<lparr>fo_active = -1, fo_index = 0, fo_pools = []\<rparr>, [])
      ((Client (replicate 2112 CHR 0x00) [] 0 [])\<lparr>m_recvBufPos := 1\<rparr>) =
    (case handle_line idle_env (fo_react idle_env 5 0) (''}'' @ [CHR 0x0A]) (\<lparr>fo_active = -1, fo_index = 0, fo_pools = []\<rparr>, [])
      ((Client (replicate 2112 CHR 0x00) [] 0 [])\<lparr>m_recvBufPos := 1\<rparr>) of (s', c') \<Rightarrow> Some (s', with_buf b 1 c'))"
  using fragmented_message_lost [of 1 "(Client (replicate 2112 CHR 0x00) [] 0 [])\<lparr>m_recvBufPos := 1\<rparr>"
      "''}'' @ [CHR 0x0A]" idle_env idle_env 5 0 "(\<lparr>fo_active = -1, fo_index = 0, fo_pools = []\<rparr>, [])"]
  by (simp add: Client_def is_line_def env_ok_def idle_env_def)

section \<open>Fail-over properties\<close>

lemma Client_inv: "2048 \<le> length junk \<Longrightarrow> client_inv (Client junk junk_blob i agent)"
  by (simp add: Client_def client_inv_def)

lemma fo_add_inv:
  assumes "2048 \<le> length (fst (junk (length (fo_pools st))))" "clients_ok st"
  shows "clients_ok (fo_add junk rp agent u st)" "length (fo_pools (fo_add junk rp agent u st)) = Suc (length (fo_pools st))"
    "fo_active (fo_add junk rp agent u st) = fo_active st" "fo_index (fo_add junk rp agent u st) = fo_index st"
proof -
  have "client_inv (setRetryPause c n)" if "client_inv c" for c n
    using that by (simp add: setRetryPause_def client_inv_def)
  then show "clients_ok (fo_add junk rp agent u st)"
    using assms by (auto simp: clients_ok_def fo_add_def Let_def nth_append less_Suc_eq setUrl_inv Client_inv)
qed (simp_all add: fo_add_def Let_def)

lemma fo_adds:
  assumes "\<forall>n. 2048 \<le> length (fst (junk n))" "clients_ok st"
  shows "clients_ok (fold (fo_add junk rp agent) urls st)
    \<and> length (fo_pools (fold (fo_add junk rp agent) urls st)) = length (fo_pools st) + length urls
    \<and> fo_active (fold (fo_add junk rp agent) urls st) = fo_active st
    \<and> fo_index (fold (fo_add junk rp agent) urls st) = fo_index st"
  using assms(2)
proof (induction urls arbitrary: st)
  case (Cons u urls)
  then show ?case using fo_add_inv [of junk st rp agent u] assms(1) by simp
qed simp

lemma FailoverStrategy_inv:
  assumes "\<forall>n. 2048 \<le> length (fst (junk n))" "urls \<noteq> []"
  shows "fo_inv (FailoverStrategy junk rp agent urls)"
  using fo_adds [OF assms(1), of "\<lparr>fo_active = -1, fo_index = 0, fo_pools = []\<rparr>" rp agent urls] assms(2)
  by (auto simp: fo_inv_def FailoverStrategy_def clients_ok_def simp flip: length_greater_0_conv)

text \<open>C12: in every state the strategy reaches from its constructor, by any calls and any order of
  network callbacks, the active pool and the index are positions of the list (or there is no
  active pool), the active pool is the indexed one, and every client keeps its invariant: a
  connected client has its stream and socket, a closing one has a socket being closed, and the
  receive position leaves room in the buffer.\<close>

theorem failover_reachable:
  assumes "\<forall>n. 2048 \<le> length (fst (junk n))" and "urls \<noteq> []"
    and "fo_step\<^sup>*\<^sup>* (FailoverStrategy junk rp agent urls) st"
  shows "-1 \<le> fo_active st \<and> fo_active st < int (length (fo_pools st)) \<and> fo_index st < length (fo_pools st)
    \<and> (0 \<le> fo_active st \<longrightarrow> fo_index st = nat (fo_active st))
    \<and> (\<forall>k < length (fo_pools st). let c = fo_pools st ! k in
        (m_state c = ConnectedState \<longrightarrow> m_stream c \<and> m_socket c \<noteq> None)
        \<and> (m_state c = ClosingState \<longrightarrow> m_socket c = Some True) \<and> m_recvBufPos c \<le> 2040)"
proof -
  have "fo_inv st" using assms(3)
    by (induction rule: rtranclp_induct) (simp_all add: FailoverStrategy_inv [OF assms(1,2)] fo_step_inv)
  then show ?thesis by (auto simp: fo_inv_def clients_ok_def client_inv_def Let_def)
qed

theorem failover_reachable_witness:
  "fo_index (fst (fo_stop (FailoverStrategy (\<lambda>_. (replicate 2112 CHR 0x00, [])) 5 ''a'' [Url_of ''h:1'', Url_of ''i:2'']))) < 2"
proof -
  let ?st = "FailoverStrategy (\<lambda>_. (replicate 2112 CHR 0x00, [])) 5 ''a'' [Url_of ''h:1'', Url_of ''i:2'']"
  have "fo_step\<^sup>*\<^sup>* ?st (fst (fo_stop ?st))" by (rule r_into_rtranclp) (rule fo_step_stop)
  moreover have "length (fo_pools (fst (fo_stop ?st))) = 2"
    using fo_adds [of "\<lambda>_. (replicate 2112 CHR 0x00, [])" "\<lparr>fo_active = -1, fo_index = 0, fo_pools = []\<rparr>" 5 "''a''"
        "[Url_of ''h:1'', Url_of ''i:2'']"]
    by (simp add: fo_stop_def FailoverStrategy_def clients_ok_def)
  ultimately show ?thesis
    using failover_reachable [of "\<lambda>_. (replicate 2112 CHR 0x00, [])" "[Url_of ''h:1'', Url_of ''i:2'']" 5 "''a''" "fst (fo_stop ?st)"]
    by simp
qed



text \<open>C29: the first pool has priority: when it logs in it becomes the active one whatever was
  active before, every other pool is disconnected, and a login of another pool while one is active
  changes nothing but disconnects that pool and the others.\<close>

theorem failover_primary_wins:
  assumes "fo_inv st" and "i < length (fo_pools st)" and "i = 0 \<or> 0 \<le> fo_active st"
  shows "let st' = fst (fo_onLoginSuccess (int i) u st) in
    fo_active st' = (if i = 0 then 0 else fo_active st)
    \<and> (\<forall>k < length (fo_pools st). fo_pools st' ! k =
        (if k = 0 \<or> int k = fo_active st' then fo_pools st ! k else disconnect (fo_pools st ! k)))
    \<and> snd (fo_onLoginSuccess (int i) u st) = (if i = 0 \<and> fo_active st \<noteq> 0 then [OnActive 0 u] else [])"
  using assms by (auto simp: fo_onLoginSuccess_def fo_isActive_def Let_def disconnect_others)

theorem failover_primary_wins_witness:
  "snd (fo_onLoginSuccess 0 Url_empty \<lparr>fo_active = 1, fo_index = 1,
      fo_pools = [Client (replicate 2112 CHR 0x00) [] 0 [], Client (replicate 2112 CHR 0x00) [] 1 []]\<rparr>) = [OnActive 0 Url_empty]"
proof -
  let ?st = "\<lparr>fo_active = 1, fo_index = 1,
      fo_pools = [Client (replicate 2112 CHR 0x00) [] 0 [], Client (replicate 2112 CHR 0x00) [] 1 []]\<rparr>"
  have "fo_inv ?st" by (auto simp: fo_inv_def clients_ok_def Client_inv less_Suc_eq nth_Cons')
  then show ?thesis using failover_primary_wins [of ?st 0 Url_empty] by (simp add: Let_def)
qed

text \<open>Between the loss of the active pool and the next login a result has nowhere to go:
  \<open>submit\<close> reads \<^verbatim>\<open>m_pools[-1]\<close>. The network is paused by then, but a worker that
  finishes its current hash still submits it.\<close>

theorem failover_submit_after_close:
  assumes "fo_active st = i" and "failures \<noteq> -1"
  shows "fo_submit env q (fst (fo_onClose env' retries i failures st)) r = None
    \<and> OnPause \<in> set (snd (fo_onClose env' retries i failures st))"
  using assms by (simp add: fo_onClose_def fo_submit_def Let_def)

theorem failover_submit_after_close_witness:
  "fo_submit idle_env 7 (fst (fo_onClose idle_env 5 0 1 \<lparr>fo_active = 0, fo_index = 0,
      fo_pools = [Client [] [] 0 [], Client [] [] 1 []]\<rparr>)) (JobResult_of [] (Job [] 0 False)) = None"
  using failover_submit_after_close [of "\<lparr>fo_active = 0, fo_index = 0, fo_pools = [Client [] [] 0 [], Client [] [] 1 []]\<rparr>" 0 1]
  by simp

section \<open>The single pool and the donation\<close>

text \<open>A single pool that closes is reconnected: its client waits \<open>m_retryPause\<close> milliseconds
  in the connecting state and the first tick from then on resolves the host again.\<close>

theorem single_pool_reconnects:
  assumes "m_failures c \<noteq> -1" and "due = uv_now env + word_of_int (m_retryPause c)" and "due \<noteq> 0" and "due \<le> t"
  shows "let (s', c') = onClose env sp_react s c in
    m_state c' = ConnectingState \<and> m_failures c' = m_failures c + 1 \<and> \<not> fst s'
    \<and> m_state (tick env' t c') = HostLookupState
    \<and> requests (tick env' t c') = requests c @ [Getaddrinfo (m_host (m_url c))]"
  using assms
  by (auto simp: onClose_def reconnect_def sp_react_def sp_event_def setState_def tick_def connect_def resolve_def
      request_def Let_def case_prod_beta')

theorem single_pool_reconnects_witness:
  "m_state (tick idle_env 6000 (snd (onClose idle_env sp_react (True, []) (Client [] [] 0 [])))) = HostLookupState"
  using single_pool_reconnects [of "Client [] [] 0 []" 5001 idle_env 6000 "(True, [])" idle_env]
  by (simp add: Client_def idle_env_def Let_def case_prod_beta')

text \<open>C31: donation and mining alternate over 100 minutes, \<open>level\<close> of them for donation: a login
  starts the donation timer, its end disconnects, reports the pause and starts the idle timer, and
  the end of that connects again. A login while the donation is running does not extend it.\<close>

theorem donate_cycle:
  assumes "(st0, c0) = DonateStrategy junk level lite rp agent" and "ds_donateTime st = ds_donateTime st0"
    and "ds_idleTime st = ds_idleTime st0"
  shows "ds_donateTime st + ds_idleTime st = 100 * 60 * 1000 \<and> 100 * ds_donateTime st = level * (100 * 60 * 1000)
    \<and> ds_timer (fst (ds_event i u OnLoginSuccess st)) =
        (if ds_active st then ds_timer st else Some (level * 60 * 1000))
    \<and> (ds_active st \<longrightarrow> ds_onTimer env (st, c) =
        ((st\<lparr>ds_active := False, ds_timer := Some ((100 - level) * 60 * 1000)\<rparr>, disconnect c), [OnPause]))
    \<and> (\<not> ds_active st \<longrightarrow> ds_onTimer env (st, c) = ((st\<lparr>ds_timer := None\<rparr>, connect env c), []))"
  using assms
  by (auto simp: DonateStrategy_def ds_idle_def ds_event_def ds_onTimer_def ds_suspend_def Let_def)

theorem donate_cycle_witness:
  "ds_timer (fst (ds_event (-1) Url_empty OnLoginSuccess (fst (DonateStrategy ([], []) 5 True 5 [])))) = Some 300000"
  using donate_cycle [of "fst (DonateStrategy ([], []) 5 True 5 [])" "snd (DonateStrategy ([], []) 5 True 5 [])"
      "([], [])" 5 True 5 "[]" "fst (DonateStrategy ([], []) 5 True 5 [])"]
  by (simp add: DonateStrategy_def ds_idle_def)

section \<open>Witnesses of the properties of the client\<close>

theorem submit_message_fits_witness:
  "length (submit_message 2 ''w1'' \<lparr>poolId = 0, jobId = replicate 64 CHR 0x00, r_diff = 1, nonce = 7, result = replicate 32 0\<rparr>) + 1 \<le> 768"
  by (rule submit_message_fits) (simp_all add: JobId_data_def)

theorem disconnect_during_lookup_witness:
  "m_state (snd (onResolved idle_env (\<lambda>e s c. (s, c)) 0 [True] ()
    (disconnect ((Client [] [] 0 [])\<lparr>m_state := HostLookupState\<rparr>)))) = ConnectingState"
  using disconnect_during_lookup [of "(Client [] [] 0 [])\<lparr>m_state := HostLookupState\<rparr>" "[True]" 0 idle_env
      "\<lambda>e s c. (s, c)" "()"]
  by (simp add: Client_def)


end
