(* ===== verification/NetworkState.thy ===== *)
theory NetworkState
  imports Client "HOL-Library.Multiset"
begin

text \<open>
  The counters behind the API and the console, \<^verbatim>\<open>src/api/NetworkState.cpp\<close>: accepted and
  rejected results, the ten highest difficulties, latencies, and the pool's connection time. The
  clock \<open>now\<close> is \<^verbatim>\<open>uv_now\<close>.
\<close>

record NetworkState =
  ns_pool :: string
  topDiff :: "u64 list"
  ns_diff :: u32
  accepted :: u64
  ns_failures :: u64
  rejected :: u64
  total :: u64
  ns_active :: bool
  m_latency :: "16 word list"
  m_connectionTime :: u64

text \<open>\<open>junk\<close> is the connection time the constructor does not set.\<close>

definition NetworkState_new :: "u64 \<Rightarrow> NetworkState" where
  "NetworkState_new junk =
    \<lparr>ns_pool = [], topDiff = replicate 10 0, ns_diff = 0, accepted = 0, ns_failures = 0, rejected = 0,
     total = 0, ns_active = False, m_latency = [], m_connectionTime = junk\<rparr>"

definition connectionTime :: "u64 \<Rightarrow> NetworkState \<Rightarrow> 32 word" where
  "connectionTime now ns = (if ns_active ns then ucast ((now - m_connectionTime ns) div 1000) else 0)"

definition avgTime :: "u64 \<Rightarrow> NetworkState \<Rightarrow> u32" where
  "avgTime now ns =
    (if m_latency ns = [] then 0
     else ucast ((ucast (connectionTime now ns) :: u64) div of_nat (length (m_latency ns))))"

text \<open>\<^verbatim>\<open>std::nth_element\<close> puts the element a sort would put there.\<close>

definition latency :: "NetworkState \<Rightarrow> u32" where
  "latency ns =
    (let calls = length (m_latency ns)
     in if calls = 0 then 0 else ucast (sort (m_latency ns) ! (calls div 2)))"

definition ns_add :: "SubmitResult \<Rightarrow> string option \<Rightarrow> NetworkState \<Rightarrow> NetworkState" where
  "ns_add r error ns =
    (if error \<noteq> None then ns\<lparr>rejected := rejected ns + 1\<rparr>
     else let ns = ns\<lparr>accepted := accepted ns + 1, total := total ns + ucast (sr_diff r)\<rparr>;
              ln = length (topDiff ns) - 1;
              ns = (if sr_actualDiff r > topDiff ns ! ln
                    then ns\<lparr>topDiff := rev (sort ((topDiff ns)[ln := sr_actualDiff r]))\<rparr> else ns)
       in ns\<lparr>m_latency := m_latency ns @ [if sr_elapsed r > 0xFFFF then 0xFFFF else ucast (sr_elapsed r)]\<rparr>)"

text \<open>\<^verbatim>\<open>snprintf\<close> into 255 bytes.\<close>

definition setPool :: "u64 \<Rightarrow> string \<Rightarrow> 16 word \<Rightarrow> NetworkState \<Rightarrow> NetworkState" where
  "setPool now host port ns =
    ns\<lparr>ns_pool := take 254 (host @ '':'' @ dec_digits (unat port)), ns_active := True, m_connectionTime := now\<rparr>"

definition ns_stop :: "NetworkState \<Rightarrow> NetworkState" where
  "ns_stop ns = ns\<lparr>ns_active := False, ns_diff := 0, ns_failures := ns_failures ns + 1, m_latency := []\<rparr>"

section \<open>The ten highest difficulties\<close>

fun insert_desc :: "'a::linorder \<Rightarrow> 'a list \<Rightarrow> 'a list" where
  "insert_desc x [] = [x]"
| "insert_desc x (y # ys) = (if x \<le> y then y # insert_desc x ys else x # y # ys)"

definition sort_desc :: "'a::linorder list \<Rightarrow> 'a list" where
  "sort_desc xs = rev (sort xs)"

lemma sort_desc_unique:
  "mset ys = mset xs \<Longrightarrow> sorted_wrt (\<ge>) ys \<Longrightarrow> ys = sort_desc xs"
proof -
  assume a: "mset ys = mset xs" "sorted_wrt (\<ge>) ys"
  then have "sorted (rev ys)" by (simp add: sorted_wrt_rev)
  moreover have "mset (rev ys) = mset xs" using a by simp
  ultimately have "sort xs = rev ys" by (rule properties_for_sort [rotated])
  then show ?thesis by (simp add: sort_desc_def)
qed

lemma mset_sort_desc [simp]: "mset (sort_desc xs) = mset xs"
  by (simp add: sort_desc_def)

lemma sorted_sort_desc: "sorted_wrt (\<ge>) (sort_desc xs)"
  by (simp add: sort_desc_def sorted_wrt_rev)

lemma length_sort_desc [simp]: "length (sort_desc xs) = length xs"
  by (simp add: sort_desc_def)

lemma mset_insert_desc [simp]: "mset (insert_desc x ys) = add_mset x (mset ys)"
  by (induction ys) auto

lemma set_insert_desc [simp]: "set (insert_desc x ys) = insert x (set ys)"
  by (induction ys) auto

lemma sorted_insert_desc: "sorted_wrt (\<ge>) ys \<Longrightarrow> sorted_wrt (\<ge>) (insert_desc x ys)"
  by (induction ys) (auto intro: order_trans)

lemma sort_desc_Cons: "sort_desc (x # xs) = insert_desc x (sort_desc xs)"
  by (rule sort_desc_unique [symmetric]) (simp_all add: sorted_insert_desc sorted_sort_desc)

lemma take_insert_desc:
  assumes "sorted_wrt (\<ge>) ys" "n < length ys"
  shows "take (Suc n) (insert_desc x ys) =
    (if ys ! n < x then insert_desc x (take n ys) else take (Suc n) ys)"
  using assms
proof (induction ys arbitrary: n)
  case (Cons y ys)
  show ?case
  proof (cases n)
    case 0
    then show ?thesis by (auto simp: not_le)
  next
    case (Suc m)
    have le: "ys ! m \<le> y" using Cons.prems Suc by simp
    have IH: "take (Suc m) (insert_desc x ys) =
        (if ys ! m < x then insert_desc x (take m ys) else take (Suc m) ys)"
      using Cons.IH [of m] Cons.prems Suc by simp
    show ?thesis
    proof (cases "y < x")
      case True
      then have "ys ! m < x" using le by simp
      then show ?thesis using True Suc by simp
    next
      case False
      then show ?thesis using Suc IH by (cases "ys ! m < x") (simp_all add: not_less leD)
    qed
  qed
qed simp

text \<open>Replacing the last of a descending list and sorting inserts in front of it.\<close>

lemma sort_replace_last:
  assumes "sorted_wrt (\<ge>) ys" "length ys = Suc n"
  shows "rev (sort (ys[n := x])) = insert_desc x (take n ys)"
proof -
  have "ys[n := x] = take n ys @ [x]"
    using assms(2) by (subst upd_conv_take_nth_drop) simp_all
  then have "mset (insert_desc x (take n ys)) = mset (ys[n := x])" by simp
  moreover have "sorted_wrt (\<ge>) (insert_desc x (take n ys))"
    using assms(1) by (intro sorted_insert_desc sorted_wrt_take)
  ultimately show ?thesis using sort_desc_unique unfolding sort_desc_def by metis
qed

definition accepted_diffs :: "(SubmitResult \<times> string option) list \<Rightarrow> u64 list" where
  "accepted_diffs rs = map (sr_actualDiff \<circ> fst) (filter (\<lambda>(r, e). e = None) rs)"

definition ns_adds :: "(SubmitResult \<times> string option) list \<Rightarrow> NetworkState \<Rightarrow> NetworkState" where
  "ns_adds = fold (\<lambda>(r, e). ns_add r e)"

lemma topDiff_step:
  assumes "topDiff ns = take 10 (sort_desc (xs @ replicate 10 0))"
  shows "topDiff (ns_add r e ns) =
    take 10 (sort_desc ((if e = None then [sr_actualDiff r] else []) @ xs @ replicate 10 0))"
proof -
  let ?L = "sort_desc (xs @ replicate 10 (0::u64))"
  have l: "length (topDiff ns) = Suc 9" using assms by simp
  have n: "topDiff ns ! 9 = ?L ! 9" using assms by simp
  have s: "sorted_wrt (\<ge>) (topDiff ns)" unfolding assms by (intro sorted_wrt_take sorted_sort_desc)
  have t: "take 9 (topDiff ns) = take 9 ?L" using assms by (simp add: min_def)
  have "take (Suc 9) (insert_desc (sr_actualDiff r) ?L) =
      (if ?L ! 9 < sr_actualDiff r then insert_desc (sr_actualDiff r) (take 9 ?L) else take (Suc 9) ?L)"
    by (rule take_insert_desc [OF sorted_sort_desc]) simp
  then show ?thesis
    using sort_replace_last [OF s l, of "sr_actualDiff r"] l n t assms
    by (auto simp: ns_add_def sort_desc_Cons Let_def)
qed

lemma topDiff_adds:
  "topDiff ns = take 10 (sort_desc (xs @ replicate 10 0)) \<Longrightarrow>
    topDiff (ns_adds rs ns) = take 10 (sort_desc (rev (accepted_diffs rs) @ xs @ replicate 10 0))"
proof (induction rs arbitrary: ns xs)
  case (Cons x rs)
  obtain r e where x: "x = (r, e)" by (cases x)
  show ?case
    using Cons.IH [of "ns_add r e ns" "(if e = None then [sr_actualDiff r] else []) @ xs"] topDiff_step [OF Cons.prems, of r e]
    by (auto simp: x ns_adds_def accepted_diffs_def)
qed (simp add: ns_adds_def accepted_diffs_def)

lemma sort_desc_perm: "mset xs = mset ys \<Longrightarrow> sort_desc xs = sort_desc ys"
  by (rule sort_desc_unique) (simp_all add: sorted_sort_desc)

text \<open>C28: whatever results are reported, \<open>topDiff\<close> holds the ten highest actual difficulties of the
  accepted ones in descending order, padded with zeros, and the counters count them.\<close>

theorem topDiff_is_top_ten:
  "topDiff (ns_adds rs (NetworkState_new junk)) =
      take 10 (rev (sort (accepted_diffs rs @ replicate 10 0)))
    \<and> accepted (ns_adds rs (NetworkState_new junk)) = of_nat (length (accepted_diffs rs))
    \<and> rejected (ns_adds rs (NetworkState_new junk)) = of_nat (length rs - length (accepted_diffs rs))"
proof -
  have "topDiff (NetworkState_new junk) = take 10 (sort_desc ([] @ replicate 10 0))"
    by (simp add: NetworkState_new_def sort_desc_def sort_replicate)
  from topDiff_adds [OF this, of rs]
  have "topDiff (ns_adds rs (NetworkState_new junk)) = take 10 (sort_desc (accepted_diffs rs @ replicate 10 0))"
    using sort_desc_perm [of "rev (accepted_diffs rs) @ replicate 10 0" "accepted_diffs rs @ replicate 10 0"] by simp
  moreover have "accepted (ns_adds rs ns) = accepted ns + of_nat (length (accepted_diffs rs))
      \<and> rejected (ns_adds rs ns) = rejected ns + of_nat (length rs - length (accepted_diffs rs))" for ns
  proof (induction rs arbitrary: ns)
    case (Cons x rs)
    obtain r e where x: "x = (r, e)" by (cases x)
    have "length (accepted_diffs rs) \<le> length rs" by (simp add: accepted_diffs_def)
    then show ?case using Cons.IH [of "ns_add r e ns"]
      by (auto simp: x ns_adds_def accepted_diffs_def ns_add_def Let_def Suc_diff_le)
  qed (simp add: ns_adds_def accepted_diffs_def)
  ultimately show ?thesis by (simp add: sort_desc_def) (simp add: NetworkState_new_def)
qed

end
