(* ===== verification/Workers.thy ===== *)
theory Workers
  imports Hashrate Job
begin

text \<open>
  The worker threads, \<^verbatim>\<open>src/workers\<close>: the state \<open>Workers\<close> shares between the network
  thread and the miners, the miner \<open>MultiWorker\<close> as a program with one program point per access to
  that state, and the calls of the other threads access by access. \<open>CryptoNight::hash\<close> is called through a function pointer
  and is a parameter here, as are the clock and \<open>Mem::hashFactor()\<close>. A miner's arrays live in a
  small heap, because \<open>MultiWorker::State\<close> is copied with its pointers.
\<close>

section \<open>The shared state\<close>

text \<open>\<open>w_async\<close> is the handle of \<open>onResult\<close>: \<open>None\<close> when closed, else whether it was sent.\<close>

record workers =
  w_active :: bool
  w_enabled :: bool
  w_job :: job
  w_paused :: int
  w_sequence :: u64
  w_queue :: "JobResult list"
  w_ticks :: u64
  w_async :: "bool option"
  w_hashrate :: hashrate

definition setEnabled :: "bool \<Rightarrow> workers \<Rightarrow> workers" where
  "setEnabled enabled W =
    (if w_enabled W = enabled then W
     else let W = W\<lparr>w_enabled := enabled\<rparr>
       in if \<not> w_active W then W
          else W\<lparr>w_paused := (if enabled then 0 else 1), w_sequence := w_sequence W + 1\<rparr>)"

definition setJob :: "job \<Rightarrow> workers \<Rightarrow> workers" where
  "setJob job W =
    (let W = W\<lparr>w_job := job, w_active := True\<rparr>
     in if \<not> w_enabled W then W else W\<lparr>w_sequence := w_sequence W + 1, w_paused := 0\<rparr>)"

definition pause :: "workers \<Rightarrow> workers" where
  "pause W = W\<lparr>w_active := False, w_paused := 1, w_sequence := w_sequence W + 1\<rparr>"

definition Workers_start :: "(nat \<Rightarrow> u64 list) \<Rightarrow> (nat \<Rightarrow> u64 list) \<Rightarrow> nat \<Rightarrow> workers \<Rightarrow> workers" where
  "Workers_start junk_counts junk_stamps threads W =
    W\<lparr>w_hashrate := Hashrate junk_counts junk_stamps threads, w_sequence := 1, w_paused := 1, w_async := Some False\<rparr>"

definition Workers_stop :: "workers \<Rightarrow> workers" where
  "Workers_stop W = W\<lparr>w_async := None, w_paused := 0, w_sequence := 0\<rparr>"

text \<open>\<open>submit\<close> queues the result under the mutex and then wakes the network thread.\<close>

definition submit_push :: "JobResult \<Rightarrow> workers \<Rightarrow> workers" where
  "submit_push r W = W\<lparr>w_queue := w_queue W @ [r]\<rparr>"

definition submit_send :: "workers \<Rightarrow> workers" where
  "submit_send W = W\<lparr>w_async := map_option (\<lambda>_. True) (w_async W)\<rparr>"

text \<open>\<open>onResult\<close> takes the queue under the mutex and hands it to the listener, in order.\<close>

definition onResult :: "workers \<Rightarrow> workers \<times> JobResult list" where
  "onResult W = (W\<lparr>w_queue := []\<rparr>, w_queue W)"

text \<open>A handle gives its thread and, once its thread has made the worker, hash count and timestamp.\<close>

fun tick_adds :: "(nat \<times> (u64 \<times> u64) option) list \<Rightarrow> hashrate \<Rightarrow> hashrate \<times> bool" where
  "tick_adds [] h = (h, True)"
| "tick_adds ((i, None) # hs) h = (h, False)"
| "tick_adds ((i, Some (count, stamp)) # hs) h = tick_adds hs (add h i count stamp)"

definition onTick :: "u64 \<Rightarrow> (nat \<times> (u64 \<times> u64) option) list \<Rightarrow> workers \<Rightarrow> workers" where
  "onTick now handles W =
    (let (h, all) = tick_adds handles (w_hashrate W); W = W\<lparr>w_hashrate := h\<rparr>
     in if \<not> all then W
        else let ticks = w_ticks W; W = W\<lparr>w_ticks := ticks + 1\<rparr>
          in if ticks AND 0xF = 0 then W\<lparr>w_hashrate := updateHighest (w_hashrate W) now\<rparr> else W)"

subsection \<open>One access at a time\<close>

text \<open>
  The calls above are not atomic: the miners, and the detached thread \<open>Check\<close> of \<^verbatim>\<open>App.cpp\<close> that
  calls \<open>setEnabled\<close>, run between any two accesses to the shared state. \<open>control\<close> is what a thread has
  still to do of its call: \<open>SetJob\<close> writes the job under the lock, \<open>JobActive\<close> and so on are the accesses
  that follow it. \<open>TakeQueue\<close> is \<open>onResult\<close>, called after libuv has cleared the wake-up;
  \<open>CheckEnabled\<close> is the test of \<open>Check\<close> when no process is found.
\<close>

datatype control =
    Idle
  | SetJob job | JobActive | JobTest | JobSequence | JobPaused
  | Pause | PausePaused | PauseSequence
  | CheckEnabled
  | Enable bool | EnableWrite bool | EnableActive bool | EnablePaused bool | EnableSequence
  | TakeQueue

fun control_step :: "control \<Rightarrow> workers \<Rightarrow> control \<times> workers \<times> JobResult list" where
  "control_step Idle W = (Idle, W, [])"
| "control_step (SetJob job) W = (JobActive, W\<lparr>w_job := job\<rparr>, [])"
| "control_step JobActive W = (JobTest, W\<lparr>w_active := True\<rparr>, [])"
| "control_step JobTest W = (if \<not> w_enabled W then Idle else JobSequence, W, [])"
| "control_step JobSequence W = (JobPaused, W\<lparr>w_sequence := w_sequence W + 1\<rparr>, [])"
| "control_step JobPaused W = (Idle, W\<lparr>w_paused := 0\<rparr>, [])"
| "control_step Pause W = (PausePaused, W\<lparr>w_active := False\<rparr>, [])"
| "control_step PausePaused W = (PauseSequence, W\<lparr>w_paused := 1\<rparr>, [])"
| "control_step PauseSequence W = (Idle, W\<lparr>w_sequence := w_sequence W + 1\<rparr>, [])"
| "control_step CheckEnabled W = (if \<not> w_enabled W then Enable True else Idle, W, [])"
| "control_step (Enable b) W = (if w_enabled W = b then Idle else EnableWrite b, W, [])"
| "control_step (EnableWrite b) W = (EnableActive b, W\<lparr>w_enabled := b\<rparr>, [])"
| "control_step (EnableActive b) W = (if \<not> w_active W then Idle else EnablePaused b, W, [])"
| "control_step (EnablePaused b) W = (EnableSequence, W\<lparr>w_paused := (if b then 0 else 1)\<rparr>, [])"
| "control_step EnableSequence W = (Idle, W\<lparr>w_sequence := w_sequence W + 1\<rparr>, [])"
| "control_step TakeQueue W = (let (W, rs) = onResult W in (Idle, W, rs))"

section \<open>The miner\<close>

text \<open>\<open>MultiWorker::State\<close>: the arrays \<open>nonces\<close> and \<open>blob\<close> are addresses.\<close>

record mw_state =
  s_job :: job
  s_nonces :: nat
  s_blob :: nat

text \<open>
  The program points of \<open>start\<close>: the tests of \<open>sequence\<close> and \<open>isPaused\<close>, the two reads of
  \<open>consumeJob\<close> (marked with whether the call is the one after a pause), the mining loop, the
  results a round has still to submit, and the wake-up after each of them.
\<close>

datatype pc = Top | Enter | Sleep | Woken | ReadJob bool | ReadSeq bool job | Mine
  | Submit "JobResult list" | Notify "JobResult list" | Done

record worker =
  mw_pc :: pc
  mw_cur :: mw_state
  mw_saved :: mw_state
  h_nonces :: "nat \<Rightarrow> u32 list"
  h_blob :: "nat \<Rightarrow> byte list"
  mw_hash :: "byte list"
  mw_mult :: nat
  t_id :: nat
  t_threads :: nat
  t_hashCount :: u64
  t_timestamp :: u64
  t_count :: u64
  t_sequence :: u64

record machine =
  cn_hash :: "nat \<Rightarrow> byte list \<Rightarrow> nat \<Rightarrow> byte list"
  hashFactor :: nat
  clock :: u64

text \<open>The constructors; \<open>junk\<close> is what the two blob arrays and the hash array hold when allocated.\<close>

definition State_new :: "byte list \<Rightarrow> nat \<Rightarrow> mw_state" where
  "State_new junk a = \<lparr>s_job = Job junk (-2) False, s_nonces = a, s_blob = a\<rparr>"

definition MultiWorker :: "(nat \<Rightarrow> byte list) \<Rightarrow> nat \<Rightarrow> nat \<Rightarrow> nat \<Rightarrow> worker" where
  "MultiWorker junk i threads mult =
    \<lparr>mw_pc = Top, mw_cur = State_new (junk 0) 0, mw_saved = State_new (junk 1) 1,
     h_nonces = (\<lambda>_. replicate mult 0), h_blob = (\<lambda>a. take (84 * mult) (junk (2 + a))),
     mw_hash = take (32 * mult) (junk 4), mw_mult = mult, t_id = i, t_threads = threads,
     t_hashCount = 0, t_timestamp = 0, t_count = 0, t_sequence = 0\<rparr>"

definition storeStats :: "machine \<Rightarrow> worker \<Rightarrow> worker" where
  "storeStats env w = w\<lparr>t_hashCount := t_count w, t_timestamp := clock env\<rparr>"

definition cur_nonces :: "worker \<Rightarrow> u32 list" where
  "cur_nonces w = h_nonces w (s_nonces (mw_cur w))"

definition cur_blob :: "worker \<Rightarrow> byte list" where
  "cur_blob w = h_blob w (s_blob (mw_cur w))"

definition set_arrays :: "u32 list \<times> byte list \<Rightarrow> worker \<Rightarrow> worker" where
  "set_arrays = (\<lambda>(ns, b) w. w\<lparr>h_nonces := (h_nonces w)(s_nonces (mw_cur w) := ns),
                              h_blob := (h_blob w)(s_blob (mw_cur w) := b)\<rparr>)"

definition memcpy :: "nat \<Rightarrow> byte list \<Rightarrow> byte list \<Rightarrow> byte list" where
  "memcpy off src b = take off b @ src @ drop (off + length src) b"

subsection \<open>Mining\<close>

text \<open>\<^verbatim>\<open>*Job::nonce(blob + i * size) = ++nonces[i]\<close>\<close>

definition next_nonce :: "nat \<Rightarrow> nat \<Rightarrow> u32 list \<times> byte list \<Rightarrow> u32 list \<times> byte list" where
  "next_nonce sz i = (\<lambda>(ns, b).
    let n = ns ! i + 1 in (ns[i := n], memcpy (i * sz + 39) (le_bytes 4 n) b))"

definition lane_result :: "worker \<Rightarrow> nat \<Rightarrow> JobResult" where
  "lane_result w i =
    \<lparr>poolId = m_poolId (s_job (mw_cur w)), jobId = m_id (s_job (mw_cur w)), r_diff = diff (s_job (mw_cur w)),
     nonce = cur_nonces w ! i, result = take 32 (drop (i * 32) (mw_hash w))\<rparr>"

text \<open>One round of the mining loop, up to the results it will submit.\<close>

definition hash_round :: "machine \<Rightarrow> worker \<Rightarrow> worker" where
  "hash_round env w =
    (let w = (if t_count w AND 0xF = 0 then storeStats env w else w);
         w = w\<lparr>t_count := t_count w + of_nat (mw_mult w)\<rparr>;
         n = m_size (s_job (mw_cur w));
         w = set_arrays (fold (next_nonce n) [0..<mw_mult w] (cur_nonces w, cur_blob w)) w
     in w\<lparr>mw_hash := cn_hash env (mw_mult w) (cur_blob w) n\<rparr>)"

definition round_results :: "worker \<Rightarrow> JobResult list" where
  "round_results w = map (lane_result w)
    (filter (\<lambda>i. hash_word (drop (i * 32) (mw_hash w)) < m_target (s_job (mw_cur w))) [0..<mw_mult w])"

subsection \<open>Taking a job\<close>

definition start_nonce :: "nat \<Rightarrow> nat \<Rightarrow> nat \<Rightarrow> nat \<Rightarrow> bool \<Rightarrow> u32 \<Rightarrow> u32" where
  "start_nonce factor threads i lane nicehash n =
    (if nicehash
     then ucast ((ucast (n AND 0xff000000) :: u64) +
       0xffffff div (of_nat threads * of_nat factor) * (of_nat i + of_nat lane * of_nat threads))
     else ucast ((0xffffffff :: u64) div (of_nat threads * of_nat factor) * (of_nat i + of_nat lane * of_nat threads)))"

definition init_lane :: "machine \<Rightarrow> nat \<Rightarrow> nat \<Rightarrow> job \<Rightarrow> nat \<Rightarrow> u32 list \<times> byte list \<Rightarrow> u32 list \<times> byte list" where
  "init_lane env threads i job lane = (\<lambda>(ns, b).
    let b = memcpy (lane * m_size job) (take (m_size job) (m_blob job)) b
    in (ns[lane := start_nonce (hashFactor env) threads i lane (m_nicehash job) (nonce_at (drop (lane * m_size job) b))], b))"

definition save :: "job \<Rightarrow> worker \<Rightarrow> worker" where
  "save job w = (if m_poolId job = -1 \<and> 0 \<le> m_poolId (s_job (mw_cur w)) then w\<lparr>mw_saved := mw_cur w\<rparr> else w)"

definition resume :: "job \<Rightarrow> worker \<Rightarrow> worker \<times> bool" where
  "resume job w =
    (if m_poolId (s_job (mw_cur w)) = -1 \<and> 0 \<le> m_poolId job \<and> JobId_eq (m_id job) (m_id (s_job (mw_saved w)))
     then (w\<lparr>mw_cur := mw_saved w\<rparr>, True) else (w, False))"

text \<open>\<open>consumeJob\<close> after its two reads of the shared state.\<close>

definition consumeJob :: "machine \<Rightarrow> job \<Rightarrow> u64 \<Rightarrow> worker \<Rightarrow> worker" where
  "consumeJob env job sequence w =
    (let w = w\<lparr>t_sequence := sequence\<rparr>
     in if Job_eq (s_job (mw_cur w)) job then w
        else let w = save job w; (w, resumed) = resume job w
          in if resumed then w
             else let w = w\<lparr>mw_cur := (mw_cur w)\<lparr>s_job := job\<rparr>\<rparr>
               in set_arrays (fold (init_lane env (t_threads w) (t_id w) job) [0..<mw_mult w] (cur_nonces w, cur_blob w)) w)"

subsection \<open>The loop of a thread\<close>

definition isOutdated :: "workers \<Rightarrow> u64 \<Rightarrow> bool" where
  "isOutdated W sequence \<longleftrightarrow> w_sequence W \<noteq> sequence"

definition isPaused :: "workers \<Rightarrow> bool" where
  "isPaused W \<longleftrightarrow> w_paused W = 1"

definition worker_step :: "machine \<Rightarrow> workers \<times> worker \<Rightarrow> workers \<times> worker" where
  "worker_step env = (\<lambda>(W, w).
    case mw_pc w of
      Top \<Rightarrow> (W, w\<lparr>mw_pc := if 0 < w_sequence W then Enter else Done\<rparr>)
    | Enter \<Rightarrow> (W, w\<lparr>mw_pc := if isPaused W then Sleep else Mine\<rparr>)
    | Sleep \<Rightarrow> (W, w\<lparr>mw_pc := if isPaused W then Sleep else Woken\<rparr>)
    | Woken \<Rightarrow> (W, w\<lparr>mw_pc := if w_sequence W = 0 then Done else ReadJob True\<rparr>)
    | ReadJob after \<Rightarrow> (W, w\<lparr>mw_pc := ReadSeq after (w_job W)\<rparr>)
    | ReadSeq after job \<Rightarrow> (W, (consumeJob env job (w_sequence W) w)\<lparr>mw_pc := if after then Mine else Top\<rparr>)
    | Mine \<Rightarrow> (W, if isOutdated W (t_sequence w) then w\<lparr>mw_pc := ReadJob False\<rparr>
                 else let w = hash_round env w in w\<lparr>mw_pc := Submit (round_results w)\<rparr>)
    | Submit [] \<Rightarrow> (W, w\<lparr>mw_pc := Mine\<rparr>)
    | Submit (r # rs) \<Rightarrow> (submit_push r W, w\<lparr>mw_pc := Notify rs\<rparr>)
    | Notify rs \<Rightarrow> (submit_send W, w\<lparr>mw_pc := Submit rs\<rparr>)
    | Done \<Rightarrow> (W, w))"

end
