(* ===== verification/Workers_Correct.thy ===== *)
theory Workers_Correct
  imports Workers
begin

text \<open>
  What the miners get right and wrong: the lanes of the blob array, the shares of a job, the ranges
  of the nonces, the program points of a miner, what stopping does,
  and the two ways a miner goes on with a job that is not the current one.
\<close>

section \<open>The memory of a miner\<close>

lemma length_memcpy [simp]: "off + length src \<le> length b \<Longrightarrow> length (memcpy off src b) = length b"
  by (simp add: memcpy_def)

lemma nth_memcpy:
  assumes "off + length src \<le> length b" "k < length b"
  shows "memcpy off src b ! k = (if off \<le> k \<and> k < off + length src then src ! (k - off) else b ! k)"
  using assms by (auto simp: memcpy_def nth_append)

text \<open>Lane \<open>i\<close> of the blob array, for blobs of \<open>sz\<close> bytes.\<close>

definition lane :: "nat \<Rightarrow> nat \<Rightarrow> byte list \<Rightarrow> byte list" where
  "lane sz i b = take sz (drop (i * sz) b)"

definition with_nonce :: "u32 \<Rightarrow> byte list \<Rightarrow> byte list" where
  "with_nonce n b = memcpy 39 (le_bytes 4 n) b"

lemma lane_bound: "i < (m::nat) \<Longrightarrow> m * sz \<le> n \<Longrightarrow> i * sz + sz \<le> n"
  using mult_le_mono1 [of "Suc i" m sz] by simp

lemma length_lane [simp]: "i * sz + sz \<le> length b \<Longrightarrow> length (lane sz i b) = sz"
  by (simp add: lane_def)

lemma lane_memcpy_same:
  assumes "i * sz + sz \<le> length b" "off + length src \<le> sz"
  shows "lane sz i (memcpy (i * sz + off) src b) = memcpy off src (lane sz i b)"
proof (rule nth_equalityI)
  show "length (lane sz i (memcpy (i * sz + off) src b)) = length (memcpy off src (lane sz i b))"
    using assms by simp
  fix k assume "k < length (lane sz i (memcpy (i * sz + off) src b))"
  then have k: "k < sz" using assms by simp
  then show "lane sz i (memcpy (i * sz + off) src b) ! k = memcpy off src (lane sz i b) ! k"
    using assms by (simp add: nth_memcpy) (simp add: lane_def nth_memcpy)
qed

lemma lane_memcpy_other:
  assumes "i \<noteq> j" "j * sz + sz \<le> length b" "i * sz + sz \<le> length b" "off + length src \<le> sz"
  shows "lane sz j (memcpy (i * sz + off) src b) = lane sz j b"
proof (rule nth_equalityI)
  show "length (lane sz j (memcpy (i * sz + off) src b)) = length (lane sz j b)"
    using assms by simp
  fix k assume "k < length (lane sz j (memcpy (i * sz + off) src b))"
  then have k: "k < sz" using assms by simp
  have "i * sz + sz \<le> j * sz \<or> j * sz + sz \<le> i * sz"
    using assms(1) mult_le_mono1 [of "Suc i" j sz] mult_le_mono1 [of "Suc j" i sz] by (cases "i < j") simp_all
  then show "lane sz j (memcpy (i * sz + off) src b) ! k = lane sz j b ! k"
    using k assms by (auto simp: lane_def nth_memcpy)
qed

lemma take_lane: "a \<le> sz \<Longrightarrow> take a (lane sz i b) = take a (drop (i * sz) b)"
  by (simp add: lane_def min_def)

lemma nonce_at_lane:
  assumes "43 \<le> sz"
  shows "nonce_at (lane sz i b) = nonce_at (drop (i * sz) b)"
  using assms by (simp add: nonce_at_def lane_def drop_take min_def)

lemma nonce_at_with_nonce [simp]: "43 \<le> length b \<Longrightarrow> nonce_at (with_nonce n b) = n"
  by (simp add: nonce_at_def with_nonce_def memcpy_def word_of_le_bytes)

lemma with_nonce_twice [simp]: "43 \<le> length b \<Longrightarrow> with_nonce m (with_nonce n b) = with_nonce m b"
  by (simp add: with_nonce_def memcpy_def)

lemma length_with_nonce [simp]: "43 \<le> length b \<Longrightarrow> length (with_nonce n b) = length b"
  by (simp add: with_nonce_def)

lemma with_nonce_self: "43 \<le> length b \<Longrightarrow> with_nonce (nonce_at b) b = b"
proof -
  assume l: "43 \<le> length b"
  then have "le_bytes 4 (nonce_at b) = take 4 (drop 39 b)"
    unfolding nonce_at_def by (intro le_bytes_word_of_le) simp_all
  moreover have "take 4 (drop 39 b) @ drop 43 b = drop 39 b"
    using append_take_drop_id [of 4 "drop 39 b"] by simp
  ultimately show ?thesis using l by (simp add: with_nonce_def memcpy_def)
qed

section \<open>Rounds over the lanes\<close>

lemma next_nonces:
  assumes "m \<le> length ns" "m * sz \<le> length b" "43 \<le> sz"
  defines "r \<equiv> fold (next_nonce sz) [0..<m] (ns, b)"
  shows "length (fst r) = length ns \<and> length (snd r) = length b
    \<and> (\<forall>i < length ns. fst r ! i = (if i < m then ns ! i + 1 else ns ! i))
    \<and> (\<forall>i. i * sz + sz \<le> length b \<longrightarrow>
         lane sz i (snd r) = (if i < m then with_nonce (ns ! i + 1) (lane sz i b) else lane sz i b))"
  using assms(1,2) unfolding r_def
proof (induction m)
  case (Suc m)
  let ?p = "fold (next_nonce sz) [0..<m] (ns, b)"
  have IH: "length (fst ?p) = length ns" "length (snd ?p) = length b"
    "\<And>i. i < length ns \<Longrightarrow> fst ?p ! i = (if i < m then ns ! i + 1 else ns ! i)"
    "\<And>i. i * sz + sz \<le> length b \<Longrightarrow>
      lane sz i (snd ?p) = (if i < m then with_nonce (ns ! i + 1) (lane sz i b) else lane sz i b)"
    using Suc by auto
  have b: "m * sz + sz \<le> length b" using Suc.prems by simp
  have step: "fold (next_nonce sz) [0..<Suc m] (ns, b) =
      ((fst ?p)[m := ns ! m + 1], memcpy (m * sz + 39) (le_bytes 4 (ns ! m + 1)) (snd ?p))"
    using IH(3) [of m] Suc.prems by (simp add: next_nonce_def case_prod_beta' Let_def)
  have "lane sz i (memcpy (m * sz + 39) (le_bytes 4 (ns ! m + 1)) (snd ?p)) =
      (if i < Suc m then with_nonce (ns ! i + 1) (lane sz i b) else lane sz i b)"
    if "i * sz + sz \<le> length b" for i
  proof (cases "i = m")
    case True
    then show ?thesis using IH(2) IH(4) [OF b] b assms(3) by (simp add: lane_memcpy_same with_nonce_def)
  next
    case False
    then show ?thesis using IH(2) IH(4) [OF that] b assms(3) that by (simp add: lane_memcpy_other)
  qed
  moreover have "m * sz + 43 \<le> length b" using b assms(3) by simp
  ultimately show ?case using IH(1,2,3) Suc.prems unfolding step
    by (simp add: nth_list_update)
qed simp

lemma init_lanes:
  fixes env :: machine and threads t :: nat
  assumes "m \<le> length ns" "m * m_size job \<le> length b" "43 \<le> m_size job" "m_size job \<le> length (m_blob job)"
  defines "r \<equiv> fold (init_lane env threads t job) [0..<m] (ns, b)"
  shows "length (fst r) = length ns \<and> length (snd r) = length b
    \<and> (\<forall>i < m. fst r ! i = start_nonce (hashFactor env) threads t i (m_nicehash job) (nonce_at (m_blob job)))
    \<and> (\<forall>i < m. lane (m_size job) i (snd r) = take (m_size job) (m_blob job))"
  using assms(1,2) unfolding r_def
proof (induction m)
  case (Suc m)
  let ?p = "fold (init_lane env threads t job) [0..<m] (ns, b)" and ?src = "take (m_size job) (m_blob job)"
  let ?b' = "memcpy (m * m_size job) ?src (snd ?p)"
  have IH: "length (fst ?p) = length ns" "length (snd ?p) = length b"
    "\<And>i. i < m \<Longrightarrow> fst ?p ! i = start_nonce (hashFactor env) threads t i (m_nicehash job) (nonce_at (m_blob job))"
    "\<And>i. i < m \<Longrightarrow> lane (m_size job) i (snd ?p) = ?src"
    using Suc by auto
  have b: "m * m_size job + m_size job \<le> length b" using Suc.prems by simp
  have src: "length ?src = m_size job" using assms(4) by simp
  have same: "lane (m_size job) m ?b' = ?src"
    using lane_memcpy_same [of m "m_size job" "snd ?p" 0 ?src] b src IH(2) by (simp add: memcpy_def)
  have other: "lane (m_size job) i ?b' = ?src" if "i < m" for i
  proof -
    have "i * m_size job + m_size job \<le> length b"
      using lane_bound [OF that, of "m_size job" "length b"] Suc.prems by simp
    then show ?thesis
      using lane_memcpy_other [of m i "m_size job" "snd ?p" 0 ?src] b src IH(2) IH(4) [OF that] that by simp
  qed
  have n: "nonce_at (drop (m * m_size job) ?b') = nonce_at (m_blob job)"
    using nonce_at_lane [OF assms(3), of m ?b'] same nonce_at_lane [OF assms(3), of 0 "m_blob job"]
    by (simp add: lane_def)
  have "fold (init_lane env threads t job) [0..<Suc m] (ns, b) =
      ((fst ?p)[m := start_nonce (hashFactor env) threads t m (m_nicehash job) (nonce_at (m_blob job))], ?b')"
    using n by (simp add: init_lane_def case_prod_beta' Let_def)
  then show ?case using IH(1,2,3) same other b src Suc.prems by (simp add: less_Suc_eq)
qed simp

section \<open>The arrays of a miner are never left\<close>

definition job_ok :: "job \<Rightarrow> bool" where
  "job_ok j \<longleftrightarrow> length (m_blob j) = 84 \<and> 43 \<le> m_size j \<and> m_size j \<le> 84"

definition state_ok :: "worker \<Rightarrow> mw_state \<Rightarrow> bool" where
  "state_ok w s \<longleftrightarrow> length (h_nonces w (s_nonces s)) = mw_mult w \<and> length (h_blob w (s_blob s)) = 84 * mw_mult w
    \<and> (m_size (s_job s) = 0 \<or> job_ok (s_job s))"

definition memory_ok :: "worker \<Rightarrow> bool" where
  "memory_ok w \<longleftrightarrow> state_ok w (mw_cur w) \<and> state_ok w (mw_saved w)"

lemma memory_okD:
  assumes "memory_ok w"
  shows "length (cur_nonces w) = mw_mult w" "length (cur_blob w) = 84 * mw_mult w"
    "m_size (s_job (mw_cur w)) = 0 \<or> job_ok (s_job (mw_cur w))"
  using assms by (auto simp: memory_ok_def state_ok_def cur_nonces_def cur_blob_def)

lemma cur_set_arrays [simp]:
  "cur_nonces (set_arrays p w) = fst p" "cur_blob (set_arrays p w) = snd p"
  "mw_cur (set_arrays p w) = mw_cur w" "mw_saved (set_arrays p w) = mw_saved w"
  "mw_mult (set_arrays p w) = mw_mult w" "t_sequence (set_arrays p w) = t_sequence w"
  "t_threads (set_arrays p w) = t_threads w" "t_id (set_arrays p w) = t_id w" "mw_pc (set_arrays p w) = mw_pc w"
  by (simp_all add: set_arrays_def case_prod_beta' cur_nonces_def cur_blob_def)

lemma memory_ok_set_arrays:
  assumes "memory_ok w" "length (fst p) = mw_mult w" "length (snd p) = 84 * mw_mult w"
  shows "memory_ok (set_arrays p w)"
  using assms by (auto simp: memory_ok_def state_ok_def set_arrays_def case_prod_beta')

lemma lanes_fit: "memory_ok w \<Longrightarrow> m_size (s_job (mw_cur w)) \<le> 84 \<Longrightarrow> mw_mult w * m_size (s_job (mw_cur w)) \<le> length (cur_blob w)"
  using memory_okD(2) [of w] mult_le_mono2 [of "m_size (s_job (mw_cur w))" 84 "mw_mult w"] by (simp add: mult.commute)

text \<open>A round leaves everything but nonces, blobs, hash and counters alone.\<close>

definition counted :: "machine \<Rightarrow> worker \<Rightarrow> worker" where
  "counted env w = (let w = (if t_count w AND 0xF = 0 then storeStats env w else w)
     in w\<lparr>t_count := t_count w + of_nat (mw_mult w)\<rparr>)"

lemma counted_simps [simp]:
  "mw_cur (counted env w) = mw_cur w" "mw_saved (counted env w) = mw_saved w" "mw_mult (counted env w) = mw_mult w"
  "cur_nonces (counted env w) = cur_nonces w" "cur_blob (counted env w) = cur_blob w"
  "h_nonces (counted env w) = h_nonces w" "h_blob (counted env w) = h_blob w" "mw_pc (counted env w) = mw_pc w"
  "t_sequence (counted env w) = t_sequence w" "t_threads (counted env w) = t_threads w" "t_id (counted env w) = t_id w"
  by (simp_all add: counted_def storeStats_def Let_def cur_nonces_def cur_blob_def)

definition next_arrays :: "worker \<Rightarrow> u32 list \<times> byte list" where
  "next_arrays w = fold (next_nonce (m_size (s_job (mw_cur w)))) [0..<mw_mult w] (cur_nonces w, cur_blob w)"

lemma hash_round_alt:
  "hash_round env w = (let w = set_arrays (next_arrays w) (counted env w)
     in w\<lparr>mw_hash := cn_hash env (mw_mult w) (cur_blob w) (m_size (s_job (mw_cur w)))\<rparr>)"
  by (simp add: hash_round_def counted_def next_arrays_def Let_def storeStats_def cur_nonces_def cur_blob_def)

lemma hash_round_simps [simp]:
  "mw_cur (hash_round env w) = mw_cur w" "mw_saved (hash_round env w) = mw_saved w"
  "mw_mult (hash_round env w) = mw_mult w" "mw_pc (hash_round env w) = mw_pc w"
  "t_sequence (hash_round env w) = t_sequence w" "t_threads (hash_round env w) = t_threads w" "t_id (hash_round env w) = t_id w"
  "cur_nonces (hash_round env w) = fst (next_arrays w)" "cur_blob (hash_round env w) = snd (next_arrays w)"
  "mw_hash (hash_round env w) = cn_hash env (mw_mult w) (snd (next_arrays w)) (m_size (s_job (mw_cur w)))"
proof -
  note alt = hash_round_alt [of env w]
  have c: "cur_nonces (v\<lparr>mw_hash := h\<rparr>) = cur_nonces v" "cur_blob (v\<lparr>mw_hash := h\<rparr>) = cur_blob v" for v h
    by (simp_all add: cur_nonces_def cur_blob_def)
  show "mw_cur (hash_round env w) = mw_cur w" "mw_saved (hash_round env w) = mw_saved w"
    "mw_mult (hash_round env w) = mw_mult w" "mw_pc (hash_round env w) = mw_pc w"
    "t_sequence (hash_round env w) = t_sequence w" "t_threads (hash_round env w) = t_threads w" "t_id (hash_round env w) = t_id w"
    "cur_nonces (hash_round env w) = fst (next_arrays w)" "cur_blob (hash_round env w) = snd (next_arrays w)"
    "mw_hash (hash_round env w) = cn_hash env (mw_mult w) (snd (next_arrays w)) (m_size (s_job (mw_cur w)))"
    by (simp_all add: alt Let_def c)
qed

lemma next_arrays_spec:
  assumes "memory_ok w" "job_ok (s_job (mw_cur w))"
  shows "length (fst (next_arrays w)) = mw_mult w" "length (snd (next_arrays w)) = 84 * mw_mult w"
    "\<And>i. i < mw_mult w \<Longrightarrow> fst (next_arrays w) ! i = cur_nonces w ! i + 1"
    "\<And>i. i < mw_mult w \<Longrightarrow> lane (m_size (s_job (mw_cur w))) i (snd (next_arrays w)) =
      with_nonce (cur_nonces w ! i + 1) (lane (m_size (s_job (mw_cur w))) i (cur_blob w))"
proof -
  let ?sz = "m_size (s_job (mw_cur w))"
  have sz: "43 \<le> ?sz" "?sz \<le> 84" using assms(2) by (auto simp: job_ok_def)
  note fit = lanes_fit [OF assms(1) sz(2)]
  note N = next_nonces [OF eq_refl [OF memory_okD(1) [OF assms(1), symmetric]] fit sz(1)]
  show "length (fst (next_arrays w)) = mw_mult w" "length (snd (next_arrays w)) = 84 * mw_mult w"
    using N memory_okD [OF assms(1)] by (simp_all add: next_arrays_def)
  fix i assume i: "i < mw_mult w"
  show "fst (next_arrays w) ! i = cur_nonces w ! i + 1"
    using N i memory_okD [OF assms(1)] by (simp add: next_arrays_def)
  show "lane ?sz i (snd (next_arrays w)) = with_nonce (cur_nonces w ! i + 1) (lane ?sz i (cur_blob w))"
    using N i lane_bound [OF i fit] by (simp add: next_arrays_def)
qed

lemma length_next_nonces:
  assumes "sz \<le> 84" "length b = 84 * M" "length ns = M" "m \<le> M"
  shows "length (fst (fold (next_nonce sz) [0..<m] (ns, b))) = M \<and> length (snd (fold (next_nonce sz) [0..<m] (ns, b))) = 84 * M"
  using assms(4)
proof (induction m)
  case (Suc m)
  have "m * sz + 84 \<le> 84 * M"
    using mult_le_mono [OF order_refl assms(1), of m] Suc.prems by linarith
  then show ?case using Suc by (simp add: next_nonce_def case_prod_beta' Let_def)
qed (simp add: assms)

lemma memory_ok_hash_round: "memory_ok w \<Longrightarrow> memory_ok (hash_round env w)"
proof -
  assume ok: "memory_ok w"
  have sz: "m_size (s_job (mw_cur w)) \<le> 84" using memory_okD(3) [OF ok] by (auto simp: job_ok_def)
  have "memory_ok (counted env w)" using ok by (simp add: memory_ok_def state_ok_def)
  then have "memory_ok (set_arrays (next_arrays w) (counted env w))"
    using length_next_nonces [OF sz memory_okD(2) [OF ok] memory_okD(1) [OF ok] order_refl]
    by (intro memory_ok_set_arrays) (simp_all add: next_arrays_def)
  then show ?thesis by (simp add: hash_round_alt Let_def memory_ok_def state_ok_def)
qed

text \<open>What is left of \<open>consumeJob\<close> when the job is neither the current nor the saved one.\<close>

definition take_job :: "machine \<Rightarrow> job \<Rightarrow> worker \<Rightarrow> worker" where
  "take_job env job w = (let w = w\<lparr>mw_cur := (mw_cur w)\<lparr>s_job := job\<rparr>\<rparr>
     in set_arrays (fold (init_lane env (t_threads w) (t_id w) job) [0..<mw_mult w] (cur_nonces w, cur_blob w)) w)"

definition resumes :: "job \<Rightarrow> worker \<Rightarrow> bool" where
  "resumes job w \<longleftrightarrow> m_poolId (s_job (mw_cur w)) = -1 \<and> 0 \<le> m_poolId job \<and> JobId_eq (m_id job) (m_id (s_job (mw_saved w)))"

lemma consumeJob_cases:
  "consumeJob env job q w =
    (if Job_eq (s_job (mw_cur w)) job then w\<lparr>t_sequence := q\<rparr>
     else if resumes job w then (w\<lparr>t_sequence := q\<rparr>)\<lparr>mw_cur := mw_saved w\<rparr>
     else take_job env job (save job (w\<lparr>t_sequence := q\<rparr>)))"
proof -
  have "m_poolId (s_job (mw_cur w)) = -1 \<Longrightarrow> save job (w\<lparr>t_sequence := q\<rparr>) = w\<lparr>t_sequence := q\<rparr>"
    by (simp add: save_def)
  moreover have "mw_cur (save job v) = mw_cur v" for v by (simp add: save_def)
  ultimately show ?thesis
    by (auto simp: consumeJob_def Let_def resume_def resumes_def take_job_def case_prod_beta')
qed

lemma save_simps [simp]:
  "mw_cur (save job w) = mw_cur w" "h_nonces (save job w) = h_nonces w" "h_blob (save job w) = h_blob w"
  "mw_mult (save job w) = mw_mult w" "t_threads (save job w) = t_threads w" "t_id (save job w) = t_id w"
  "t_sequence (save job w) = t_sequence w"
  by (simp_all add: save_def)

lemma memory_ok_save: "memory_ok w \<Longrightarrow> memory_ok (save job w)"
  by (simp add: memory_ok_def state_ok_def save_def)

lemma take_job_spec:
  assumes "memory_ok w" "job_ok job"
  shows "memory_ok (take_job env job w)" "mw_cur (take_job env job w) = (mw_cur w)\<lparr>s_job := job\<rparr>"
    "mw_saved (take_job env job w) = mw_saved w" "mw_mult (take_job env job w) = mw_mult w"
    "\<And>i. i < mw_mult w \<Longrightarrow> cur_nonces (take_job env job w) ! i =
      start_nonce (hashFactor env) (t_threads w) (t_id w) i (m_nicehash job) (nonce_at (m_blob job))"
    "\<And>i. i < mw_mult w \<Longrightarrow> lane (m_size job) i (cur_blob (take_job env job w)) = take (m_size job) (m_blob job)"
proof -
  let ?v = "w\<lparr>mw_cur := (mw_cur w)\<lparr>s_job := job\<rparr>\<rparr>"
  have v: "memory_ok ?v" "cur_nonces ?v = cur_nonces w" "cur_blob ?v = cur_blob w"
    using assms by (simp_all add: memory_ok_def state_ok_def cur_nonces_def cur_blob_def)
  have sz: "43 \<le> m_size job" "m_size job \<le> 84" "m_size job \<le> length (m_blob job)" using assms(2) by (auto simp: job_ok_def)
  have fit: "mw_mult w * m_size job \<le> length (cur_blob w)"
    using lanes_fit [OF v(1)] sz v(3) by simp
  note I = init_lanes [OF eq_refl [OF memory_okD(1) [OF assms(1), symmetric]] fit sz(1,3), of env "t_threads w" "t_id w"]
  show "memory_ok (take_job env job w)"
    unfolding take_job_def Let_def using I v memory_okD [OF assms(1)] by (intro memory_ok_set_arrays [OF v(1)]) simp_all
  show "mw_cur (take_job env job w) = (mw_cur w)\<lparr>s_job := job\<rparr>" "mw_saved (take_job env job w) = mw_saved w"
    "mw_mult (take_job env job w) = mw_mult w"
    by (simp_all add: take_job_def Let_def)
  fix i assume i: "i < mw_mult w"
  show "cur_nonces (take_job env job w) ! i =
      start_nonce (hashFactor env) (t_threads w) (t_id w) i (m_nicehash job) (nonce_at (m_blob job))"
    "lane (m_size job) i (cur_blob (take_job env job w)) = take (m_size job) (m_blob job)"
    using I i by (simp_all add: take_job_def Let_def v)
qed

lemma memory_ok_consumeJob: "memory_ok w \<Longrightarrow> job_ok job \<Longrightarrow> memory_ok (consumeJob env job q w)"
proof -
  assume a: "memory_ok w" "job_ok job"
  have "memory_ok (w\<lparr>t_sequence := q\<rparr>)" using a(1) by (simp add: memory_ok_def state_ok_def)
  then show ?thesis using take_job_spec(1) [OF memory_ok_save a(2)]
    by (simp add: consumeJob_cases) (simp add: memory_ok_def state_ok_def)
qed

section \<open>Mining a job that was taken\<close>

lemma rounds_spec:
  assumes "memory_ok w" "job_ok (s_job (mw_cur w))"
  shows "memory_ok ((hash_round env ^^ n) w) \<and> mw_cur ((hash_round env ^^ n) w) = mw_cur w
    \<and> mw_saved ((hash_round env ^^ n) w) = mw_saved w \<and> mw_mult ((hash_round env ^^ n) w) = mw_mult w
    \<and> (\<forall>i < mw_mult w. cur_nonces ((hash_round env ^^ n) w) ! i = cur_nonces w ! i + of_nat n
        \<and> (0 < n \<longrightarrow> lane (m_size (s_job (mw_cur w))) i (cur_blob ((hash_round env ^^ n) w)) =
            with_nonce (cur_nonces w ! i + of_nat n) (lane (m_size (s_job (mw_cur w))) i (cur_blob w))))"
proof (induction n)
  case (Suc n)
  let ?v = "(hash_round env ^^ n) w" and ?sz = "m_size (s_job (mw_cur w))"
  have v: "memory_ok ?v" "mw_cur ?v = mw_cur w" "mw_mult ?v = mw_mult w" using Suc by auto
  note N = next_arrays_spec [OF v(1), unfolded v(2), OF assms(2)]
  have sz: "43 \<le> ?sz" "?sz \<le> 84" using assms(2) by (auto simp: job_ok_def)
  have "cur_nonces (hash_round env ?v) ! i = cur_nonces w ! i + of_nat (Suc n)
      \<and> lane ?sz i (cur_blob (hash_round env ?v)) = with_nonce (cur_nonces w ! i + of_nat (Suc n)) (lane ?sz i (cur_blob w))"
    if "i < mw_mult w" for i
  proof -
    have l: "length (lane ?sz i (cur_blob w)) = ?sz"
      using lane_bound [OF that lanes_fit [OF assms(1) sz(2)]] by simp
    show ?thesis using N(3,4) [of i] Suc that v(3) l sz by (cases n) (simp_all add: ac_simps)
  qed
  then show ?case using Suc memory_ok_hash_round [OF v(1)] by simp
qed (simp add: assms)

text \<open>C6: a share that is submitted is valid for the job it is submitted for: when the job was
  taken from the network and not resumed, every result of any later round carries the job's pool, id
  and difficulty, its nonce is the lane's start nonce advanced by the number of rounds, the blob hashed
  in that lane is the job's blob with this nonce, the result is the lane's hash and its last word
  is below the target.\<close>

theorem mined_shares_valid:
  assumes "memory_ok w" and "job_ok job" and "\<not> Job_eq (s_job (mw_cur w)) job" and "\<not> resumes job w"
    and "w' = (hash_round env ^^ Suc n) (consumeJob env job q w)" and "r \<in> set (round_results w')"
  shows "\<exists>i < mw_mult w.
      nonce r = start_nonce (hashFactor env) (t_threads w) (t_id w) i (m_nicehash job) (nonce_at (m_blob job)) + of_nat (Suc n)
    \<and> lane (m_size job) i (cur_blob w') = with_nonce (nonce r) (take (m_size job) (m_blob job))
    \<and> result r = take 32 (drop (32 * i) (cn_hash env (mw_mult w) (cur_blob w') (m_size job)))
    \<and> hash_word (result r) < m_target job
    \<and> poolId r = m_poolId job \<and> jobId r = m_id job \<and> r_diff r = diff job"
proof -
  let ?w = "w\<lparr>t_sequence := q\<rparr>"
  define v where "v = consumeJob env job q w"
  have eq: "v = take_job env job (save job ?w)" using assms(3,4) by (simp add: v_def consumeJob_cases)
  have "memory_ok (save job ?w)" using assms(1) by (intro memory_ok_save) (simp add: memory_ok_def state_ok_def)
  note T = take_job_spec [OF this assms(2), where env = env, folded eq]
  have job: "s_job (mw_cur v) = job" "mw_mult v = mw_mult w" using T(2,4) by simp_all
  note R = rounds_spec [OF T(1), unfolded job(1), OF assms(2), where env = env]
  define u where "u = (hash_round env ^^ n) v"
  have w': "w' = hash_round env u" using assms(5) by (simp add: u_def v_def)
  have u: "mw_cur u = mw_cur v" "mw_mult u = mw_mult w" using R [of n] job by (simp_all add: u_def)
  obtain i where i: "i < mw_mult w" "r = lane_result w' i" "hash_word (drop (i * 32) (mw_hash w')) < m_target job"
    using assms(6) u job unfolding round_results_def w' by auto
  have n: "nonce r = start_nonce (hashFactor env) (t_threads w) (t_id w) i (m_nicehash job) (nonce_at (m_blob job)) + of_nat (Suc n)"
    using i(1,2) R [of "Suc n"] T(5) [of i] job(2) by (simp add: assms(5) lane_result_def v_def)
  moreover have "lane (m_size job) i (cur_blob w') = with_nonce (nonce r) (take (m_size job) (m_blob job))"
    using i(1) n R [of "Suc n"] T(5,6) [of i] job(2) by (simp add: assms(5) v_def)
  moreover have "hash_word (result r) < m_target job"
    using i(2,3) by (simp add: lane_result_def hash_word_def drop_take)
  ultimately show ?thesis using i(1,2) u job
    by (intro exI [of _ i]) (simp add: lane_result_def w' mult.commute)
qed

text \<open>C10: after a donation the donated blob goes on being mined for the pool. \<open>save\<close> and
  \<open>resume\<close> copy \<^verbatim>\<open>State\<close> with its pointers, so the saved state has the arrays that
  the donation job is then written to: when the pool's job comes back, the miner's job is that job,
  but its blobs are those of the donation job and its nonces go on from there.\<close>

theorem resume_mines_donated_blob:
  assumes "memory_ok w" and "0 \<le> m_poolId (s_job (mw_cur w))"
    and "job_ok donation" and "m_poolId donation = -1" and "\<not> Job_eq (s_job (mw_cur w)) donation"
    and "0 \<le> m_poolId back" and "JobId_eq (m_id back) (m_id (s_job (mw_cur w)))" and "\<not> Job_eq donation back"
    and "w1 = (hash_round env ^^ Suc n) (consumeJob env donation q w)"
    and "w2 = consumeJob env back q' w1"
  shows "s_job (mw_cur w2) = s_job (mw_cur w)
    \<and> (\<forall>i < mw_mult w. lane (m_size donation) i (cur_blob w2) =
        with_nonce (start_nonce (hashFactor env) (t_threads w) (t_id w) i (m_nicehash donation) (nonce_at (m_blob donation))
          + of_nat (Suc n)) (take (m_size donation) (m_blob donation)))"
proof -
  let ?w = "w\<lparr>t_sequence := q\<rparr>"
  define v where "v = consumeJob env donation q w"
  have "\<not> resumes donation w" using assms(2) by (simp add: resumes_def)
  then have eq: "v = take_job env donation (save donation ?w)" using assms(5) by (simp add: v_def consumeJob_cases)
  have "memory_ok (save donation ?w)" using assms(1) by (intro memory_ok_save) (simp add: memory_ok_def state_ok_def)
  note T = take_job_spec [OF this assms(3), where env = env, folded eq]
  have saved: "mw_saved v = mw_cur w" using T(3) assms(2,4) by (simp add: save_def)
  have job: "s_job (mw_cur v) = donation" "mw_mult v = mw_mult w" using T(2,4) by simp_all
  note R = rounds_spec [OF T(1), unfolded job(1), OF assms(3), where env = env and n = "Suc n"]
  have w1: "mw_cur w1 = mw_cur v" "mw_saved w1 = mw_cur w" "mw_mult w1 = mw_mult w"
    using R saved job by (simp_all add: assms(9) v_def)
  have "resumes back w1" using w1 job(1) assms(4,6,7) by (simp add: resumes_def)
  then have w2: "w2 = (w1\<lparr>t_sequence := q'\<rparr>)\<lparr>mw_cur := mw_saved w1\<rparr>"
    using assms(8,10) w1 job(1) by (simp add: consumeJob_cases)
  have "s_blob (mw_cur w) = s_blob (mw_cur v)" using T(2) by simp
  then have "cur_blob w2 = cur_blob w1" using w1 by (simp add: w2 cur_blob_def)
  then show ?thesis using w1 w2 R T(5,6) job(2) by (simp add: assms(9) v_def)
qed

section \<open>Nonce ranges\<close>

definition nonce_space :: "bool \<Rightarrow> nat" where
  "nonce_space nicehash = (if nicehash then 0xffffff else 0xffffffff)"

definition chunk :: "bool \<Rightarrow> nat \<Rightarrow> nat \<Rightarrow> nat" where
  "chunk nicehash threads factor = nonce_space nicehash div (threads * factor)"

lemma unat_of_nat_u64: "n < 2 ^ 64 \<Longrightarrow> unat (of_nat n :: u64) = n"
  by (simp add: unat_of_nat)

lemma unat_add_small:
  fixes a :: "'a::len word"
  shows "unat a + n < 2 ^ LENGTH('a) \<Longrightarrow> unat (a + of_nat n) = unat a + n"
  by (metis mod_less unat_of_nat unat_word_ariths(1) mod_add_right_eq add_lessD1 add.commute)

lemma unat_ucast_small:
  fixes w :: "'a::len word"
  shows "unat w < 2 ^ LENGTH('b::len) \<Longrightarrow> unat (ucast w :: 'b word) = unat w"
  by (simp add: unsigned_ucast_eq take_bit_nat_eq_self_iff)

lemma top_byte_le: "unat ((n::u32) AND 0xff000000) \<le> 0xff000000"
  using word_and_le1 [of n "0xff000000"] by (simp add: word_le_nat_alt)

lemma index_less:
  assumes "t < (T::nat)" "i < F"
  shows "t + i * T < T * F"
proof -
  have "Suc i * T \<le> F * T" using assms(2) by (intro mult_le_mono1) simp
  then show ?thesis using assms(1) by (simp add: mult.commute)
qed

lemma unat_start_nonce:
  assumes "t < threads" "i < factor" "threads * factor < 2 ^ 32"
  shows "unat (start_nonce factor threads t i nicehash n) =
    (if nicehash then unat (n AND 0xff000000) else 0) + chunk nicehash threads factor * (t + i * threads)"
proof -
  define d where "d = t + i * threads"
  have d: "d < threads * factor" unfolding d_def by (rule index_less [OF assms(1,2)])
  have tf: "(of_nat threads * of_nat factor :: u64) = of_nat (threads * factor)"
    and dd: "(of_nat t + of_nat i * of_nat threads :: u64) = of_nat d" by (simp_all add: d_def)
  have utf: "unat (of_nat (threads * factor) :: u64) = threads * factor"
    using assms(3) by (intro unat_of_nat_u64) simp
  have quot: "(0xffffff :: u64) div of_nat (threads * factor) = of_nat (chunk True threads factor)"
    "(0xffffffff :: u64) div of_nat (threads * factor) = of_nat (chunk False threads factor)"
    using utf by (simp_all add: word_unat_eq_iff unat_div chunk_def nonce_space_def unat_of_nat)
      (simp_all add: div_le_dividend less_le_trans le_less_trans [OF div_le_dividend])
  have prod: "chunk nh threads factor * d \<le> nonce_space nh" for nh
  proof -
    have "chunk nh threads factor * d \<le> chunk nh threads factor * (threads * factor)"
      using d by (intro mult_le_mono2) simp
    then show ?thesis by (metis chunk_def div_times_less_eq_dividend le_trans)
  qed
  show ?thesis
  proof (cases nicehash)
    case True
    have "unat (ucast (n AND 0xff000000) :: u64) = unat (n AND 0xff000000)"
      using top_byte_le [of n] by (intro unat_ucast_small) simp
    then have u: "unat ((ucast (n AND 0xff000000) :: u64) + of_nat (chunk True threads factor * d)) =
        unat (n AND 0xff000000) + chunk True threads factor * d"
      using prod [of True] top_byte_le [of n] by (subst unat_add_small) (simp_all add: nonce_space_def)
    have "unat (ucast ((ucast (n AND 0xff000000) :: u64) + of_nat (chunk True threads factor * d)) :: u32) =
        unat (n AND 0xff000000) + chunk True threads factor * d"
      using u prod [of True] top_byte_le [of n] by (subst unat_ucast_small) (simp_all add: nonce_space_def)
    then show ?thesis using True unfolding start_nonce_def tf dd quot d_def [symmetric] by simp
  next
    case False
    have "unat (of_nat (chunk False threads factor * d) :: u64) = chunk False threads factor * d"
      using prod [of False] by (intro unat_of_nat_u64) (simp add: nonce_space_def)
    then have "unat (ucast (of_nat (chunk False threads factor * d) :: u64) :: u32) = chunk False threads factor * d"
      using prod [of False] by (subst unat_ucast_small) (simp_all add: nonce_space_def)
    then show ?thesis using False unfolding start_nonce_def tf dd quot d_def [symmetric] by simp
  qed
qed

lemma index_unique:
  assumes "t < (T::nat)" "t' < T" "t + i * T = t' + i' * T"
  shows "t = t' \<and> i = i'"
proof -
  have "(t + i * T) mod T = t" "(t' + i' * T) mod T = t'" using assms(1,2) by simp_all
  then have "t = t'" using assms(3) by simp
  then show ?thesis using assms(1,3) by simp
qed

lemma unat_nonce:
  assumes "t < threads" "i < factor" "threads * factor < 2 ^ 32" "r \<le> chunk nicehash threads factor"
  shows "unat (start_nonce factor threads t i nicehash n + of_nat r) =
    (if nicehash then unat (n AND 0xff000000) else 0) + chunk nicehash threads factor * (t + i * threads) + r"
    and "chunk nicehash threads factor * (t + i * threads) + r \<le> nonce_space nicehash"
proof -
  have "Suc (t + i * threads) \<le> threads * factor" using index_less [OF assms(1,2)] by simp
  then have "chunk nicehash threads factor * Suc (t + i * threads) \<le> chunk nicehash threads factor * (threads * factor)"
    by (rule mult_le_mono2)
  also have "\<dots> \<le> nonce_space nicehash" by (simp add: chunk_def)
  finally show le: "chunk nicehash threads factor * (t + i * threads) + r \<le> nonce_space nicehash" using assms(4) by simp
  show "unat (start_nonce factor threads t i nicehash n + of_nat r) =
    (if nicehash then unat (n AND 0xff000000) else 0) + chunk nicehash threads factor * (t + i * threads) + r"
    using le top_byte_le [of n] unat_start_nonce [OF assms(1,2,3), of nicehash n]
    by (subst unat_add_small) (simp_all add: nonce_space_def split: if_splits)
qed

lemma top_byte_add:
  assumes "unat (w :: u32) = unat (n AND 0xff000000 :: u32) + x" "x < 2 ^ 24"
  shows "w AND 0xff000000 = n AND 0xff000000"
proof -
  have x: "bit (of_nat x :: u32) k \<Longrightarrow> k < 24" for k
    using assms(2) by (metis bit_take_bit_iff of_nat_take_bit take_bit_nat_eq_self_iff unsigned_of_nat bit_of_nat_iff_bit)
  have m: "bit (0xff000000 :: u32) k \<Longrightarrow> 24 \<le> k" for k
  proof (rule ccontr)
    assume b: "bit (0xff000000 :: u32) k" and "\<not> 24 \<le> k"
    then have "k \<in> set [0..<24]" by simp
    moreover have "\<forall>k \<in> set [0..<24]. \<not> bit (0xff000000 :: u32) k" by code_simp
    ultimately show False using b by blast
  qed
  have "w = (n AND 0xff000000) + of_nat x"
  proof -
    have "w = of_nat (unat w)" by simp
    also have "\<dots> = of_nat (unat (n AND 0xff000000)) + of_nat x" by (simp only: assms(1) of_nat_add)
    finally show ?thesis by simp
  qed
  also have "\<dots> = (n AND 0xff000000) OR of_nat x"
    by (rule disjunctive_add) (use x m in \<open>force simp: bit_and_iff\<close>)
  finally show ?thesis using x m by (intro bit_word_eqI) (force simp: bit_and_iff bit_or_iff)
qed

text \<open>C9: no two hashes of one job use the same nonce: for the first \<open>chunk\<close> rounds, every thread
  and every lane of it mines a range of its own, whatever the job's own nonce field holds; for a
  nicehash job all of these nonces keep the top byte the pool has fixed.\<close>

theorem nonce_ranges_disjoint:
  assumes "threads * factor < 2 ^ 32" and "t < threads" and "i < factor" and "t' < threads" and "i' < factor"
    and "0 < r" and "r \<le> chunk nicehash threads factor" and "0 < r'" and "r' \<le> chunk nicehash threads factor"
  shows "(start_nonce factor threads t i nicehash n + of_nat r = start_nonce factor threads t' i' nicehash n + of_nat r'
      \<longleftrightarrow> t = t' \<and> i = i' \<and> r = r')
    \<and> (nicehash \<longrightarrow> (start_nonce factor threads t i nicehash n + of_nat r) AND 0xff000000 = n AND 0xff000000)"
proof
  let ?c = "chunk nicehash threads factor"
  note u = unat_nonce(1) [OF assms(2,3,1,7), of n] and u' = unat_nonce(1) [OF assms(4,5,1,9), of n]
  show "start_nonce factor threads t i nicehash n + of_nat r = start_nonce factor threads t' i' nicehash n + of_nat r'
      \<longleftrightarrow> t = t' \<and> i = i' \<and> r = r'"
  proof
    assume "start_nonce factor threads t i nicehash n + of_nat r = start_nonce factor threads t' i' nicehash n + of_nat r'"
    then have "(if nicehash then unat (n AND 0xff000000) else 0) + ?c * (t + i * threads) + r =
        (if nicehash then unat (n AND 0xff000000) else 0) + ?c * (t' + i' * threads) + r'"
      unfolding u [symmetric] u' [symmetric] by (rule arg_cong)
    then have eq: "?c * (t + i * threads) + r = ?c * (t' + i' * threads) + r'" by simp
    have "t + i * threads = t' + i' * threads"
    proof (rule ccontr)
      assume "t + i * threads \<noteq> t' + i' * threads"
      then have "Suc (t + i * threads) \<le> t' + i' * threads \<or> Suc (t' + i' * threads) \<le> t + i * threads" by linarith
      then show False
      proof
        assume "Suc (t + i * threads) \<le> t' + i' * threads"
        from mult_le_mono2 [OF this, of ?c] show False using eq assms(7,8) by simp
      next
        assume "Suc (t' + i' * threads) \<le> t + i * threads"
        from mult_le_mono2 [OF this, of ?c] show False using eq assms(6,9) by simp
      qed
    qed
    moreover from this have "r = r'" using eq by simp
    ultimately show "t = t' \<and> i = i' \<and> r = r'"
      using index_unique [OF assms(2,4)] by simp
  qed simp
  show "nicehash \<longrightarrow> (start_nonce factor threads t i nicehash n + of_nat r) AND 0xff000000 = n AND 0xff000000"
  proof
    assume nh: nicehash
    have "?c * (t + i * threads) + r < 2 ^ 24"
      using unat_nonce(2) [OF assms(2,3,1,7)] nh by (simp add: nonce_space_def)
    then show "(start_nonce factor threads t i nicehash n + of_nat r) AND 0xff000000 = n AND 0xff000000"
      using u nh by (intro top_byte_add) simp_all
  qed
qed

theorem nonce_ranges_disjoint_witness:
  "start_nonce 2 4 1 0 True 0x12345678 + of_nat 5 \<noteq> start_nonce 2 4 3 1 True 0x12345678 + of_nat 7"
  using nonce_ranges_disjoint [of 4 2 1 0 3 1 5 True 7 "0x12345678"] by (simp add: chunk_def nonce_space_def)

text \<open>The state in which the process starts its miners.\<close>

definition Workers_init :: workers where
  "Workers_init = \<lparr>w_active = False, w_enabled = True, w_job = Job (replicate 84 0) (-2) False, w_paused = 0,
    w_sequence = 0, w_queue = [], w_ticks = 0, w_async = None,
    w_hashrate = Hashrate (\<lambda>_. []) (\<lambda>_. []) 0\<rparr>"

lemma memory_ok_pc [simp]: "memory_ok (w\<lparr>mw_pc := p\<rparr>) = memory_ok w"
  by (simp add: memory_ok_def state_ok_def)

section \<open>Stopping\<close>

text \<open>A miner that has not yet read the sequence number keeps 0, which is what stopping sets.\<close>

definition hangs :: "worker \<Rightarrow> bool" where
  "hangs w \<longleftrightarrow> (case mw_pc w of
      Enter \<Rightarrow> t_sequence w = 0 | Mine \<Rightarrow> t_sequence w = 0 | Submit _ \<Rightarrow> t_sequence w = 0 | Notify _ \<Rightarrow> t_sequence w = 0
    | ReadJob after \<Rightarrow> after | ReadSeq after _ \<Rightarrow> after | _ \<Rightarrow> False)"

definition stopped :: "workers \<Rightarrow> bool" where
  "stopped W \<longleftrightarrow> w_sequence W = 0 \<and> w_paused W = 0"

lemma t_sequence_consumeJob [simp]: "t_sequence (consumeJob env job q w) = q"
  by (simp add: consumeJob_cases take_job_def Let_def)

lemma mw_pc_consumeJob: "mw_pc ((consumeJob env job q w)\<lparr>mw_pc := p\<rparr>) = p"
  by simp

lemma hangs_step:
  assumes "stopped W" "hangs w" "worker_step env (W, w) = (W', w')"
  shows "stopped W' \<and> hangs w' \<and> mw_pc w' \<noteq> Done"
proof (cases "mw_pc w")
  case (Submit rs)
  then show ?thesis using assms by (cases rs) (auto simp: worker_step_def hangs_def stopped_def submit_push_def)
qed (use assms in \<open>auto simp: worker_step_def hangs_def stopped_def submit_send_def isPaused_def isOutdated_def Let_def\<close>)

lemma hangs_forever:
  assumes "stopped W" "hangs w"
  shows "mw_pc (snd ((worker_step env ^^ n) (W, w))) \<noteq> Done"
proof -
  have "stopped (fst ((worker_step env ^^ n) (W, w))) \<and> hangs (snd ((worker_step env ^^ n) (W, w)))"
  proof (induction n)
    case (Suc n)
    then show ?case
      using hangs_step [of "fst ((worker_step env ^^ n) (W, w))" "snd ((worker_step env ^^ n) (W, w))" env]
      by (metis funpow.simps(2) comp_apply prod.collapse)
  qed (simp add: assms)
  then show ?thesis by (auto simp: hangs_def)
qed

text \<open>The steps a miner that does not hang has still to make.\<close>

definition steps_left :: "worker \<Rightarrow> nat" where
  "steps_left w = (case mw_pc w of
      Done \<Rightarrow> 0 | Top \<Rightarrow> 1 | Woken \<Rightarrow> 1 | Sleep \<Rightarrow> 2 | ReadSeq _ _ \<Rightarrow> 2 | ReadJob _ \<Rightarrow> 3 | Mine \<Rightarrow> 4 | Enter \<Rightarrow> 5
    | Submit rs \<Rightarrow> 5 + 2 * length rs | Notify rs \<Rightarrow> 6 + 2 * length rs)"

lemma stops_step:
  assumes "stopped W" "\<not> hangs w" "mw_pc w \<noteq> Done" "worker_step env (W, w) = (W', w')"
  shows "stopped W' \<and> \<not> hangs w' \<and> steps_left w' < steps_left w"
proof (cases "mw_pc w")
  case (Submit rs)
  then show ?thesis using assms
    by (cases rs) (auto simp: worker_step_def hangs_def stopped_def submit_push_def steps_left_def)
qed (use assms in \<open>auto simp: worker_step_def hangs_def stopped_def submit_send_def isPaused_def isOutdated_def Let_def steps_left_def\<close>)

lemma stops:
  "stopped W \<Longrightarrow> \<not> hangs w \<Longrightarrow> \<exists>n \<le> steps_left w. mw_pc (snd ((worker_step env ^^ n) (W, w))) = Done"
proof (induction "steps_left w" arbitrary: W w rule: less_induct)
  case less
  show ?case
  proof (cases "mw_pc w = Done")
    case True
    then show ?thesis by (intro exI [of _ 0]) simp
  next
    case False
    obtain W' w' where s: "worker_step env (W, w) = (W', w')" by (cases "worker_step env (W, w)")
    note st = stops_step [OF less.prems False s]
    then obtain n where "n \<le> steps_left w'" "mw_pc (snd ((worker_step env ^^ n) (W', w'))) = Done"
      using less.hyps by blast
    then show ?thesis using st s by (intro exI [of _ "Suc n"]) (simp add: funpow_Suc_right del: funpow.simps)
  qed
qed

text \<open>C8: \<open>Workers::stop\<close> joins the miners. A miner ends, after at most five steps of its own and
  two for each result it has still to submit, unless it is in its loop with the sequence number 0 or about to read
  it: a miner stopped between leaving its pause and reading the sequence number, or one that is inside the mining
  loop and never read one, takes the 0 that means stopped for a current job, and mines for ever: the join
  does not return. A miner that sleeps ends, whatever number it holds.\<close>

theorem stop_ends_miners:
  "if hangs w then (\<forall>n. mw_pc (snd ((worker_step env ^^ n) (Workers_stop W, w))) \<noteq> Done)
   else (\<exists>n. n \<le> steps_left w \<and> mw_pc (snd ((worker_step env ^^ n) (Workers_stop W, w))) = Done)"
proof -
  have "stopped (Workers_stop W)" by (simp add: stopped_def Workers_stop_def)
  then show ?thesis using stops [of "Workers_stop W" w env] hangs_forever [of "Workers_stop W" w] by auto
qed

section \<open>Jobs that are replaced while they are taken\<close>

definition mines :: "workers \<Rightarrow> worker \<Rightarrow> job \<Rightarrow> bool" where
  "mines W w job \<longleftrightarrow> s_job (mw_cur w) = job \<and> t_sequence w = w_sequence W \<and> 0 < w_sequence W \<and> w_paused W = 0
    \<and> (case mw_pc w of Top \<Rightarrow> True | Enter \<Rightarrow> True | Mine \<Rightarrow> True | Submit _ \<Rightarrow> True | Notify _ \<Rightarrow> True | _ \<Rightarrow> False)"

lemma mines_step:
  assumes "mines W w job" "worker_step env (W, w) = (W', w')"
  shows "mines W' w' job \<and> w_job W' = w_job W"
proof (cases "mw_pc w")
  case (Submit rs)
  then show ?thesis using assms by (cases rs) (auto simp: worker_step_def mines_def submit_push_def)
qed (use assms in \<open>auto simp: worker_step_def mines_def submit_send_def isPaused_def isOutdated_def Let_def\<close>)

lemma mines_steps:
  "mines W w job \<Longrightarrow> mines (fst ((worker_step env ^^ n) (W, w))) (snd ((worker_step env ^^ n) (W, w))) job
    \<and> w_job (fst ((worker_step env ^^ n) (W, w))) = w_job W"
proof (induction n)
  case (Suc n)
  then show ?case
    using mines_step [of "fst ((worker_step env ^^ n) (W, w))" "snd ((worker_step env ^^ n) (W, w))" job env]
    by (metis funpow.simps(2) comp_apply prod.collapse)
qed simp

text \<open>C11: \<open>consumeJob\<close> reads the job and then the sequence number. When the network sets a new
  job between the two reads, the miner takes the old job with the new job's number: it does not
  find its job outdated and goes on mining it, for as long as it runs, until the next change.\<close>

theorem stale_job_is_mined:
  assumes "mw_pc w = ReadJob after" and "w_enabled W" and "w_sequence W + 1 \<noteq> 0"
    and "\<not> Job_eq (s_job (mw_cur w)) (w_job W)" and "\<not> resumes (w_job W) w"
    and "(W1, w1) = worker_step env (W, w)" and "(W2, w2) = worker_step env (setJob new W1, w1)"
    and "(W', w') = (worker_step env ^^ n) (W2, w2)"
  shows "w_job W' = new \<and> s_job (mw_cur w') = w_job W \<and> \<not> isOutdated W' (t_sequence w') \<and> \<not> isPaused W'"
proof -
  have 1: "W1 = W" "w1 = w\<lparr>mw_pc := ReadSeq after (w_job W)\<rparr>" using assms(1,6) by (simp_all add: worker_step_def)
  have q: "w_sequence (setJob new W) = w_sequence W + 1" "w_paused (setJob new W) = 0" "w_job (setJob new W) = new"
    using assms(2) by (simp_all add: setJob_def Let_def)
  have 2: "W2 = setJob new W" "w2 = (consumeJob env (w_job W) (w_sequence W + 1) w1)\<lparr>mw_pc := if after then Mine else Top\<rparr>"
    using assms(7) 1 q by (simp_all add: worker_step_def)
  have "\<not> resumes (w_job W) w1" "\<not> Job_eq (s_job (mw_cur w1)) (w_job W)"
    using assms(4,5) 1 by (simp_all add: resumes_def)
  then have "s_job (mw_cur w2) = w_job W" by (simp add: 2 consumeJob_cases take_job_def Let_def)
  moreover have "0 < w_sequence W + 1" using assms(3) by (simp add: word_gt_0)
  moreover have "t_sequence w2 = w_sequence W2" using q by (simp add: 2)
  ultimately have "mines W2 w2 (w_job W)" using q by (simp add: mines_def 2)
  from mines_steps [OF this, where env = env and n = n] show ?thesis
    using assms(8) [symmetric] q by (simp add: mines_def 2 isOutdated_def isPaused_def)
qed

section \<open>Witnesses\<close>

definition sample_job :: "int \<Rightarrow> string \<Rightarrow> byte \<Rightarrow> job" where
  "sample_job p i b = \<lparr>m_blob = replicate 84 b, m_nicehash = False, m_poolId = p, m_threadId = -1,
    m_id = fst (JobId_setId (Some i) 0), m_size = 76, m_diff = 1, m_target = 1\<rparr>"

definition sample_env :: machine where
  "sample_env = \<lparr>cn_hash = \<lambda>_ _ _. replicate 32 0, hashFactor = 1, clock = 0\<rparr>"

definition sample_miner :: "job \<Rightarrow> worker" where
  "sample_miner job = (MultiWorker (\<lambda>_. replicate 84 0) 0 1 1)
    \<lparr>mw_cur := \<lparr>s_job = job, s_nonces = 0, s_blob = 0\<rparr>\<rparr>"

lemma sample_ok:
  "job_ok (sample_job p i b)" "memory_ok (sample_miner (sample_job p i b))" "mw_mult (sample_miner job) = 1"
  by (simp_all add: sample_job_def job_ok_def sample_miner_def memory_ok_def state_ok_def MultiWorker_def State_new_def Job_def)

lemma sample_simps [simp]:
  "m_poolId (sample_job p i b) = p" "m_size (sample_job p i b) = 76" "m_blob (sample_job p i b) = replicate 84 b"
  "m_nicehash (sample_job p i b) = False" "m_target (sample_job p i b) = 1" "m_id (sample_job p i b) = fst (JobId_setId (Some i) 0)"
  "hashFactor sample_env = 1" "cn_hash sample_env m xs n = replicate 32 0"
  "t_threads (sample_miner job) = 1" "t_id (sample_miner job) = 0" "s_job (mw_cur (sample_miner job)) = job"
  by (simp_all add: sample_job_def sample_env_def sample_miner_def MultiWorker_def)

lemma sample_jobs_differ: "\<not> Job_eq (sample_job p ''1'' a) (sample_job q ''2'' b)" "\<not> Job_eq (sample_job p ''2'' a) (sample_job q ''1'' b)"
  by (simp_all add: Job_eq_def sample_job_def JobId_eq_def JobId_setId_def JobId_empty_def)

lemma word_of_le_zeros [simp]: "word_of_le (replicate n 0) = 0"
  by (induction n) simp_all

lemma sample_nonce0: "nonce_at (replicate 84 0) = 0"
  by (simp add: nonce_at_def)

lemma sample_start: "start_nonce (Suc 0) (Suc 0) 0 0 nicehash 0 = 0"
  by (simp add: start_nonce_def)

theorem mined_shares_valid_witness:
  "nonce (hd (round_results ((hash_round sample_env ^^ Suc 0)
    (consumeJob sample_env (sample_job 0 ''2'' 0) 1 (sample_miner (sample_job 0 ''1'' 0)))))) = 1"
proof -
  let ?w = "sample_miner (sample_job 0 ''1'' 0)" and ?j = "sample_job 0 ''2'' 0"
  let ?w' = "(hash_round sample_env ^^ Suc 0) (consumeJob sample_env ?j 1 ?w)"
  have res: "\<not> resumes ?j ?w" by (simp add: resumes_def)
  have ne: "\<not> Job_eq (s_job (mw_cur ?w)) ?j" using sample_jobs_differ by simp
  have "s_job (mw_cur (consumeJob sample_env ?j 1 ?w)) = ?j" "mw_mult (consumeJob sample_env ?j 1 ?w) = 1"
    using res ne by (simp_all add: consumeJob_cases take_job_def Let_def sample_ok)
  then have "round_results ?w' = [lane_result ?w' 0]"
    by (simp add: round_results_def hash_word_def)
  then have "hd (round_results ?w') \<in> set (round_results ?w')" by simp
  from mined_shares_valid [OF sample_ok(2) sample_ok(1) ne res refl this] show ?thesis
    by (simp add: sample_ok sample_nonce0 sample_start)
qed

theorem resume_mines_donated_blob_witness:
  "lane 76 0 (cur_blob (consumeJob sample_env (sample_job 0 ''1'' 0) 3
    ((hash_round sample_env ^^ Suc 0) (consumeJob sample_env (sample_job (-1) ''2'' 1) 2 (sample_miner (sample_job 0 ''1'' 0))))))
   = with_nonce (start_nonce 1 1 0 0 False (nonce_at (replicate 84 1)) + 1) (replicate 76 1)"
proof -
  let ?w = "sample_miner (sample_job 0 ''1'' 0)"
  have "JobId_eq (m_id (sample_job 0 ''1'' 0)) (m_id (s_job (mw_cur ?w)))" by (simp add: JobId_eq_def)
  note R = resume_mines_donated_blob [OF sample_ok(2) _ sample_ok(1) _ _ _ this _ refl refl,
      of "-1" "''2''" 1 sample_env]
  show ?thesis using R [where n = 0 and q = 2 and q' = 3] sample_jobs_differ by (simp add: sample_ok)
qed

definition sample_shared :: workers where
  "sample_shared = setJob (sample_job 0 ''2'' 0) (Workers_start (\<lambda>_. []) (\<lambda>_. []) 1 Workers_init)"

theorem stale_job_is_mined_witness:
  "let (W1, w1) = worker_step sample_env (sample_shared, (sample_miner (sample_job 0 ''1'' 0))\<lparr>mw_pc := ReadJob False\<rparr>);
       (W2, w2) = worker_step sample_env (setJob (sample_job 0 ''3'' 0) W1, w1)
   in w_job W2 = sample_job 0 ''3'' 0 \<and> s_job (mw_cur w2) = sample_job 0 ''2'' 0 \<and> \<not> isOutdated W2 (t_sequence w2)"
proof -
  let ?w = "(sample_miner (sample_job 0 ''1'' 0))\<lparr>mw_pc := ReadJob False\<rparr>" and ?new = "sample_job 0 ''3'' 0"
  obtain W1 w1 where 1: "(W1, w1) = worker_step sample_env (sample_shared, ?w)" by (metis surj_pair)
  obtain W2 w2 where 2: "(W2, w2) = worker_step sample_env (setJob ?new W1, w1)" by (metis surj_pair)
  have W: "w_enabled sample_shared" "w_sequence sample_shared = 2" "w_job sample_shared = sample_job 0 ''2'' 0"
    by (simp_all add: sample_shared_def setJob_def Workers_start_def Workers_init_def Let_def)
  have 3: "(W2, w2) = (worker_step sample_env ^^ 0) (W2, w2)" by simp
  have "\<not> resumes (w_job sample_shared) ?w" "\<not> Job_eq (s_job (mw_cur ?w)) (w_job sample_shared)"
    using sample_jobs_differ by (simp_all add: resumes_def W)
  from stale_job_is_mined [OF _ W(1) _ this(2,1) 1 2 3, of False] show ?thesis
    using W by (simp add: 1 [symmetric] 2 [symmetric])
qed

end
