(* ===== verification/Workers_Threads.thy ===== *)
theory Workers_Threads
  imports Workers_Correct
begin

text \<open>
  The threads of the miner together: a miner, the other miners, the network thread and the detached
  thread \<open>Check\<close> of \<^verbatim>\<open>App.cpp\<close>, which calls \<open>Workers::setEnabled\<close> while some processes run. They
  share \<open>Workers\<close> and may change turns between any two accesses to it. The accesses of a
  thread are seen in program order.
\<close>

section \<open>A call that runs alone\<close>

lemma control_runs:
  "\<exists>n. (((\<lambda>(c, W). (fst (control_step c W), fst (snd (control_step c W)))) ^^ n) (SetJob job, W)) = (Idle, setJob job W)"
  "\<exists>n. (((\<lambda>(c, W). (fst (control_step c W), fst (snd (control_step c W)))) ^^ n) (Pause, W)) = (Idle, pause W)"
  "\<exists>n. (((\<lambda>(c, W). (fst (control_step c W), fst (snd (control_step c W)))) ^^ n) (Enable b, W)) = (Idle, setEnabled b W)"
proof -
  show "\<exists>n. (((\<lambda>(c, W). (fst (control_step c W), fst (snd (control_step c W)))) ^^ n) (SetJob job, W)) = (Idle, setJob job W)"
    by (cases "w_enabled W", rule_tac [!] exI [of _ 5]) (simp_all add: setJob_def Let_def numeral_eq_Suc)
  show "\<exists>n. (((\<lambda>(c, W). (fst (control_step c W), fst (snd (control_step c W)))) ^^ n) (Pause, W)) = (Idle, pause W)"
    by (rule exI [of _ 3]) (simp add: pause_def numeral_eq_Suc)
  show "\<exists>n. (((\<lambda>(c, W). (fst (control_step c W), fst (snd (control_step c W)))) ^^ n) (Enable b, W)) = (Idle, setEnabled b W)"
    by (rule exI [of _ 5]) (simp add: setEnabled_def Let_def numeral_eq_Suc)
qed

section \<open>The system\<close>

text \<open>
  \<open>y_unsent\<close> counts the other miners between the two halves of \<open>submit\<close>; \<open>y_sub\<close> and \<open>y_del\<close> are the
  results queued so far and those handed to the listener.
\<close>

record system =
  y_shared :: workers
  y_net :: control
  y_check :: control
  y_miner :: worker
  y_unsent :: nat
  y_sub :: "JobResult list"
  y_del :: "JobResult list"

fun submitting :: "pc \<Rightarrow> JobResult list" where
  "submitting (Submit (r # rs)) = [r]"
| "submitting _ = []"

definition net_calls :: "control \<Rightarrow> bool" where
  "net_calls c \<longleftrightarrow> (case c of SetJob job \<Rightarrow> job_ok job | Pause \<Rightarrow> True | Enable _ \<Rightarrow> True | _ \<Rightarrow> False)"

definition check_calls :: "control \<Rightarrow> bool" where
  "check_calls c \<longleftrightarrow> c = Enable False \<or> c = CheckEnabled"

text \<open>\<open>detached\<close> says whether the thread \<open>Check\<close> runs.\<close>

inductive sys_step :: "machine \<Rightarrow> bool \<Rightarrow> system \<Rightarrow> system \<Rightarrow> bool" for env detached where
  miner: "worker_step env (y_shared s, y_miner s) = (W, w) \<Longrightarrow>
    sys_step env detached s (s\<lparr>y_shared := W, y_miner := w, y_sub := y_sub s @ submitting (mw_pc (y_miner s))\<rparr>)"
| other_push: "sys_step env detached s
    (s\<lparr>y_shared := submit_push r (y_shared s), y_unsent := y_unsent s + 1, y_sub := y_sub s @ [r]\<rparr>)"
| other_send: "0 < y_unsent s \<Longrightarrow>
    sys_step env detached s (s\<lparr>y_shared := submit_send (y_shared s), y_unsent := y_unsent s - 1\<rparr>)"
| net_call: "y_net s = Idle \<Longrightarrow> net_calls c \<Longrightarrow> sys_step env detached s (s\<lparr>y_net := c\<rparr>)"
| net_wake: "y_net s = Idle \<Longrightarrow> w_async (y_shared s) = Some True \<Longrightarrow>
    sys_step env detached s (s\<lparr>y_shared := (y_shared s)\<lparr>w_async := Some False\<rparr>, y_net := TakeQueue\<rparr>)"
| net_access: "control_step (y_net s) (y_shared s) = (c, W, rs) \<Longrightarrow>
    sys_step env detached s (s\<lparr>y_shared := W, y_net := c, y_del := y_del s @ rs\<rparr>)"
| stats: "y_net s = Idle \<Longrightarrow> sys_step env detached s (s\<lparr>y_shared := onTick now handles (y_shared s)\<rparr>)"
| check_call: "detached \<Longrightarrow> y_check s = Idle \<Longrightarrow> check_calls c \<Longrightarrow> sys_step env detached s (s\<lparr>y_check := c\<rparr>)"
| check_access: "control_step (y_check s) (y_shared s) = (c, W, rs) \<Longrightarrow>
    sys_step env detached s (s\<lparr>y_shared := W, y_check := c\<rparr>)"

section \<open>Jobs, arrays and results\<close>

text \<open>Program points that a miner reaches without a job.\<close>

definition waiting :: "pc \<Rightarrow> bool" where
  "waiting p \<longleftrightarrow> (case p of Top \<Rightarrow> True | Enter \<Rightarrow> True | Sleep \<Rightarrow> True | Done \<Rightarrow> True | _ \<Rightarrow> False)"

text \<open>Points of a call that a thread reaches without a job.\<close>

definition jobless :: "control \<Rightarrow> bool" where
  "jobless c \<longleftrightarrow> (case c of JobActive \<Rightarrow> False | JobTest \<Rightarrow> False | JobSequence \<Rightarrow> False | JobPaused \<Rightarrow> False
     | EnablePaused _ \<Rightarrow> False | EnableSequence \<Rightarrow> False | _ \<Rightarrow> True)"

definition no_job :: "system \<Rightarrow> bool" where
  "no_job s \<longleftrightarrow> w_paused (y_shared s) = 1 \<and> \<not> w_active (y_shared s) \<and> jobless (y_net s) \<and> jobless (y_check s)
    \<and> waiting (mw_pc (y_miner s))"

definition call_ok :: "control \<Rightarrow> bool" where
  "call_ok c \<longleftrightarrow> (case c of SetJob job \<Rightarrow> job_ok job | _ \<Rightarrow> True)"

definition check_ok :: "control \<Rightarrow> bool" where
  "check_ok c \<longleftrightarrow> (case c of Idle \<Rightarrow> True | CheckEnabled \<Rightarrow> True | Enable _ \<Rightarrow> True | EnableWrite _ \<Rightarrow> True | EnableActive _ \<Rightarrow> True
     | EnablePaused _ \<Rightarrow> True | EnableSequence \<Rightarrow> True | _ \<Rightarrow> False)"

definition read_ok :: "pc \<Rightarrow> bool" where
  "read_ok p \<longleftrightarrow> (case p of ReadSeq _ job \<Rightarrow> job_ok job | _ \<Rightarrow> True)"

definition jobs_ok :: "system \<Rightarrow> bool" where
  "jobs_ok s \<longleftrightarrow> (job_ok (w_job (y_shared s)) \<or> no_job s) \<and> call_ok (y_net s) \<and> check_ok (y_check s)
    \<and> read_ok (mw_pc (y_miner s)) \<and> memory_ok (y_miner s)"

text \<open>A queued result is waited for: the wake-up is pending, or a thread is about to send it or to take the queue.\<close>

definition woken :: "system \<Rightarrow> bool" where
  "woken s \<longleftrightarrow> w_async (y_shared s) = Some True \<or> 0 < y_unsent s \<or> y_net s = TakeQueue
    \<or> (\<exists>rs. mw_pc (y_miner s) = Notify rs)"

definition results_ok :: "system \<Rightarrow> bool" where
  "results_ok s \<longleftrightarrow> y_sub s = y_del s @ w_queue (y_shared s) \<and> w_async (y_shared s) \<noteq> None
    \<and> (w_queue (y_shared s) \<noteq> [] \<longrightarrow> woken s)"

lemmas system_defs = jobs_ok_def no_job_def waiting_def jobless_def call_ok_def check_ok_def read_ok_def results_ok_def woken_def

lemma onTick_simps [simp]:
  "w_job (onTick now hs W) = w_job W" "w_paused (onTick now hs W) = w_paused W" "w_active (onTick now hs W) = w_active W"
  "w_enabled (onTick now hs W) = w_enabled W" "w_async (onTick now hs W) = w_async W" "w_queue (onTick now hs W) = w_queue W"
  by (simp_all add: onTick_def Let_def case_prod_beta')

lemma control_step_queue:
  assumes "control_step c W = (c', W', rs)"
  shows "w_queue W = rs @ w_queue W'" "w_async W' = w_async W" "c \<noteq> TakeQueue \<Longrightarrow> rs = [] \<and> c' \<noteq> TakeQueue"
    "c = TakeQueue \<Longrightarrow> w_queue W' = []"
  using assms by (cases c; auto simp: onResult_def split: if_splits)+

lemma check_step:
  assumes "control_step c W = (c', W', rs)" "check_ok c"
  shows "check_ok c'" "w_job W' = w_job W"
  using assms by (cases c; auto simp: check_ok_def split: if_splits)+

lemma control_step_job:
  assumes "control_step c W = (c', W', rs)" "call_ok c"
  shows "call_ok c'" "job_ok (w_job W) \<Longrightarrow> job_ok (w_job W')"
    "\<not> job_ok (w_job W') \<Longrightarrow> w_paused W = 1 \<Longrightarrow> \<not> w_active W \<Longrightarrow> jobless c \<Longrightarrow>
       w_paused W' = 1 \<and> \<not> w_active W' \<and> jobless c'"
  using assms by (cases c; auto simp: call_ok_def jobless_def onResult_def split: if_splits)+

lemma miner_step:
  assumes "worker_step env (W, w) = (W', w')" "memory_ok w" "read_ok (mw_pc w)"
    and "job_ok (w_job W) \<or> w_paused W = 1 \<and> waiting (mw_pc w)"
  shows "memory_ok w'" "read_ok (mw_pc w')" "w_paused W = 1 \<Longrightarrow> waiting (mw_pc w) \<Longrightarrow> waiting (mw_pc w')"
    "w_job W' = w_job W" "w_paused W' = w_paused W" "w_active W' = w_active W" "w_enabled W' = w_enabled W"
    "w_queue W' = w_queue W @ submitting (mw_pc w)" "w_async W \<noteq> None \<Longrightarrow> w_async W' \<noteq> None"
    "w_async W = Some True \<or> (\<exists>rs. mw_pc w = Notify rs) \<or> submitting (mw_pc w) \<noteq> [] \<Longrightarrow> w_async W \<noteq> None \<Longrightarrow>
       w_async W' = Some True \<or> (\<exists>rs. mw_pc w' = Notify rs)"
proof -
  show "memory_ok w'"
  proof (cases "mw_pc w")
    case (ReadSeq after job)
    then show ?thesis using assms memory_ok_consumeJob [of w job env "w_sequence W"] by (auto simp: worker_step_def read_ok_def)
  next
    case (Submit rs)
    then show ?thesis using assms(1,2) by (cases rs) (auto simp: worker_step_def)
  next
    case Mine
    then show ?thesis using assms(1,2) memory_ok_hash_round [of w env] by (auto simp: worker_step_def Let_def)
  qed (use assms(1,2) in \<open>auto simp: worker_step_def\<close>)
  show "read_ok (mw_pc w')" "w_paused W = 1 \<Longrightarrow> waiting (mw_pc w) \<Longrightarrow> waiting (mw_pc w')"
    "w_job W' = w_job W" "w_paused W' = w_paused W" "w_active W' = w_active W" "w_enabled W' = w_enabled W"
    "w_queue W' = w_queue W @ submitting (mw_pc w)" "w_async W \<noteq> None \<Longrightarrow> w_async W' \<noteq> None"
    "w_async W = Some True \<or> (\<exists>rs. mw_pc w = Notify rs) \<or> submitting (mw_pc w) \<noteq> [] \<Longrightarrow> w_async W \<noteq> None \<Longrightarrow>
       w_async W' = Some True \<or> (\<exists>rs. mw_pc w' = Notify rs)"
    using assms by (cases "mw_pc w"; auto simp: worker_step_def read_ok_def waiting_def isPaused_def submit_push_def
        submit_send_def Let_def split: list.splits if_splits)+
qed

lemma jobs_ok_step:
  assumes "sys_step env detached s s'" "jobs_ok s"
  shows "jobs_ok s'"
  using assms
proof (induction rule: sys_step.induct)
  case (miner s W w)
  note m = miner_step [OF miner.hyps]
  have "memory_ok (y_miner s)" "read_ok (mw_pc (y_miner s))"
    "job_ok (w_job (y_shared s)) \<or> w_paused (y_shared s) = 1 \<and> waiting (mw_pc (y_miner s))"
    using miner.prems by (auto simp: jobs_ok_def no_job_def)
  note m = m [OF this]
  show ?case using miner.prems m(1-6) by (auto simp: jobs_ok_def no_job_def)
next
  case (net_access s c W rs)
  then show ?case using control_step_job [OF net_access.hyps] by (auto simp: jobs_ok_def no_job_def)
next
  case (check_access s c W rs)
  have c: "check_ok (y_check s)" using check_access.prems by (simp add: jobs_ok_def)
  then have "call_ok (y_check s)" by (auto simp: check_ok_def call_ok_def split: control.splits)
  then show ?case
    using check_access.prems check_step [OF check_access.hyps c] control_step_job [OF check_access.hyps]
    by (auto simp: jobs_ok_def no_job_def)
qed (auto simp: jobs_ok_def no_job_def submit_push_def submit_send_def net_calls_def check_calls_def call_ok_def check_ok_def
    jobless_def split: control.splits)

lemma results_ok_step:
  assumes "sys_step env detached s s'" "jobs_ok s" "results_ok s"
  shows "results_ok s'"
  using assms
proof (induction rule: sys_step.induct)
  case (miner s W w)
  have "memory_ok (y_miner s)" "read_ok (mw_pc (y_miner s))"
    "job_ok (w_job (y_shared s)) \<or> w_paused (y_shared s) = 1 \<and> waiting (mw_pc (y_miner s))"
    using miner.prems by (auto simp: jobs_ok_def no_job_def)
  note m = miner_step [OF miner.hyps this]
  have "w_queue W \<noteq> [] \<Longrightarrow> w_queue (y_shared s) \<noteq> [] \<or> submitting (mw_pc (y_miner s)) \<noteq> []" using m(8) by auto
  then show ?case using miner.prems m(8,9,10) by (auto simp: results_ok_def woken_def)
next
  case (net_access s c W rs)
  then show ?case using control_step_queue [OF net_access.hyps]
    by (cases "y_net s = TakeQueue") (auto simp: results_ok_def woken_def)
next
  case (check_access s c W rs)
  have c: "check_ok (y_check s)" using check_access.prems by (simp add: jobs_ok_def)
  then have "y_check s \<noteq> TakeQueue" by (auto simp: check_ok_def)
  then show ?case using check_access.prems control_step_queue [OF check_access.hyps]
    by (auto simp: results_ok_def woken_def)
qed (auto simp: results_ok_def woken_def submit_push_def submit_send_def net_calls_def check_calls_def split: control.splits)

section \<open>Pausing\<close>

text \<open>
  What the network thread's call guarantees of the pause as long as no other thread calls \<open>setEnabled\<close>: between
  calls the miners are paused exactly when there is no job or mining is disabled.
\<close>

definition paused_for :: "bool \<Rightarrow> bool \<Rightarrow> int" where
  "paused_for active enabled = (if active \<and> enabled then 0 else 1)"

definition pause_ok :: "control \<Rightarrow> workers \<Rightarrow> bool" where
  "pause_ok c W \<longleftrightarrow> (case c of
       JobTest \<Rightarrow> w_active W \<and> (\<not> w_enabled W \<longrightarrow> w_paused W = 1)
     | JobSequence \<Rightarrow> w_active W \<and> w_enabled W
     | JobPaused \<Rightarrow> w_active W \<and> w_enabled W
     | PausePaused \<Rightarrow> \<not> w_active W
     | EnableActive b \<Rightarrow> w_enabled W = b \<and> w_paused W = paused_for (w_active W) (\<not> b)
     | EnablePaused b \<Rightarrow> w_enabled W = b \<and> w_active W
     | EnableWrite b \<Rightarrow> w_enabled W \<noteq> b \<and> w_paused W = paused_for (w_active W) (w_enabled W)
     | _ \<Rightarrow> w_paused W = paused_for (w_active W) (w_enabled W))"

lemma pause_ok_access:
  assumes "control_step c W = (c', W', rs)" "pause_ok c W"
  shows "pause_ok c' W'"
  using assms by (cases c) (auto simp: pause_ok_def paused_for_def onResult_def split: if_splits)

lemma pause_ok_cong:
  assumes "w_active W' = w_active W" "w_enabled W' = w_enabled W" "w_paused W' = w_paused W"
  shows "pause_ok c W' = pause_ok c W"
  using assms by (cases c) (simp_all add: pause_ok_def)

lemma pause_ok_step:
  assumes "sys_step env False s s'" "jobs_ok s" "y_check s = Idle \<and> pause_ok (y_net s) (y_shared s)"
  shows "y_check s' = Idle \<and> pause_ok (y_net s') (y_shared s')"
  using assms
proof (induction rule: sys_step.induct)
  case (miner s W w)
  have "memory_ok (y_miner s)" "read_ok (mw_pc (y_miner s))"
    "job_ok (w_job (y_shared s)) \<or> w_paused (y_shared s) = 1 \<and> waiting (mw_pc (y_miner s))"
    using miner.prems by (auto simp: jobs_ok_def no_job_def)
  note m = miner_step [OF miner.hyps this]
  show ?case using miner.prems m(5-7) pause_ok_cong [of W "y_shared s"] by simp
next
  case (net_access s c W rs)
  then show ?case using pause_ok_access [OF net_access.hyps] by simp
qed (auto simp: pause_ok_def submit_push_def submit_send_def net_calls_def split: control.splits)

section \<open>Reachable states\<close>

text \<open>Rules that follow a run access by access.\<close>

lemma run_net:
  assumes "snd (snd (control_step (y_net t) (y_shared t))) = []"
    and "(sys_step env detached)\<^sup>*\<^sup>*
      (t\<lparr>y_shared := fst (snd (control_step (y_net t) (y_shared t))), y_net := fst (control_step (y_net t) (y_shared t))\<rparr>) u"
  shows "(sys_step env detached)\<^sup>*\<^sup>* t u"
  using net_access [of t _ _ "[]" env detached] assms
  by (cases "control_step (y_net t) (y_shared t)") (auto intro: converse_rtranclp_into_rtranclp)

lemma run_chk:
  assumes "(sys_step env detached)\<^sup>*\<^sup>*
      (t\<lparr>y_shared := fst (snd (control_step (y_check t) (y_shared t))), y_check := fst (control_step (y_check t) (y_shared t))\<rparr>) u"
  shows "(sys_step env detached)\<^sup>*\<^sup>* t u"
  using check_access [of t _ _ _ env detached] assms
  by (cases "control_step (y_check t) (y_shared t)") (auto intro: converse_rtranclp_into_rtranclp)

lemma run_miner:
  assumes "(sys_step env detached)\<^sup>*\<^sup>*
      (t\<lparr>y_shared := fst (worker_step env (y_shared t, y_miner t)), y_miner := snd (worker_step env (y_shared t, y_miner t)),
        y_sub := y_sub t @ submitting (mw_pc (y_miner t))\<rparr>) u"
  shows "(sys_step env detached)\<^sup>*\<^sup>* t u"
  using miner [of env t _ _ detached] assms
  by (cases "worker_step env (y_shared t, y_miner t)") (auto intro: converse_rtranclp_into_rtranclp)

lemma run_same: "t = u \<Longrightarrow> (sys_step env detached)\<^sup>*\<^sup>* t u"
  by simp

definition sys_start :: "(nat \<Rightarrow> u64 list) \<Rightarrow> (nat \<Rightarrow> u64 list) \<Rightarrow> (nat \<Rightarrow> byte list) \<Rightarrow> nat \<Rightarrow> nat \<Rightarrow> nat \<Rightarrow> system" where
  "sys_start jc js junk i threads mult =
    \<lparr>y_shared = Workers_start jc js threads Workers_init, y_net = Idle, y_check = Idle,
     y_miner = MultiWorker junk i threads mult, y_unsent = 0, y_sub = [], y_del = []\<rparr>"

lemma sys_start_ok:
  assumes "\<forall>a. length (junk (2 + a)) = 84 * mult"
  shows "jobs_ok (sys_start jc js junk i threads mult)" "results_ok (sys_start jc js junk i threads mult)"
    "y_check (sys_start jc js junk i threads mult) = Idle"
    "pause_ok (y_net (sys_start jc js junk i threads mult)) (y_shared (sys_start jc js junk i threads mult))"
  using assms
  by (auto simp: sys_start_def system_defs pause_ok_def paused_for_def memory_ok_def state_ok_def Workers_start_def
      Workers_init_def MultiWorker_def State_new_def Job_def)

lemma reachable_ok:
  assumes "\<forall>a. length (junk (2 + a)) = 84 * mult"
    and "(sys_step env detached)\<^sup>*\<^sup>* (sys_start jc js junk i threads mult) s"
  shows "jobs_ok s \<and> results_ok s \<and> (\<not> detached \<longrightarrow> y_check s = Idle \<and> pause_ok (y_net s) (y_shared s))"
  using assms(2)
proof (induction rule: rtranclp_induct)
  case base
  then show ?case using sys_start_ok [OF assms(1)] by simp
next
  case (step s s')
  then show ?case using jobs_ok_step [OF step.hyps(2)] results_ok_step [OF step.hyps(2)] pause_ok_step [of env s s']
    by (cases detached) auto
qed

text \<open>C7: from the start of the process, for every order of the accesses of a miner, the other miners, the network
  thread and the detached thread that enables and disables mining: every submitted result is handed to the
  listener once and in order, and while one waits the wake-up is pending or about to be sent; and the miner's
  nonce and blob arrays keep their sizes, so that no write for any of its lanes leaves them. Without the
  detached thread the miners are paused, whenever the network thread is between two calls, exactly when there is no job or
  mining is disabled; with it they need not be.\<close>

theorem workers_reachable:
  assumes "\<forall>a. length (junk (2 + a)) = 84 * mult"
    and "(sys_step env detached)\<^sup>*\<^sup>* (sys_start jc js junk i threads mult) s"
  shows "y_sub s = y_del s @ w_queue (y_shared s) \<and> (w_queue (y_shared s) \<noteq> [] \<longrightarrow> woken s)
    \<and> length (cur_nonces (y_miner s)) = mw_mult (y_miner s) \<and> length (cur_blob (y_miner s)) = 84 * mw_mult (y_miner s)
    \<and> mw_mult (y_miner s) * m_size (s_job (mw_cur (y_miner s))) \<le> length (cur_blob (y_miner s))
    \<and> (\<not> detached \<longrightarrow> y_net s = Idle \<longrightarrow>
        (isPaused (y_shared s) \<longleftrightarrow> \<not> (w_active (y_shared s) \<and> w_enabled (y_shared s))))"
proof -
  note ok = reachable_ok [OF assms]
  then have m: "memory_ok (y_miner s)" by (simp add: jobs_ok_def)
  have "m_size (s_job (mw_cur (y_miner s))) \<le> 84" using memory_okD(3) [OF m] by (auto simp: job_ok_def)
  then show ?thesis using ok lanes_fit [OF m] memory_okD [OF m]
    by (auto simp: results_ok_def pause_ok_def paused_for_def isPaused_def split: if_splits)
qed

theorem workers_reachable_witness:
  "\<exists>s. (sys_step sample_env False)\<^sup>*\<^sup>* (sys_start (\<lambda>_. []) (\<lambda>_. []) (\<lambda>_. replicate 84 0) 0 1 1) s
    \<and> y_net s = Idle \<and> w_job (y_shared s) = sample_job 0 ''1'' 7 \<and> mw_pc (y_miner s) = Mine \<and> w_active (y_shared s)
    \<and> \<not> isPaused (y_shared s) \<and> length (cur_blob (y_miner s)) = 84"
proof -
  let ?j = "sample_job 0 ''1'' 7" and ?run = "(sys_step sample_env False)\<^sup>*\<^sup>*"
  define s where "s = sys_start (\<lambda>_. []) (\<lambda>_. []) (\<lambda>_. replicate 84 0) 0 1 1"
  have s: "y_net s = Idle" "w_enabled (y_shared s)" "w_sequence (y_shared s) = 1" "mw_pc (y_miner s) = Top" "mw_mult (y_miner s) = 1"
    by (simp_all add: s_def sys_start_def Workers_start_def Workers_init_def MultiWorker_def)
  define W where "W = setJob ?j (y_shared s)"
  have W: "w_sequence W = 2" "w_paused W = 0" "w_active W" "w_enabled W" "w_job W = ?j"
    using s by (simp_all add: W_def setJob_def)
  have "sys_step sample_env False s (s\<lparr>y_net := SetJob ?j\<rparr>)"
    using s by (intro net_call) (simp_all add: net_calls_def sample_ok)
  moreover have "?run (s\<lparr>y_net := SetJob ?j\<rparr>) (s\<lparr>y_shared := W\<rparr>)"
    by (rule run_net, simp, rule run_net, simp, rule run_net, simp, rule run_net, simp, simp add: s(2), rule run_net, simp,
        simp add: s(2), rule run_same) (simp add: s W_def setJob_def)
  ultimately have 1: "?run s (s\<lparr>y_shared := W\<rparr>)" by (rule converse_rtranclp_into_rtranclp)
  define t where "t = s\<lparr>y_shared := W, y_miner := (y_miner s)\<lparr>mw_pc := Mine\<rparr>\<rparr>"
  have 2: "?run (s\<lparr>y_shared := W\<rparr>) t"
    by (rule run_miner, rule run_miner, rule run_same) (simp add: t_def s W worker_step_def isPaused_def)
  have run: "?run s t" using 1 2 by (rule rtranclp_trans)
  have "\<forall>a. length ((\<lambda>_. replicate 84 0 :: byte list) (2 + a)) = 84 * 1" by simp
  from workers_reachable [OF this run [unfolded s_def]] show ?thesis
    using run W s by (intro exI [of _ t]) (simp add: t_def s_def [unfolded One_nat_def, symmetric])
qed

text \<open>C32: the thread \<open>Check\<close> is not synchronised with the network thread. From any state in which mining is
  enabled, if it disables mining while the network thread is in \<open>setJob\<close>, behind the test of the flag, both calls end
  with mining disabled, a job set and the miners not paused: they mine the new job although mining is
  disabled, and further calls of the thread that find the process again change nothing.\<close>

theorem disabled_miners_run:
  assumes "y_net s = Idle" "y_check s = Idle" "w_enabled (y_shared s)" "job_ok job"
  shows "\<exists>s'. (sys_step env True)\<^sup>*\<^sup>* s s' \<and> y_net s' = Idle \<and> y_check s' = Idle \<and> w_active (y_shared s')
    \<and> \<not> w_enabled (y_shared s') \<and> \<not> isPaused (y_shared s') \<and> w_job (y_shared s') = job
    \<and> w_sequence (y_shared s') = w_sequence (y_shared s) + 2 \<and> y_miner s' = y_miner s
    \<and> control_step (Enable False) (y_shared s') = (Idle, y_shared s', [])"
proof -
  let ?W = "y_shared s"
  define W1 where "W1 = ?W\<lparr>w_job := job, w_active := True\<rparr>"
  define W2 where "W2 = W1\<lparr>w_enabled := False, w_paused := 1, w_sequence := w_sequence W1 + 1\<rparr>"
  define W3 where "W3 = W2\<lparr>w_sequence := w_sequence W2 + 1, w_paused := 0\<rparr>"
  let ?run = "(sys_step env True)\<^sup>*\<^sup>*"
  have "sys_step env True s (s\<lparr>y_net := SetJob job\<rparr>)" using assms by (intro net_call) (simp_all add: net_calls_def)
  moreover have "?run (s\<lparr>y_net := SetJob job\<rparr>) (s\<lparr>y_shared := W1, y_net := JobSequence\<rparr>)"
    by (rule run_net, simp, rule run_net, simp, rule run_net, simp, rule run_same) (simp add: assms W1_def)
  ultimately have 1: "?run s (s\<lparr>y_shared := W1, y_net := JobSequence\<rparr>)" by (rule converse_rtranclp_into_rtranclp)
  let ?t = "s\<lparr>y_shared := W1, y_net := JobSequence\<rparr>"
  have "sys_step env True ?t (?t\<lparr>y_check := Enable False\<rparr>)"
    using assms by (intro check_call) (simp_all add: check_calls_def)
  moreover have "?run (?t\<lparr>y_check := Enable False\<rparr>) (s\<lparr>y_shared := W2, y_net := JobSequence\<rparr>)"
    by (rule run_chk, rule run_chk, rule run_chk, rule run_chk, rule run_chk, rule run_same) (simp add: assms W1_def W2_def)
  ultimately have 2: "?run ?t (s\<lparr>y_shared := W2, y_net := JobSequence\<rparr>)" by (rule converse_rtranclp_into_rtranclp)
  have 3: "?run (s\<lparr>y_shared := W2, y_net := JobSequence\<rparr>) (s\<lparr>y_shared := W3, y_net := Idle\<rparr>)"
    by (rule run_net, simp, rule run_net, simp, rule run_same) (simp add: W3_def)
  have "(sys_step env True)\<^sup>*\<^sup>* s (s\<lparr>y_shared := W3, y_net := Idle\<rparr>)" using 1 2 3 by (meson rtranclp_trans)
  then show ?thesis
    by (intro exI [of _ "s\<lparr>y_shared := W3, y_net := Idle\<rparr>"])
      (simp add: assms W1_def W2_def W3_def isPaused_def)
qed

theorem disabled_miners_run_witness:
  "\<exists>s. (sys_step sample_env True)\<^sup>*\<^sup>* (sys_start (\<lambda>_. []) (\<lambda>_. []) (\<lambda>_. replicate 84 0) 0 1 1) s
    \<and> w_active (y_shared s) \<and> \<not> w_enabled (y_shared s) \<and> \<not> isPaused (y_shared s) \<and> w_job (y_shared s) = sample_job 0 ''1'' 7"
  using disabled_miners_run [of "sys_start (\<lambda>_. []) (\<lambda>_. []) (\<lambda>_. replicate 84 0) 0 1 1" "sample_job 0 ''1'' 7" sample_env]
  by (auto simp: sys_start_def Workers_start_def Workers_init_def sample_ok)

end
