(* ===== verification/Options.thy ===== *)
theory Options
  imports Client
begin

text \<open>
  The command line and the configuration file, \<^verbatim>\<open>src/Options.cpp\<close>, and the choice of
  threads and hash factor, \<^verbatim>\<open>src/Cpu.cpp\<close>. \<^verbatim>\<open>getopt_long\<close> is the C library's: the
  constructor takes the (key, argument) pairs it returns. Opening and parsing a file is the parameter
  \<open>read_json\<close>, and the processor's data are the parameter \<open>cpu\<close>.
\<close>

section \<open>The processor\<close>

datatype Algo = ALGO_CRYPTONIGHT | ALGO_CRYPTONIGHT_LITE

datatype AesNi = AESNI_AUTO | AESNI_ON | AESNI_OFF

definition MAX_NUM_HASH_BLOCKS :: nat where "MAX_NUM_HASH_BLOCKS = 5"

record cpu =
  m_l2_exclusive :: bool
  m_hasAES :: bool
  m_l2_cache :: nat
  m_l3_cache :: nat
  m_totalThreads :: nat

definition availableCache :: "cpu \<Rightarrow> nat" where
  "availableCache cpu =
    (if 0 < m_l3_cache cpu then (if m_l2_exclusive cpu then m_l2_cache cpu + m_l3_cache cpu else m_l3_cache cpu)
     else m_l2_cache cpu)"

definition algoBlockSize :: "Algo \<Rightarrow> nat" where
  "algoBlockSize algo = (case algo of ALGO_CRYPTONIGHT_LITE \<Rightarrow> 1024 | ALGO_CRYPTONIGHT \<Rightarrow> 2048)"

text \<open>The safe-mode block; \<open>None\<close> is the division by zero.\<close>

definition safe_limits :: "nat \<Rightarrow> nat \<Rightarrow> nat \<Rightarrow> nat \<Rightarrow> nat \<Rightarrow> (nat \<times> nat) option" where
  "safe_limits maxFactor maxThreads maxHashFactor threads hashFactor =
    (let threads = (if threads > maxThreads then maxThreads else threads)
     in if threads = 0 then None
        else Some (threads, if hashFactor > maxFactor div threads
                            then max (min (maxFactor div threads) maxHashFactor) 1 else hashFactor))"

text \<open>What is still 0 is chosen.\<close>

definition auto_limits :: "nat \<Rightarrow> nat \<Rightarrow> nat \<Rightarrow> nat \<Rightarrow> nat \<Rightarrow> nat \<Rightarrow> nat \<Rightarrow> nat \<times> nat" where
  "auto_limits maxFactor maxThreads maxHashFactor totalThreads maxCpuUsage threads hashFactor =
    (let threads =
           (if threads = 0
            then let t = (if hashFactor = 0 then maxThreads else min maxThreads (maxFactor div hashFactor));
                     t = (if maxCpuUsage < 100 then min t (totalThreads * maxCpuUsage div 100) else t)
                 in max t 1
            else threads);
         hashFactor = (if hashFactor = 0 then max (min maxHashFactor (maxFactor div threads)) 1 else hashFactor)
     in (threads, hashFactor))"

text \<open>\<^verbatim>\<open>CpuImpl::optimizeParameters\<close>, from the thread count and hash factor to the chosen ones.\<close>

definition optimizeParameters :: "cpu \<Rightarrow> nat \<Rightarrow> nat \<Rightarrow> Algo \<Rightarrow> nat \<Rightarrow> bool \<Rightarrow> (nat \<times> nat) option" where
  "optimizeParameters cpu threads hashFactor algo maxCpuUsage safeMode =
    (let hashFactor = min hashFactor MAX_NUM_HASH_BLOCKS
     in if \<not> safeMode \<and> 0 < threads \<and> 0 < hashFactor then Some (threads, hashFactor)
        else
          let maxFactor = max (availableCache cpu div algoBlockSize algo) 1;
              maxThreads = min maxFactor (m_totalThreads cpu);
              maxHashFactor = min maxFactor MAX_NUM_HASH_BLOCKS
          in case (if safeMode then safe_limits maxFactor maxThreads maxHashFactor threads hashFactor
                   else Some (threads, hashFactor)) of
               None \<Rightarrow> None
             | Some (threads, hashFactor) \<Rightarrow>
                 Some (auto_limits maxFactor maxThreads maxHashFactor (m_totalThreads cpu) maxCpuUsage threads hashFactor))"

section \<open>C library\<close>

fun strstr_at :: "string \<Rightarrow> string \<Rightarrow> string option" where
  "strstr_at [] needle = (if needle = [] then Some [] else None)"
| "strstr_at (c # t) needle = (if take (length needle) (c # t) = needle then Some (c # t) else strstr_at t needle)"

definition hexdigit :: "char \<Rightarrow> nat option" where
  "hexdigit c = (let n = (of_char c :: nat)
     in if 48 \<le> n \<and> n \<le> 57 then Some (n - 48) else if 97 \<le> n \<and> n \<le> 102 then Some (n - 87)
        else if 65 \<le> n \<and> n \<le> 70 then Some (n - 55) else None)"

text \<open>\<^verbatim>\<open>strtoull\<close> in base 10, or in base 16 when \<open>hex\<close>: out of range values give the
  greatest one, a minus sign negates in the unsigned type.\<close>

definition strtoull :: "bool \<Rightarrow> string \<Rightarrow> u64" where
  "strtoull hex s =
    (let s = dropWhile isspace s;
         neg = (case s of c # _ \<Rightarrow> c = CHR ''-'' | [] \<Rightarrow> False);
         s = (case s of c # t \<Rightarrow> if c = CHR ''-'' \<or> c = CHR ''+'' then t else s | [] \<Rightarrow> s);
         s = (case s of z # x # d # t \<Rightarrow>
                if hex \<and> z = CHR ''0'' \<and> (x = CHR ''x'' \<or> x = CHR ''X'') \<and> hexdigit d \<noteq> None then d # t else s
              | _ \<Rightarrow> s);
         v = (if hex then foldl (\<lambda>v c. 16 * v + the (hexdigit c)) 0 (takeWhile (\<lambda>c. hexdigit c \<noteq> None) s)
              else decimal (takeWhile isdigit s))
     in if 2 ^ 64 \<le> v then 0xFFFFFFFFFFFFFFFF else if neg then - of_nat v else of_nat v)"

section \<open>The tables of options\<close>

text \<open>A name, whether it has an argument, and its key; a character is its code.\<close>

type_synonym opt = "string \<times> bool \<times> int"

definition K :: "char \<Rightarrow> int" where
  "K c = of_char c"

definition options_table :: "opt list" where
  "options_table =
   [(''algo'', True, K CHR ''a''), (''av'', True, K CHR ''v''), (''aesni'', True, K CHR ''A''),
    (''multihash-factor'', True, K CHR ''m''), (''background'', False, K CHR ''B''),
    (''config'', True, K CHR ''c''), (''cpu-affinity'', True, 1020), (''cpu-priority'', True, 1021),
    (''donate-level'', True, 1003), (''help'', False, K CHR ''h''), (''keepalive'', False, K CHR ''k''),
    (''log-file'', True, K CHR ''l''), (''max-cpu-usage'', True, 1004), (''nicehash'', False, 1006),
    (''no-color'', False, 1002), (''no-huge-pages'', False, 1009), (''pass'', True, K CHR ''p''),
    (''print-time'', True, 1007), (''retries'', True, K CHR ''r''), (''retry-pause'', True, K CHR ''R''),
    (''safe'', False, 1005), (''syslog'', False, K CHR ''S''), (''threads'', True, K CHR ''t''),
    (''url'', True, K CHR ''o''), (''user'', True, K CHR ''u''), (''user-agent'', True, 1008),
    (''userpass'', True, K CHR ''O''), (''version'', False, K CHR ''V''), (''api-port'', True, 4000),
    (''api-access-token'', True, 4001), (''api-worker-id'', True, 4002), (''cc-url'', True, 4003),
    (''cc-access-token'', True, 4004), (''cc-worker-id'', True, 4005), (''cc-update-interval-s'', True, 4012),
    (''cc-port'', True, 4006), (''cc-user'', True, 4007), (''cc-pass'', True, 4008),
    (''cc-client-config-folder'', True, 4009), (''cc-custom-dashboard'', True, 4010),
    (''daemonized'', False, 4011), (''doublehash-thread-mask'', True, 4013), (''multihash-thread-mask'', True, 4013)]"

definition config_options :: "opt list" where
  "config_options =
   [(''algo'', True, K CHR ''a''), (''av'', True, K CHR ''v''), (''aesni'', True, K CHR ''A''),
    (''multihash-factor'', True, K CHR ''m''), (''background'', False, K CHR ''B''), (''colors'', False, 2000),
    (''cpu-affinity'', True, 1020), (''cpu-priority'', True, 1021), (''donate-level'', True, 1003),
    (''huge-pages'', False, 1009), (''log-file'', True, K CHR ''l''), (''max-cpu-usage'', True, 1004),
    (''print-time'', True, 1007), (''retries'', True, K CHR ''r''), (''retry-pause'', True, K CHR ''R''),
    (''safe'', False, 1005), (''syslog'', False, K CHR ''S''), (''threads'', True, K CHR ''t''),
    (''user-agent'', True, 1008), (''doublehash-thread-mask'', True, 4013), (''multihash-thread-mask'', True, 4013)]"

definition pool_options :: "opt list" where
  "pool_options =
   [(''url'', True, K CHR ''o''), (''pass'', True, K CHR ''p''), (''user'', True, K CHR ''u''),
    (''userpass'', True, K CHR ''O''), (''keepalive'', False, K CHR ''k''), (''nicehash'', False, 1006)]"

definition api_options :: "opt list" where
  "api_options = [(''port'', True, 4000), (''access-token'', True, 4001), (''worker-id'', True, 4002)]"

definition cc_client_options :: "opt list" where
  "cc_client_options =
   [(''url'', True, 4003), (''access-token'', True, 4004), (''worker-id'', True, 4005), (''update-interval-s'', True, 4012)]"

definition cc_server_options :: "opt list" where
  "cc_server_options =
   [(''port'', True, 4006), (''access-token'', True, 4004), (''user'', True, 4007), (''pass'', True, 4008),
    (''client-config-folder'', True, 4009), (''custom-dashboard'', True, 4010)]"

section \<open>The class\<close>

record options =
  o_background :: bool
  o_colors :: bool
  o_hugePages :: bool
  o_ready :: bool
  o_safe :: bool
  o_syslog :: bool
  o_daemonized :: bool
  o_configFile :: string
  o_apiToken :: "string option"
  o_apiWorkerId :: "string option"
  o_logFile :: "string option"
  o_userAgent :: "string option"
  o_ccHost :: "string option"
  o_ccToken :: "string option"
  o_ccWorkerId :: "string option"
  o_ccAdminUser :: "string option"
  o_ccAdminPass :: "string option"
  o_ccClientConfigFolder :: "string option"
  o_ccCustomDashboard :: "string option"
  o_algo :: Algo
  o_algoVariant :: nat
  o_aesni :: AesNi
  o_hashFactor :: nat
  o_apiPort :: int
  o_donateLevel :: int
  o_maxCpuUsage :: nat
  o_printTime :: int
  o_priority :: int
  o_retries :: int
  o_retryPause :: int
  o_threads :: nat
  o_ccUpdateInterval :: int
  o_ccPort :: int
  o_affinity :: u64
  o_multiHashThreadMask :: u64
  o_pools :: "url list"

text \<open>\<open>cc_server\<close> and \<open>with_cc\<close> are the build's \<^verbatim>\<open>XMRIG_CC_SERVER\<close> and not
  \<^verbatim>\<open>XMRIG_NO_CC\<close>.\<close>

record opt_env =
  read_json :: "string \<Rightarrow> json option"
  defaultConfigName :: string
  cpu :: cpu
  cc_server :: bool
  with_cc :: bool

definition kDefaultCCPort :: int where "kDefaultCCPort = 3344"

definition kDonateLevel :: int where "kDonateLevel = 0"

definition Options_init :: "opt_env \<Rightarrow> options" where
  "Options_init env =
    \<lparr>o_background = False, o_colors = True, o_hugePages = True, o_ready = False, o_safe = False, o_syslog = False,
     o_daemonized = False, o_configFile = defaultConfigName env, o_apiToken = None, o_apiWorkerId = None,
     o_logFile = None, o_userAgent = None, o_ccHost = None, o_ccToken = None, o_ccWorkerId = None,
     o_ccAdminUser = None, o_ccAdminPass = None, o_ccClientConfigFolder = None, o_ccCustomDashboard = None,
     o_algo = ALGO_CRYPTONIGHT, o_algoVariant = 0, o_aesni = AESNI_AUTO, o_hashFactor = 0, o_apiPort = 0,
     o_donateLevel = kDonateLevel, o_maxCpuUsage = 75, o_printTime = 60, o_priority = -1, o_retries = 5,
     o_retryPause = 5, o_threads = 0, o_ccUpdateInterval = 10, o_ccPort = 0, o_affinity = -1,
     o_multiHashThreadMask = -1, o_pools = [Url_empty]\<rparr>"

text \<open>\<^verbatim>\<open>m_pools.back()\<close>\<close>

definition on_back :: "(url \<Rightarrow> url) \<Rightarrow> options \<Rightarrow> options" where
  "on_back f p = p\<lparr>o_pools := butlast (o_pools p) @ [f (last (o_pools p))]\<rparr>"

definition setAlgo :: "string \<Rightarrow> options \<Rightarrow> options \<times> bool" where
  "setAlgo algo p =
    (if algo = ''cryptonight'' then (p\<lparr>o_algo := ALGO_CRYPTONIGHT\<rparr>, True)
     else if algo = ''cryptonight-lite'' then (p\<lparr>o_algo := ALGO_CRYPTONIGHT_LITE\<rparr>, True)
     else if algo = ''cryptonight-light'' then (p\<lparr>o_algo := ALGO_CRYPTONIGHT_LITE\<rparr>, True)
     else (p, False))"

text \<open>The port is cut to 16 bits before it is compared, so the check never fails.\<close>

definition parseCCUrl :: "string \<Rightarrow> options \<Rightarrow> options \<times> bool" where
  "parseCCUrl u p =
    (if CHR '':'' \<notin> set u then (p\<lparr>o_ccHost := Some u, o_ccPort := kDefaultCCPort\<rparr>, True)
     else let host = takeWhile (\<lambda>c. c \<noteq> CHR '':'') u; port = drop (length host + 1) u;
              p = p\<lparr>o_ccHost := Some host, o_ccPort := uint (word_of_int (strtol port) :: 16 word)\<rparr>
          in if o_ccPort p < 0 \<or> 65536 < o_ccPort p then (p\<lparr>o_ccPort := kDefaultCCPort\<rparr>, False) else (p, True))"

definition parseBoolean :: "int \<Rightarrow> bool \<Rightarrow> options \<Rightarrow> options \<times> bool" where
  "parseBoolean key enable p =
    (if key = K CHR ''k'' then on_back (\<lambda>u. u\<lparr>m_keepAlive := enable\<rparr>) p
     else if key = K CHR ''B'' then p\<lparr>o_background := enable, o_colors := (if enable then False else o_colors p)\<rparr>
     else if key = K CHR ''S'' then p\<lparr>o_syslog := enable, o_colors := (if enable then False else o_colors p)\<rparr>
     else if key = 1002 then p\<lparr>o_colors := enable\<rparr>
     else if key = 1005 then p\<lparr>o_safe := enable\<rparr>
     else if key = 1006 then on_back (\<lambda>u. u\<lparr>url_nicehash := enable\<rparr>) p
     else if key = 1009 then p\<lparr>o_hugePages := enable\<rparr>
     else if key = 2000 then p\<lparr>o_colors := enable\<rparr>
     else p, True)"

text \<open>\<^verbatim>\<open>(int) arg\<close>\<close>

definition to_int :: "u64 \<Rightarrow> int" where
  "to_int arg = sint (ucast arg :: u32)"

definition parseArg_uint :: "int \<Rightarrow> u64 \<Rightarrow> options \<Rightarrow> options \<times> bool" where
  "parseArg_uint key arg p =
    (if key = K CHR ''r'' then if arg < 1 \<or> arg > 1000 then (p, False) else (p\<lparr>o_retries := to_int arg\<rparr>, True)
     else if key = K CHR ''R'' then if arg < 1 \<or> arg > 3600 then (p, False) else (p\<lparr>o_retryPause := to_int arg\<rparr>, True)
     else if key = K CHR ''t'' then if arg < 1 \<or> arg > 1024 then (p, False) else (p\<lparr>o_threads := unat arg\<rparr>, True)
     else if key = K CHR ''v'' then if arg > 1000 then (p, False) else (p\<lparr>o_algoVariant := unat arg\<rparr>, True)
     else if key = K CHR ''A'' then
       if arg > 2 then (p, False)
       else (p\<lparr>o_aesni := (if arg = 0 then AESNI_AUTO else if arg = 1 then AESNI_ON else AESNI_OFF)\<rparr>, True)
     else if key = K CHR ''m'' then
       if arg > of_nat MAX_NUM_HASH_BLOCKS then (p, False) else (p\<lparr>o_hashFactor := unat arg\<rparr>, True)
     else if key = 1003 then if arg < 1 \<or> arg > 99 then (p, True) else (p\<lparr>o_donateLevel := to_int arg\<rparr>, True)
     else if key = 1004 then if arg < 1 \<or> arg > 100 then (p, False) else (p\<lparr>o_maxCpuUsage := unat arg\<rparr>, True)
     else if key = 1007 then if arg > 1000 then (p, False) else (p\<lparr>o_printTime := to_int arg\<rparr>, True)
     else if key = 1020 then (if arg \<noteq> 0 then p\<lparr>o_affinity := arg\<rparr> else p, True)
     else if key = 1021 then (if arg \<le> 5 then p\<lparr>o_priority := to_int arg\<rparr> else p, True)
     else if key = 4000 then (if arg \<le> 65536 then p\<lparr>o_apiPort := to_int arg\<rparr> else p, True)
     else if key = 4006 then (if arg \<le> 65536 then p\<lparr>o_ccPort := to_int arg\<rparr> else p, True)
     else if key = 4012 then if arg < 1 then (p, False) else (p\<lparr>o_ccUpdateInterval := to_int arg\<rparr>, True)
     else if key = 4013 then (if arg \<noteq> 0 then p\<lparr>o_multiHashThreadMask := arg\<rparr> else p, True)
     else (p, True))"

text \<open>\<open>--url\<close>: the first pool is filled, further ones are appended when they are valid.\<close>

definition parse_pool_url :: "string \<Rightarrow> options \<Rightarrow> options \<times> bool" where
  "parse_pool_url arg p =
    (let p = (if 1 < length (o_pools p) \<or> url_isValid (hd (o_pools p))
              then if url_isValid (Url_of arg) then p\<lparr>o_pools := o_pools p @ [Url_of arg]\<rparr> else p
              else p\<lparr>o_pools := (o_pools p)[0 := fst (url_parse (hd (o_pools p)) arg)]\<rparr>)
     in (p, url_isValid (last (o_pools p))))"

definition mask_arg :: "string \<Rightarrow> u64" where
  "mask_arg arg = (case strstr_at arg ''0x'' of Some p \<Rightarrow> strtoull True p | None \<Rightarrow> strtoull False arg)"

text \<open>\<open>parseArg\<close> with a string; \<open>config\<close> is what \<open>--config\<close> does.\<close>

definition parseArg_with :: "(string \<Rightarrow> options \<Rightarrow> options) \<Rightarrow> opt_env \<Rightarrow> int \<Rightarrow> string \<Rightarrow> options \<Rightarrow> options \<times> bool" where
  "parseArg_with config env key arg p =
    (if key = K CHR ''a'' then setAlgo arg p
     else if key = K CHR ''o'' then parse_pool_url arg p
     else if key = K CHR ''O'' then
       (let (u, ok) = setUserpass (last (o_pools p)) arg in if \<not> ok then (p, False) else (on_back (\<lambda>_. u) p, True))
     else if key = K CHR ''u'' then (on_back (\<lambda>u. setUser u (Some arg)) p, True)
     else if key = K CHR ''p'' then (on_back (\<lambda>u. setPassword u (Some arg)) p, True)
     else if key = K CHR ''l'' then (p\<lparr>o_logFile := Some arg, o_colors := False\<rparr>, True)
     else if key = 4001 then (p\<lparr>o_apiToken := Some arg\<rparr>, True)
     else if key = 4002 then (p\<lparr>o_apiWorkerId := Some arg\<rparr>, True)
     else if key = 4003 then parseCCUrl arg p
     else if key = 4004 then (p\<lparr>o_ccToken := Some arg\<rparr>, True)
     else if key = 4005 then (p\<lparr>o_ccWorkerId := Some arg\<rparr>, True)
     else if key = 4007 then (p\<lparr>o_ccAdminUser := Some arg\<rparr>, True)
     else if key = 4008 then (p\<lparr>o_ccAdminPass := Some arg\<rparr>, True)
     else if key = 4009 then (p\<lparr>o_ccClientConfigFolder := Some arg\<rparr>, True)
     else if key = 4010 then (p\<lparr>o_ccCustomDashboard := Some arg\<rparr>, True)
     else if key = 4011 then (p\<lparr>o_daemonized := True\<rparr>, True)
     else if key \<in> {K CHR ''r'', K CHR ''R'', K CHR ''v'', K CHR ''A'', K CHR ''m'', 1003, 1004, 1007, 1021, 4000, 4006, 4012}
       then parseArg_uint key (word_of_int (strtol arg)) p
     else if key \<in> {K CHR ''B'', K CHR ''k'', K CHR ''S'', 1005, 1006} then parseBoolean key True p
     else if key \<in> {1002, 1009} then parseBoolean key False p
     else if key = K CHR ''t'' then
       if take 3 arg = ''all'' then (p\<lparr>o_threads := m_totalThreads (cpu env)\<rparr>, True)
       else parseArg_uint key (word_of_int (strtol arg)) p
     else if key = K CHR ''V'' then (p, False)
     else if key = K CHR ''h'' then (p, False)
     else if key = K CHR ''c'' then (config arg p, True)
     else if key = 1020 then parseArg_uint key (mask_arg arg) p
     else if key = 4013 then parseArg_uint key (mask_arg arg) p
     else if key = 1008 then (p\<lparr>o_userAgent := Some arg\<rparr>, True)
     else (p, False))"

section \<open>The configuration file\<close>

definition HasMember :: "json \<Rightarrow> string \<Rightarrow> bool" where
  "HasMember j k = (case j of JObj ms \<Rightarrow> map_of ms k \<noteq> None | _ \<Rightarrow> False)"

text \<open>\<open>parseJSON\<close>; the tables it is used with have no \<open>config\<close> option.\<close>

definition parseJSON_with :: "(string \<Rightarrow> options \<Rightarrow> options) \<Rightarrow> opt_env \<Rightarrow> opt \<Rightarrow> json \<Rightarrow> options \<Rightarrow> options" where
  "parseJSON_with config env = (\<lambda>(name, has_arg, val) obj p.
    if \<not> HasMember obj name then p
    else case member obj name of
           JStr s \<Rightarrow> if has_arg then fst (parseArg_with config env val s p) else p
         | JInt i \<Rightarrow> if has_arg \<and> 0 \<le> i \<and> i < 2 ^ 64 then fst (parseArg_uint val (word_of_int i) p) else p
         | JBool b \<Rightarrow> if \<not> has_arg then fst (parseBoolean val b p) else p
         | _ \<Rightarrow> p)"

definition parse_table :: "(string \<Rightarrow> options \<Rightarrow> options) \<Rightarrow> opt_env \<Rightarrow> opt list \<Rightarrow> json \<Rightarrow> options \<Rightarrow> options" where
  "parse_table config env table obj = fold (\<lambda>opt. parseJSON_with config env opt obj) table"

definition getJSON :: "opt_env \<Rightarrow> string \<Rightarrow> json option" where
  "getJSON env fileName = (case read_json env fileName of Some (JObj ms) \<Rightarrow> Some (JObj ms) | _ \<Rightarrow> None)"

definition parse_pools :: "(string \<Rightarrow> options \<Rightarrow> options) \<Rightarrow> opt_env \<Rightarrow> json \<Rightarrow> options \<Rightarrow> options" where
  "parse_pools config env pools =
    (case pools of
       JArr vs \<Rightarrow> fold (\<lambda>v p. if \<not> IsObject v then p else parse_table config env pool_options v p) vs
     | _ \<Rightarrow> (\<lambda>p. p))"

definition parse_member :: "(string \<Rightarrow> options \<Rightarrow> options) \<Rightarrow> opt_env \<Rightarrow> opt list \<Rightarrow> json \<Rightarrow> options \<Rightarrow> options" where
  "parse_member config env table obj p = (if IsObject obj then parse_table config env table obj p else p)"

definition parseConfig_with :: "(string \<Rightarrow> options \<Rightarrow> options) \<Rightarrow> opt_env \<Rightarrow> string \<Rightarrow> options \<Rightarrow> options" where
  "parseConfig_with config env fileName p =
    (let p = p\<lparr>o_configFile := fileName\<rparr>
     in case getJSON env fileName of
          None \<Rightarrow> p
        | Some doc \<Rightarrow>
            (let p = parse_table config env config_options doc p;
                 p = parse_pools config env (member doc ''pools'') p;
                 p = parse_member config env api_options (member doc ''api'') p;
                 p = parse_member config env cc_client_options (member doc ''cc-client'') p
             in parse_member config env cc_server_options (member doc ''cc-server'') p))"

definition parseConfig :: "opt_env \<Rightarrow> string \<Rightarrow> options \<Rightarrow> options" where
  "parseConfig env = parseConfig_with (\<lambda>_ p. p) env"

definition parseArg :: "opt_env \<Rightarrow> int \<Rightarrow> string \<Rightarrow> options \<Rightarrow> options \<times> bool" where
  "parseArg env = parseArg_with (parseConfig env) env"

section \<open>The constructor\<close>

definition optimizeAlgorithmConfiguration :: "opt_env \<Rightarrow> options \<Rightarrow> options option" where
  "optimizeAlgorithmConfiguration env p =
    (let (hashFactor, aesni) =
           (if o_algoVariant p = 1 then (1, AESNI_ON) else if o_algoVariant p = 2 then (2, AESNI_ON)
            else if o_algoVariant p = 3 then (1, AESNI_OFF) else if o_algoVariant p = 4 then (2, AESNI_OFF)
            else (o_hashFactor p, o_aesni p));
         p = (if o_algoVariant p \<noteq> 0
              then p\<lparr>o_hashFactor := (if o_hashFactor p = 0 then hashFactor else o_hashFactor p),
                     o_aesni := (if o_aesni p = AESNI_AUTO then aesni else o_aesni p)\<rparr>
              else p);
         p = (if o_aesni p = AESNI_AUTO \<or> o_safe p
              then p\<lparr>o_aesni := (if m_hasAES (cpu env) then AESNI_ON else AESNI_OFF)\<rparr> else p)
     in case optimizeParameters (cpu env) (o_threads p) (o_hashFactor p) (o_algo p) (o_maxCpuUsage p) (o_safe p) of
          None \<Rightarrow> None
        | Some (threads, hashFactor) \<Rightarrow> Some (p\<lparr>o_threads := threads, o_hashFactor := hashFactor\<rparr>))"

fun parse_args :: "opt_env \<Rightarrow> (int \<times> string) list \<Rightarrow> options \<Rightarrow> options \<times> bool" where
  "parse_args env [] p = (p, True)"
| "parse_args env ((key, arg) # rest) p =
    (let (p, ok) = parseArg env key arg p in if ok then parse_args env rest p else (p, False))"

text \<open>\<open>extra\<close> is whether arguments are left over; \<open>None\<close> is a process that died.\<close>

definition Options :: "opt_env \<Rightarrow> (int \<times> string) list \<Rightarrow> bool \<Rightarrow> options option" where
  "Options env args extra =
    (let (p, ok) = parse_args env args (Options_init env)
     in if \<not> ok \<or> extra then Some p
        else
          let p = (if cc_server env
                   then if o_ccPort p = 0 then parseConfig env (defaultConfigName env) p else p
                   else if with_cc env \<and> \<not> o_daemonized p then p
                   else if \<not> url_isValid (hd (o_pools p)) then parseConfig env (defaultConfigName env) p else p);
              refused = (if cc_server env then o_ccPort p = 0
                         else with_cc env \<and> \<not> o_daemonized p
                           \<or> \<not> url_isValid (hd (o_pools p)) \<and> (o_ccHost p = None \<or> o_ccPort p = 0))
          in if refused then Some p
             else case optimizeAlgorithmConfiguration env p of
                    None \<Rightarrow> None
                  | Some p \<Rightarrow> Some (p\<lparr>o_pools := map applyExceptions (o_pools p), o_ready := True\<rparr>))"

text \<open>\<open>Options::parse\<close>: the options, or the null pointer.\<close>

definition Options_parse :: "opt_env \<Rightarrow> (int \<times> string) list \<Rightarrow> bool \<Rightarrow> options option option" where
  "Options_parse env args extra =
    (case Options env args extra of None \<Rightarrow> None | Some p \<Rightarrow> Some (if o_ready p then Some p else None))"

end
