(* ===== verification/Options_Correct.thy ===== *)
theory Options_Correct
  imports Options
begin

text \<open>
  The options of \<^verbatim>\<open>src/Options.cpp\<close> keep their ranges through every command line and
  configuration file, and the choice of threads and hash factor fits the cache.
\<close>

section \<open>What \<open>--config\<close> does inside a configuration file\<close>

lemma parse_table_config:
  assumes "\<forall>(name, has_arg, val) \<in> set table. val \<noteq> K CHR ''c''"
  shows "parse_table config env table obj = parse_table config' env table obj"
proof -
  have "parseJSON_with config env opt obj = parseJSON_with config' env opt obj" if "opt \<in> set table" for opt
    using assms that by (auto simp: parseJSON_with_def parseArg_with_def K_def intro!: ext split: json.split)
  then show ?thesis unfolding parse_table_def by (intro ext fold_cong) simp_all
qed

lemma tables_without_config:
  "\<forall>(name, has_arg, val) \<in> set config_options. val \<noteq> K CHR ''c''"
  "\<forall>(name, has_arg, val) \<in> set pool_options. val \<noteq> K CHR ''c''"
  "\<forall>(name, has_arg, val) \<in> set api_options. val \<noteq> K CHR ''c''"
  "\<forall>(name, has_arg, val) \<in> set cc_client_options. val \<noteq> K CHR ''c''"
  "\<forall>(name, has_arg, val) \<in> set cc_server_options. val \<noteq> K CHR ''c''"
  by (simp_all add: config_options_def pool_options_def api_options_def cc_client_options_def cc_server_options_def K_def)

text \<open>The recursion of the source: a configuration file is read with the \<open>parseArg\<close> of the
  command line, and none of its options leads to another file.\<close>

lemma parseConfig_rec: "parseConfig env = parseConfig_with (parseConfig env) env"
proof -
  have tables: "parse_table (\<lambda>_ p. p) env t obj = parse_table (parseConfig env) env t obj"
    if "t \<in> {config_options, pool_options, api_options, cc_client_options, cc_server_options}" for t obj
    using that tables_without_config by (intro parse_table_config) auto
  have pools: "parse_pools (\<lambda>_ p. p) env = parse_pools (parseConfig env) env"
  proof -
    have "(\<lambda>v p. if \<not> IsObject v then p else parse_table (\<lambda>_ p. p) env pool_options v p) =
        (\<lambda>v p. if \<not> IsObject v then p else parse_table (parseConfig env) env pool_options v p)"
      by (intro ext) (simp add: tables)
    then show ?thesis unfolding parse_pools_def by simp
  qed
  have "parseConfig env = parseConfig_with (\<lambda>_ p. p) env" by (simp add: parseConfig_def)
  also have "\<dots> = parseConfig_with (parseConfig env) env"
    by (intro ext) (simp add: parseConfig_with_def parse_member_def tables pools Let_def split: option.split)
  finally show ?thesis .
qed

section \<open>Ranges\<close>

definition opt_range :: "opt_env \<Rightarrow> options \<Rightarrow> bool" where
  "opt_range env p \<longleftrightarrow> o_pools p \<noteq> [] \<and> (\<forall>u \<in> set (tl (o_pools p)). url_isValid u)
    \<and> o_retries p \<in> {1..1000} \<and> o_retryPause p \<in> {1..3600} \<and> o_donateLevel p \<in> {0..99} \<and> o_maxCpuUsage p \<in> {1..100}
    \<and> o_printTime p \<in> {0..1000} \<and> o_priority p \<in> {-1..5} \<and> o_apiPort p \<in> {0..65536} \<and> o_ccPort p \<in> {0..65536}
    \<and> o_hashFactor p \<le> MAX_NUM_HASH_BLOCKS \<and> o_algoVariant p \<le> 1000
    \<and> o_threads p \<le> max 1024 (m_totalThreads (cpu env)) \<and> o_ccUpdateInterval p \<in> {- (2 ^ 31)..<2 ^ 31}"

text \<open>Nothing but the end of the constructor makes the options ready.\<close>

definition opt_ok :: "opt_env \<Rightarrow> options \<Rightarrow> bool" where
  "opt_ok env p \<longleftrightarrow> opt_range env p \<and> \<not> o_ready p"

lemmas opt_ok_unfold = opt_ok_def [unfolded opt_range_def]

lemma to_int_small: "arg \<le> 65536 \<Longrightarrow> to_int arg = int (unat arg)"
proof -
  assume a: "arg \<le> 65536"
  then have "unat arg \<le> 65536" by (simp add: word_le_nat_alt)
  then have "int (unat arg) \<le> 65536" by linarith
  then have "uint arg < 2 ^ 31" by simp
  moreover have "(ucast arg :: u32) = word_of_int (uint arg)" by simp
  moreover have "sint (word_of_int (uint arg) :: u32) = signed_take_bit 31 (uint arg)" by (simp only: signed_of_int) simp
  moreover have "- (2 ^ 31) \<le> uint arg" by (rule order_trans [of _ 0]) simp_all
  ultimately have "sint (ucast arg :: u32) = uint arg"
    using signed_take_bit_int_eq_self [of 31 "uint arg"] by simp
  then show ?thesis by (simp add: to_int_def)
qed

lemma to_int_range: "- (2 ^ 31) \<le> to_int arg" "to_int arg < 2 ^ 31"
  using sint_ge [of "ucast arg :: u32"] sint_lt [of "ucast arg :: u32"] by (simp_all add: to_int_def)

lemma arg_le: "arg \<le> n \<Longrightarrow> unat arg \<le> unat (n :: u64)"
  by (simp add: word_le_nat_alt)

text \<open>Handlers return a state and whether to go on; these follow their branches.\<close>

lemma ok_if:
  "(b \<Longrightarrow> opt_ok env (fst x)) \<Longrightarrow> (\<not> b \<Longrightarrow> opt_ok env (fst y)) \<Longrightarrow> opt_ok env (fst (if b then x else y))"
  "(b \<Longrightarrow> opt_ok env q) \<Longrightarrow> (\<not> b \<Longrightarrow> opt_ok env r) \<Longrightarrow> opt_ok env (if b then q else r)"
  "opt_ok env q \<Longrightarrow> opt_ok env (fst (q, c))"
  by simp_all

lemma on_back_ok:
  assumes "opt_ok env p" "\<And>u. url_isValid u \<Longrightarrow> url_isValid (f u)"
  shows "opt_ok env (on_back f p)"
proof -
  obtain us u where p: "o_pools p = us @ [u]" using assms(1) by (metis opt_ok_unfold append_butlast_last_id)
  show ?thesis using assms p by (cases us) (auto simp: opt_ok_unfold on_back_def)
qed

lemma setAlgo_ok: "opt_ok env p \<Longrightarrow> opt_ok env (fst (setAlgo a p))"
  by (simp add: setAlgo_def opt_ok_unfold)

lemma parseCCUrl_ok: "opt_ok env p \<Longrightarrow> opt_ok env (fst (parseCCUrl u p))"
proof -
  assume ok: "opt_ok env p"
  have "0 \<le> uint (w :: 16 word) \<and> uint w \<le> 65536" for w using uint_lt2p [of w] by simp
  then show ?thesis using ok by (simp add: parseCCUrl_def opt_ok_unfold kDefaultCCPort_def Let_def)
qed

lemma valid_updates [simp]:
  "url_isValid (u\<lparr>m_keepAlive := b\<rparr>) = url_isValid u" "url_isValid (u\<lparr>url_nicehash := b\<rparr>) = url_isValid u"
  "url_isValid (setUser u s) = url_isValid u" "url_isValid (setPassword u s) = url_isValid u"
  by (simp_all add: url_isValid_def setUser_def setPassword_def split: option.split)

lemma parseBoolean_ok: "opt_ok env p \<Longrightarrow> opt_ok env (fst (parseBoolean key b p))"
proof -
  assume ok: "opt_ok env p"
  have "opt_ok env (on_back (\<lambda>u. u\<lparr>m_keepAlive := b\<rparr>) p)" "opt_ok env (on_back (\<lambda>u. u\<lparr>url_nicehash := b\<rparr>) p)"
    using ok by (simp_all add: on_back_ok)
  then show ?thesis using ok by (simp add: parseBoolean_def) (simp add: opt_ok_unfold)
qed

lemma parseArg_uint_ok:
  assumes "opt_ok env p"
  shows "opt_ok env (fst (parseArg_uint key arg p))"
proof -
  have r: "to_int arg \<in> {int (unat a)..int (unat b)}" if "\<not> arg < a" "\<not> b < arg" "b \<le> 65536" for a b
  proof -
    have "arg \<le> 65536" using that by simp
    then show ?thesis using that to_int_small [of arg] by (simp add: word_le_def word_less_def)
  qed
  have F1: "opt_ok env (p\<lparr>o_retries := to_int arg\<rparr>)" if "\<not> arg < 1" "\<not> 1000 < arg"
    using r [of 1 1000] that assms by (simp add: opt_ok_unfold)
  have F2: "opt_ok env (p\<lparr>o_retryPause := to_int arg\<rparr>)" if "\<not> arg < 1" "\<not> 3600 < arg"
    using r [of 1 3600] that assms by (simp add: opt_ok_unfold)
  have F3: "opt_ok env (p\<lparr>o_donateLevel := to_int arg\<rparr>)" if "\<not> arg < 1" "\<not> 99 < arg"
    using r [of 1 99] that assms by (simp add: opt_ok_unfold)
  have F4: "opt_ok env (p\<lparr>o_printTime := to_int arg\<rparr>)" if "\<not> 1000 < arg"
    using r [of 0 1000] that assms by (simp add: opt_ok_unfold)
  have F5: "opt_ok env (p\<lparr>o_priority := to_int arg\<rparr>)" if "arg \<le> 5"
    using r [of 0 5] that assms by (simp add: opt_ok_unfold not_less)
  have F6: "opt_ok env (p\<lparr>o_apiPort := to_int arg\<rparr>)" "opt_ok env (p\<lparr>o_ccPort := to_int arg\<rparr>)" if "arg \<le> 65536"
    using r [of 0 65536] that assms by (simp_all add: opt_ok_unfold not_less)
  have F7: "opt_ok env (p\<lparr>o_threads := unat arg\<rparr>)" if "\<not> 1024 < arg"
    using arg_le [of arg 1024] that assms by (simp add: opt_ok_unfold not_less)
  have F8: "opt_ok env (p\<lparr>o_algoVariant := unat arg\<rparr>)" if "\<not> 1000 < arg"
    using arg_le [of arg 1000] that assms by (simp add: opt_ok_unfold not_less)
  have F9: "opt_ok env (p\<lparr>o_hashFactor := unat arg\<rparr>)" if "\<not> of_nat MAX_NUM_HASH_BLOCKS < arg"
    using arg_le [of arg 5] that assms by (simp add: opt_ok_unfold not_less MAX_NUM_HASH_BLOCKS_def)
  have F10: "opt_ok env (p\<lparr>o_maxCpuUsage := unat arg\<rparr>)" if "\<not> arg < 1" "\<not> 100 < arg"
  proof -
    have "unat arg \<le> 100" using arg_le [of arg 100] that(2) by (simp add: not_less)
    moreover have "1 \<le> unat arg" using that(1) by (simp add: not_less Suc_le_eq unat_gt_0)
    ultimately show ?thesis using assms by (simp add: opt_ok_unfold)
  qed
  have F11: "opt_ok env (p\<lparr>o_aesni := a\<rparr>)" "opt_ok env (p\<lparr>o_affinity := w\<rparr>)" "opt_ok env (p\<lparr>o_multiHashThreadMask := w\<rparr>)"
    "opt_ok env (p\<lparr>o_ccUpdateInterval := to_int arg\<rparr>)" for a w
    using assms to_int_range [of arg] by (simp_all add: opt_ok_unfold)
  show ?thesis unfolding parseArg_uint_def
    by (intro ok_if F1 F2 F3 F4 F5 F6 F7 F8 F9 F10 F11 assms)
      blast+
qed

lemma parse_pool_url_ok: "opt_ok env p \<Longrightarrow> opt_ok env (fst (parse_pool_url arg p))"
proof -
  assume ok: "opt_ok env p"
  then obtain u us where p: "o_pools p = u # us" by (metis opt_ok_unfold list.exhaust)
  show ?thesis using ok p by (auto simp: parse_pool_url_def opt_ok_unfold Let_def)
qed

lemma parseArg_with_ok:
  assumes "opt_ok env p" "\<And>f q. opt_ok env q \<Longrightarrow> opt_ok env (config f q)"
  shows "opt_ok env (fst (parseArg_with config env key arg p))"
proof -
  have O: "opt_ok env (on_back (\<lambda>_. u) p)" if "setUserpass (last (o_pools p)) arg = (u, True)" for u
  proof -
    have "on_back (\<lambda>_. u) p = on_back (\<lambda>v. fst (setUserpass v arg)) p" using that by (simp add: on_back_def)
    moreover have "url_isValid v \<Longrightarrow> url_isValid (fst (setUserpass v arg))" for v
      by (simp add: setUserpass_def url_isValid_def Let_def)
    ultimately show ?thesis using assms(1) on_back_ok by metis
  qed
  have s: "opt_ok env (p\<lparr>o_logFile := x, o_colors := b\<rparr>)" "opt_ok env (p\<lparr>o_apiToken := x\<rparr>)" "opt_ok env (p\<lparr>o_apiWorkerId := x\<rparr>)"
    "opt_ok env (p\<lparr>o_ccToken := x\<rparr>)" "opt_ok env (p\<lparr>o_ccWorkerId := x\<rparr>)" "opt_ok env (p\<lparr>o_ccAdminUser := x\<rparr>)"
    "opt_ok env (p\<lparr>o_ccAdminPass := x\<rparr>)" "opt_ok env (p\<lparr>o_ccClientConfigFolder := x\<rparr>)"
    "opt_ok env (p\<lparr>o_ccCustomDashboard := x\<rparr>)" "opt_ok env (p\<lparr>o_daemonized := b\<rparr>)" "opt_ok env (p\<lparr>o_userAgent := x\<rparr>)"
    "opt_ok env (p\<lparr>o_threads := m_totalThreads (cpu env)\<rparr>)" for x b
    using assms(1) by (simp_all add: opt_ok_unfold)
  show ?thesis unfolding parseArg_with_def Let_def case_prod_beta'
    by (intro ok_if s setAlgo_ok parseCCUrl_ok parseBoolean_ok parseArg_uint_ok parse_pool_url_ok on_back_ok O assms)
      (simp_all add: prod_eq_iff)
qed

lemma parseJSON_with_ok:
  assumes "opt_ok env p" "\<And>f q. opt_ok env q \<Longrightarrow> opt_ok env (config f q)"
  shows "opt_ok env (parseJSON_with config env opt obj p)"
proof -
  obtain name has_arg val where opt: "opt = (name, has_arg, val)" by (cases opt)
  have "opt_ok env (fst (parseArg_with config env val s p))" for s by (rule parseArg_with_ok [OF assms])
  then show ?thesis using parseArg_uint_ok [OF assms(1)] parseBoolean_ok [OF assms(1)] assms(1)
    by (cases "member obj name") (simp_all add: opt parseJSON_with_def)
qed

lemma fold_keeps: "P s \<Longrightarrow> (\<And>x s. P s \<Longrightarrow> P (f x s)) \<Longrightarrow> P (fold f xs s)"
  by (induction xs arbitrary: s) simp_all

lemma parse_table_ok:
  assumes "opt_ok env p" "\<And>f q. opt_ok env q \<Longrightarrow> opt_ok env (config f q)"
  shows "opt_ok env (parse_table config env table obj p)"
  unfolding parse_table_def by (rule fold_keeps, rule assms(1), rule parseJSON_with_ok) (assumption | rule assms(2))+

lemma parseConfig_ok: "opt_ok env p \<Longrightarrow> opt_ok env (parseConfig env f p)"
proof -
  assume ok: "opt_ok env p"
  have t: "opt_ok env q \<Longrightarrow> opt_ok env (parse_table (\<lambda>_ p. p) env table v q)" for q table v
    by (rule parse_table_ok) simp_all
  have pools: "opt_ok env q \<Longrightarrow> opt_ok env (parse_pools (\<lambda>_ p. p) env v q)" for q v
    unfolding parse_pools_def by (cases v) (simp_all add: fold_keeps t)
  have member: "opt_ok env q \<Longrightarrow> opt_ok env (parse_member (\<lambda>_ p. p) env table v q)" for q v table
    by (simp add: parse_member_def t)
  have "opt_ok env (p\<lparr>o_configFile := f\<rparr>)" using ok by (simp add: opt_ok_unfold)
  then show ?thesis
    unfolding parseConfig_def parseConfig_with_def Let_def by (cases "getJSON env f") (simp_all add: member pools t)
qed

lemma parseArg_ok: "opt_ok env p \<Longrightarrow> opt_ok env (fst (parseArg env key arg p))"
  unfolding parseArg_def by (intro parseArg_with_ok parseConfig_ok)

lemma parse_args_ok: "opt_ok env p \<Longrightarrow> opt_ok env (fst (parse_args env args p))"
proof (induction args arbitrary: p)
  case (Cons ka rest)
  then show ?case using parseArg_ok [OF Cons.prems, of "fst ka" "snd ka"]
    by (cases ka) (simp add: case_prod_beta' Let_def)
qed simp

lemma Options_init_ok: "opt_ok env (Options_init env)"
  by (simp add: opt_ok_unfold Options_init_def kDonateLevel_def MAX_NUM_HASH_BLOCKS_def)

section \<open>Threads and hash factor\<close>

definition cache_factor :: "cpu \<Rightarrow> Algo \<Rightarrow> nat" where
  "cache_factor c algo = max (availableCache c div algoBlockSize algo) 1"

lemma fits_factor:
  fixes t x F :: nat
  assumes "t \<le> F" "1 \<le> t"
  shows "t * max (min x (F div t)) 1 \<le> F"
proof -
  have "1 \<le> F div t" using assms by (simp add: Suc_le_eq div_greater_zero_iff)
  then have "max (min x (F div t)) 1 \<le> F div t" by simp
  then have "t * max (min x (F div t)) 1 \<le> t * (F div t)" by (rule mult_le_mono2)
  then show ?thesis by (meson le_trans times_div_less_eq_dividend)
qed

lemma safe_limits_spec:
  assumes "T \<le> F" "M = min F B" "h \<le> B" "1 \<le> B"
  shows "case safe_limits F T M t h of
      None \<Rightarrow> t = 0 \<or> T = 0
    | Some (t', h') \<Rightarrow> t \<noteq> 0 \<and> T \<noteq> 0 \<and> 1 \<le> t' \<and> t' \<le> F \<and> h' \<le> B \<and> t' * h' \<le> F \<and> (h' = 0 \<longrightarrow> h = 0)"
proof (cases "t = 0 \<or> T = 0")
  case False
  define t' where "t' = min t T"
  have t': "1 \<le> t'" "t' \<le> F" using False assms(1) by (auto simp: t'_def)
  define h' where "h' = (if h > F div t' then max (min (F div t') M) 1 else h)"
  have "safe_limits F T M t h = Some (t', h')"
    using t' by (auto simp: safe_limits_def t'_def h'_def min_def Let_def)
  moreover have "t' * h' \<le> F"
  proof (cases "h > F div t'")
    case True
    then show ?thesis using fits_factor [OF t'(2,1), of M] by (simp add: h'_def min.commute)
  next
    case False
    then have "t' * h' \<le> t' * (F div t')" by (intro mult_le_mono2) (simp add: h'_def)
    then show ?thesis by (meson le_trans times_div_less_eq_dividend)
  qed
  moreover have "h' \<le> B" "h' = 0 \<longrightarrow> h = 0" using assms by (auto simp: h'_def)
  ultimately show ?thesis using False t' by simp
qed (auto simp: safe_limits_def Let_def)

lemma optimizeParameters_spec:
  fixes c :: cpu
  shows "case optimizeParameters c threads hashFactor algo usage safe of
     None \<Rightarrow> safe \<and> (threads = 0 \<or> m_totalThreads c = 0)
   | Some (t, h) \<Rightarrow> \<not> (safe \<and> (threads = 0 \<or> m_totalThreads c = 0)) \<and> 1 \<le> t \<and> 1 \<le> h \<and> h \<le> MAX_NUM_HASH_BLOCKS
       \<and> (t * h \<le> cache_factor c algo
          \<or> \<not> safe \<and> (t = threads \<or> t = 1 \<and> h = min hashFactor MAX_NUM_HASH_BLOCKS))"
proof -
  define F where "F = cache_factor c algo"
  define h0 where "h0 = min hashFactor MAX_NUM_HASH_BLOCKS"
  define T where "T = min F (m_totalThreads c)"
  define M where "M = min F MAX_NUM_HASH_BLOCKS"
  have F: "1 \<le> F" "h0 \<le> MAX_NUM_HASH_BLOCKS" "T \<le> F" "T = 0 \<longleftrightarrow> m_totalThreads c = 0"
    by (auto simp: F_def cache_factor_def h0_def T_def)
  have B: "1 \<le> MAX_NUM_HASH_BLOCKS" by (simp add: MAX_NUM_HASH_BLOCKS_def)
  define pick where "pick = (\<lambda>(t, h). auto_limits F T M (m_totalThreads c) usage t h)"
  have eq: "optimizeParameters c threads hashFactor algo usage safe =
      (if \<not> safe \<and> 0 < threads \<and> 0 < h0 then Some (threads, h0)
       else map_option pick (if safe then safe_limits F T M threads h0 else Some (threads, h0)))"
    unfolding optimizeParameters_def Let_def F_def [unfolded cache_factor_def, symmetric] T_def [symmetric] M_def [symmetric]
      h0_def [symmetric] pick_def
    by (simp split: option.split prod.split)
  have chosen: "1 \<le> fst (pick (t, h)) \<and> 1 \<le> snd (pick (t, h)) \<and> snd (pick (t, h)) \<le> MAX_NUM_HASH_BLOCKS
      \<and> (0 < t \<longrightarrow> fst (pick (t, h)) = t) \<and> (0 < h \<longrightarrow> snd (pick (t, h)) = h)
      \<and> (fst (pick (t, h)) * snd (pick (t, h)) \<le> F \<or> 0 < t \<and> (0 < h \<or> F < t) \<or> t = 0 \<and> 0 < h \<and> fst (pick (t, h)) = 1)"
    if "h \<le> MAX_NUM_HASH_BLOCKS" for t h
  proof -
    obtain t' h' where c: "pick (t, h) = (t', h')" by (cases "pick (t, h)")
    have t': "t' = (if t = 0 then t' else t)" "1 \<le> t'" "h' = (if h = 0 then max (min M (F div t')) 1 else h)"
      using c by (auto simp: pick_def auto_limits_def Let_def split: if_splits)
    have fst_pick: "t' = fst (pick (t, h))" using c by simp
    have small: "t' \<le> F" if "t = 0" "h = 0"
    proof -
      have "t' = max (if usage < 100 then min T (m_totalThreads c * usage div 100) else T) 1"
        using that by (simp add: fst_pick pick_def auto_limits_def Let_def)
      moreover have "(if usage < 100 then min T (m_totalThreads c * usage div 100) else T) \<le> T" by simp
      ultimately show ?thesis using F(1,3) by linarith
    qed
    have small': "t' = 1 \<or> t' \<le> F div h" if "t = 0" "0 < h"
    proof -
      let ?t = "min T (F div h)"
      have "t' = max (if usage < 100 then min ?t (m_totalThreads c * usage div 100) else ?t) 1"
        using that by (simp add: fst_pick pick_def auto_limits_def Let_def)
      moreover have "(if usage < 100 then min ?t (m_totalThreads c * usage div 100) else ?t) \<le> F div h" by (simp add: min.coboundedI1)
      ultimately show ?thesis by linarith
    qed
    have "t' * h' \<le> F" if "h = 0" "t' \<le> F" using fits_factor [OF that(2) t'(2), of M] t'(3) that(1) by simp
    moreover have "t' * h' \<le> F" if "0 < h" "t' \<le> F div h"
      using le_trans [OF mult_le_mono2 [OF that(2), of h] times_div_less_eq_dividend] t'(3) that(1)
      by (simp add: mult.commute)
    moreover have "1 \<le> h'" "h' \<le> MAX_NUM_HASH_BLOCKS" using t'(3) that B by (auto simp: M_def)
    ultimately show ?thesis using t' small small' c by (cases "t = 0"; cases "h = 0") auto
  qed
  show ?thesis
  proof (cases safe)
    case True
    note S = safe_limits_spec [OF F(3) M_def F(2) B, of threads]
    show ?thesis
    proof (cases "safe_limits F T M threads h0")
      case None
      then show ?thesis using S F True unfolding eq by simp
    next
      case (Some th)
      obtain t h where th: "th = (t, h)" by (cases th)
      have s: "threads \<noteq> 0" "T \<noteq> 0" "1 \<le> t" "t \<le> F" "h \<le> MAX_NUM_HASH_BLOCKS" "t * h \<le> F" using S Some th by auto
      note C = chosen [OF s(5), of t]
      have "fst (pick (t, h)) * snd (pick (t, h)) \<le> F" using C s by (cases "h = 0") auto
      then show ?thesis using C s F True Some th unfolding eq by (simp add: case_prod_beta' F_def [symmetric])
    qed
  next
    case False
    show ?thesis
    proof (cases "0 < threads \<and> 0 < h0")
      case True
      then show ?thesis using False F unfolding eq by simp
    next
      case nall: False
      note C = chosen [OF F(2), of threads]
      have "optimizeParameters c threads hashFactor algo usage safe = Some (pick (threads, h0))"
        using False nall unfolding eq by auto
      then show ?thesis using C False nall by (auto simp: case_prod_beta' F_def [symmetric] h0_def [symmetric])
    qed
  qed
qed

section \<open>Options that reach the program\<close>

text \<open>C27: the automatic choice of threads and hash factor. It divides by zero exactly when the safe
  mode is on and the number of threads, which is 0 unless it is set, has been left to the choice (or the
  machine reports no threads). Otherwise there is at least one thread, the hash factor is between 1
  and \<^verbatim>\<open>MAX_NUM_HASH_BLOCKS\<close>, and the scratchpads of all threads fit the cache, unless, without
  the safe mode, the threads were set, or a single thread exceeds it with the hash factor set.\<close>

theorem optimizeParameters_fits_cache:
  "case optimizeParameters c threads hashFactor algo usage safe of
     None \<Rightarrow> safe \<and> (threads = 0 \<or> m_totalThreads c = 0)
   | Some (t, h) \<Rightarrow> \<not> (safe \<and> (threads = 0 \<or> m_totalThreads c = 0)) \<and> 1 \<le> t \<and> 1 \<le> h \<and> h \<le> MAX_NUM_HASH_BLOCKS
       \<and> (t * h \<le> cache_factor c algo
          \<or> \<not> safe \<and> (t = threads \<or> t = 1 \<and> h = min hashFactor MAX_NUM_HASH_BLOCKS))"
  by (rule optimizeParameters_spec)

lemma auto_limits_le: "fst (auto_limits F T M N usage t h) \<le> max t (max T 1)"
proof (cases "t = 0")
  case True
  have "min (min T x) y \<le> max T 1" "min T x \<le> max T 1" for x y :: nat by (simp_all add: min_le_iff_disj)
  then show ?thesis using True by (simp add: auto_limits_def Let_def)
qed (simp add: auto_limits_def Let_def)

lemma optimizeParameters_le:
  assumes "optimizeParameters c threads hashFactor algo usage safe = Some (t, h)"
  shows "t \<le> max threads (max (m_totalThreads c) 1)"
proof (cases "\<not> safe \<and> 0 < threads \<and> 0 < min hashFactor MAX_NUM_HASH_BLOCKS")
  case True
  then show ?thesis using assms by (simp add: optimizeParameters_def)
next
  case False
  define F where "F = max (availableCache c div algoBlockSize algo) 1"
  define T where "T = min F (m_totalThreads c)"
  define M where "M = min F MAX_NUM_HASH_BLOCKS"
  define s where "s = (if safe then safe_limits F T M threads (min hashFactor MAX_NUM_HASH_BLOCKS)
    else Some (threads, min hashFactor MAX_NUM_HASH_BLOCKS))"
  have "(case s of None \<Rightarrow> None | Some (t1, h1) \<Rightarrow> Some (auto_limits F T M (m_totalThreads c) usage t1 h1)) = Some (t, h)"
    using assms False unfolding optimizeParameters_def Let_def F_def [symmetric] T_def [symmetric] M_def [symmetric] s_def
    by (simp only: if_False)
  then obtain t1 h1 where s1: "s = Some (t1, h1)" "auto_limits F T M (m_totalThreads c) usage t1 h1 = (t, h)"
    by (auto split: option.splits)
  then have "t1 \<le> threads" by (auto simp: s_def safe_limits_def Let_def split: if_splits)
  moreover have "t \<le> max t1 (max T 1)" using auto_limits_le [of F T M "m_totalThreads c" usage t1 h1] s1(2) by simp
  moreover have "T \<le> m_totalThreads c" by (simp add: T_def)
  ultimately show ?thesis by linarith
qed

lemma applyExceptions_valid: "url_isValid (applyExceptions u) = url_isValid u"
  by (simp add: applyExceptions_def url_isValid_def Let_def)

lemma optimizeAlgorithmConfiguration_ok:
  assumes "opt_ok env p" "optimizeAlgorithmConfiguration env p = Some q"
  shows "opt_ok env q" "1 \<le> o_threads q" "1 \<le> o_hashFactor q" "o_pools q = o_pools p" "o_ccHost q = o_ccHost p" "o_ccPort q = o_ccPort p"
proof -
  define v where "v = (if o_algoVariant p = 1 then (1, AESNI_ON) else if o_algoVariant p = 2 then (2, AESNI_ON)
            else if o_algoVariant p = 3 then (1, AESNI_OFF) else if o_algoVariant p = 4 then (2, AESNI_OFF)
            else (o_hashFactor p, o_aesni p))"
  define p1 where "p1 = (if o_algoVariant p \<noteq> 0
              then p\<lparr>o_hashFactor := (if o_hashFactor p = 0 then fst v else o_hashFactor p),
                     o_aesni := (if o_aesni p = AESNI_AUTO then snd v else o_aesni p)\<rparr>
              else p)"
  define p2 where "p2 = (if o_aesni p1 = AESNI_AUTO \<or> o_safe p1
              then p1\<lparr>o_aesni := (if m_hasAES (cpu env) then AESNI_ON else AESNI_OFF)\<rparr> else p1)"
  have "fst v \<le> max (o_hashFactor p) 2" by (auto simp: v_def le_max_iff_disj)
  then have "opt_ok env p2" "o_pools p2 = o_pools p" "o_ccHost p2 = o_ccHost p" "o_ccPort p2 = o_ccPort p" "o_threads p2 = o_threads p"
    using assms(1) by (auto simp: opt_ok_unfold p1_def p2_def MAX_NUM_HASH_BLOCKS_def)
  note p2 = this
  obtain t h where th: "optimizeParameters (cpu env) (o_threads p2) (o_hashFactor p2) (o_algo p2) (o_maxCpuUsage p2) (o_safe p2) = Some (t, h)"
    "q = p2\<lparr>o_threads := t, o_hashFactor := h\<rparr>"
    using assms(2) unfolding optimizeAlgorithmConfiguration_def Let_def v_def [symmetric] case_prod_beta' p1_def [symmetric] p2_def [symmetric]
    by (auto split: option.splits)
  have "1 \<le> t" "1 \<le> h" "h \<le> MAX_NUM_HASH_BLOCKS"
    using optimizeParameters_spec [where c = "cpu env" and threads = "o_threads p2" and hashFactor = "o_hashFactor p2" and algo = "o_algo p2"
        and usage = "o_maxCpuUsage p2" and safe = "o_safe p2"] th(1) by auto
  moreover have "t \<le> max 1024 (m_totalThreads (cpu env))"
    using optimizeParameters_le [OF th(1)] p2(1) by (auto simp: opt_ok_unfold)
  ultimately show "opt_ok env q" "1 \<le> o_threads q" "1 \<le> o_hashFactor q" "o_pools q = o_pools p" "o_ccHost q = o_ccHost p" "o_ccPort q = o_ccPort p"
    using p2 th(2) by (auto simp: opt_ok_unfold)
qed

text \<open>
  The update interval of the control client is documented with a minimum of 1 second and tested to be at least 1,
  but before the 64-bit number is cut to an int: it can be zero or negative.
\<close>

lemma update_interval_cut:
  "fst (parseArg_uint 4012 4294967296 p) = p\<lparr>o_ccUpdateInterval := 0\<rparr>"
  "fst (parseArg_uint 4012 4294967295 p) = p\<lparr>o_ccUpdateInterval := -1\<rparr>"
  by (simp_all add: parseArg_uint_def K_def to_int_def)

text \<open>C26: whatever the command line and the configuration file say, options that are handed to the program are in
  these ranges: there is a pool, and all but the first have an address; 1 to 1000 retries, 1 to 3600 seconds of pause;
  a donation level of 0 (the default kDonateLevel, below the documented minimum of 1) to 99; 1 to 100 percent of the
  processor; a print time of 0 to 1000 seconds; a priority of -1 (none) to 5; ports of 0 to 65536; an algorithm variant
  of at most 1000; at least one thread, and at most 1024 or the number of the processor; a hash factor between 1 and
  MAX_NUM_HASH_BLOCKS, so that no miner divides by zero; and the miner has a pool or a control server to talk to, the
  server a port. The update interval is only bounded by its 32-bit int, see update_interval_cut.\<close>

theorem options_in_range:
  assumes "Options_parse env args extra = Some (Some p)"
  shows "opt_range env p \<and> 1 \<le> o_threads p \<and> 1 \<le> o_hashFactor p
    \<and> (if cc_server env then o_ccPort p \<noteq> 0
        else url_isValid (hd (o_pools p)) \<or> o_ccHost p \<noteq> None \<and> o_ccPort p \<noteq> 0)"
proof -
  obtain q ok where q: "parse_args env args (Options_init env) = (q, ok)" by (cases "parse_args env args (Options_init env)")
  have qok: "opt_ok env q" using parse_args_ok [OF Options_init_ok, of env args] q by simp
  define q1 where "q1 = (if cc_server env
      then if o_ccPort q = 0 then parseConfig env (defaultConfigName env) q else q
      else if with_cc env \<and> \<not> o_daemonized q then q
      else if \<not> url_isValid (hd (o_pools q)) then parseConfig env (defaultConfigName env) q else q)"
  have q1: "opt_ok env q1" using qok parseConfig_ok [OF qok] by (simp add: q1_def)
  define refused where "refused = (if cc_server env then o_ccPort q1 = 0
      else with_cc env \<and> \<not> o_daemonized q1 \<or> \<not> url_isValid (hd (o_pools q1)) \<and> (o_ccHost q1 = None \<or> o_ccPort q1 = 0))"
  have opts: "Options env args extra = (if \<not> ok \<or> extra then Some q else if refused then Some q1
      else map_option (\<lambda>r. r\<lparr>o_pools := map applyExceptions (o_pools r), o_ready := True\<rparr>) (optimizeAlgorithmConfiguration env q1))"
    unfolding Options_def q prod.case Let_def q1_def [symmetric] refused_def [symmetric] by (simp add: map_option_case)
  obtain r where r: "Options env args extra = Some r" "o_ready r" "p = r"
    using assms by (auto simp: Options_parse_def split: option.splits if_splits)
  have "\<not> o_ready q" "\<not> o_ready q1" using qok q1 by (simp_all add: opt_ok_def)
  then obtain s where s: "optimizeAlgorithmConfiguration env q1 = Some s" "\<not> refused"
    "p = s\<lparr>o_pools := map applyExceptions (o_pools s), o_ready := True\<rparr>"
    using r opts by (auto split: if_splits)
  note S = optimizeAlgorithmConfiguration_ok [OF q1 s(1)]
  have ne: "o_pools s \<noteq> []" using S(1) by (simp add: opt_ok_unfold)
  then have "opt_range env p" using S(1) s(3) by (auto simp: opt_ok_unfold opt_range_def applyExceptions_valid map_tl [symmetric])
  then show ?thesis using S s(2,3) ne by (auto simp: refused_def hd_map applyExceptions_valid)
qed

theorem options_in_range_witness:
  "1 \<le> o_threads (the (the (Options_parse \<lparr>read_json = \<lambda>_. None, defaultConfigName = [],
     cpu = \<lparr>m_l2_exclusive = False, m_hasAES = True, m_l2_cache = 256, m_l3_cache = 8192, m_totalThreads = 8\<rparr>,
     cc_server = False, with_cc = False\<rparr> [(K CHR ''o'', ''pool.example:3333''), (K CHR ''u'', ''wallet'')] False)))"
proof -
  let ?env = "\<lparr>read_json = \<lambda>_. None, defaultConfigName = [],
     cpu = \<lparr>m_l2_exclusive = False, m_hasAES = True, m_l2_cache = 256, m_l3_cache = 8192, m_totalThreads = 8\<rparr>,
     cc_server = False, with_cc = False\<rparr>"
  let ?r = "Options_parse ?env [(K CHR ''o'', ''pool.example:3333''), (K CHR ''u'', ''wallet'')] False"
  have "?r \<noteq> None \<and> the ?r \<noteq> None" by code_simp
  then obtain p where "?r = Some (Some p)" by auto
  from options_in_range [OF this] this show ?thesis by simp
qed

section \<open>Pool entries without an address\<close>

text \<open>An entry of \<open>pools\<close> that has no url, or one that is refused, still sets the user and the
  password: those of the pool before it.\<close>

lemma pool_entry_without_url:
  "parse_pools config env (JArr [JObj [(''user'', JStr s)]]) p = on_back (\<lambda>u. setUser u (Some s)) p"
  by (simp add: parse_pools_def IsObject_def parse_table_def pool_options_def parseJSON_with_def HasMember_def member_def
      parseArg_with_def K_def)

lemma refused_pool_entry:
  assumes "url_isValid (hd (o_pools p))" "\<not> url_isValid (Url_of u)"
  shows "parse_pools config env (JArr [JObj [(''url'', JStr u), (''user'', JStr s)]]) p = on_back (\<lambda>u. setUser u (Some s)) p"
  using assms
  by (simp add: parse_pools_def IsObject_def parse_table_def pool_options_def parseJSON_with_def HasMember_def member_def
      parseArg_with_def parse_pool_url_def K_def Let_def)

end
