(* ===== verification/Mem.thy ===== *)
theory Mem
  imports Options
begin

text \<open>
  The scratchpad memory, \<^verbatim>\<open>src/Mem.cpp\<close> and the Linux branch of
  \<^verbatim>\<open>src/Mem_unix.cpp\<close>: one region that holds, per thread, the context and one scratchpad for
  each hash the thread computes at once. What the operating system answers is a parameter. Addresses are
  offsets into the region.
\<close>

definition MEMORY :: nat where "MEMORY = 2097152"
definition MEMORY_LITE :: nat where "MEMORY_LITE = 1048576"

text \<open>Two members aligned to 16 bytes: the states and a pointer.\<close>

definition sizeof_ctx :: nat where
  "sizeof_ctx = MAX_NUM_HASH_BLOCKS * 208 + 16"

record mem =
  mem_algo :: Algo
  mem_flags :: nat
  mem_hashFactor :: nat
  mem_threads :: nat
  mem_memorySize :: nat
  mem_mask :: u64

definition Mem_init :: mem where
  "Mem_init = \<lparr>mem_algo = ALGO_CRYPTONIGHT, mem_flags = 0, mem_hashFactor = 1, mem_threads = 0, mem_memorySize = 0,
     mem_mask = -1\<rparr>"

text \<open>\<^verbatim>\<open>std::bitset<64>::test\<close> throws when there is no such bit.\<close>

definition getThreadHashFactor :: "mem \<Rightarrow> nat \<Rightarrow> nat option" where
  "getThreadHashFactor m threadId =
    (if mem_mask m = -1 then Some (mem_hashFactor m)
     else if 64 \<le> threadId then None
     else Some (if bit (mem_mask m) threadId then mem_hashFactor m else 1))"

definition scratchPadSize :: "mem \<Rightarrow> nat" where
  "scratchPadSize m = (if mem_algo m = ALGO_CRYPTONIGHT then MEMORY else MEMORY_LITE)"

text \<open>The loop both functions have: the bytes of the first threads.\<close>

fun threads_size :: "mem \<Rightarrow> nat \<Rightarrow> nat option" where
  "threads_size m 0 = Some 0"
| "threads_size m (Suc i) =
    (case threads_size m i of
       None \<Rightarrow> None
     | Some n \<Rightarrow> (case getThreadHashFactor m i of
         None \<Rightarrow> None
       | Some f \<Rightarrow> Some (n + sizeof_ctx + scratchPadSize m * f)))"

record os =
  mmap_ok :: bool
  mlock_ok :: bool

text \<open>Flags: 1 available, 2 enabled, 4 locked.\<close>

definition allocate :: "os \<Rightarrow> options \<Rightarrow> mem \<Rightarrow> mem option" where
  "allocate os p m =
    (let m = m\<lparr>mem_algo := o_algo p, mem_threads := o_threads p, mem_hashFactor := o_hashFactor p,
               mem_mask := o_multiHashThreadMask p, mem_memorySize := 0\<rparr>
     in case threads_size m (mem_threads m) of
          None \<Rightarrow> None
        | Some n \<Rightarrow>
            (let m = m\<lparr>mem_memorySize := n\<rparr>
             in if \<not> o_hugePages p then Some m
                else let m = m\<lparr>mem_flags := or (mem_flags m) 1\<rparr>
                  in if \<not> mmap_ok os then Some m
                     else let m = m\<lparr>mem_flags := or (mem_flags m) 2\<rparr>
                       in Some (if mlock_ok os then m\<lparr>mem_flags := or (mem_flags m) 4\<rparr> else m)))"

text \<open>The context and its scratchpads.\<close>

definition create :: "mem \<Rightarrow> nat \<Rightarrow> (nat \<times> nat) option" where
  "create m threadId =
    (case threads_size m threadId of None \<Rightarrow> None | Some offset \<Rightarrow> Some (offset, offset + sizeof_ctx))"

datatype release_op = Munlock | Munmap | MmFree

definition release :: "mem \<Rightarrow> release_op list" where
  "release m =
    (if and (mem_flags m) 2 \<noteq> 0 then (if and (mem_flags m) 4 \<noteq> 0 then [Munlock] else []) @ [Munmap] else [MmFree])"

section \<open>Regions\<close>

lemma threads_size_mono:
  "threads_size m j = Some b \<Longrightarrow> i \<le> j \<Longrightarrow> \<exists>a. threads_size m i = Some a \<and> a \<le> b"
proof (induction j arbitrary: b)
  case (Suc j)
  from Suc.prems(1) obtain c where c: "threads_size m j = Some c" "c \<le> b"
    by (auto split: option.splits)
  show ?case
  proof (cases "i = Suc j")
    case False
    then have "i \<le> j" using Suc.prems(2) by simp
    from Suc.IH [OF c(1) this] c(2) show ?thesis using le_trans by blast
  qed (use Suc.prems in auto)
qed simp

lemma threads_size_Suc:
  "threads_size m (Suc i) = Some b \<longleftrightarrow>
    (\<exists>a f. threads_size m i = Some a \<and> getThreadHashFactor m i = Some f \<and> b = a + sizeof_ctx + scratchPadSize m * f)"
  by (auto split: option.splits)

declare threads_size.simps(2) [simp del]

lemma threads_size_aligned: "threads_size m i = Some a \<Longrightarrow> 16 dvd a"
proof (induction i arbitrary: a)
  case (Suc i)
  then obtain c f where c: "threads_size m i = Some c" "a = c + sizeof_ctx + scratchPadSize m * f"
    by (auto simp: threads_size_Suc)
  have "16 dvd sizeof_ctx" by (simp add: sizeof_ctx_def MAX_NUM_HASH_BLOCKS_def)
  moreover have "16 dvd scratchPadSize m" by (simp add: scratchPadSize_def MEMORY_def MEMORY_LITE_def)
  ultimately show ?case using Suc.IH [OF c(1)] c(2) by simp
qed simp

lemma threads_size_defined: "mem_mask m = -1 \<or> n \<le> 64 \<Longrightarrow> threads_size m n \<noteq> None"
proof (induction n)
  case (Suc n)
  then obtain a where "threads_size m n = Some a" by auto
  then show ?case using Suc.prems by (auto simp: threads_size.simps(2) getThreadHashFactor_def)
qed simp

lemma threads_size_undefined: "mem_mask m \<noteq> -1 \<Longrightarrow> 64 < n \<Longrightarrow> threads_size m n = None"
proof (rule ccontr)
  assume a: "mem_mask m \<noteq> -1" "64 < n" "threads_size m n \<noteq> None"
  then obtain b where "threads_size m n = Some b" by auto
  from threads_size_mono [OF this, of "Suc 64"] a(2) obtain c where "threads_size m (Suc 64) = Some c" by auto
  then have "getThreadHashFactor m 64 \<noteq> None" unfolding threads_size_Suc by auto
  then show False using a(1) by (simp add: getThreadHashFactor_def)
qed

text \<open>C23: the memory that is allocated is what the threads use: every thread's context and its
  scratchpads, one for each hash, lie inside the region, 16-byte aligned, and no two threads overlap.
  Allocation dies, with an exception of the bitset, exactly when a mask limits the hash factor and
  there are more than 64 threads.\<close>

theorem memory_regions_disjoint:
  "case allocate os p m of
     None \<Rightarrow> o_multiHashThreadMask p \<noteq> -1 \<and> 64 < o_threads p
   | Some m' \<Rightarrow> (\<forall>t. t < o_threads p \<longrightarrow> (\<exists>ctx pad f. create m' t = Some (ctx, pad) \<and> getThreadHashFactor m' t = Some f
        \<and> 16 dvd ctx \<and> 16 dvd pad \<and> ctx + sizeof_ctx \<le> pad \<and> pad + scratchPadSize m' * f \<le> mem_memorySize m'
        \<and> (\<forall>t' ctx' pad'. t < t' \<longrightarrow> create m' t' = Some (ctx', pad') \<longrightarrow> pad + scratchPadSize m' * f \<le> ctx')))"
proof (cases "allocate os p m")
  case None
  define m0 where "m0 = m\<lparr>mem_algo := o_algo p, mem_threads := o_threads p, mem_hashFactor := o_hashFactor p,
               mem_mask := o_multiHashThreadMask p, mem_memorySize := 0\<rparr>"
  have "threads_size m0 (o_threads p) = None"
    using None by (auto simp: allocate_def Let_def m0_def split: option.splits if_splits)
  then have "\<not> (mem_mask m0 = -1 \<or> o_threads p \<le> 64)" using threads_size_defined [of m0] by blast
  then show ?thesis using None by (simp add: m0_def)
next
  case (Some m')
  define m0 where "m0 = m\<lparr>mem_algo := o_algo p, mem_threads := o_threads p, mem_hashFactor := o_hashFactor p,
               mem_mask := o_multiHashThreadMask p, mem_memorySize := 0\<rparr>"
  have sz: "threads_size m0 (o_threads p) = Some (mem_memorySize m')"
    using Some by (auto simp: allocate_def Let_def m0_def split: option.splits if_splits)
  have "mem_algo m' = mem_algo m0" "mem_mask m' = mem_mask m0" "mem_hashFactor m' = mem_hashFactor m0"
    using Some by (auto simp: allocate_def Let_def m0_def split: option.splits if_splits)
  then have same: "getThreadHashFactor m' = getThreadHashFactor m0" "scratchPadSize m' = scratchPadSize m0"
    by (auto simp: getThreadHashFactor_def scratchPadSize_def)
  have "threads_size m' i = threads_size m0 i" for i
    by (induction i) (simp_all add: threads_size.simps(2) same split: option.split)
  note same = same this
  have "\<exists>ctx pad f. create m' t = Some (ctx, pad) \<and> getThreadHashFactor m' t = Some f
        \<and> 16 dvd ctx \<and> 16 dvd pad \<and> ctx + sizeof_ctx \<le> pad \<and> pad + scratchPadSize m' * f \<le> mem_memorySize m'
        \<and> (\<forall>t' ctx' pad'. t < t' \<longrightarrow> create m' t' = Some (ctx', pad') \<longrightarrow> pad + scratchPadSize m' * f \<le> ctx')"
    if "t < o_threads p" for t
  proof -
    have le: "Suc t \<le> o_threads p" using that by simp
    obtain b where b: "threads_size m0 (Suc t) = Some b" "b \<le> mem_memorySize m'"
      using threads_size_mono [OF sz le] by auto
    then obtain a f where a: "threads_size m0 t = Some a" "getThreadHashFactor m0 t = Some f" "b = a + sizeof_ctx + scratchPadSize m0 * f"
      by (auto simp: threads_size_Suc)
    have "16 dvd a" "16 dvd sizeof_ctx"
      using threads_size_aligned [OF a(1)] by (simp_all add: sizeof_ctx_def MAX_NUM_HASH_BLOCKS_def)
    moreover have "b \<le> c" if "t < t'" "threads_size m0 t' = Some c" for t' c
      using threads_size_mono [OF that(2), of "Suc t"] that(1) b(1) by auto
    ultimately show ?thesis using a b by (auto simp: create_def same split: option.splits)
  qed
  then show ?thesis using Some by simp
qed

theorem memory_regions_disjoint_witness:
  "fst (the (create (the (allocate \<lparr>mmap_ok = True, mlock_ok = False\<rparr>
     ((Options_init \<lparr>read_json = \<lambda>_. None, defaultConfigName = [], cpu = \<lparr>m_l2_exclusive = False, m_hasAES = True,
        m_l2_cache = 0, m_l3_cache = 0, m_totalThreads = 4\<rparr>, cc_server = False, with_cc = False\<rparr>)
      \<lparr>o_threads := 2, o_hashFactor := 1\<rparr>) Mem_init)) 1)) = 2098208"
proof -
  let ?p = "(Options_init \<lparr>read_json = \<lambda>_. None, defaultConfigName = [], cpu = \<lparr>m_l2_exclusive = False, m_hasAES = True,
        m_l2_cache = 0, m_l3_cache = 0, m_totalThreads = 4\<rparr>, cc_server = False, with_cc = False\<rparr>)
      \<lparr>o_threads := 2, o_hashFactor := 1\<rparr>" and ?os = "\<lparr>mmap_ok = True, mlock_ok = False\<rparr>"
  obtain m where m: "allocate ?os ?p Mem_init = Some m" "mem_mask m = -1" "mem_hashFactor m = 1" "mem_algo m = ALGO_CRYPTONIGHT"
    by (simp add: allocate_def Mem_init_def Options_init_def getThreadHashFactor_def threads_size.simps(2) numeral_2_eq_2 Let_def)
  have "\<forall>t < 2. \<exists>ctx pad. create m t = Some (ctx, pad)"
    using memory_regions_disjoint [where os = ?os and p = ?p and m = Mem_init] m(1) by auto
  from this [rule_format, of 1] obtain ctx pad where "create m 1 = Some (ctx, pad)" by auto
  then show ?thesis using m
    by (simp add: create_def threads_size.simps(2) getThreadHashFactor_def scratchPadSize_def MEMORY_def sizeof_ctx_def
        MAX_NUM_HASH_BLOCKS_def split: option.splits)
qed

text \<open>What was mapped is unmapped, and what was allocated is freed.\<close>

lemma release_matches:
  assumes "allocate os p Mem_init = Some m"
  shows "Munmap \<in> set (release m) \<longleftrightarrow> o_hugePages p \<and> mmap_ok os"
    and "Munlock \<in> set (release m) \<longleftrightarrow> o_hugePages p \<and> mmap_ok os \<and> mlock_ok os"
  using assms by (auto simp: allocate_def release_def Mem_init_def Let_def split: option.splits if_splits)

end
