(* ===== verification/Network.thy ===== *)
theory Network
  imports Strategies_Correct NetworkState Workers_Correct
begin

text \<open>
  The network thread, \<^verbatim>\<open>src/net/Network.cpp\<close>: it owns the pool strategy and the donation,
  hands jobs to the workers and results to the pools. Strategies report to it by a list of events,
  which it handles when the strategy's handler is done; the handlers set their \<open>m_active\<close> before
  they report, so it sees what the nested call would see.
\<close>

section \<open>Strategies\<close>

datatype strategy = Failover failover | Single single_pool

definition isActive :: "strategy \<Rightarrow> bool" where
  "isActive s = (case s of Failover st \<Rightarrow> fo_isActive st | Single st \<Rightarrow> sp_active st)"

definition str_submit :: "uv \<Rightarrow> int \<Rightarrow> strategy \<Rightarrow> JobResult \<Rightarrow> (int \<times> int \<times> strategy) option" where
  "str_submit env q s r =
    (case s of
       Failover st \<Rightarrow> map_option (\<lambda>(v, q, st). (v, q, Failover st)) (fo_submit env q st r)
     | Single st \<Rightarrow> map_option (\<lambda>(v, q, st). (v, q, Single st)) (sp_submit env q st r))"

definition str_connect :: "uv \<Rightarrow> strategy \<Rightarrow> strategy" where
  "str_connect env s = (case s of Failover st \<Rightarrow> Failover (fo_connect env st) | Single st \<Rightarrow> Single (sp_connect env st))"

definition str_resume :: "strategy \<Rightarrow> strategy_event list" where
  "str_resume s = (case s of Failover st \<Rightarrow> fo_resume st | Single st \<Rightarrow> sp_resume st)"

definition str_stop :: "strategy \<Rightarrow> strategy \<times> strategy_event list" where
  "str_stop s = (case s of Failover st \<Rightarrow> (Failover (fst (fo_stop st)), snd (fo_stop st)) | Single st \<Rightarrow> (Single (sp_stop st), []))"

definition str_tick :: "uv \<Rightarrow> u64 \<Rightarrow> strategy \<Rightarrow> strategy" where
  "str_tick env now s = (case s of Failover st \<Rightarrow> Failover (fo_tick env now st) | Single st \<Rightarrow> Single (sp_tick env now st))"

definition ds_submit :: "uv \<Rightarrow> int \<Rightarrow> donate \<times> client \<Rightarrow> JobResult \<Rightarrow> (int \<times> int \<times> donate \<times> client) option" where
  "ds_submit env q = (\<lambda>(st, c) r. case submit env q c r of None \<Rightarrow> None | Some (v, q, c) \<Rightarrow> Some (v, q, st, c))"

definition ds_connect :: "uv \<Rightarrow> donate \<times> client \<Rightarrow> donate \<times> client" where
  "ds_connect env = (\<lambda>(st, c). (st, connect env c))"

definition ds_tick :: "uv \<Rightarrow> u64 \<Rightarrow> donate \<times> client \<Rightarrow> donate \<times> client" where
  "ds_tick env now = (\<lambda>(st, c). (st, tick env now c))"

section \<open>The network\<close>

record network =
  n_strategy :: strategy
  n_donate :: "(donate \<times> client) option"
  n_state :: NetworkState
  n_workers :: workers

definition donating :: "network \<Rightarrow> bool" where
  "donating n = (case n_donate n of None \<Rightarrow> False | Some (st, c) \<Rightarrow> ds_active st)"

definition Network :: "(nat \<Rightarrow> char list \<times> byte list) \<Rightarrow> u64 \<Rightarrow> int \<Rightarrow> string \<Rightarrow> url list \<Rightarrow> int \<Rightarrow> bool \<Rightarrow> workers \<Rightarrow> network" where
  "Network junk junk_time retryPause agent pools donateLevel lite W =
    \<lparr>n_strategy = (if 1 < length pools then Failover (FailoverStrategy junk retryPause agent pools)
                   else Single (SinglePoolStrategy (junk 0) retryPause agent (hd pools))),
     n_donate = (if 0 < donateLevel then Some (DonateStrategy (junk (length pools)) donateLevel lite retryPause agent) else None),
     n_state = NetworkState_new junk_time, n_workers = W\<rparr>"

definition net_connect :: "uv \<Rightarrow> network \<Rightarrow> network" where
  "net_connect env n = n\<lparr>n_strategy := str_connect env (n_strategy n)\<rparr>"

definition net_onActive :: "uv \<Rightarrow> int \<Rightarrow> url \<Rightarrow> network \<Rightarrow> network" where
  "net_onActive env i u n =
    (if i = -1 then n
     else n\<lparr>n_state := setPool (uv_now env) (case m_host u of Some h \<Rightarrow> h | None \<Rightarrow> []) (m_port u) (n_state n)\<rparr>)"

definition net_setJob :: "job \<Rightarrow> network \<Rightarrow> network" where
  "net_setJob job n = n\<lparr>n_state := (n_state n)\<lparr>ns_diff := diff job\<rparr>, n_workers := setJob job (n_workers n)\<rparr>"

definition net_onJob :: "int \<Rightarrow> job \<Rightarrow> network \<Rightarrow> network" where
  "net_onJob i job n = (if donating n \<and> i \<noteq> -1 then n else net_setJob job n)"

definition net_onJobResult :: "uv \<Rightarrow> int \<Rightarrow> JobResult \<Rightarrow> network \<Rightarrow> (int \<times> network) option" where
  "net_onJobResult env q r n =
    (case n_donate n of
       Some d \<Rightarrow>
         if poolId r = -1
         then map_option (\<lambda>(v, q, d). (q, n\<lparr>n_donate := Some d\<rparr>)) (ds_submit env q d r)
         else map_option (\<lambda>(v, q, s). (q, n\<lparr>n_strategy := s\<rparr>)) (str_submit env q (n_strategy n) r)
     | None \<Rightarrow> map_option (\<lambda>(v, q, s). (q, n\<lparr>n_strategy := s\<rparr>)) (str_submit env q (n_strategy n) r))"

text \<open>What \<open>resume\<close> reports is the current job of the active pool.\<close>

definition net_resumed :: "strategy_event list \<Rightarrow> network \<Rightarrow> network" where
  "net_resumed = fold (\<lambda>e n. case e of OnJob i u job \<Rightarrow> net_onJob i job n | _ \<Rightarrow> n)"

definition net_onPause :: "bool \<Rightarrow> network \<Rightarrow> network" where
  "net_onPause from_donate n =
    (let n = (if n_donate n \<noteq> None \<and> from_donate then net_resumed (str_resume (n_strategy n)) n else n)
     in if \<not> isActive (n_strategy n)
        then n\<lparr>n_state := ns_stop (n_state n), n_workers := pause (n_workers n)\<rparr> else n)"

definition net_onResultAccepted :: "SubmitResult \<Rightarrow> string option \<Rightarrow> network \<Rightarrow> network" where
  "net_onResultAccepted r error n = n\<lparr>n_state := ns_add r error (n_state n)\<rparr>"

definition net_event :: "uv \<Rightarrow> bool \<Rightarrow> strategy_event \<Rightarrow> network \<Rightarrow> network" where
  "net_event env from_donate e n =
    (case e of
       OnActive i u \<Rightarrow> net_onActive env i u n
     | OnJob i u job \<Rightarrow> net_onJob i job n
     | OnPause \<Rightarrow> net_onPause from_donate n
     | OnResult i r error \<Rightarrow> net_onResultAccepted r error n)"

definition net_events :: "uv \<Rightarrow> bool \<Rightarrow> strategy_event list \<Rightarrow> network \<Rightarrow> network" where
  "net_events env from_donate = fold (net_event env from_donate)"

definition net_stop :: "uv \<Rightarrow> network \<Rightarrow> network" where
  "net_stop env n =
    (let n = n\<lparr>n_donate := map_option ds_stop (n_donate n)\<rparr>; (s, out) = str_stop (n_strategy n)
     in net_events env False out (n\<lparr>n_strategy := s\<rparr>))"

definition net_tick :: "uv \<Rightarrow> network \<Rightarrow> network" where
  "net_tick env n =
    (let now = uv_now env; n = n\<lparr>n_strategy := str_tick env now (n_strategy n)\<rparr>
     in n\<lparr>n_donate := map_option (ds_tick env now) (n_donate n)\<rparr>)"

section \<open>Steps\<close>

text \<open>
  The loop calls back into a client of the strategy or of the donation, the donation's timer
  fires, a miner's result is delivered, the network ticks, or is told to connect, to stop, or
  whether to mine.
\<close>

inductive net_step :: "network \<Rightarrow> network \<Rightarrow> bool" where
  net_failover_client: "n_strategy n = Failover st \<Longrightarrow> i < length (fo_pools st) \<Longrightarrow>
    client_step (fo_react env retries i) ((st, []), fo_pools st ! i) ((st', out), c') \<Longrightarrow>
    net_step n (net_events env False out (n\<lparr>n_strategy := Failover (pool_update i (\<lambda>_. c') st')\<rparr>))"
| net_single_client: "n_strategy n = Single st \<Longrightarrow>
    client_step sp_react ((sp_active st, []), sp_client st) ((active, out), c') \<Longrightarrow>
    net_step n (net_events env False out (n\<lparr>n_strategy := Single \<lparr>sp_active = active, sp_client = c'\<rparr>\<rparr>))"
| net_donate_client: "n_donate n = Some (st, c) \<Longrightarrow>
    client_step ds_react ((st, []), c) ((st', out), c') \<Longrightarrow>
    net_step n (net_events env True out (n\<lparr>n_donate := Some (st', c')\<rparr>))"
| net_donate_timer: "n_donate n = Some d \<Longrightarrow> ds_onTimer env d = (d', out) \<Longrightarrow>
    net_step n (net_events env True out (n\<lparr>n_donate := Some d'\<rparr>))"
| net_result: "net_onJobResult env q r n = Some (q', n') \<Longrightarrow> net_step n n'"
| net_ticks: "net_step n (net_tick env n)"
| net_connects: "net_step n (net_connect env n)"
| net_stops: "net_step n (net_stop env n)"
| net_enabled: "net_step n (n\<lparr>n_workers := setEnabled b (n_workers n)\<rparr>)"

section \<open>Mining needs a pool\<close>

definition mining_after :: "strategy_event list \<Rightarrow> bool \<Rightarrow> bool" where
  "mining_after = fold (\<lambda>e a. case e of OnJob _ _ _ \<Rightarrow> True | OnPause \<Rightarrow> False | _ \<Rightarrow> a)"

lemma mining_after_simps [simp]:
  "mining_after [] a = a" "mining_after (xs @ ys) a = mining_after ys (mining_after xs a)"
  "mining_after (OnJob i u j # xs) a = mining_after xs True" "mining_after (OnPause # xs) a = mining_after xs False"
  "mining_after (OnActive i u # xs) a = mining_after xs a" "mining_after (OnResult i r m # xs) a = mining_after xs a"
  by (simp_all add: mining_after_def)

lemma w_active_ops [simp]:
  "w_active (setJob job W) = True" "w_active (pause W) = False" "w_active (setEnabled b W) = w_active W"
  by (simp_all add: setJob_def pause_def setEnabled_def Let_def)

lemma pool_update_active [simp]: "fo_active (pool_update i f st) = fo_active st" "fo_isActive (pool_update i f st) = fo_isActive st"
  by (simp_all add: pool_update_def fo_isActive_def)

lemma fo_event_mining:
  "(mining_after out a \<longrightarrow> fo_isActive st) \<Longrightarrow>
    mining_after (out @ snd (fo_event env retries (int i) u e st)) a \<longrightarrow> fo_isActive (fst (fo_event env retries (int i) u e st))"
  by (cases e)
    (auto simp: fo_event_def fo_onClose_def fo_onJobReceived_def fo_onLoginSuccess_def fo_onResultAccepted_def
      fo_isActive_def Let_def disconnect_others)

lemma fo_react_mining: "listener_keeps (\<lambda>(st, out). mining_after out a \<longrightarrow> fo_isActive st) (fo_react env retries i)"
  unfolding listener_keeps_def
proof (intro allI impI)
  fix e c and s :: "failover \<times> strategy_event list"
  assume "case s of (st, out) \<Rightarrow> mining_after out a \<longrightarrow> fo_isActive st"
  then obtain st out where s: "s = (st, out)" "mining_after out a \<longrightarrow> fo_isActive (pool_update i (\<lambda>_. c) st)" by (cases s) auto
  from fo_event_mining [OF s(2), of env retries i "m_url c" e]
  show "case fst (fo_react env retries i e s c) of (st', out') \<Rightarrow> mining_after out' a \<longrightarrow> fo_isActive st'"
    using s by (auto simp: fo_react_def Let_def case_prod_beta')
qed

definition net_ok :: "network \<Rightarrow> bool" where
  "net_ok n \<longleftrightarrow> n_donate n = None \<and> (\<exists>st. n_strategy n = Failover st) \<and> (w_active (n_workers n) \<longrightarrow> isActive (n_strategy n))"

lemma net_event_frame:
  "n_donate n = None \<Longrightarrow> n_donate (net_event env d e n) = None \<and> n_strategy (net_event env d e n) = n_strategy n"
  by (cases e) (simp_all add: net_event_def net_onActive_def net_onJob_def net_setJob_def net_onPause_def
      net_onResultAccepted_def Let_def)

lemma net_events_frame:
  "n_donate n = None \<Longrightarrow> n_donate (net_events env d out n) = None \<and> n_strategy (net_events env d out n) = n_strategy n"
proof (induction out arbitrary: n)
  case (Cons e out)
  then show ?case using net_event_frame [OF Cons.prems, of env d e] by (simp add: net_events_def)
qed (simp add: net_events_def)

lemma net_events_active:
  "n_donate n = None \<Longrightarrow> \<not> isActive (n_strategy n) \<Longrightarrow>
    w_active (n_workers (net_events env d out n)) = mining_after out (w_active (n_workers n))"
proof (induction out arbitrary: n)
  case (Cons e out)
  have "w_active (n_workers (net_event env d e n)) = mining_after [e] (w_active (n_workers n))"
    using Cons.prems
    by (cases e) (simp_all add: net_event_def net_onActive_def net_onJob_def net_setJob_def net_onPause_def
        net_onResultAccepted_def donating_def Let_def)
  then show ?case using Cons.IH [of "net_event env d e n"] net_event_frame [OF Cons.prems(1), of env d e] Cons.prems(2)
    by (cases e) (simp_all add: net_events_def)
qed (simp add: net_events_def)

lemma net_ok_events:
  assumes "n_donate n = None" "n_strategy n = Failover st"
    and "mining_after out (w_active (n_workers n)) \<longrightarrow> fo_isActive st"
  shows "net_ok (net_events env d out n)"
  using assms net_events_frame [OF assms(1), of env d out] net_events_active [OF assms(1), of env d out]
  by (auto simp: net_ok_def isActive_def)

end
