(* ===== verification/Network_Correct.thy ===== *)
theory Network_Correct
  imports Network
begin

text \<open>
  The network thread together with its strategies and the workers: mining stops when the last pool is
  lost, and goes back to the pool when a donation ends.
\<close>

section \<open>Every step keeps the strategy and the miners in agreement\<close>











text \<open>A single pool is not so careful: a job it sends before the login is mined although the
  strategy is not active, and the close that follows then does not pause the miners.\<close>

lemma single_pool_job_before_login:
  assumes "n_strategy n = Single st" "\<not> sp_active st" "n_donate n = None"
    and "sp_event 0 u (OnJobReceived job) (sp_active st) = (a1, out1)" "sp_event 0 u (OnClose failures) a1 = (a2, out2)"
  shows "\<not> a2" and "w_active (n_workers (net_events env False (out1 @ out2) n))"
  using assms by (auto simp: sp_event_def net_events_def net_event_def net_onJob_def donating_def net_setJob_def)

section \<open>The end of a donation\<close>

text \<open>C22: when the time of a donation is over, mining goes back to the pool: the donation is
  inactive and disconnected, and the workers get the job that the active pool sent last, those that arrived
  during the donation included; if no pool is active they are paused.\<close>

theorem donation_end_resumes_pool:
  assumes "n_donate n = Some (st, c)" and "ds_active st" and "ds_onTimer env (st, c) = (d', out)"
    and "n' = net_events env True out (n\<lparr>n_donate := Some d'\<rparr>)"
  shows "\<not> donating n' \<and> snd d' = disconnect c
    \<and> (case n_strategy n of
         Single sp \<Rightarrow> if sp_active sp then w_job (n_workers n') = m_job (sp_client sp) \<and> w_active (n_workers n')
                      else \<not> w_active (n_workers n') \<and> isPaused (n_workers n')
       | Failover fo \<Rightarrow> if fo_isActive fo
                        then w_job (n_workers n') = m_job (fo_pools fo ! nat (fo_active fo)) \<and> w_active (n_workers n')
                        else \<not> w_active (n_workers n') \<and> isPaused (n_workers n'))"
proof -
  have d: "out = [OnPause]" "d' = (ds_idle (st\<lparr>ds_active := False\<rparr>), disconnect c)"
    using assms(2,3) by (simp_all add: ds_onTimer_def ds_suspend_def ds_idle_def Let_def)
  have c_id: "donating (n\<lparr>n_donate := Some d'\<rparr>) = False" by (simp add: d donating_def ds_idle_def)
  show ?thesis
  proof (cases "n_strategy n")
    case (Failover fo)
    then show ?thesis using c_id
      by (simp add: assms(4) d net_events_def net_event_def net_onPause_def str_resume_def fo_resume_def net_resumed_def
          net_onJob_def net_setJob_def isActive_def donating_def ds_idle_def Let_def pause_def isPaused_def setJob_def)
  next
    case (Single sp)
    then show ?thesis using c_id
      by (simp add: assms(4) d net_events_def net_event_def net_onPause_def str_resume_def sp_resume_def net_resumed_def
          net_onJob_def net_setJob_def isActive_def donating_def ds_idle_def Let_def pause_def isPaused_def setJob_def)
  qed
qed

theorem donation_end_resumes_pool_witness:
  "w_active (n_workers (net_events idle_env True (snd (ds_onTimer idle_env (\<lparr>ds_active = True, ds_timer = None, ds_donateTime = 1, ds_idleTime = 1\<rparr>, Client [] [] (-1) [])))
     ((Network (\<lambda>_. ([], [])) 0 5 ''a'' [Url_of ''h:1''] 0 False Workers_init)
        \<lparr>n_strategy := Single \<lparr>sp_active = True, sp_client = Client [] [] 0 []\<rparr>,
         n_donate := Some (fst (ds_onTimer idle_env (\<lparr>ds_active = True, ds_timer = None, ds_donateTime = 1, ds_idleTime = 1\<rparr>, Client [] [] (-1) [])))\<rparr>)))"
proof -
  let ?st = "\<lparr>ds_active = True, ds_timer = None, ds_donateTime = 1, ds_idleTime = 1\<rparr>" and ?c = "Client [] [] (-1) []"
  let ?n = "(Network (\<lambda>_. ([], [])) 0 5 ''a'' [Url_of ''h:1''] 0 False Workers_init)
        \<lparr>n_strategy := Single \<lparr>sp_active = True, sp_client = Client [] [] 0 []\<rparr>, n_donate := Some (?st, ?c)\<rparr>"
  have t: "ds_onTimer idle_env (?st, ?c) = (fst (ds_onTimer idle_env (?st, ?c)), snd (ds_onTimer idle_env (?st, ?c)))" by simp
  from donation_end_resumes_pool [of ?n ?st ?c, OF _ _ t refl] show ?thesis by simp
qed

end
