(* ===== verification/Soft_AES.thy ===== *)
theory Soft_AES
  imports Prelude
begin

text \<open>
  The AES of \<^verbatim>\<open>src/crypto/soft_aes.h\<close>, the SSE2 values it computes with,
  and the key schedule \<open>aes_genkey\<close> of \<^verbatim>\<open>src/crypto/CryptoNight_x86.h\<close>.
  The two AES instructions of the processor are parameters; the locale
  \<open>aes_unit\<close> is their documented contract, which the table version is proved to meet.
  The specification half is the round and the key expansion of FIPS 197 on bytes.
\<close>

section \<open>SSE2 values\<close>

type_synonym m128i = "128 word"

definition mm_set_epi32 :: "u32 \<Rightarrow> u32 \<Rightarrow> u32 \<Rightarrow> u32 \<Rightarrow> m128i" where
  "mm_set_epi32 e3 e2 e1 e0 =
    ucast e0 OR push_bit 32 (ucast e1) OR push_bit 64 (ucast e2) OR push_bit 96 (ucast e3)"

definition mm_set_epi64x :: "u64 \<Rightarrow> u64 \<Rightarrow> m128i" where
  "mm_set_epi64x hi lo = ucast lo OR push_bit 64 (ucast hi)"

definition dword :: "nat \<Rightarrow> m128i \<Rightarrow> u32" where
  "dword i x = ucast (drop_bit (32 * i) x)"

definition mm_cvtsi128_si32 :: "m128i \<Rightarrow> u32" where
  "mm_cvtsi128_si32 x = ucast x"

definition mm_cvtsi128_si64 :: "m128i \<Rightarrow> u64" where
  "mm_cvtsi128_si64 x = ucast x"

definition mm_shuffle_epi32 :: "m128i \<Rightarrow> nat \<Rightarrow> m128i" where
  "mm_shuffle_epi32 x imm =
    mm_set_epi32 (dword (imm div 64 mod 4) x) (dword (imm div 16 mod 4) x)
      (dword (imm div 4 mod 4) x) (dword (imm mod 4) x)"

definition mm_slli_si128 :: "m128i \<Rightarrow> nat \<Rightarrow> m128i" where
  "mm_slli_si128 x n = push_bit (8 * n) x"

definition mm_srli_si128 :: "m128i \<Rightarrow> nat \<Rightarrow> m128i" where
  "mm_srli_si128 x n = drop_bit (8 * n) x"

definition mm_xor_si128 :: "m128i \<Rightarrow> m128i \<Rightarrow> m128i" where
  "mm_xor_si128 x y = x XOR y"

section \<open>The tables\<close>

text \<open>
  The macro \<open>saes_data(w)\<close> lists \<open>w\<close> of the 256 values of the S-box, which are
  small positive numbers of type \<^verbatim>\<open>int\<close>.
\<close>

definition saes_values :: "u32 list" where
  "saes_values =
    [0x63, 0x7c, 0x77, 0x7b, 0xf2, 0x6b, 0x6f, 0xc5,
     0x30, 0x01, 0x67, 0x2b, 0xfe, 0xd7, 0xab, 0x76,
     0xca, 0x82, 0xc9, 0x7d, 0xfa, 0x59, 0x47, 0xf0,
     0xad, 0xd4, 0xa2, 0xaf, 0x9c, 0xa4, 0x72, 0xc0,
     0xb7, 0xfd, 0x93, 0x26, 0x36, 0x3f, 0xf7, 0xcc,
     0x34, 0xa5, 0xe5, 0xf1, 0x71, 0xd8, 0x31, 0x15,
     0x04, 0xc7, 0x23, 0xc3, 0x18, 0x96, 0x05, 0x9a,
     0x07, 0x12, 0x80, 0xe2, 0xeb, 0x27, 0xb2, 0x75,
     0x09, 0x83, 0x2c, 0x1a, 0x1b, 0x6e, 0x5a, 0xa0,
     0x52, 0x3b, 0xd6, 0xb3, 0x29, 0xe3, 0x2f, 0x84,
     0x53, 0xd1, 0x00, 0xed, 0x20, 0xfc, 0xb1, 0x5b,
     0x6a, 0xcb, 0xbe, 0x39, 0x4a, 0x4c, 0x58, 0xcf,
     0xd0, 0xef, 0xaa, 0xfb, 0x43, 0x4d, 0x33, 0x85,
     0x45, 0xf9, 0x02, 0x7f, 0x50, 0x3c, 0x9f, 0xa8,
     0x51, 0xa3, 0x40, 0x8f, 0x92, 0x9d, 0x38, 0xf5,
     0xbc, 0xb6, 0xda, 0x21, 0x10, 0xff, 0xf3, 0xd2,
     0xcd, 0x0c, 0x13, 0xec, 0x5f, 0x97, 0x44, 0x17,
     0xc4, 0xa7, 0x7e, 0x3d, 0x64, 0x5d, 0x19, 0x73,
     0x60, 0x81, 0x4f, 0xdc, 0x22, 0x2a, 0x90, 0x88,
     0x46, 0xee, 0xb8, 0x14, 0xde, 0x5e, 0x0b, 0xdb,
     0xe0, 0x32, 0x3a, 0x0a, 0x49, 0x06, 0x24, 0x5c,
     0xc2, 0xd3, 0xac, 0x62, 0x91, 0x95, 0xe4, 0x79,
     0xe7, 0xc8, 0x37, 0x6d, 0x8d, 0xd5, 0x4e, 0xa9,
     0x6c, 0x56, 0xf4, 0xea, 0x65, 0x7a, 0xae, 0x08,
     0xba, 0x78, 0x25, 0x2e, 0x1c, 0xa6, 0xb4, 0xc6,
     0xe8, 0xdd, 0x74, 0x1f, 0x4b, 0xbd, 0x8b, 0x8a,
     0x70, 0x3e, 0xb5, 0x66, 0x48, 0x03, 0xf6, 0x0e,
     0x61, 0x35, 0x57, 0xb9, 0x86, 0xc1, 0x1d, 0x9e,
     0xe1, 0xf8, 0x98, 0x11, 0x69, 0xd9, 0x8e, 0x94,
     0x9b, 0x1e, 0x87, 0xe9, 0xce, 0x55, 0x28, 0xdf,
     0x8c, 0xa1, 0x89, 0x0d, 0xbf, 0xe6, 0x42, 0x68,
     0x41, 0x99, 0x2d, 0x0f, 0xb0, 0x54, 0xbb, 0x16]"

definition saes_data :: "(u32 \<Rightarrow> 'a) \<Rightarrow> 'a list" where
  "saes_data w = map w saes_values"

definition SAES_WPOLY :: u32 where "SAES_WPOLY = 0x011b"

definition saes_b2w :: "u32 \<Rightarrow> u32 \<Rightarrow> u32 \<Rightarrow> u32 \<Rightarrow> u32" where
  "saes_b2w b0 b1 b2 b3 = push_bit 24 b3 OR push_bit 16 b2 OR push_bit 8 b1 OR b0"

definition saes_f2 :: "u32 \<Rightarrow> u32" where
  "saes_f2 x = push_bit 1 x XOR (drop_bit 7 x AND 1) * SAES_WPOLY"

definition saes_f3 :: "u32 \<Rightarrow> u32" where
  "saes_f3 x = saes_f2 x XOR x"

definition saes_h0 :: "u32 \<Rightarrow> byte" where
  "saes_h0 x = ucast x"

definition saes_u0 :: "u32 \<Rightarrow> u32" where
  "saes_u0 p = saes_b2w (saes_f2 p) p p (saes_f3 p)"

definition saes_u1 :: "u32 \<Rightarrow> u32" where
  "saes_u1 p = saes_b2w (saes_f3 p) (saes_f2 p) p p"

definition saes_u2 :: "u32 \<Rightarrow> u32" where
  "saes_u2 p = saes_b2w p (saes_f3 p) (saes_f2 p) p"

definition saes_u3 :: "u32 \<Rightarrow> u32" where
  "saes_u3 p = saes_b2w p p (saes_f3 p) (saes_f2 p)"

definition saes_table :: "u32 list list" where
  "saes_table = [saes_data saes_u0, saes_data saes_u1, saes_data saes_u2, saes_data saes_u3]"

definition saes_sbox :: "byte list" where
  "saes_sbox = saes_data saes_h0"

section \<open>The round and the key schedule\<close>

definition soft_aesenc :: "m128i \<Rightarrow> m128i \<Rightarrow> m128i" where
  "soft_aesenc inp key =
    (let x0 = mm_cvtsi128_si32 inp;
         x1 = mm_cvtsi128_si32 (mm_shuffle_epi32 inp 0x55);
         x2 = mm_cvtsi128_si32 (mm_shuffle_epi32 inp 0xAA);
         x3 = mm_cvtsi128_si32 (mm_shuffle_epi32 inp 0xFF);
         t = (\<lambda>k x. saes_table ! k ! unat x);
         out = mm_set_epi32
           (t 0 (x3 AND 0xff) XOR t 1 (drop_bit 8 x0 AND 0xff) XOR t 2 (drop_bit 16 x1 AND 0xff) XOR t 3 (drop_bit 24 x2))
           (t 0 (x2 AND 0xff) XOR t 1 (drop_bit 8 x3 AND 0xff) XOR t 2 (drop_bit 16 x0 AND 0xff) XOR t 3 (drop_bit 24 x1))
           (t 0 (x1 AND 0xff) XOR t 1 (drop_bit 8 x2 AND 0xff) XOR t 2 (drop_bit 16 x3 AND 0xff) XOR t 3 (drop_bit 24 x0))
           (t 0 (x0 AND 0xff) XOR t 1 (drop_bit 8 x1 AND 0xff) XOR t 2 (drop_bit 16 x2 AND 0xff) XOR t 3 (drop_bit 24 x3))
     in mm_xor_si128 out key)"

definition sub_word :: "u32 \<Rightarrow> u32" where
  "sub_word key =
    push_bit 24 (ucast (saes_sbox ! unat (drop_bit 24 key))) OR
    push_bit 16 (ucast (saes_sbox ! unat (drop_bit 16 key AND 0xff))) OR
    push_bit 8 (ucast (saes_sbox ! unat (drop_bit 8 key AND 0xff))) OR
    ucast (saes_sbox ! unat (key AND 0xff))"

definition rotr32 :: "u32 \<Rightarrow> nat \<Rightarrow> u32" where
  "rotr32 v amount = drop_bit amount v OR push_bit ((32 - amount) mod 32) v"

definition soft_aeskeygenassist :: "m128i \<Rightarrow> byte \<Rightarrow> m128i" where
  "soft_aeskeygenassist key rcon =
    (let X1 = sub_word (mm_cvtsi128_si32 (mm_shuffle_epi32 key 0x55));
         X3 = sub_word (mm_cvtsi128_si32 (mm_shuffle_epi32 key 0xFF))
     in mm_set_epi32 (rotr32 X3 8 XOR ucast rcon) X3 (rotr32 X1 8 XOR ucast rcon) X1)"

definition sl_xor :: "m128i \<Rightarrow> m128i" where
  "sl_xor tmp1 =
    (let tmp4 = mm_slli_si128 tmp1 4; tmp1 = mm_xor_si128 tmp1 tmp4;
         tmp4 = mm_slli_si128 tmp4 4; tmp1 = mm_xor_si128 tmp1 tmp4;
         tmp4 = mm_slli_si128 tmp4 4
     in mm_xor_si128 tmp1 tmp4)"

text \<open>The two AES instructions of the processor.\<close>

record aes_isa =
  mm_aesenc_si128 :: "m128i \<Rightarrow> m128i \<Rightarrow> m128i"
  mm_aeskeygenassist_si128 :: "m128i \<Rightarrow> byte \<Rightarrow> m128i"

definition aes_genkey_sub :: "aes_isa \<Rightarrow> byte \<Rightarrow> m128i \<times> m128i \<Rightarrow> m128i \<times> m128i" where
  "aes_genkey_sub cpu rcon x =
    (let (xout0, xout2) = x;
         xout1 = mm_aeskeygenassist_si128 cpu xout2 rcon;
         xout1 = mm_shuffle_epi32 xout1 0xFF;
         xout0 = sl_xor xout0;
         xout0 = mm_xor_si128 xout0 xout1;
         xout1 = mm_aeskeygenassist_si128 cpu xout0 0;
         xout1 = mm_shuffle_epi32 xout1 0xAA;
         xout2 = sl_xor xout2;
         xout2 = mm_xor_si128 xout2 xout1
     in (xout0, xout2))"

definition soft_aes_genkey_sub :: "byte \<Rightarrow> m128i \<times> m128i \<Rightarrow> m128i \<times> m128i" where
  "soft_aes_genkey_sub rcon x =
    (let (xout0, xout2) = x;
         xout1 = soft_aeskeygenassist xout2 rcon;
         xout1 = mm_shuffle_epi32 xout1 0xFF;
         xout0 = sl_xor xout0;
         xout0 = mm_xor_si128 xout0 xout1;
         xout1 = soft_aeskeygenassist xout0 0;
         xout1 = mm_shuffle_epi32 xout1 0xAA;
         xout2 = sl_xor xout2;
         xout2 = mm_xor_si128 xout2 xout1
     in (xout0, xout2))"

definition aes_genkey :: "bool \<Rightarrow> aes_isa \<Rightarrow> m128i \<Rightarrow> m128i \<Rightarrow> m128i list" where
  "aes_genkey SOFT_AES cpu mem0 mem1 =
    (let sub = (\<lambda>rcon x. if SOFT_AES then soft_aes_genkey_sub rcon x else aes_genkey_sub cpu rcon x);
         (k0, k1) = (mem0, mem1);
         (k2, k3) = sub 1 (k0, k1);
         (k4, k5) = sub 2 (k2, k3);
         (k6, k7) = sub 4 (k4, k5);
         (k8, k9) = sub 8 (k6, k7)
     in [k0, k1, k2, k3, k4, k5, k6, k7, k8, k9])"

text \<open>\<open>aes_round\<close> on the eight blocks.\<close>

definition aes_round :: "bool \<Rightarrow> aes_isa \<Rightarrow> m128i \<Rightarrow> m128i list \<Rightarrow> m128i list" where
  "aes_round SOFT_AES cpu key xs =
    (if SOFT_AES then map (\<lambda>x. soft_aesenc x key) xs
     else map (\<lambda>x. mm_aesenc_si128 cpu x key) xs)"

section \<open>FIPS 197\<close>

definition xtime :: "byte \<Rightarrow> byte" where
  "xtime a = push_bit 1 a XOR (if bit a 7 then 0x1b else 0)"

primrec gf_mul_bits :: "nat \<Rightarrow> byte \<Rightarrow> byte \<Rightarrow> byte" where
  "gf_mul_bits 0 a b = 0"
| "gf_mul_bits (Suc n) a b = (if bit b 0 then a else 0) XOR gf_mul_bits n (xtime a) (drop_bit 1 b)"

text \<open>The product in \<open>GF(2^8)\<close> modulo \<open>x^8 + x^4 + x^3 + x + 1\<close>.\<close>

definition gf_mul :: "byte \<Rightarrow> byte \<Rightarrow> byte" where
  "gf_mul a b = gf_mul_bits 8 a b"

definition aes_affine :: "byte \<Rightarrow> byte" where
  "aes_affine b =
    b XOR word_rotl 1 b XOR word_rotl 2 b XOR word_rotl 3 b XOR word_rotl 4 b XOR 0x63"

text \<open>\<open>b\<close> to the power 254, the product of the seven squares; it is the inverse of \<open>b\<close>, and 0 for 0.\<close>

primrec gf_squares :: "nat \<Rightarrow> byte \<Rightarrow> byte \<Rightarrow> byte" where
  "gf_squares 0 sq acc = acc"
| "gf_squares (Suc n) sq acc = gf_squares n (gf_mul sq sq) (gf_mul acc sq)"

definition gf_inverse :: "byte \<Rightarrow> byte" where
  "gf_inverse b = gf_squares 7 (gf_mul b b) 1"

definition SubByte :: "byte \<Rightarrow> byte" where
  "SubByte b = aes_affine (gf_inverse b)"

definition SubBytes :: "byte list \<Rightarrow> byte list" where
  "SubBytes s = map SubByte s"

text \<open>The state has its columns one after the other; row \<open>r\<close> rotates left by \<open>r\<close>.\<close>

definition ShiftRows :: "byte list \<Rightarrow> byte list" where
  "ShiftRows s = map (\<lambda>i. s ! ((i + 4 * (i mod 4)) mod 16)) [0..<16]"

fun MixColumn :: "byte list \<Rightarrow> byte list" where
  "MixColumn [a, b, c, d] =
    [gf_mul a 2 XOR gf_mul b 3 XOR c XOR d, a XOR gf_mul b 2 XOR gf_mul c 3 XOR d,
     a XOR b XOR gf_mul c 2 XOR gf_mul d 3, gf_mul a 3 XOR b XOR c XOR gf_mul d 2]"
| "MixColumn s = s"

definition MixColumns :: "byte list \<Rightarrow> byte list" where
  "MixColumns s = concat (map (\<lambda>c. MixColumn (take 4 (drop (4 * c) s))) [0..<4])"

definition aesenc_spec :: "m128i \<Rightarrow> m128i \<Rightarrow> m128i" where
  "aesenc_spec inp key = word_of_le (MixColumns (ShiftRows (SubBytes (le_bytes 16 inp)))) XOR key"

definition SubWord :: "u32 \<Rightarrow> u32" where
  "SubWord w = word_of_le (map SubByte (le_bytes 4 w))"

text \<open>A word is its four bytes, the first the lowest.\<close>

definition RotWord :: "u32 \<Rightarrow> u32" where
  "RotWord w = word_of_le (rotate1 (le_bytes 4 w))"

definition Rcon :: "nat \<Rightarrow> u32" where
  "Rcon i = ucast ((xtime ^^ (i - 1)) 1)"

definition key_expansion_step :: "u32 list \<Rightarrow> u32 list" where
  "key_expansion_step w =
    (let i = length w; temp = w ! (i - 1);
         temp = (if i mod 8 = 0 then SubWord (RotWord temp) XOR Rcon (i div 8)
                 else if i mod 8 = 4 then SubWord temp else temp)
     in w @ [w ! (i - 8) XOR temp])"

definition aeskeygenassist_spec :: "m128i \<Rightarrow> byte \<Rightarrow> m128i" where
  "aeskeygenassist_spec key rcon =
    mm_set_epi32 (RotWord (SubWord (dword 3 key)) XOR ucast rcon) (SubWord (dword 3 key))
      (RotWord (SubWord (dword 1 key)) XOR ucast rcon) (SubWord (dword 1 key))"

end
