(* ===== verification/Soft_AES_Correct.thy ===== *)
theory Soft_AES_Correct
  imports Soft_AES
begin

text \<open>
  The table-driven AES is the AES of FIPS 197: the S-box is the inverse in the
  field followed by the affine map, the four tables are S-box and MixColumns in
  one, so that \<open>soft_aesenc\<close> is the round and \<open>aes_genkey\<close> the first ten round keys
  of the AES-256 key expansion. The proofs go through the bytes of the words.
\<close>

section \<open>Evaluation of the field\<close>

lemma byte_mask: "(a :: byte) AND 0xff = a"
  by (rule bit_word_eqI) (auto simp: bit_simps less_Suc_eq numeral_eq_Suc)

lemma xtime_eval: "xtime a = (push_bit 1 a AND 0xff) XOR (if bit a 7 then 0x1b else 0)"
  by (simp add: xtime_def byte_mask)

lemma rotl_eval:
  "0 < r \<Longrightarrow> r < 8 \<Longrightarrow> word_rotl r (a :: byte) = (push_bit r a AND 0xff) OR drop_bit (8 - r) a"
  using shift_or_is_word_rotl [of r a] by (simp add: byte_mask)

lemma aes_affine_eval:
  "aes_affine b =
    b XOR ((push_bit 1 b AND 0xff) OR drop_bit 7 b) XOR ((push_bit 2 b AND 0xff) OR drop_bit 6 b) XOR
    ((push_bit 3 b AND 0xff) OR drop_bit 5 b) XOR ((push_bit 4 b AND 0xff) OR drop_bit 4 b) XOR 0x63"
  by (simp add: aes_affine_def rotl_eval)

lemma gf_mul_eval:
  "gf_mul a b = gf_mul_bits (Suc (Suc (Suc (Suc (Suc (Suc (Suc (Suc 0)))))))) a b"
  by (simp add: gf_mul_def numeral_eq_Suc)

lemma gf_inverse_eval:
  "gf_inverse b = gf_squares (Suc (Suc (Suc (Suc (Suc (Suc (Suc 0))))))) (gf_mul b b) 1"
  by (simp add: gf_inverse_def numeral_eq_Suc)

lemmas SubByte_eval = SubByte_def aes_affine_eval gf_inverse_eval gf_mul_eval xtime_eval

section \<open>The S-box\<close>

lemma S_box_0:
  "map SubByte [0, 1, 2, 3, 4, 5, 6, 7, 8, 9, 10, 11, 12, 13, 14, 15] =
    [0x63, 0x7c, 0x77, 0x7b, 0xf2, 0x6b, 0x6f, 0xc5, 0x30, 0x01, 0x67, 0x2b, 0xfe, 0xd7, 0xab, 0x76]"
  by (simp add: SubByte_eval)

lemma S_box_1:
  "map SubByte [16, 17, 18, 19, 20, 21, 22, 23, 24, 25, 26, 27, 28, 29, 30, 31] =
    [0xca, 0x82, 0xc9, 0x7d, 0xfa, 0x59, 0x47, 0xf0, 0xad, 0xd4, 0xa2, 0xaf, 0x9c, 0xa4, 0x72, 0xc0]"
  by (simp add: SubByte_eval)

lemma S_box_2:
  "map SubByte [32, 33, 34, 35, 36, 37, 38, 39, 40, 41, 42, 43, 44, 45, 46, 47] =
    [0xb7, 0xfd, 0x93, 0x26, 0x36, 0x3f, 0xf7, 0xcc, 0x34, 0xa5, 0xe5, 0xf1, 0x71, 0xd8, 0x31, 0x15]"
  by (simp add: SubByte_eval)

lemma S_box_3:
  "map SubByte [48, 49, 50, 51, 52, 53, 54, 55, 56, 57, 58, 59, 60, 61, 62, 63] =
    [0x04, 0xc7, 0x23, 0xc3, 0x18, 0x96, 0x05, 0x9a, 0x07, 0x12, 0x80, 0xe2, 0xeb, 0x27, 0xb2, 0x75]"
  by (simp add: SubByte_eval)

lemma S_box_4:
  "map SubByte [64, 65, 66, 67, 68, 69, 70, 71, 72, 73, 74, 75, 76, 77, 78, 79] =
    [0x09, 0x83, 0x2c, 0x1a, 0x1b, 0x6e, 0x5a, 0xa0, 0x52, 0x3b, 0xd6, 0xb3, 0x29, 0xe3, 0x2f, 0x84]"
  by (simp add: SubByte_eval)

lemma S_box_5:
  "map SubByte [80, 81, 82, 83, 84, 85, 86, 87, 88, 89, 90, 91, 92, 93, 94, 95] =
    [0x53, 0xd1, 0x00, 0xed, 0x20, 0xfc, 0xb1, 0x5b, 0x6a, 0xcb, 0xbe, 0x39, 0x4a, 0x4c, 0x58, 0xcf]"
  by (simp add: SubByte_eval)

lemma S_box_6:
  "map SubByte [96, 97, 98, 99, 100, 101, 102, 103, 104, 105, 106, 107, 108, 109, 110, 111] =
    [0xd0, 0xef, 0xaa, 0xfb, 0x43, 0x4d, 0x33, 0x85, 0x45, 0xf9, 0x02, 0x7f, 0x50, 0x3c, 0x9f, 0xa8]"
  by (simp add: SubByte_eval)

lemma S_box_7:
  "map SubByte [112, 113, 114, 115, 116, 117, 118, 119, 120, 121, 122, 123, 124, 125, 126, 127] =
    [0x51, 0xa3, 0x40, 0x8f, 0x92, 0x9d, 0x38, 0xf5, 0xbc, 0xb6, 0xda, 0x21, 0x10, 0xff, 0xf3, 0xd2]"
  by (simp add: SubByte_eval)

lemma S_box_8:
  "map SubByte [128, 129, 130, 131, 132, 133, 134, 135, 136, 137, 138, 139, 140, 141, 142, 143] =
    [0xcd, 0x0c, 0x13, 0xec, 0x5f, 0x97, 0x44, 0x17, 0xc4, 0xa7, 0x7e, 0x3d, 0x64, 0x5d, 0x19, 0x73]"
  by (simp add: SubByte_eval)

lemma S_box_9:
  "map SubByte [144, 145, 146, 147, 148, 149, 150, 151, 152, 153, 154, 155, 156, 157, 158, 159] =
    [0x60, 0x81, 0x4f, 0xdc, 0x22, 0x2a, 0x90, 0x88, 0x46, 0xee, 0xb8, 0x14, 0xde, 0x5e, 0x0b, 0xdb]"
  by (simp add: SubByte_eval)

lemma S_box_10:
  "map SubByte [160, 161, 162, 163, 164, 165, 166, 167, 168, 169, 170, 171, 172, 173, 174, 175] =
    [0xe0, 0x32, 0x3a, 0x0a, 0x49, 0x06, 0x24, 0x5c, 0xc2, 0xd3, 0xac, 0x62, 0x91, 0x95, 0xe4, 0x79]"
  by (simp add: SubByte_eval)

lemma S_box_11:
  "map SubByte [176, 177, 178, 179, 180, 181, 182, 183, 184, 185, 186, 187, 188, 189, 190, 191] =
    [0xe7, 0xc8, 0x37, 0x6d, 0x8d, 0xd5, 0x4e, 0xa9, 0x6c, 0x56, 0xf4, 0xea, 0x65, 0x7a, 0xae, 0x08]"
  by (simp add: SubByte_eval)

lemma S_box_12:
  "map SubByte [192, 193, 194, 195, 196, 197, 198, 199, 200, 201, 202, 203, 204, 205, 206, 207] =
    [0xba, 0x78, 0x25, 0x2e, 0x1c, 0xa6, 0xb4, 0xc6, 0xe8, 0xdd, 0x74, 0x1f, 0x4b, 0xbd, 0x8b, 0x8a]"
  by (simp add: SubByte_eval)

lemma S_box_13:
  "map SubByte [208, 209, 210, 211, 212, 213, 214, 215, 216, 217, 218, 219, 220, 221, 222, 223] =
    [0x70, 0x3e, 0xb5, 0x66, 0x48, 0x03, 0xf6, 0x0e, 0x61, 0x35, 0x57, 0xb9, 0x86, 0xc1, 0x1d, 0x9e]"
  by (simp add: SubByte_eval)

lemma S_box_14:
  "map SubByte [224, 225, 226, 227, 228, 229, 230, 231, 232, 233, 234, 235, 236, 237, 238, 239] =
    [0xe1, 0xf8, 0x98, 0x11, 0x69, 0xd9, 0x8e, 0x94, 0x9b, 0x1e, 0x87, 0xe9, 0xce, 0x55, 0x28, 0xdf]"
  by (simp add: SubByte_eval)

lemma S_box_15:
  "map SubByte [240, 241, 242, 243, 244, 245, 246, 247, 248, 249, 250, 251, 252, 253, 254, 255] =
    [0x8c, 0xa1, 0x89, 0x0d, 0xbf, 0xe6, 0x42, 0x68, 0x41, 0x99, 0x2d, 0x0f, 0xb0, 0x54, 0xbb, 0x16]"
  by (simp add: SubByte_eval)

lemma saes_sbox_blocks: "saes_sbox =
    [0x63, 0x7c, 0x77, 0x7b, 0xf2, 0x6b, 0x6f, 0xc5, 0x30, 0x01, 0x67, 0x2b, 0xfe, 0xd7, 0xab, 0x76] @
    [0xca, 0x82, 0xc9, 0x7d, 0xfa, 0x59, 0x47, 0xf0, 0xad, 0xd4, 0xa2, 0xaf, 0x9c, 0xa4, 0x72, 0xc0] @
    [0xb7, 0xfd, 0x93, 0x26, 0x36, 0x3f, 0xf7, 0xcc, 0x34, 0xa5, 0xe5, 0xf1, 0x71, 0xd8, 0x31, 0x15] @
    [0x04, 0xc7, 0x23, 0xc3, 0x18, 0x96, 0x05, 0x9a, 0x07, 0x12, 0x80, 0xe2, 0xeb, 0x27, 0xb2, 0x75] @
    [0x09, 0x83, 0x2c, 0x1a, 0x1b, 0x6e, 0x5a, 0xa0, 0x52, 0x3b, 0xd6, 0xb3, 0x29, 0xe3, 0x2f, 0x84] @
    [0x53, 0xd1, 0x00, 0xed, 0x20, 0xfc, 0xb1, 0x5b, 0x6a, 0xcb, 0xbe, 0x39, 0x4a, 0x4c, 0x58, 0xcf] @
    [0xd0, 0xef, 0xaa, 0xfb, 0x43, 0x4d, 0x33, 0x85, 0x45, 0xf9, 0x02, 0x7f, 0x50, 0x3c, 0x9f, 0xa8] @
    [0x51, 0xa3, 0x40, 0x8f, 0x92, 0x9d, 0x38, 0xf5, 0xbc, 0xb6, 0xda, 0x21, 0x10, 0xff, 0xf3, 0xd2] @
    [0xcd, 0x0c, 0x13, 0xec, 0x5f, 0x97, 0x44, 0x17, 0xc4, 0xa7, 0x7e, 0x3d, 0x64, 0x5d, 0x19, 0x73] @
    [0x60, 0x81, 0x4f, 0xdc, 0x22, 0x2a, 0x90, 0x88, 0x46, 0xee, 0xb8, 0x14, 0xde, 0x5e, 0x0b, 0xdb] @
    [0xe0, 0x32, 0x3a, 0x0a, 0x49, 0x06, 0x24, 0x5c, 0xc2, 0xd3, 0xac, 0x62, 0x91, 0x95, 0xe4, 0x79] @
    [0xe7, 0xc8, 0x37, 0x6d, 0x8d, 0xd5, 0x4e, 0xa9, 0x6c, 0x56, 0xf4, 0xea, 0x65, 0x7a, 0xae, 0x08] @
    [0xba, 0x78, 0x25, 0x2e, 0x1c, 0xa6, 0xb4, 0xc6, 0xe8, 0xdd, 0x74, 0x1f, 0x4b, 0xbd, 0x8b, 0x8a] @
    [0x70, 0x3e, 0xb5, 0x66, 0x48, 0x03, 0xf6, 0x0e, 0x61, 0x35, 0x57, 0xb9, 0x86, 0xc1, 0x1d, 0x9e] @
    [0xe1, 0xf8, 0x98, 0x11, 0x69, 0xd9, 0x8e, 0x94, 0x9b, 0x1e, 0x87, 0xe9, 0xce, 0x55, 0x28, 0xdf] @
    [0x8c, 0xa1, 0x89, 0x0d, 0xbf, 0xe6, 0x42, 0x68, 0x41, 0x99, 0x2d, 0x0f, 0xb0, 0x54, 0xbb, 0x16]"
  by (simp add: saes_sbox_def saes_data_def saes_h0_def saes_values_def)

lemma all_bytes_blocks: "map word_of_nat [0..<256] = (
    [0, 1, 2, 3, 4, 5, 6, 7, 8, 9, 10, 11, 12, 13, 14, 15] @
    [16, 17, 18, 19, 20, 21, 22, 23, 24, 25, 26, 27, 28, 29, 30, 31] @
    [32, 33, 34, 35, 36, 37, 38, 39, 40, 41, 42, 43, 44, 45, 46, 47] @
    [48, 49, 50, 51, 52, 53, 54, 55, 56, 57, 58, 59, 60, 61, 62, 63] @
    [64, 65, 66, 67, 68, 69, 70, 71, 72, 73, 74, 75, 76, 77, 78, 79] @
    [80, 81, 82, 83, 84, 85, 86, 87, 88, 89, 90, 91, 92, 93, 94, 95] @
    [96, 97, 98, 99, 100, 101, 102, 103, 104, 105, 106, 107, 108, 109, 110, 111] @
    [112, 113, 114, 115, 116, 117, 118, 119, 120, 121, 122, 123, 124, 125, 126, 127] @
    [128, 129, 130, 131, 132, 133, 134, 135, 136, 137, 138, 139, 140, 141, 142, 143] @
    [144, 145, 146, 147, 148, 149, 150, 151, 152, 153, 154, 155, 156, 157, 158, 159] @
    [160, 161, 162, 163, 164, 165, 166, 167, 168, 169, 170, 171, 172, 173, 174, 175] @
    [176, 177, 178, 179, 180, 181, 182, 183, 184, 185, 186, 187, 188, 189, 190, 191] @
    [192, 193, 194, 195, 196, 197, 198, 199, 200, 201, 202, 203, 204, 205, 206, 207] @
    [208, 209, 210, 211, 212, 213, 214, 215, 216, 217, 218, 219, 220, 221, 222, 223] @
    [224, 225, 226, 227, 228, 229, 230, 231, 232, 233, 234, 235, 236, 237, 238, 239] @
    [240, 241, 242, 243, 244, 245, 246, 247, 248, 249, 250, 251, 252, 253, 254, 255] :: byte list)"
  by (simp add: upt_rec)

lemma map_SubByte_all: "map SubByte (map word_of_nat [0..<256]) = saes_sbox"
  by (simp only: all_bytes_blocks saes_sbox_blocks map_append S_box_0 S_box_1 S_box_2 S_box_3 S_box_4 S_box_5
      S_box_6 S_box_7 S_box_8 S_box_9 S_box_10 S_box_11 S_box_12 S_box_13 S_box_14 S_box_15)

lemma unat_byte [simp]: "unat (p :: byte) < 256"
proof -
  have "unat p < 2 ^ LENGTH(8)" by (rule unsigned_less)
  then show ?thesis by simp
qed

lemma SubByte_sbox: "saes_sbox ! unat p = SubByte p"
proof -
  have "saes_sbox ! unat p = map (\<lambda>i. SubByte (word_of_nat i)) [0..<256] ! unat p"
    using map_SubByte_all by (simp add: comp_def)
  then show ?thesis by simp
qed

section \<open>Bytes of words\<close>

lemma word_of_le_xor:
  "length xs = length ys \<Longrightarrow>
    (word_of_le xs :: 'a::len word) XOR word_of_le ys = word_of_le (map2 (XOR) xs ys)"
  by (rule bit_word_eqI) (auto simp: bit_simps bit_word_of_le)

lemma bit_word_high: "LENGTH('a) \<le> n \<Longrightarrow> \<not> bit (w :: 'a::len word) n"
  using bit_imp_le_length [of w n] by auto

lemma bit_mm_set_epi32:
  "bit (mm_set_epi32 d c b a) n \<longleftrightarrow>
    (if n < 32 then bit a n else if n < 64 then bit b (n - 32)
     else if n < 96 then bit c (n - 64) else n < 128 \<and> bit d (n - 96))"
  by (auto simp: mm_set_epi32_def bit_simps bit_word_high)

lemma mm_set_epi32_bytes:
  assumes "length a = 4" "length b = 4" "length c = 4"  "length d = 4"
  shows "mm_set_epi32 (word_of_le d) (word_of_le c) (word_of_le b) (word_of_le a) = word_of_le (a @ b @ c @ d)"
  by (rule bit_word_eqI)
   (auto simp: bit_mm_set_epi32 bit_word_of_le nth_append assms le_div_geq le_mod_geq div_less_iff_less_mult not_less)
    
lemma dword_set [simp]:
  "dword 0 (mm_set_epi32 d c b a) = a" "dword (Suc 0) (mm_set_epi32 d c b a) = b"
  "dword 2 (mm_set_epi32 d c b a) = c" "dword 3 (mm_set_epi32 d c b a) = d"
  by (rule bit_word_eqI; simp add: dword_def bit_mm_set_epi32 bit_simps)+

lemma set_dword: "mm_set_epi32 (dword 3 x) (dword 2 x) (dword (Suc 0) x) (dword 0 x) = x"
  by (rule bit_word_eqI) (auto simp: dword_def bit_mm_set_epi32 bit_simps)

lemma cvtsi32: "mm_cvtsi128_si32 x = dword 0 x"
  by (simp add: mm_cvtsi128_si32_def dword_def)

lemma dword_shuffle [simp]:
  "dword 0 (mm_shuffle_epi32 x imm) = dword (imm mod 4) x"
  by (simp add: mm_shuffle_epi32_def)

lemma shuffle_all:
  "mm_shuffle_epi32 x 0xFF = mm_set_epi32 (dword 3 x) (dword 3 x) (dword 3 x) (dword 3 x)"
  "mm_shuffle_epi32 x 0xAA = mm_set_epi32 (dword 2 x) (dword 2 x) (dword 2 x) (dword 2 x)"
proof -
  have "(0xFF :: nat) div 64 mod 4 = 3" "(0xFF :: nat) div 16 mod 4 = 3" "(0xFF :: nat) div 4 mod 4 = 3"
    "(0xFF :: nat) mod 4 = 3" "(0xAA :: nat) div 64 mod 4 = 2" "(0xAA :: nat) div 16 mod 4 = 2"
    "(0xAA :: nat) div 4 mod 4 = 2" "(0xAA :: nat) mod 4 = 2"
    by simp_all
  then show "mm_shuffle_epi32 x 0xFF = mm_set_epi32 (dword 3 x) (dword 3 x) (dword 3 x) (dword 3 x)"
    "mm_shuffle_epi32 x 0xAA = mm_set_epi32 (dword 2 x) (dword 2 x) (dword 2 x) (dword 2 x)"
    by (simp_all only: mm_shuffle_epi32_def)
qed

lemma set_xor: "mm_set_epi32 d c b a XOR mm_set_epi32 d' c' b' a' =
   mm_set_epi32 (d XOR d') (c XOR c') (b XOR b') (a XOR a')"
  by (rule bit_word_eqI) (simp add: bit_mm_set_epi32 bit_simps)

lemma slli_set: "mm_slli_si128 (mm_set_epi32 d c b a) 4 = mm_set_epi32 c b a 0"
proof (rule bit_word_eqI)
  fix n assume n: "n < LENGTH(128)"
  show "bit (mm_slli_si128 (mm_set_epi32 d c b a) 4) n = bit (mm_set_epi32 c b a 0) n"
  proof (cases "n < 32")
    case False
    then obtain m where "n = m + 32" using le_Suc_ex [of 32 n] by (auto simp: add.commute)
    then show ?thesis using n by (simp add: mm_slli_si128_def bit_mm_set_epi32 bit_simps)
  qed (simp add: mm_slli_si128_def bit_mm_set_epi32 bit_simps)
qed

section \<open>The tables\<close>

lemma saes_values_sbox: "saes_values = map ucast saes_sbox"
  by (simp add: saes_sbox_def saes_data_def saes_h0_def saes_values_def)

lemma length_saes_values [simp]: "length saes_values = 256"
  by (simp add: saes_values_def)

lemma length_saes_sbox [simp]: "length saes_sbox = 256"
  by (simp add: saes_sbox_def saes_data_def)

lemma saes_values_nth: "saes_values ! unat p = ucast (SubByte p)"
proof -
  have "map ucast saes_sbox ! unat p = ucast (saes_sbox ! unat p)" by (rule nth_map) simp
  then show ?thesis using saes_values_sbox SubByte_sbox by metis
qed

lemma saes_f2_byte: "saes_f2 (ucast s) = ucast (xtime s)"
proof -
  have "drop_bit 7 (ucast s :: u32) AND 1 = (if bit s 7 then 1 else 0)"
    by (rule bit_word_eqI) (auto simp: bit_simps intro: gr0I)
  moreover have "push_bit 1 (ucast s :: u32) = ucast (push_bit 1 s) XOR (if bit s 7 then 0x100 else 0)"
  proof (rule bit_word_eqI)
    fix n
    have "(0x100 :: u32) = push_bit 8 1" by simp
    then have "bit (0x100 :: u32) n \<longleftrightarrow> n = 8" by (simp only: bit_simps) auto
    then have c: "bit (if bit s 7 then 0x100 else 0 :: u32) n \<longleftrightarrow> bit s 7 \<and> n = 8" by simp
    have a: "bit (push_bit 1 (ucast s :: u32)) n \<longleftrightarrow> 1 \<le> n \<and> bit s (n - 1)"
      using bit_imp_le_length [of s "n - 1"] by (simp only: bit_simps) auto
    have b: "bit (ucast (push_bit 1 s) :: u32) n \<longleftrightarrow> 1 \<le> n \<and> n < 8 \<and> bit s (n - 1)"
      by (simp only: bit_simps) auto
    have "bit s (n - 1) \<Longrightarrow> n < 8 \<or> n = 8"
      using bit_imp_le_length [of s "n - 1"] by auto
    then show "bit (push_bit 1 (ucast s :: u32)) n \<longleftrightarrow>
      bit (ucast (push_bit 1 s) XOR (if bit s 7 then 0x100 else 0 :: u32)) n"
      unfolding bit_xor_iff a b c by (cases "n = 8") auto
  qed
  ultimately show ?thesis
    by (simp add: saes_f2_def xtime_def SAES_WPOLY_def xor.assoc unsigned_xor_eq)
qed

lemma b2w_bytes:
  "saes_b2w (ucast a) (ucast b) (ucast c) (ucast d) = word_of_le [a, b, c, d]"
  by (rule bit_word_eqI) (auto simp: saes_b2w_def bit_simps )

lemma gf_mul_2: "gf_mul a 2 = xtime a" and gf_mul_3: "gf_mul a 3 = xtime a XOR a"
  by (simp_all add: gf_mul_eval xor.commute)

text \<open>The four tables: one column of MixColumns applied to the S-box.\<close>

lemma saes_data_nth: "saes_data w ! unat p = w (ucast (SubByte p))"
  by (simp add: saes_data_def saes_values_nth)

lemma saes_table_bytes:
  "saes_table ! 0 ! unat p = word_of_le (let s = SubByte p in [gf_mul s 2, s, s, gf_mul s 3])"
  "saes_table ! Suc 0 ! unat p = word_of_le (let s = SubByte p in [gf_mul s 3, gf_mul s 2, s, s])"
  "saes_table ! 2 ! unat p = word_of_le (let s = SubByte p in [s, gf_mul s 3, gf_mul s 2, s])"
  "saes_table ! 3 ! unat p = word_of_le (let s = SubByte p in [s, s, gf_mul s 3, gf_mul s 2])"
  by (simp_all add: saes_table_def saes_data_nth saes_u0_def saes_u1_def saes_u2_def saes_u3_def saes_f3_def
      saes_f2_byte Let_def gf_mul_2 gf_mul_3 b2w_bytes del: word_of_le.simps flip: unsigned_xor_eq)

lemma unat_ucast_byte [simp]: "unat (ucast (p :: byte) :: u32) = unat p"
proof -
  have "unat p < 2 ^ LENGTH(32)" using unat_byte [of p] by (rule less_trans) simp
  then show ?thesis by (simp add: unsigned_ucast_eq take_bit_nat_eq_self_iff)
qed

lemma index_byte: "unat (x AND 0xff :: u32) = unat (ucast x :: byte)"
proof -
  have "(x AND 0xff :: u32) = ucast (ucast x :: byte)"
    by (rule bit_word_eqI) (auto simp: bit_simps less_Suc_eq numeral_eq_Suc)
  then show ?thesis by (simp only: unat_ucast_byte)
qed

lemma index_high: "unat (drop_bit 24 x :: u32) = unat (ucast (drop_bit 24 x) :: byte)"
proof -
  have "(drop_bit 24 x :: u32) = ucast (ucast (drop_bit 24 x) :: byte)"
    by (rule bit_word_eqI) (auto simp: bit_simps dest: bit_imp_le_length)
  then show ?thesis by (metis unat_ucast_byte)
qed

lemma ucast_dword: "ucast (drop_bit k (dword c x)) = (ucast (drop_bit (32 * c + k) x) :: byte)" if "k \<le> 24"
  using that by (auto intro!: bit_word_eqI simp: dword_def bit_simps ac_simps)

lemma ucast_dword_0: "ucast (dword c x) = (ucast (drop_bit (32 * c) x) :: byte)"
  using ucast_dword [of 0 c x] by simp

lemma soft_aesenc_eq: "soft_aesenc inp key = aesenc_spec inp key"
  by (simp add: soft_aesenc_def aesenc_spec_def cvtsi32 Let_def saes_table_bytes index_byte index_high
      ucast_dword ucast_dword_0 mm_xor_si128_def word_of_le_xor mm_set_epi32_bytes SubBytes_def ShiftRows_def
      MixColumns_def le_bytes_def upt_rec xor.assoc del: word_of_le.simps)

section \<open>The key schedule\<close>

lemma le_bytes_4: "le_bytes 4 w = [ucast w, ucast (drop_bit 8 w), ucast (drop_bit 16 w), ucast (drop_bit 24 w)]"
  by (simp add: le_bytes_def upt_rec)

lemma sub_word_eq: "sub_word w = SubWord w"
  by (simp add: sub_word_def SubWord_def le_bytes_4 index_byte index_high SubByte_sbox saes_b2w_def
      del: word_of_le.simps flip: b2w_bytes)

lemma rotr32_bytes: "rotr32 (word_of_le [a, b, c, d]) 8 = word_of_le [b, c, d, a]"
  by (rule bit_word_eqI) (auto simp: rotr32_def bit_simps bit_word_high)

lemma bytes_of_word_of_le: "length bs = 4 \<Longrightarrow> le_bytes 4 (word_of_le bs :: u32) = bs"
  by (rule le_bytes_word_of_le) simp_all

lemma rotr32_eq: "rotr32 w 8 = RotWord w"
proof -
  have "rotr32 (word_of_le (le_bytes 4 w)) 8 = word_of_le (rotate1 (le_bytes 4 w))"
    by (simp only: le_bytes_4 rotr32_bytes rotate1.simps append.simps)
  then show ?thesis by (simp add: RotWord_def word_of_le_bytes)
qed

lemma RotWord_SubWord: "RotWord (SubWord w) = SubWord (RotWord w)"
  by (simp add: RotWord_def SubWord_def bytes_of_word_of_le rotate1_map del: word_of_le.simps)

lemma soft_aeskeygenassist_eq: "soft_aeskeygenassist key rcon = aeskeygenassist_spec key rcon"
  by (simp add: soft_aeskeygenassist_def aeskeygenassist_spec_def cvtsi32 Let_def sub_word_eq rotr32_eq)

definition dwords :: "m128i \<Rightarrow> u32 list" where
  "dwords x = [dword 0 x, dword (Suc 0) x, dword 2 x, dword 3 x]"

lemma sl_xor_set: "sl_xor (mm_set_epi32 d c b a) =
    mm_set_epi32 (d XOR c XOR b XOR a) (c XOR b XOR a) (b XOR a) a"
  by (simp add: sl_xor_def Let_def mm_xor_si128_def slli_set set_xor xor.assoc)

lemma key_expansion_step_append:
  assumes "length ws = 8 * j" and "8 \<le> length xs"
  shows "key_expansion_step (ws @ xs) = ws @ xs @
    [xs ! (length xs - 8) XOR
      (let t = xs ! (length xs - 1) in
       if length xs mod 8 = 0 then SubWord (RotWord t) XOR Rcon (j + length xs div 8)
       else if length xs mod 8 = 4 then SubWord t else t)]"
proof -
  have "(ws @ xs) ! (length ws + length xs - k) = xs ! (length xs - k)" if "k \<le> 8" for k
    using that assms(2) by (metis Nat.add_diff_assoc nth_append_length_plus order_trans)
  then have "(ws @ xs) ! (8 * j + length xs - 8) = xs ! (length xs - 8)"
    "(ws @ xs) ! (8 * j + length xs - Suc 0) = xs ! (length xs - Suc 0)"
    using assms(1) by auto
  then show ?thesis
    using assms(1) by (simp add: key_expansion_step_def Let_def)
qed

lemma funpow_8: "(f ^^ 8) z = f (f (f (f (f (f (f (f z)))))))"
  by (simp add: numeral_eq_Suc)

lemma genkey_sub_expansion:
  assumes "length ws = 8 * j" and "ucast rcon = Rcon (Suc j)"
    and "soft_aes_genkey_sub rcon (x0, x2) = (y0, y2)"
  shows "(key_expansion_step ^^ 8) (ws @ dwords x0 @ dwords x2) = ws @ dwords x0 @ dwords x2 @ dwords y0 @ dwords y2"
proof -
  obtain a0 a1 a2 a3 where a: "x0 = mm_set_epi32 a3 a2 a1 a0" by (metis set_dword)
  obtain b0 b1 b2 b3 where b: "x2 = mm_set_epi32 b3 b2 b1 b0" by (metis set_dword)
  show ?thesis
    using assms(3)
    by (auto simp: soft_aes_genkey_sub_def Let_def a b sl_xor_set soft_aeskeygenassist_eq
      aeskeygenassist_spec_def shuffle_all set_xor mm_xor_si128_def RotWord_SubWord dwords_def
      funpow_8 key_expansion_step_append assms(1) assms(2) [symmetric] Let_def ac_simps) 
qed

lemma Rcon_values: "Rcon (Suc 0) = 1" "Rcon 2 = 2" "Rcon 3 = 4" "Rcon 4 = 8"
proof -
  have "(xtime ^^ 2) 1 = xtime (xtime 1)" "(xtime ^^ 3) 1 = xtime (xtime (xtime 1))"
    by (simp_all add: eval_nat_numeral)
  then show "Rcon (Suc 0) = 1" "Rcon 2 = 2" "Rcon 3 = 4" "Rcon 4 = 8"
    by (simp_all add: Rcon_def xtime_def)
qed

lemma aes_genkey_expansion:
  "concat (map dwords (aes_genkey True cpu mem0 mem1)) = (key_expansion_step ^^ 32) (dwords mem0 @ dwords mem1)"
proof -
  obtain k2 k3 where k2: "soft_aes_genkey_sub 1 (mem0, mem1) = (k2, k3)" by force
  obtain k4 k5 where k4: "soft_aes_genkey_sub 2 (k2, k3) = (k4, k5)" by force
  obtain k6 k7 where k6: "soft_aes_genkey_sub 4 (k4, k5) = (k6, k7)" by force
  obtain k8 k9 where k8: "soft_aes_genkey_sub 8 (k6, k7) = (k8, k9)" by force
  have len: "length (dwords x) = 4" for x by (simp add: dwords_def)
  note step = genkey_sub_expansion [where ws = "[]" and j = 0, OF _ _ k2]
    genkey_sub_expansion [where ws = "dwords mem0 @ dwords mem1" and j = 1, OF _ _ k4]
    genkey_sub_expansion [where ws = "dwords mem0 @ dwords mem1 @ dwords k2 @ dwords k3" and j = 2, OF _ _ k6]
    genkey_sub_expansion [where ws = "dwords mem0 @ dwords mem1 @ dwords k2 @ dwords k3 @ dwords k4 @ dwords k5"
      and j = 3, OF _ _ k8]
  have "(key_expansion_step ^^ 32) z = (key_expansion_step ^^ 8) ((key_expansion_step ^^ 8)
      ((key_expansion_step ^^ 8) ((key_expansion_step ^^ 8) z)))" for z
    by (simp flip: funpow_add [THEN fun_cong, unfolded o_apply])
  then show ?thesis
    using step by (simp add: aes_genkey_def k2 k4 k6 k8 len Rcon_values Rcon_values(2) [unfolded numeral_2_eq_2])
qed

section \<open>The contract of the AES instructions\<close>

text \<open>
  What the processor's two instructions are documented to compute. A hash may use them or
  their replacements: the results are the same.
\<close>

locale aes_unit =
  fixes cpu :: aes_isa
  assumes aesenc_law: "mm_aesenc_si128 cpu x k = aesenc_spec x k"
    and keygenassist_law: "mm_aeskeygenassist_si128 cpu x r = aeskeygenassist_spec x r"
begin

lemma aesenc_soft: "mm_aesenc_si128 cpu x k = soft_aesenc x k"
  by (simp add: aesenc_law soft_aesenc_eq)

lemma genkey_sub_soft: "aes_genkey_sub cpu r x = soft_aes_genkey_sub r x"
  by (simp add: aes_genkey_sub_def soft_aes_genkey_sub_def keygenassist_law soft_aeskeygenassist_eq)

lemma genkey_soft: "aes_genkey False cpu m0 m1 = aes_genkey True other m0 m1"
  by (simp add: aes_genkey_def genkey_sub_soft)

lemma round_soft: "aes_round False cpu k xs = aes_round True other k xs"
  by (simp add: aes_round_def aesenc_soft)

end

definition soft_isa :: aes_isa where
  "soft_isa = \<lparr>mm_aesenc_si128 = soft_aesenc, mm_aeskeygenassist_si128 = soft_aeskeygenassist\<rparr>"

interpretation soft_unit: aes_unit soft_isa
  by unfold_locales (simp_all add: soft_isa_def soft_aesenc_eq soft_aeskeygenassist_eq)

text \<open>C2: the table-driven round \<open>soft_aesenc\<close> is the AES round of FIPS 197: SubBytes (the inverse in
  the field, then the affine map), ShiftRows, MixColumns and the addition of the round key.
\<close>

theorem soft_aesenc_is_fips_round:
  "soft_aesenc inp key = word_of_le (MixColumns (ShiftRows (SubBytes (le_bytes 16 inp)))) XOR key"
  by (simp add: soft_aesenc_eq aesenc_spec_def)

text \<open>C5: the ten round keys that \<open>aes_genkey\<close> computes from two blocks are the first forty words of the
  AES-256 key expansion.
\<close>

theorem aes_genkey_is_key_expansion:
  "concat (map dwords (aes_genkey True cpu mem0 mem1)) =
    (key_expansion_step ^^ 32) (dwords mem0 @ dwords mem1)"
  by (rule aes_genkey_expansion)

end
