(* ===== verification/Jh.thy ===== *)
theory Jh
  imports Prelude
begin

text \<open>
  JH of \<^verbatim>\<open>src/crypto/c_jh.c\<close>: the bit-sliced permutation \<open>E8\<close> on eight rows of two
  words, the compression function \<open>F8\<close>, and the buffered hash. Row \<open>i\<close>, word \<open>j\<close> of the state is
  element \<open>2 i + j\<close> of a list. What \<open>data\<close> points to is a list that may go on behind
  the message.
\<close>

section \<open>Constants\<close>

definition JH224_H0 :: "byte list" where
  "JH224_H0 =
    [0x2d, 0xfe, 0xdd, 0x62, 0xf9, 0x9a, 0x98, 0xac, 0xae, 0x7c, 0xac, 0xd6, 0x19, 0xd6, 0x34, 0xe7,
     0xa4, 0x83, 0x10, 0x5, 0xbc, 0x30, 0x12, 0x16, 0xb8, 0x60, 0x38, 0xc6, 0xc9, 0x66, 0x14, 0x94,
     0x66, 0xd9, 0x89, 0x9f, 0x25, 0x80, 0x70, 0x6f, 0xce, 0x9e, 0xa3, 0x1b, 0x1d, 0x9b, 0x1a, 0xdc,
     0x11, 0xe8, 0x32, 0x5f, 0x7b, 0x36, 0x6e, 0x10, 0xf9, 0x94, 0x85, 0x7f, 0x2, 0xfa, 0x6, 0xc1,
     0x1b, 0x4f, 0x1b, 0x5c, 0xd8, 0xc8, 0x40, 0xb3, 0x97, 0xf6, 0xa1, 0x7f, 0x6e, 0x73, 0x80, 0x99,
     0xdc, 0xdf, 0x93, 0xa5, 0xad, 0xea, 0xa3, 0xd3, 0xa4, 0x31, 0xe8, 0xde, 0xc9, 0x53, 0x9a, 0x68,
     0x22, 0xb4, 0xa9, 0x8a, 0xec, 0x86, 0xa1, 0xe4, 0xd5, 0x74, 0xac, 0x95, 0x9c, 0xe5, 0x6c, 0xf0,
     0x15, 0x96, 0xd, 0xea, 0xb5, 0xab, 0x2b, 0xbf, 0x96, 0x11, 0xdc, 0xf0, 0xdd, 0x64, 0xea, 0x6e]"

definition JH256_H0 :: "byte list" where
  "JH256_H0 =
    [0xeb, 0x98, 0xa3, 0x41, 0x2c, 0x20, 0xd3, 0xeb, 0x92, 0xcd, 0xbe, 0x7b, 0x9c, 0xb2, 0x45, 0xc1,
     0x1c, 0x93, 0x51, 0x91, 0x60, 0xd4, 0xc7, 0xfa, 0x26, 0x0, 0x82, 0xd6, 0x7e, 0x50, 0x8a, 0x3,
     0xa4, 0x23, 0x9e, 0x26, 0x77, 0x26, 0xb9, 0x45, 0xe0, 0xfb, 0x1a, 0x48, 0xd4, 0x1a, 0x94, 0x77,
     0xcd, 0xb5, 0xab, 0x26, 0x2, 0x6b, 0x17, 0x7a, 0x56, 0xf0, 0x24, 0x42, 0xf, 0xff, 0x2f, 0xa8,
     0x71, 0xa3, 0x96, 0x89, 0x7f, 0x2e, 0x4d, 0x75, 0x1d, 0x14, 0x49, 0x8, 0xf7, 0x7d, 0xe2, 0x62,
     0x27, 0x76, 0x95, 0xf7, 0x76, 0x24, 0x8f, 0x94, 0x87, 0xd5, 0xb6, 0x57, 0x47, 0x80, 0x29, 0x6c,
     0x5c, 0x5e, 0x27, 0x2d, 0xac, 0x8e, 0xd, 0x6c, 0x51, 0x84, 0x50, 0xc6, 0x57, 0x5, 0x7a, 0xf,
     0x7b, 0xe4, 0xd3, 0x67, 0x70, 0x24, 0x12, 0xea, 0x89, 0xe3, 0xab, 0x13, 0xd3, 0x1c, 0xd7, 0x69]"

definition JH384_H0 :: "byte list" where
  "JH384_H0 =
    [0x48, 0x1e, 0x3b, 0xc6, 0xd8, 0x13, 0x39, 0x8a, 0x6d, 0x3b, 0x5e, 0x89, 0x4a, 0xde, 0x87, 0x9b,
     0x63, 0xfa, 0xea, 0x68, 0xd4, 0x80, 0xad, 0x2e, 0x33, 0x2c, 0xcb, 0x21, 0x48, 0xf, 0x82, 0x67,
     0x98, 0xae, 0xc8, 0x4d, 0x90, 0x82, 0xb9, 0x28, 0xd4, 0x55, 0xea, 0x30, 0x41, 0x11, 0x42, 0x49,
     0x36, 0xf5, 0x55, 0xb2, 0x92, 0x48, 0x47, 0xec, 0xc7, 0x25, 0xa, 0x93, 0xba, 0xf4, 0x3c, 0xe1,
     0x56, 0x9b, 0x7f, 0x8a, 0x27, 0xdb, 0x45, 0x4c, 0x9e, 0xfc, 0xbd, 0x49, 0x63, 0x97, 0xaf, 0xe,
     0x58, 0x9f, 0xc2, 0x7d, 0x26, 0xaa, 0x80, 0xcd, 0x80, 0xc0, 0x8b, 0x8c, 0x9d, 0xeb, 0x2e, 0xda,
     0x8a, 0x79, 0x81, 0xe8, 0xf8, 0xd5, 0x37, 0x3a, 0xf4, 0x39, 0x67, 0xad, 0xdd, 0xd1, 0x7a, 0x71,
     0xa9, 0xb4, 0xd3, 0xbd, 0xa4, 0x75, 0xd3, 0x94, 0x97, 0x6c, 0x3f, 0xba, 0x98, 0x42, 0x73, 0x7f]"

definition JH512_H0 :: "byte list" where
  "JH512_H0 =
    [0x6f, 0xd1, 0x4b, 0x96, 0x3e, 0x0, 0xaa, 0x17, 0x63, 0x6a, 0x2e, 0x5, 0x7a, 0x15, 0xd5, 0x43,
     0x8a, 0x22, 0x5e, 0x8d, 0xc, 0x97, 0xef, 0xb, 0xe9, 0x34, 0x12, 0x59, 0xf2, 0xb3, 0xc3, 0x61,
     0x89, 0x1d, 0xa0, 0xc1, 0x53, 0x6f, 0x80, 0x1e, 0x2a, 0xa9, 0x5, 0x6b, 0xea, 0x2b, 0x6d, 0x80,
     0x58, 0x8e, 0xcc, 0xdb, 0x20, 0x75, 0xba, 0xa6, 0xa9, 0xf, 0x3a, 0x76, 0xba, 0xf8, 0x3b, 0xf7,
     0x1, 0x69, 0xe6, 0x5, 0x41, 0xe3, 0x4a, 0x69, 0x46, 0xb5, 0x8a, 0x8e, 0x2e, 0x6f, 0xe6, 0x5a,
     0x10, 0x47, 0xa7, 0xd0, 0xc1, 0x84, 0x3c, 0x24, 0x3b, 0x6e, 0x71, 0xb1, 0x2d, 0x5a, 0xc1, 0x99,
     0xcf, 0x57, 0xf6, 0xec, 0x9d, 0xb1, 0xf8, 0x56, 0xa7, 0x6, 0x88, 0x7c, 0x57, 0x16, 0xb1, 0x56,
     0xe3, 0xc2, 0xfc, 0xdf, 0xe6, 0x85, 0x17, 0xfb, 0x54, 0x5a, 0x46, 0x78, 0xcc, 0x8c, 0xdd, 0x4b]"

definition E8_bitslice_roundconstant :: "byte list list" where
  "E8_bitslice_roundconstant =
    [[0x72, 0xd5, 0xde, 0xa2, 0xdf, 0x15, 0xf8, 0x67, 0x7b, 0x84, 0x15, 0xa, 0xb7, 0x23, 0x15, 0x57,
      0x81, 0xab, 0xd6, 0x90, 0x4d, 0x5a, 0x87, 0xf6, 0x4e, 0x9f, 0x4f, 0xc5, 0xc3, 0xd1, 0x2b, 0x40],
     [0xea, 0x98, 0x3a, 0xe0, 0x5c, 0x45, 0xfa, 0x9c, 0x3, 0xc5, 0xd2, 0x99, 0x66, 0xb2, 0x99, 0x9a,
      0x66, 0x2, 0x96, 0xb4, 0xf2, 0xbb, 0x53, 0x8a, 0xb5, 0x56, 0x14, 0x1a, 0x88, 0xdb, 0xa2, 0x31],
     [0x3, 0xa3, 0x5a, 0x5c, 0x9a, 0x19, 0xe, 0xdb, 0x40, 0x3f, 0xb2, 0xa, 0x87, 0xc1, 0x44, 0x10,
      0x1c, 0x5, 0x19, 0x80, 0x84, 0x9e, 0x95, 0x1d, 0x6f, 0x33, 0xeb, 0xad, 0x5e, 0xe7, 0xcd, 0xdc],
     [0x10, 0xba, 0x13, 0x92, 0x2, 0xbf, 0x6b, 0x41, 0xdc, 0x78, 0x65, 0x15, 0xf7, 0xbb, 0x27, 0xd0,
      0xa, 0x2c, 0x81, 0x39, 0x37, 0xaa, 0x78, 0x50, 0x3f, 0x1a, 0xbf, 0xd2, 0x41, 0x0, 0x91, 0xd3],
     [0x42, 0x2d, 0x5a, 0xd, 0xf6, 0xcc, 0x7e, 0x90, 0xdd, 0x62, 0x9f, 0x9c, 0x92, 0xc0, 0x97, 0xce,
      0x18, 0x5c, 0xa7, 0xb, 0xc7, 0x2b, 0x44, 0xac, 0xd1, 0xdf, 0x65, 0xd6, 0x63, 0xc6, 0xfc, 0x23],
     [0x97, 0x6e, 0x6c, 0x3, 0x9e, 0xe0, 0xb8, 0x1a, 0x21, 0x5, 0x45, 0x7e, 0x44, 0x6c, 0xec, 0xa8,
      0xee, 0xf1, 0x3, 0xbb, 0x5d, 0x8e, 0x61, 0xfa, 0xfd, 0x96, 0x97, 0xb2, 0x94, 0x83, 0x81, 0x97],
     [0x4a, 0x8e, 0x85, 0x37, 0xdb, 0x3, 0x30, 0x2f, 0x2a, 0x67, 0x8d, 0x2d, 0xfb, 0x9f, 0x6a, 0x95,
      0x8a, 0xfe, 0x73, 0x81, 0xf8, 0xb8, 0x69, 0x6c, 0x8a, 0xc7, 0x72, 0x46, 0xc0, 0x7f, 0x42, 0x14],
     [0xc5, 0xf4, 0x15, 0x8f, 0xbd, 0xc7, 0x5e, 0xc4, 0x75, 0x44, 0x6f, 0xa7, 0x8f, 0x11, 0xbb, 0x80,
      0x52, 0xde, 0x75, 0xb7, 0xae, 0xe4, 0x88, 0xbc, 0x82, 0xb8, 0x0, 0x1e, 0x98, 0xa6, 0xa3, 0xf4],
     [0x8e, 0xf4, 0x8f, 0x33, 0xa9, 0xa3, 0x63, 0x15, 0xaa, 0x5f, 0x56, 0x24, 0xd5, 0xb7, 0xf9, 0x89,
      0xb6, 0xf1, 0xed, 0x20, 0x7c, 0x5a, 0xe0, 0xfd, 0x36, 0xca, 0xe9, 0x5a, 0x6, 0x42, 0x2c, 0x36],
     [0xce, 0x29, 0x35, 0x43, 0x4e, 0xfe, 0x98, 0x3d, 0x53, 0x3a, 0xf9, 0x74, 0x73, 0x9a, 0x4b, 0xa7,
      0xd0, 0xf5, 0x1f, 0x59, 0x6f, 0x4e, 0x81, 0x86, 0xe, 0x9d, 0xad, 0x81, 0xaf, 0xd8, 0x5a, 0x9f],
     [0xa7, 0x5, 0x6, 0x67, 0xee, 0x34, 0x62, 0x6a, 0x8b, 0xb, 0x28, 0xbe, 0x6e, 0xb9, 0x17, 0x27,
      0x47, 0x74, 0x7, 0x26, 0xc6, 0x80, 0x10, 0x3f, 0xe0, 0xa0, 0x7e, 0x6f, 0xc6, 0x7e, 0x48, 0x7b],
     [0xd, 0x55, 0xa, 0xa5, 0x4a, 0xf8, 0xa4, 0xc0, 0x91, 0xe3, 0xe7, 0x9f, 0x97, 0x8e, 0xf1, 0x9e,
      0x86, 0x76, 0x72, 0x81, 0x50, 0x60, 0x8d, 0xd4, 0x7e, 0x9e, 0x5a, 0x41, 0xf3, 0xe5, 0xb0, 0x62],
     [0xfc, 0x9f, 0x1f, 0xec, 0x40, 0x54, 0x20, 0x7a, 0xe3, 0xe4, 0x1a, 0x0, 0xce, 0xf4, 0xc9, 0x84,
      0x4f, 0xd7, 0x94, 0xf5, 0x9d, 0xfa, 0x95, 0xd8, 0x55, 0x2e, 0x7e, 0x11, 0x24, 0xc3, 0x54, 0xa5],
     [0x5b, 0xdf, 0x72, 0x28, 0xbd, 0xfe, 0x6e, 0x28, 0x78, 0xf5, 0x7f, 0xe2, 0xf, 0xa5, 0xc4, 0xb2,
      0x5, 0x89, 0x7c, 0xef, 0xee, 0x49, 0xd3, 0x2e, 0x44, 0x7e, 0x93, 0x85, 0xeb, 0x28, 0x59, 0x7f],
     [0x70, 0x5f, 0x69, 0x37, 0xb3, 0x24, 0x31, 0x4a, 0x5e, 0x86, 0x28, 0xf1, 0x1d, 0xd6, 0xe4, 0x65,
      0xc7, 0x1b, 0x77, 0x4, 0x51, 0xb9, 0x20, 0xe7, 0x74, 0xfe, 0x43, 0xe8, 0x23, 0xd4, 0x87, 0x8a],
     [0x7d, 0x29, 0xe8, 0xa3, 0x92, 0x76, 0x94, 0xf2, 0xdd, 0xcb, 0x7a, 0x9, 0x9b, 0x30, 0xd9, 0xc1,
      0x1d, 0x1b, 0x30, 0xfb, 0x5b, 0xdc, 0x1b, 0xe0, 0xda, 0x24, 0x49, 0x4f, 0xf2, 0x9c, 0x82, 0xbf],
     [0xa4, 0xe7, 0xba, 0x31, 0xb4, 0x70, 0xbf, 0xff, 0xd, 0x32, 0x44, 0x5, 0xde, 0xf8, 0xbc, 0x48,
      0x3b, 0xae, 0xfc, 0x32, 0x53, 0xbb, 0xd3, 0x39, 0x45, 0x9f, 0xc3, 0xc1, 0xe0, 0x29, 0x8b, 0xa0],
     [0xe5, 0xc9, 0x5, 0xfd, 0xf7, 0xae, 0x9, 0xf, 0x94, 0x70, 0x34, 0x12, 0x42, 0x90, 0xf1, 0x34,
      0xa2, 0x71, 0xb7, 0x1, 0xe3, 0x44, 0xed, 0x95, 0xe9, 0x3b, 0x8e, 0x36, 0x4f, 0x2f, 0x98, 0x4a],
     [0x88, 0x40, 0x1d, 0x63, 0xa0, 0x6c, 0xf6, 0x15, 0x47, 0xc1, 0x44, 0x4b, 0x87, 0x52, 0xaf, 0xff,
      0x7e, 0xbb, 0x4a, 0xf1, 0xe2, 0xa, 0xc6, 0x30, 0x46, 0x70, 0xb6, 0xc5, 0xcc, 0x6e, 0x8c, 0xe6],
     [0xa4, 0xd5, 0xa4, 0x56, 0xbd, 0x4f, 0xca, 0x0, 0xda, 0x9d, 0x84, 0x4b, 0xc8, 0x3e, 0x18, 0xae,
      0x73, 0x57, 0xce, 0x45, 0x30, 0x64, 0xd1, 0xad, 0xe8, 0xa6, 0xce, 0x68, 0x14, 0x5c, 0x25, 0x67],
     [0xa3, 0xda, 0x8c, 0xf2, 0xcb, 0xe, 0xe1, 0x16, 0x33, 0xe9, 0x6, 0x58, 0x9a, 0x94, 0x99, 0x9a,
      0x1f, 0x60, 0xb2, 0x20, 0xc2, 0x6f, 0x84, 0x7b, 0xd1, 0xce, 0xac, 0x7f, 0xa0, 0xd1, 0x85, 0x18],
     [0x32, 0x59, 0x5b, 0xa1, 0x8d, 0xdd, 0x19, 0xd3, 0x50, 0x9a, 0x1c, 0xc0, 0xaa, 0xa5, 0xb4, 0x46,
      0x9f, 0x3d, 0x63, 0x67, 0xe4, 0x4, 0x6b, 0xba, 0xf6, 0xca, 0x19, 0xab, 0xb, 0x56, 0xee, 0x7e],
     [0x1f, 0xb1, 0x79, 0xea, 0xa9, 0x28, 0x21, 0x74, 0xe9, 0xbd, 0xf7, 0x35, 0x3b, 0x36, 0x51, 0xee,
      0x1d, 0x57, 0xac, 0x5a, 0x75, 0x50, 0xd3, 0x76, 0x3a, 0x46, 0xc2, 0xfe, 0xa3, 0x7d, 0x70, 0x1],
     [0xf7, 0x35, 0xc1, 0xaf, 0x98, 0xa4, 0xd8, 0x42, 0x78, 0xed, 0xec, 0x20, 0x9e, 0x6b, 0x67, 0x79,
      0x41, 0x83, 0x63, 0x15, 0xea, 0x3a, 0xdb, 0xa8, 0xfa, 0xc3, 0x3b, 0x4d, 0x32, 0x83, 0x2c, 0x83],
     [0xa7, 0x40, 0x3b, 0x1f, 0x1c, 0x27, 0x47, 0xf3, 0x59, 0x40, 0xf0, 0x34, 0xb7, 0x2d, 0x76, 0x9a,
      0xe7, 0x3e, 0x4e, 0x6c, 0xd2, 0x21, 0x4f, 0xfd, 0xb8, 0xfd, 0x8d, 0x39, 0xdc, 0x57, 0x59, 0xef],
     [0x8d, 0x9b, 0xc, 0x49, 0x2b, 0x49, 0xeb, 0xda, 0x5b, 0xa2, 0xd7, 0x49, 0x68, 0xf3, 0x70, 0xd,
      0x7d, 0x3b, 0xae, 0xd0, 0x7a, 0x8d, 0x55, 0x84, 0xf5, 0xa5, 0xe9, 0xf0, 0xe4, 0xf8, 0x8e, 0x65],
     [0xa0, 0xb8, 0xa2, 0xf4, 0x36, 0x10, 0x3b, 0x53, 0xc, 0xa8, 0x7, 0x9e, 0x75, 0x3e, 0xec, 0x5a,
      0x91, 0x68, 0x94, 0x92, 0x56, 0xe8, 0x88, 0x4f, 0x5b, 0xb0, 0x5c, 0x55, 0xf8, 0xba, 0xbc, 0x4c],
     [0xe3, 0xbb, 0x3b, 0x99, 0xf3, 0x87, 0x94, 0x7b, 0x75, 0xda, 0xf4, 0xd6, 0x72, 0x6b, 0x1c, 0x5d,
      0x64, 0xae, 0xac, 0x28, 0xdc, 0x34, 0xb3, 0x6d, 0x6c, 0x34, 0xa5, 0x50, 0xb8, 0x28, 0xdb, 0x71],
     [0xf8, 0x61, 0xe2, 0xf2, 0x10, 0x8d, 0x51, 0x2a, 0xe3, 0xdb, 0x64, 0x33, 0x59, 0xdd, 0x75, 0xfc,
      0x1c, 0xac, 0xbc, 0xf1, 0x43, 0xce, 0x3f, 0xa2, 0x67, 0xbb, 0xd1, 0x3c, 0x2, 0xe8, 0x43, 0xb0],
     [0x33, 0xa, 0x5b, 0xca, 0x88, 0x29, 0xa1, 0x75, 0x7f, 0x34, 0x19, 0x4d, 0xb4, 0x16, 0x53, 0x5c,
      0x92, 0x3b, 0x94, 0xc3, 0xe, 0x79, 0x4d, 0x1e, 0x79, 0x74, 0x75, 0xd7, 0xb6, 0xee, 0xaf, 0x3f],
     [0xea, 0xa8, 0xd4, 0xf7, 0xbe, 0x1a, 0x39, 0x21, 0x5c, 0xf4, 0x7e, 0x9, 0x4c, 0x23, 0x27, 0x51,
      0x26, 0xa3, 0x24, 0x53, 0xba, 0x32, 0x3c, 0xd2, 0x44, 0xa3, 0x17, 0x4a, 0x6d, 0xa6, 0xd5, 0xad],
     [0xb5, 0x1d, 0x3e, 0xa6, 0xaf, 0xf2, 0xc9, 0x8, 0x83, 0x59, 0x3d, 0x98, 0x91, 0x6b, 0x3c, 0x56,
      0x4c, 0xf8, 0x7c, 0xa1, 0x72, 0x86, 0x60, 0x4d, 0x46, 0xe2, 0x3e, 0xcc, 0x8, 0x6e, 0xc7, 0xf6],
     [0x2f, 0x98, 0x33, 0xb3, 0xb1, 0xbc, 0x76, 0x5e, 0x2b, 0xd6, 0x66, 0xa5, 0xef, 0xc4, 0xe6, 0x2a,
      0x6, 0xf4, 0xb6, 0xe8, 0xbe, 0xc1, 0xd4, 0x36, 0x74, 0xee, 0x82, 0x15, 0xbc, 0xef, 0x21, 0x63],
     [0xfd, 0xc1, 0x4e, 0xd, 0xf4, 0x53, 0xc9, 0x69, 0xa7, 0x7d, 0x5a, 0xc4, 0x6, 0x58, 0x58, 0x26,
      0x7e, 0xc1, 0x14, 0x16, 0x6, 0xe0, 0xfa, 0x16, 0x7e, 0x90, 0xaf, 0x3d, 0x28, 0x63, 0x9d, 0x3f],
     [0xd2, 0xc9, 0xf2, 0xe3, 0x0, 0x9b, 0xd2, 0xc, 0x5f, 0xaa, 0xce, 0x30, 0xb7, 0xd4, 0xc, 0x30,
      0x74, 0x2a, 0x51, 0x16, 0xf2, 0xe0, 0x32, 0x98, 0xd, 0xeb, 0x30, 0xd8, 0xe3, 0xce, 0xf8, 0x9a],
     [0x4b, 0xc5, 0x9e, 0x7b, 0xb5, 0xf1, 0x79, 0x92, 0xff, 0x51, 0xe6, 0x6e, 0x4, 0x86, 0x68, 0xd3,
      0x9b, 0x23, 0x4d, 0x57, 0xe6, 0x96, 0x67, 0x31, 0xcc, 0xe6, 0xa6, 0xf3, 0x17, 0xa, 0x75, 0x5],
     [0xb1, 0x76, 0x81, 0xd9, 0x13, 0x32, 0x6c, 0xce, 0x3c, 0x17, 0x52, 0x84, 0xf8, 0x5, 0xa2, 0x62,
      0xf4, 0x2b, 0xcb, 0xb3, 0x78, 0x47, 0x15, 0x47, 0xff, 0x46, 0x54, 0x82, 0x23, 0x93, 0x6a, 0x48],
     [0x38, 0xdf, 0x58, 0x7, 0x4e, 0x5e, 0x65, 0x65, 0xf2, 0xfc, 0x7c, 0x89, 0xfc, 0x86, 0x50, 0x8e,
      0x31, 0x70, 0x2e, 0x44, 0xd0, 0xb, 0xca, 0x86, 0xf0, 0x40, 0x9, 0xa2, 0x30, 0x78, 0x47, 0x4e],
     [0x65, 0xa0, 0xee, 0x39, 0xd1, 0xf7, 0x38, 0x83, 0xf7, 0x5e, 0xe9, 0x37, 0xe4, 0x2c, 0x3a, 0xbd,
      0x21, 0x97, 0xb2, 0x26, 0x1, 0x13, 0xf8, 0x6f, 0xa3, 0x44, 0xed, 0xd1, 0xef, 0x9f, 0xde, 0xe7],
     [0x8b, 0xa0, 0xdf, 0x15, 0x76, 0x25, 0x92, 0xd9, 0x3c, 0x85, 0xf7, 0xf6, 0x12, 0xdc, 0x42, 0xbe,
      0xd8, 0xa7, 0xec, 0x7c, 0xab, 0x27, 0xb0, 0x7e, 0x53, 0x8d, 0x7d, 0xda, 0xaa, 0x3e, 0xa8, 0xde],
     [0xaa, 0x25, 0xce, 0x93, 0xbd, 0x2, 0x69, 0xd8, 0x5a, 0xf6, 0x43, 0xfd, 0x1a, 0x73, 0x8, 0xf9,
      0xc0, 0x5f, 0xef, 0xda, 0x17, 0x4a, 0x19, 0xa5, 0x97, 0x4d, 0x66, 0x33, 0x4c, 0xfd, 0x21, 0x6a],
     [0x35, 0xb4, 0x98, 0x31, 0xdb, 0x41, 0x15, 0x70, 0xea, 0x1e, 0xf, 0xbb, 0xed, 0xcd, 0x54, 0x9b,
      0x9a, 0xd0, 0x63, 0xa1, 0x51, 0x97, 0x40, 0x72, 0xf6, 0x75, 0x9d, 0xbf, 0x91, 0x47, 0x6f, 0xe2]]"

text \<open>\<^verbatim>\<open>((uint64*)E8_bitslice_roundconstant[r])[j]\<close>\<close>

definition jh_constant :: "nat \<Rightarrow> nat \<Rightarrow> u64" where
  "jh_constant r j = word_of_le (take 8 (drop (8 * j) (E8_bitslice_roundconstant ! r)))"

section \<open>The permutation\<close>

definition SWAP1 :: "u64 \<Rightarrow> u64" where
  "SWAP1 x = push_bit 1 (x AND 0x5555555555555555) OR drop_bit 1 (x AND 0xaaaaaaaaaaaaaaaa)"
definition SWAP2 :: "u64 \<Rightarrow> u64" where
  "SWAP2 x = push_bit 2 (x AND 0x3333333333333333) OR drop_bit 2 (x AND 0xcccccccccccccccc)"
definition SWAP4 :: "u64 \<Rightarrow> u64" where
  "SWAP4 x = push_bit 4 (x AND 0x0f0f0f0f0f0f0f0f) OR drop_bit 4 (x AND 0xf0f0f0f0f0f0f0f0)"
definition SWAP8 :: "u64 \<Rightarrow> u64" where
  "SWAP8 x = push_bit 8 (x AND 0x00ff00ff00ff00ff) OR drop_bit 8 (x AND 0xff00ff00ff00ff00)"
definition SWAP16 :: "u64 \<Rightarrow> u64" where
  "SWAP16 x = push_bit 16 (x AND 0x0000ffff0000ffff) OR drop_bit 16 (x AND 0xffff0000ffff0000)"
definition SWAP32 :: "u64 \<Rightarrow> u64" where
  "SWAP32 x = push_bit 32 x OR drop_bit 32 x"

type_synonym jh_words = "u64 \<times> u64 \<times> u64 \<times> u64 \<times> u64 \<times> u64 \<times> u64 \<times> u64"

definition jh_L :: "jh_words \<Rightarrow> jh_words" where
  "jh_L m =
    (let (m0, m1, m2, m3, m4, m5, m6, m7) = m;
         m4 = m4 XOR m1; m5 = m5 XOR m2; m6 = m6 XOR (m0 XOR m3); m7 = m7 XOR m0;
         m0 = m0 XOR m5; m1 = m1 XOR m6; m2 = m2 XOR (m4 XOR m7); m3 = m3 XOR m4
     in (m0, m1, m2, m3, m4, m5, m6, m7))"

definition jh_SS :: "u64 \<Rightarrow> u64 \<Rightarrow> jh_words \<Rightarrow> jh_words" where
  "jh_SS cc0 cc1 m =
    (let (m0, m1, m2, m3, m4, m5, m6, m7) = m;
         m3 = NOT m3;
         m7 = NOT m7;
         m0 = m0 XOR (NOT m2 AND cc0);
         m4 = m4 XOR (NOT m6 AND cc1);
         temp0 = cc0 XOR (m0 AND m1);
         temp1 = cc1 XOR (m4 AND m5);
         m0 = m0 XOR (m2 AND m3);
         m4 = m4 XOR (m6 AND m7);
         m3 = m3 XOR (NOT m1 AND m2);
         m7 = m7 XOR (NOT m5 AND m6);
         m1 = m1 XOR (m0 AND m2);
         m5 = m5 XOR (m4 AND m6);
         m2 = m2 XOR (m0 AND NOT m3);
         m6 = m6 XOR (m4 AND NOT m7);
         m0 = m0 XOR (m1 OR m3);
         m4 = m4 XOR (m5 OR m7);
         m3 = m3 XOR (m1 AND m2);
         m7 = m7 XOR (m5 AND m6);
         m1 = m1 XOR (temp0 AND m0);
         m5 = m5 XOR (temp1 AND m4);
         m2 = m2 XOR temp0;
         m6 = m6 XOR temp1
     in (m0, m1, m2, m3, m4, m5, m6, m7))"

text \<open>
  The body of the loops over \<open>i\<close> in round \<open>r\<close>: the rows 0, 2, 4, 6, 1, 3, 5, 7 of column \<open>i\<close> go through
  \<open>SS\<close> and \<open>L\<close>, then the odd rows through the swap of the round.
\<close>

definition jh_column :: "(u64 \<Rightarrow> u64) \<Rightarrow> nat \<Rightarrow> nat \<Rightarrow> u64 list \<Rightarrow> u64 list" where
  "jh_column swap r i x =
    (let m = (x ! i, x ! (4 + i), x ! (8 + i), x ! (12 + i), x ! (2 + i), x ! (6 + i), x ! (10 + i), x ! (14 + i));
         m = jh_SS (jh_constant r i) (jh_constant r (i + 2)) m;
         (m0, m1, m2, m3, m4, m5, m6, m7) = jh_L m
     in x[i := m0, 4 + i := m1, 8 + i := m2, 12 + i := m3,
          2 + i := swap m4, 6 + i := swap m5, 10 + i := swap m6, 14 + i := swap m7])"

definition jh_round :: "(u64 \<Rightarrow> u64) \<Rightarrow> nat \<Rightarrow> u64 list \<Rightarrow> u64 list" where
  "jh_round swap r x = jh_column swap r 1 (jh_column swap r 0 x)"

text \<open>The loop over the odd rows that exchanges their two words.\<close>

definition jh_exchange :: "u64 list \<Rightarrow> u64 list" where
  "jh_exchange x = fold (\<lambda>i x. x[2 * i := x ! (2 * i + 1), 2 * i + 1 := x ! (2 * i)]) [1, 3, 5, 7] x"

definition jh_seven :: "nat \<Rightarrow> u64 list \<Rightarrow> u64 list" where
  "jh_seven roundnumber x =
    (let x = jh_round SWAP1 (roundnumber + 0) x;
         x = jh_round SWAP2 (roundnumber + 1) x;
         x = jh_round SWAP4 (roundnumber + 2) x;
         x = jh_round SWAP8 (roundnumber + 3) x;
         x = jh_round SWAP16 (roundnumber + 4) x;
         x = jh_round SWAP32 (roundnumber + 5) x;
         x = jh_round id (roundnumber + 6) x
     in jh_exchange x)"

definition E8 :: "u64 list \<Rightarrow> u64 list" where
  "E8 x = fold jh_seven [0, 7, 14, 21, 28, 35] x"

section \<open>The hash\<close>

record jh_state =
  jh_hashbitlen :: nat
  jh_databitlen :: u64
  datasize_in_buffer :: nat
  jh_x :: "u64 list"
  jh_buffer :: "byte list"

definition jh_words_of :: "byte list \<Rightarrow> u64 list" where
  "jh_words_of bs = map (\<lambda>i. word_of_le (take 8 (drop (8 * i) bs))) [0..<length bs div 8]"

definition F8 :: "jh_state \<Rightarrow> jh_state" where
  "F8 S =
    (let w = jh_words_of (jh_buffer S);
         x = fold (\<lambda>i. xor_at i (w ! i)) [0..<8] (jh_x S);
         x = E8 x;
         x = fold (\<lambda>i. xor_at (8 + i) (w ! i)) [0..<8] x
     in S\<lparr>jh_x := x\<rparr>)"

definition jh_Init :: "jh_state \<Rightarrow> nat \<Rightarrow> jh_state" where
  "jh_Init S hashbitlen =
    (let S = S\<lparr>jh_databitlen := 0, datasize_in_buffer := 0, jh_hashbitlen := hashbitlen\<rparr>
     in if hashbitlen = 224 then S\<lparr>jh_x := jh_words_of JH224_H0\<rparr>
        else if hashbitlen = 256 then S\<lparr>jh_x := jh_words_of JH256_H0\<rparr>
        else if hashbitlen = 384 then S\<lparr>jh_x := jh_words_of JH384_H0\<rparr>
        else if hashbitlen = 512 then S\<lparr>jh_x := jh_words_of JH512_H0\<rparr>
        else S)"

definition jh_memcpy :: "nat \<Rightarrow> byte list \<Rightarrow> nat \<Rightarrow> jh_state \<Rightarrow> jh_state" where
  "jh_memcpy off data n S =
    S\<lparr>jh_buffer := take off (jh_buffer S) @ take n data @ drop (off + n) (jh_buffer S)\<rparr>"

function jh_blocks :: "jh_state \<Rightarrow> byte list \<Rightarrow> nat \<Rightarrow> jh_state \<times> byte list \<times> nat" where
  "jh_blocks S data databitlen =
    (if 512 \<le> databitlen then jh_blocks (F8 (jh_memcpy 0 data 64 S)) (drop 64 data) (databitlen - 512)
     else (S, data, databitlen))"
  by pat_completeness auto
termination
  by (relation "measure (\<lambda>(S, data, databitlen). databitlen)") auto

declare jh_blocks.simps [simp del]

text \<open>
  \<open>None\<close> is a copy outside of the arrays: data that does not fill the block is copied as if it did, so that it
  may be read behind its end, and with a partial byte one byte more than the buffer has left is written.
\<close>

definition jh_Update :: "jh_state \<Rightarrow> byte list \<Rightarrow> nat \<Rightarrow> jh_state option" where
  "jh_Update S data databitlen =
    (let S = S\<lparr>jh_databitlen := jh_databitlen S + of_nat databitlen\<rparr>;
         have = datasize_in_buffer S
     in if have > 0 \<and> have + databitlen < 512 \<and> (databitlen mod 8 \<noteq> 0 \<or> length data < 64 - have div 8) then None
        else
          let (S, databitlen) =
                (if have > 0 \<and> have + databitlen < 512 then
                   ((jh_memcpy (have div 8) data (64 - have div 8) S)\<lparr>datasize_in_buffer := have + databitlen\<rparr>, 0)
                 else (S, databitlen));
              have = datasize_in_buffer S;
              (S, data, databitlen) =
                (if have > 0 \<and> have + databitlen \<ge> 512 then
                   ((F8 (jh_memcpy (have div 8) data (64 - have div 8) S))\<lparr>datasize_in_buffer := 0\<rparr>,
                    drop (64 - have div 8) data, databitlen - (512 - have))
                 else (S, data, databitlen));
              (S, data, databitlen) = jh_blocks S data databitlen
          in Some (if databitlen > 0 then
                     (jh_memcpy 0 data (databitlen mod 512 div 8 + (if databitlen mod 8 = 0 then 0 else 1)) S)
                       \<lparr>datasize_in_buffer := databitlen\<rparr>
                   else S))"

text \<open>\<^verbatim>\<open>memset\<close> and the eight stores of the length.\<close>

definition jh_length_block :: "byte \<Rightarrow> jh_state \<Rightarrow> jh_state" where
  "jh_length_block first S =
    S\<lparr>jh_buffer := first # replicate 55 0 @ be_bytes 8 (jh_databitlen S)\<rparr>"

definition jh_Final :: "jh_state \<Rightarrow> byte list" where
  "jh_Final S =
    (let rest = unat (jh_databitlen S AND 0x1ff);
         S = (if rest = 0 then F8 (jh_length_block 0x80 S)
              else
                let i = rest div 8 + (if datasize_in_buffer S mod 8 = 0 then 0 else 1);
                    b = take i (jh_buffer S) @ replicate (64 - i) 0;
                    b = b[rest div 8 := b ! (rest div 8) OR push_bit (7 - unat (jh_databitlen S AND 7)) 1];
                    S = F8 (S\<lparr>jh_buffer := b\<rparr>)
                in F8 (jh_length_block 0 S));
         h = concat (map (le_bytes 8) (jh_x S))
     in if jh_hashbitlen S = 224 then take 28 (drop (64 + 36) h)
        else if jh_hashbitlen S = 256 then take 32 (drop (64 + 32) h)
        else if jh_hashbitlen S = 384 then take 48 (drop (64 + 16) h)
        else if jh_hashbitlen S = 512 then take 64 (drop 64 h)
        else [])"

text \<open>\<open>None\<close> is \<^verbatim>\<open>BAD_HASHLEN\<close>; \<open>junk\<close> is what the context holds on the stack.\<close>

definition jh_hash :: "jh_state \<Rightarrow> nat \<Rightarrow> byte list \<Rightarrow> nat \<Rightarrow> byte list option" where
  "jh_hash junk hashbitlen data databitlen =
    (if hashbitlen = 224 \<or> hashbitlen = 256 \<or> hashbitlen = 384 \<or> hashbitlen = 512
     then map_option jh_Final (jh_Update (jh_Init junk hashbitlen) data databitlen)
     else None)"

end
