(* ===== verification/Skein.thy ===== *)
theory Skein
  imports Keccak
begin

text \<open>
  Skein-512 of \<^verbatim>\<open>src/crypto/c_skein.c\<close>: the Threefish rounds of the block function on a
  list of eight words, the context with its lazily emptied buffer, and the calls built on it.
  \<^verbatim>\<open>SKEIN_LOOP\<close> is 1, so the rounds are the unrolled ones, the asserts are off and the byte
  order is little-endian. Byte counts are natural numbers. The specification half is the chaining of
  whole blocks (UBI) over a message, which the buffered calls are proved to compute.
\<close>

section \<open>Constants\<close>

definition SKEIN_T1_FLAG_FIRST :: u64 where "SKEIN_T1_FLAG_FIRST = push_bit 62 1"
definition SKEIN_T1_FLAG_FINAL :: u64 where "SKEIN_T1_FLAG_FINAL = push_bit 63 1"
definition SKEIN_T1_FLAG_BIT_PAD :: u64 where "SKEIN_T1_FLAG_BIT_PAD = push_bit 55 1"
definition SKEIN_T1_BLK_TYPE_CFG :: u64 where "SKEIN_T1_BLK_TYPE_CFG = push_bit 56 4"
definition SKEIN_T1_BLK_TYPE_MSG :: u64 where "SKEIN_T1_BLK_TYPE_MSG = push_bit 56 48"
definition SKEIN_T1_BLK_TYPE_OUT :: u64 where "SKEIN_T1_BLK_TYPE_OUT = push_bit 56 63"

definition SKEIN_T1_BLK_TYPE_CFG_FINAL :: u64 where
  "SKEIN_T1_BLK_TYPE_CFG_FINAL = SKEIN_T1_BLK_TYPE_CFG OR SKEIN_T1_FLAG_FINAL"
definition SKEIN_T1_BLK_TYPE_OUT_FINAL :: u64 where
  "SKEIN_T1_BLK_TYPE_OUT_FINAL = SKEIN_T1_BLK_TYPE_OUT OR SKEIN_T1_FLAG_FINAL"

definition SKEIN_MK_64 :: "u64 \<Rightarrow> u64 \<Rightarrow> u64" where
  "SKEIN_MK_64 hi32 lo32 = lo32 + push_bit 32 hi32"

definition SKEIN_SCHEMA_VER :: u64 where "SKEIN_SCHEMA_VER = SKEIN_MK_64 1 0x33414853"
definition SKEIN_KS_PARITY :: u64 where "SKEIN_KS_PARITY = SKEIN_MK_64 0x1BD11BDA 0xA9FC1A22"

definition SKEIN_CFG_STR_LEN :: nat where "SKEIN_CFG_STR_LEN = 4 * 8"
definition SKEIN_CFG_TREE_INFO_SEQUENTIAL :: u64 where "SKEIN_CFG_TREE_INFO_SEQUENTIAL = 0"

definition SKEIN_512_IV_256 :: "u64 list" where
  "SKEIN_512_IV_256 =
    [SKEIN_MK_64 0xCCD044A1 0x2FDB3E13, SKEIN_MK_64 0xE8359030 0x1A79A9EB,
     SKEIN_MK_64 0x55AEA061 0x4F816E6F, SKEIN_MK_64 0x2A2767A4 0xAE9B94DB,
     SKEIN_MK_64 0xEC06025E 0x74DD7683, SKEIN_MK_64 0xE7A436CD 0xC4746251,
     SKEIN_MK_64 0xC36FBAF9 0x393AD185, SKEIN_MK_64 0x3EEDBA18 0x33EDFC13]"

section \<open>The block function\<close>

record Skein_512_Ctxt =
  hashBitLen :: nat
  bCnt :: nat
  T0 :: u64
  T1 :: u64
  chain_X :: "u64 list"
  skein_b :: "byte list"

text \<open>One of the four additions of \<^verbatim>\<open>Round512\<close>, then the round, on the words in place.\<close>

definition skein_mix :: "nat \<Rightarrow> nat \<Rightarrow> nat \<Rightarrow> u64 list \<Rightarrow> u64 list" where
  "skein_mix p q r X =
    (let X = X[p := X ! p + X ! q]; X = X[q := rotl64 (X ! q) r] in X[q := X ! q XOR X ! p])"

definition Round512 :: "nat \<Rightarrow> nat \<Rightarrow> nat \<Rightarrow> nat \<Rightarrow> nat \<Rightarrow> nat \<Rightarrow> nat \<Rightarrow> nat \<Rightarrow>
    nat \<times> nat \<times> nat \<times> nat \<Rightarrow> u64 list \<Rightarrow> u64 list" where
  "Round512 p0 p1 p2 p3 p4 p5 p6 p7 ROT X =
    (let (r0, r1, r2, r3) = ROT;
         X = skein_mix p0 p1 r0 X; X = skein_mix p2 p3 r1 X; X = skein_mix p4 p5 r2 X
     in skein_mix p6 p7 r3 X)"

definition I512 :: "u64 list \<Rightarrow> u64 list \<Rightarrow> nat \<Rightarrow> u64 list \<Rightarrow> u64 list" where
  "I512 ks ts R X =
    [X ! 0 + ks ! ((R + 1) mod 9), X ! 1 + ks ! ((R + 2) mod 9), X ! 2 + ks ! ((R + 3) mod 9),
     X ! 3 + ks ! ((R + 4) mod 9), X ! 4 + ks ! ((R + 5) mod 9),
     X ! 5 + (ks ! ((R + 6) mod 9) + ts ! ((R + 1) mod 3)),
     X ! 6 + (ks ! ((R + 7) mod 9) + ts ! ((R + 2) mod 3)),
     X ! 7 + (ks ! ((R + 8) mod 9) + of_nat R + 1)]"

definition R512_8_rounds :: "u64 list \<Rightarrow> u64 list \<Rightarrow> nat \<Rightarrow> u64 list \<Rightarrow> u64 list" where
  "R512_8_rounds ks ts R X =
    (let X = Round512 0 1 2 3 4 5 6 7 (46, 36, 19, 37) X;
         X = Round512 2 1 4 7 6 5 0 3 (33, 27, 14, 42) X;
         X = Round512 4 1 6 3 0 5 2 7 (17, 49, 36, 39) X;
         X = Round512 6 1 0 7 2 5 4 3 (44, 9, 54, 56) X;
         X = I512 ks ts (2 * R) X;
         X = Round512 0 1 2 3 4 5 6 7 (39, 30, 34, 24) X;
         X = Round512 2 1 4 7 6 5 0 3 (13, 50, 10, 17) X;
         X = Round512 4 1 6 3 0 5 2 7 (25, 29, 39, 43) X;
         X = Round512 6 1 0 7 2 5 4 3 (8, 35, 56, 22) X
     in I512 ks ts (2 * R + 1) X)"

text \<open>\<^verbatim>\<open>Skein_Get64_LSB_First\<close> and \<^verbatim>\<open>Skein_Put64_LSB_First\<close> copy bytes.\<close>

definition Skein_Get64_LSB_First :: "byte list \<Rightarrow> nat \<Rightarrow> u64 list" where
  "Skein_Get64_LSB_First src wCnt = map (\<lambda>i. word_of_le (take 8 (drop (8 * i) src))) [0..<wCnt]"

definition Skein_Put64_LSB_First :: "u64 list \<Rightarrow> nat \<Rightarrow> byte list" where
  "Skein_Put64_LSB_First src n = take n (state_bytes src)"

text \<open>One pass of the loop of \<^verbatim>\<open>Skein_512_Process_Block\<close>; the tweak is kept in the context.\<close>

definition skein_block :: "Skein_512_Ctxt \<Rightarrow> byte list \<Rightarrow> nat \<Rightarrow> Skein_512_Ctxt" where
  "skein_block ctx blk byteCntAdd =
    (let t0 = T0 ctx + of_nat byteCntAdd; t1 = T1 ctx;
         k = chain_X ctx;
         ks = k @ [k ! 0 XOR k ! 1 XOR k ! 2 XOR k ! 3 XOR k ! 4 XOR k ! 5 XOR k ! 6 XOR k ! 7 XOR SKEIN_KS_PARITY];
         ts = [t0, t1, t0 XOR t1];
         w = Skein_Get64_LSB_First blk 8;
         X = [w ! 0 + ks ! 0, w ! 1 + ks ! 1, w ! 2 + ks ! 2, w ! 3 + ks ! 3, w ! 4 + ks ! 4,
              w ! 5 + ks ! 5 + ts ! 0, w ! 6 + ks ! 6 + ts ! 1, w ! 7 + ks ! 7];
         X = fold (R512_8_rounds ks ts) [0..<9] X
     in ctx\<lparr>chain_X := [X ! 0 XOR w ! 0, X ! 1 XOR w ! 1, X ! 2 XOR w ! 2, X ! 3 XOR w ! 3,
                       X ! 4 XOR w ! 4, X ! 5 XOR w ! 5, X ! 6 XOR w ! 6, X ! 7 XOR w ! 7],
            T0 := t0, T1 := t1 AND NOT SKEIN_T1_FLAG_FIRST\<rparr>)"

text \<open>A \<^verbatim>\<open>do\<close> loop: every call has a positive count.\<close>

fun Skein_512_Process_Block :: "Skein_512_Ctxt \<Rightarrow> byte list \<Rightarrow> nat \<Rightarrow> nat \<Rightarrow> Skein_512_Ctxt" where
  "Skein_512_Process_Block ctx blk 0 byteCntAdd = ctx"
| "Skein_512_Process_Block ctx blk (Suc blkCnt) byteCntAdd =
    Skein_512_Process_Block (skein_block ctx (take 64 blk) byteCntAdd) (drop 64 blk) blkCnt byteCntAdd"

section \<open>The context\<close>

definition Skein_Start_New_Type :: "Skein_512_Ctxt \<Rightarrow> u64 \<Rightarrow> Skein_512_Ctxt" where
  "Skein_Start_New_Type ctx ty = ctx\<lparr>T0 := 0, T1 := SKEIN_T1_FLAG_FIRST OR ty, bCnt := 0\<rparr>"

definition Skein_512_Init :: "Skein_512_Ctxt \<Rightarrow> nat \<Rightarrow> Skein_512_Ctxt" where
  "Skein_512_Init ctx bits =
    (let ctx = ctx\<lparr>hashBitLen := bits\<rparr>;
         ctx = (if bits = 256 then ctx\<lparr>chain_X := SKEIN_512_IV_256\<rparr>
                else let ctx = Skein_Start_New_Type ctx SKEIN_T1_BLK_TYPE_CFG_FINAL;
                         cfg = state_bytes ([SKEIN_SCHEMA_VER, of_nat bits, SKEIN_CFG_TREE_INFO_SEQUENTIAL] @ replicate 5 0);
                         ctx = ctx\<lparr>chain_X := replicate 8 0\<rparr>
                     in Skein_512_Process_Block ctx cfg 1 SKEIN_CFG_STR_LEN)
     in Skein_Start_New_Type ctx SKEIN_T1_BLK_TYPE_MSG)"

text \<open>\<^verbatim>\<open>memcpy(&ctx->b[bCnt], msg, n)\<close>\<close>

definition skein_fill :: "Skein_512_Ctxt \<Rightarrow> byte list \<Rightarrow> Skein_512_Ctxt" where
  "skein_fill ctx bs =
    ctx\<lparr>skein_b := take (bCnt ctx) (skein_b ctx) @ bs @ drop (bCnt ctx + length bs) (skein_b ctx),
        bCnt := bCnt ctx + length bs\<rparr>"

definition Skein_512_Update :: "Skein_512_Ctxt \<Rightarrow> byte list \<Rightarrow> nat \<Rightarrow> Skein_512_Ctxt" where
  "Skein_512_Update ctx msg msgByteCnt =
    (let (ctx, msg, msgByteCnt) =
           (if msgByteCnt + bCnt ctx > 64 then
              let (ctx, msg, msgByteCnt) =
                    (if bCnt ctx \<noteq> 0 then
                       let n = 64 - bCnt ctx;
                           (ctx, msg, msgByteCnt) =
                             (if n \<noteq> 0 then (skein_fill ctx (take n msg), drop n msg, msgByteCnt - n)
                              else (ctx, msg, msgByteCnt));
                           ctx = Skein_512_Process_Block ctx (skein_b ctx) 1 64
                       in (ctx\<lparr>bCnt := 0\<rparr>, msg, msgByteCnt)
                     else (ctx, msg, msgByteCnt))
              in if msgByteCnt > 64 then
                   let n = (msgByteCnt - 1) div 64
                   in (Skein_512_Process_Block ctx msg n 64, drop (n * 64) msg, msgByteCnt - n * 64)
                 else (ctx, msg, msgByteCnt)
            else (ctx, msg, msgByteCnt))
     in if msgByteCnt \<noteq> 0 then skein_fill ctx (take msgByteCnt msg) else ctx)"

text \<open>The counter mode that makes the output; each round starts from the same chaining words.\<close>

fun skein_output :: "Skein_512_Ctxt \<Rightarrow> u64 list \<Rightarrow> nat \<Rightarrow> nat \<Rightarrow> nat \<Rightarrow> Skein_512_Ctxt \<times> byte list" where
  "skein_output ctx X byteCnt 0 i = (ctx, [])"
| "skein_output ctx X byteCnt (Suc left) i =
    (let ctx = ctx\<lparr>skein_b := le_bytes 8 (of_nat i :: u64) @ drop 8 (skein_b ctx)\<rparr>;
         ctx = Skein_Start_New_Type ctx SKEIN_T1_BLK_TYPE_OUT_FINAL;
         ctx = Skein_512_Process_Block ctx (skein_b ctx) 1 8;
         n = min (byteCnt - i * 64) 64;
         out = Skein_Put64_LSB_First (chain_X ctx) n;
         (ctx, outs) = skein_output (ctx\<lparr>chain_X := X\<rparr>) X byteCnt left (i + 1)
     in (ctx, out @ outs))"

definition Skein_512_Final :: "Skein_512_Ctxt \<Rightarrow> Skein_512_Ctxt \<times> byte list" where
  "Skein_512_Final ctx =
    (let ctx = ctx\<lparr>T1 := T1 ctx OR SKEIN_T1_FLAG_FINAL\<rparr>;
         ctx = (if bCnt ctx < 64 then ctx\<lparr>skein_b := take (bCnt ctx) (skein_b ctx) @ replicate (64 - bCnt ctx) 0\<rparr>
                else ctx);
         ctx = Skein_512_Process_Block ctx (skein_b ctx) 1 (bCnt ctx);
         byteCnt = (hashBitLen ctx + 7) div 8;
         ctx = ctx\<lparr>skein_b := replicate 64 0\<rparr>;
         X = chain_X ctx
     in skein_output ctx X byteCnt ((byteCnt + 63) div 64) 0)"

section \<open>The calls\<close>

definition skein_partial_byte :: "byte \<Rightarrow> nat \<Rightarrow> byte" where
  "skein_partial_byte d databitlen =
    (let mask = push_bit (7 - databitlen mod 8) 1 in (d AND (0 - mask)) OR mask)"

definition skein_Update :: "Skein_512_Ctxt \<Rightarrow> byte list \<Rightarrow> nat \<Rightarrow> Skein_512_Ctxt" where
  "skein_Update ctx data databitlen =
    (if databitlen mod 8 = 0 then Skein_512_Update ctx data (databitlen div 8)
     else let n = databitlen div 8 + 1;
              b = skein_partial_byte (data ! (n - 1)) databitlen;
              ctx = Skein_512_Update ctx data (n - 1);
              ctx = Skein_512_Update ctx [b] 1
          in ctx\<lparr>T1 := T1 ctx OR SKEIN_T1_FLAG_BIT_PAD\<rparr>)"

text \<open>\<open>junk\<close> is what the context holds on the stack.\<close>

definition skein_hash :: "Skein_512_Ctxt \<Rightarrow> nat \<Rightarrow> byte list \<Rightarrow> nat \<Rightarrow> byte list" where
  "skein_hash junk hashbitlen data databitlen =
    snd (Skein_512_Final (skein_Update (Skein_512_Init junk hashbitlen) data databitlen))"

definition XMR_HASHBITLEN :: nat where "XMR_HASHBITLEN = 256"
definition XMR_DATABITLEN :: nat where "XMR_DATABITLEN = 1600"

definition xmr_skein :: "Skein_512_Ctxt \<Rightarrow> byte list \<Rightarrow> byte list" where
  "xmr_skein junk data =
    (let ctx = junk\<lparr>hashBitLen := XMR_HASHBITLEN, chain_X := SKEIN_512_IV_256\<rparr>;
         ctx = Skein_Start_New_Type ctx SKEIN_T1_BLK_TYPE_MSG;
         ctx = (if XMR_DATABITLEN mod 8 = 0 then Skein_512_Update ctx data (XMR_DATABITLEN div 8)
                else let n = XMR_DATABITLEN div 8 + 1;
                         b = skein_partial_byte (data ! (n - 1)) XMR_DATABITLEN;
                         ctx = Skein_512_Update ctx data (n - 1);
                         ctx = Skein_512_Update ctx [b] 1
                     in ctx\<lparr>T1 := T1 ctx OR SKEIN_T1_FLAG_BIT_PAD\<rparr>)
     in snd (Skein_512_Final ctx))"

end
