(* ===== verification/CryptoNight.thy ===== *)
theory CryptoNight
  imports Mem Soft_AES Keccak Blake256 Groestl Jh Skein "HOL-Library.Monad_Syntax"
begin

text \<open>
  CryptoNight, \<^verbatim>\<open>src/crypto/CryptoNight_x86.h\<close> and
  \<^verbatim>\<open>src/crypto/CryptoNight.cpp\<close>: the multiplication, the scratchpad expansion and
  compression, the class template \<open>CryptoNightMultiHash\<close> with its loop over the lanes and its five
  unrolled specialisations, the table of hash methods and the self test. The scratchpads are a list of
  16-byte blocks; the mask of every instance keeps the accesses aligned. A row of \<^verbatim>\<open>ctx->state\<close>
  is 26 words of 64 bits. The template parameters are arguments, and \<open>isa\<close> are the AES instructions.
\<close>

section \<open>The final hashes\<close>

text \<open>What the contexts of the four hashes hold on the stack.\<close>

record extra_junk =
  blake_junk :: "byte list"
  groestl_junk :: groestlHashState
  jh_junk :: jh_state
  skein_junk :: Skein_512_Ctxt

definition do_blake_hash :: "extra_junk \<Rightarrow> byte list \<Rightarrow> nat \<Rightarrow> byte list" where
  "do_blake_hash J input len = blake256_hash (blake_junk J) (take len input)"

definition do_groestl_hash :: "extra_junk \<Rightarrow> byte list \<Rightarrow> nat \<Rightarrow> byte list" where
  "do_groestl_hash J input len = groestl (groestl_junk J) input (len * 8)"

text \<open>The result of \<open>jh_hash\<close> is ignored; a failure leaves the output alone.\<close>

definition do_jh_hash :: "extra_junk \<Rightarrow> byte list \<Rightarrow> nat \<Rightarrow> byte list" where
  "do_jh_hash J input len =
    (case jh_hash (jh_junk J) (32 * 8) input (8 * len) of Some h \<Rightarrow> h | None \<Rightarrow> [])"

definition do_skein_hash :: "extra_junk \<Rightarrow> byte list \<Rightarrow> nat \<Rightarrow> byte list" where
  "do_skein_hash J input len = xmr_skein (skein_junk J) input"

definition extra_hashes :: "(extra_junk \<Rightarrow> byte list \<Rightarrow> nat \<Rightarrow> byte list) list" where
  "extra_hashes = [do_blake_hash, do_groestl_hash, do_jh_hash, do_skein_hash]"

section \<open>Multiplication and extraction\<close>

text \<open>The high and the low word of the product, with a 128-bit integer.\<close>

definition umul128 :: "u64 \<Rightarrow> u64 \<Rightarrow> u64 \<times> u64" where
  "umul128 a b = (let r = (ucast a :: 128 word) * ucast b in (ucast (drop_bit 64 r), ucast r))"

text \<open>The version for 32-bit targets.\<close>

definition umul128_i386 :: "u64 \<Rightarrow> u64 \<Rightarrow> u64 \<times> u64" where
  "umul128_i386 multiplier multiplicand =
    (let a = drop_bit 32 multiplier; b = multiplier AND 0xFFFFFFFF;
         c = drop_bit 32 multiplicand; d = multiplicand AND 0xFFFFFFFF;
         ad = a * d; bd = b * d;
         adbc = ad + b * c;
         adbc_carry = (if adbc < ad then 1 else 0);
         product_lo = bd + push_bit 32 adbc;
         product_lo_carry = (if product_lo < bd then 1 else 0);
         product_hi = a * c + drop_bit 32 adbc + push_bit 32 adbc_carry + product_lo_carry
     in (product_hi, product_lo))"

definition EXTRACT64_i386 :: "m128i \<Rightarrow> u64" where
  "EXTRACT64_i386 X =
    ucast (mm_cvtsi128_si32 X) OR push_bit 32 (ucast (mm_cvtsi128_si32 (mm_srli_si128 X 4)))"

section \<open>The scratchpad\<close>

text \<open>The \<open>i\<close>-th 16-byte block of a row, and storing one.\<close>

definition row_block :: "u64 list \<Rightarrow> nat \<Rightarrow> m128i" where
  "row_block h i = mm_set_epi64x (h ! (2 * i + 1)) (h ! (2 * i))"

definition store_row_block :: "nat \<Rightarrow> m128i \<Rightarrow> u64 list \<Rightarrow> u64 list" where
  "store_row_block i v h = h[2 * i := mm_cvtsi128_si64 v, 2 * i + 1 := ucast (drop_bit 64 v)]"

definition cn_rounds :: "bool \<Rightarrow> aes_isa \<Rightarrow> m128i list \<Rightarrow> m128i list \<Rightarrow> m128i list" where
  "cn_rounds SOFT_AES isa ks xs = fold (aes_round SOFT_AES isa) ks xs"

text \<open>Eight stores from \<open>pos\<close> on.\<close>

definition store_blocks :: "nat \<Rightarrow> m128i list \<Rightarrow> m128i list \<Rightarrow> m128i list" where
  "store_blocks pos xs mem = fold (\<lambda>j mem. mem[pos + j := xs ! j]) [0..<8] mem"

definition cn_explode_scratchpad :: "nat \<Rightarrow> bool \<Rightarrow> aes_isa \<Rightarrow> u64 list \<Rightarrow> nat \<Rightarrow> m128i list \<Rightarrow> m128i list" where
  "cn_explode_scratchpad MEM SOFT_AES isa input l mem =
    (let ks = aes_genkey SOFT_AES isa (row_block input 0) (row_block input 1);
         xin = map (row_block input) [4, 5, 6, 7, 8, 9, 10, 11]
     in snd (fold (\<lambda>i (xin, mem).
              let xin = cn_rounds SOFT_AES isa ks xin in (xin, store_blocks (l + i) xin mem))
            (map ((*) 8) [0..<(MEM div 16 + 7) div 8]) (xin, mem)))"

definition cn_implode_scratchpad :: "nat \<Rightarrow> bool \<Rightarrow> aes_isa \<Rightarrow> m128i list \<Rightarrow> nat \<Rightarrow> u64 list \<Rightarrow> u64 list" where
  "cn_implode_scratchpad MEM SOFT_AES isa mem l output =
    (let ks = aes_genkey SOFT_AES isa (row_block output 2) (row_block output 3);
         xout = map (row_block output) [4, 5, 6, 7, 8, 9, 10, 11];
         xout = fold (\<lambda>i xout.
             cn_rounds SOFT_AES isa ks (map (\<lambda>j. mm_xor_si128 (mem ! (l + i + j)) (xout ! j)) [0..<8]))
           (map ((*) 8) [0..<(MEM div 16 + 7) div 8]) xout
     in fold (\<lambda>j. store_row_block (4 + j) (xout ! j)) [0..<8] output)"

section \<open>The context\<close>

record cryptonight_ctx =
  cn_state :: "u64 list list"
  cn_memory :: "m128i list"

text \<open>\<open>keccak\<close> writes the first 200 of the 208 bytes of a row; \<open>keccakf\<close> works on them in place.\<close>

definition cn_keccak :: "byte list \<Rightarrow> u64 list \<Rightarrow> u64 list" where
  "cn_keccak blob row =
    (case keccak blob 200 of
       Some md \<Rightarrow> map (\<lambda>i. word_of_le (take 8 (drop (8 * i) md))) [0..<25] @ drop 25 row
     | None \<Rightarrow> row)"

definition cn_keccakf :: "u64 list \<Rightarrow> u64 list" where
  "cn_keccakf h = keccakf (take 25 h) 24 @ drop 25 h"

definition cn_extra_hash :: "extra_junk \<Rightarrow> u64 list \<Rightarrow> byte list" where
  "cn_extra_hash J h = (extra_hashes ! unat (h ! 0 AND 3)) J (state_bytes h) 200"

section \<open>The main loop\<close>

text \<open>\<^verbatim>\<open>&l[idx & MASK]\<close>, in blocks.\<close>

definition cn_slot :: "u64 \<Rightarrow> nat \<Rightarrow> u64 \<Rightarrow> nat" where
  "cn_slot MASK l idx = l + unat (idx AND MASK) div 16"

definition cn_aes :: "bool \<Rightarrow> aes_isa \<Rightarrow> m128i \<Rightarrow> u64 \<Rightarrow> u64 \<Rightarrow> m128i" where
  "cn_aes SOFT_AES isa cx ah al =
    (if SOFT_AES then soft_aesenc cx (mm_set_epi64x ah al) else mm_aesenc_si128 isa cx (mm_set_epi64x ah al))"

text \<open>
  The second half of an iteration, the same for every lane: from the loads of \<open>cl\<close> and \<open>ch\<close> to the new
  \<open>idx\<close>.
\<close>

definition cn_mul_part :: "u64 \<Rightarrow> nat \<Rightarrow> u64 \<Rightarrow> u64 \<Rightarrow> u64 \<Rightarrow> m128i list \<Rightarrow> u64 \<times> u64 \<times> u64 \<times> m128i list" where
  "cn_mul_part MASK l al ah idx mem =
    (let cl = mm_cvtsi128_si64 (mem ! cn_slot MASK l idx);
         ch = ucast (drop_bit 64 (mem ! cn_slot MASK l idx));
         (hi, lo) = umul128 idx cl;
         al = al + hi;
         ah = ah + lo;
         mem = mem[cn_slot MASK l idx := mm_set_epi64x ah al];
         ah = ah XOR ch;
         al = al XOR cl;
         idx = al
     in (al, ah, idx, mem))"

type_synonym lane_vars = "u64 \<times> u64 \<times> m128i \<times> u64"

text \<open>\<open>al\<close>, \<open>ah\<close>, \<open>bx\<close> and \<open>idx\<close> before the loop.\<close>

definition cn_lane_init :: "u64 list \<Rightarrow> lane_vars" where
  "cn_lane_init h =
    (h ! 0 XOR h ! 4, h ! 1 XOR h ! 5, mm_set_epi64x (h ! 3 XOR h ! 7) (h ! 2 XOR h ! 6), h ! 0 XOR h ! 4)"

text \<open>
  \<^verbatim>\<open>(int) size\<close>, the length \<open>keccak\<close> is called with for every lane, while the lanes are \<open>size\<close> bytes apart.
  For a negative length \<open>keccak\<close> copies a negative number of bytes: the methods below are then \<open>None\<close>.
\<close>

definition int_size :: "nat \<Rightarrow> int" where
  "int_size sz = sint (of_nat sz :: 32 word)"

definition cn_blob :: "byte list \<Rightarrow> nat \<Rightarrow> nat \<Rightarrow> byte list" where
  "cn_blob input sz k = take (nat (int_size sz)) (drop (k * sz) input)"

subsection \<open>The loop over the lanes\<close>

definition cn_lane_step :: "u64 \<Rightarrow> bool \<Rightarrow> aes_isa \<Rightarrow> nat \<Rightarrow> lane_vars \<times> m128i list \<Rightarrow> lane_vars \<times> m128i list" where
  "cn_lane_step MASK SOFT_AES isa l st =
    (let ((al, ah, bx, idx), mem) = st;
         cx = mem ! cn_slot MASK l idx;
         cx = cn_aes SOFT_AES isa cx ah al;
         mem = mem[cn_slot MASK l idx := mm_xor_si128 bx cx];
         idx = mm_cvtsi128_si64 cx;
         bx = cx;
         (al, ah, idx, mem) = cn_mul_part MASK l al ah idx mem
     in ((al, ah, bx, idx), mem))"

definition cn_iteration :: "nat \<Rightarrow> u64 \<Rightarrow> bool \<Rightarrow> aes_isa \<Rightarrow> nat \<Rightarrow> lane_vars list \<times> m128i list
    \<Rightarrow> lane_vars list \<times> m128i list" where
  "cn_iteration MEM MASK SOFT_AES isa NUM st =
    fold (\<lambda>k (vs, mem).
        let (v, mem) = cn_lane_step MASK SOFT_AES isa (k * (MEM div 16)) (vs ! k, mem) in (vs[k := v], mem))
      [0..<NUM] st"

definition CryptoNightMultiHash :: "nat \<Rightarrow> nat \<Rightarrow> u64 \<Rightarrow> bool \<Rightarrow> aes_isa \<Rightarrow> extra_junk \<Rightarrow> nat \<Rightarrow>
    byte list \<Rightarrow> nat \<Rightarrow> cryptonight_ctx \<Rightarrow> (byte list \<times> cryptonight_ctx) option" where
  "CryptoNightMultiHash ITERATIONS MEM MASK SOFT_AES isa J NUM input sz ctx =
    (if int_size sz < 0 then None else Some
    (let state = fold (\<lambda>k s. s[k := cn_keccak (cn_blob input sz k) (s ! k)]) [0..<NUM] (cn_state ctx);
         mem = fold (\<lambda>k. cn_explode_scratchpad MEM SOFT_AES isa (state ! k) (k * (MEM div 16))) [0..<NUM] (cn_memory ctx);
         vs = map (\<lambda>k. cn_lane_init (state ! k)) [0..<NUM];
         (vs, mem) = (cn_iteration MEM MASK SOFT_AES isa NUM ^^ ITERATIONS) (vs, mem);
         (state, output) = fold (\<lambda>k (s, output).
             let h = cn_implode_scratchpad MEM SOFT_AES isa mem (k * (MEM div 16)) (s ! k);
                 h = cn_keccakf h
             in (s[k := h], output @ cn_extra_hash J h)) [0..<NUM] (state, [])
     in (output, ctx\<lparr>cn_state := state, cn_memory := mem\<rparr>)))"

subsection \<open>One lane\<close>

definition cn_iter1 :: "u64 \<Rightarrow> bool \<Rightarrow> aes_isa \<Rightarrow> nat \<Rightarrow> lane_vars \<times> m128i list \<Rightarrow> lane_vars \<times> m128i list" where
  "cn_iter1 MASK SOFT_AES isa l st =
    (let ((al, ah, bx, idx), mem) = st;
         cx = mem ! cn_slot MASK l idx;
         cx = cn_aes SOFT_AES isa cx ah al;
         mem = mem[cn_slot MASK l idx := mm_xor_si128 bx cx];
         idx = mm_cvtsi128_si64 cx;
         bx = cx;
         (al, ah, idx, mem) = cn_mul_part MASK l al ah idx mem
     in ((al, ah, bx, idx), mem))"

definition CryptoNightMultiHash_1 :: "nat \<Rightarrow> nat \<Rightarrow> u64 \<Rightarrow> bool \<Rightarrow> aes_isa \<Rightarrow> extra_junk \<Rightarrow>
    byte list \<Rightarrow> nat \<Rightarrow> cryptonight_ctx \<Rightarrow> (byte list \<times> cryptonight_ctx) option" where
  "CryptoNightMultiHash_1 ITERATIONS MEM MASK SOFT_AES isa J input sz ctx =
    (if int_size sz < 0 then None else Some
    (let s = cn_state ctx; mem = cn_memory ctx;
         h = cn_keccak (take (nat (int_size sz)) input) (s ! 0);
         mem = cn_explode_scratchpad MEM SOFT_AES isa h 0 mem;
         v = cn_lane_init h;
         (v, mem) = (cn_iter1 MASK SOFT_AES isa 0 ^^ ITERATIONS) (v, mem);
         h = cn_implode_scratchpad MEM SOFT_AES isa mem 0 h;
         h = cn_keccakf h
     in (cn_extra_hash J h, ctx\<lparr>cn_state := s[0 := h], cn_memory := mem\<rparr>)))"

subsection \<open>Two lanes\<close>

definition cn_iter2 :: "u64 \<Rightarrow> bool \<Rightarrow> aes_isa \<Rightarrow> nat \<Rightarrow> nat \<Rightarrow>
    (lane_vars \<times> lane_vars) \<times> m128i list \<Rightarrow> (lane_vars \<times> lane_vars) \<times> m128i list" where
  "cn_iter2 MASK SOFT_AES isa l0 l1 st =
    (let (((al0, ah0, bx0, idx0), (al1, ah1, bx1, idx1)), mem) = st;
         cx0 = mem ! cn_slot MASK l0 idx0;
         cx1 = mem ! cn_slot MASK l1 idx1;
         cx0 = cn_aes SOFT_AES isa cx0 ah0 al0;
         cx1 = cn_aes SOFT_AES isa cx1 ah1 al1;
         mem = mem[cn_slot MASK l0 idx0 := mm_xor_si128 bx0 cx0];
         mem = mem[cn_slot MASK l1 idx1 := mm_xor_si128 bx1 cx1];
         idx0 = mm_cvtsi128_si64 cx0;
         idx1 = mm_cvtsi128_si64 cx1;
         bx0 = cx0;
         bx1 = cx1;
         (al0, ah0, idx0, mem) = cn_mul_part MASK l0 al0 ah0 idx0 mem;
         (al1, ah1, idx1, mem) = cn_mul_part MASK l1 al1 ah1 idx1 mem
     in (((al0, ah0, bx0, idx0), (al1, ah1, bx1, idx1)), mem))"

definition CryptoNightMultiHash_2 :: "nat \<Rightarrow> nat \<Rightarrow> u64 \<Rightarrow> bool \<Rightarrow> aes_isa \<Rightarrow> extra_junk \<Rightarrow>
    byte list \<Rightarrow> nat \<Rightarrow> cryptonight_ctx \<Rightarrow> (byte list \<times> cryptonight_ctx) option" where
  "CryptoNightMultiHash_2 ITERATIONS MEM MASK SOFT_AES isa J input sz ctx =
    (if int_size sz < 0 then None else Some
    (let s = cn_state ctx; mem = cn_memory ctx;
         h0 = cn_keccak (take (nat (int_size sz)) input) (s ! 0);
         h1 = cn_keccak (take (nat (int_size sz)) (drop sz input)) (s ! 1);
         l0 = 0; l1 = MEM div 16;
         mem = cn_explode_scratchpad MEM SOFT_AES isa h0 l0 mem;
         mem = cn_explode_scratchpad MEM SOFT_AES isa h1 l1 mem;
         ((v0, v1), mem) =
           (cn_iter2 MASK SOFT_AES isa l0 l1 ^^ ITERATIONS)
             ((cn_lane_init h0, cn_lane_init h1), mem);
         h0 = cn_implode_scratchpad MEM SOFT_AES isa mem l0 h0;
         h1 = cn_implode_scratchpad MEM SOFT_AES isa mem l1 h1;
         h0 = cn_keccakf h0;
         h1 = cn_keccakf h1
     in (cn_extra_hash J h0 @ cn_extra_hash J h1,
         ctx\<lparr>cn_state := s[0 := h0, 1 := h1], cn_memory := mem\<rparr>)))"

subsection \<open>Three lanes\<close>

definition cn_iter3 :: "u64 \<Rightarrow> bool \<Rightarrow> aes_isa \<Rightarrow> nat \<Rightarrow> nat \<Rightarrow> nat \<Rightarrow>
    (lane_vars \<times> lane_vars \<times> lane_vars) \<times> m128i list \<Rightarrow> (lane_vars \<times> lane_vars \<times> lane_vars) \<times> m128i list" where
  "cn_iter3 MASK SOFT_AES isa l0 l1 l2 st =
    (let (((al0, ah0, bx0, idx0), (al1, ah1, bx1, idx1), (al2, ah2, bx2, idx2)), mem) = st;
         cx0 = mem ! cn_slot MASK l0 idx0;
         cx1 = mem ! cn_slot MASK l1 idx1;
         cx2 = mem ! cn_slot MASK l2 idx2;
         cx0 = cn_aes SOFT_AES isa cx0 ah0 al0;
         cx1 = cn_aes SOFT_AES isa cx1 ah1 al1;
         cx2 = cn_aes SOFT_AES isa cx2 ah2 al2;
         mem = mem[cn_slot MASK l0 idx0 := mm_xor_si128 bx0 cx0];
         mem = mem[cn_slot MASK l1 idx1 := mm_xor_si128 bx1 cx1];
         mem = mem[cn_slot MASK l2 idx2 := mm_xor_si128 bx2 cx2];
         idx0 = mm_cvtsi128_si64 cx0;
         idx1 = mm_cvtsi128_si64 cx1;
         idx2 = mm_cvtsi128_si64 cx2;
         bx0 = cx0;
         bx1 = cx1;
         bx2 = cx2;
         (al0, ah0, idx0, mem) = cn_mul_part MASK l0 al0 ah0 idx0 mem;
         (al1, ah1, idx1, mem) = cn_mul_part MASK l1 al1 ah1 idx1 mem;
         (al2, ah2, idx2, mem) = cn_mul_part MASK l2 al2 ah2 idx2 mem
     in (((al0, ah0, bx0, idx0), (al1, ah1, bx1, idx1), (al2, ah2, bx2, idx2)), mem))"

definition CryptoNightMultiHash_3 :: "nat \<Rightarrow> nat \<Rightarrow> u64 \<Rightarrow> bool \<Rightarrow> aes_isa \<Rightarrow> extra_junk \<Rightarrow>
    byte list \<Rightarrow> nat \<Rightarrow> cryptonight_ctx \<Rightarrow> (byte list \<times> cryptonight_ctx) option" where
  "CryptoNightMultiHash_3 ITERATIONS MEM MASK SOFT_AES isa J input sz ctx =
    (if int_size sz < 0 then None else Some
    (let s = cn_state ctx; mem = cn_memory ctx;
         h0 = cn_keccak (take (nat (int_size sz)) input) (s ! 0);
         h1 = cn_keccak (take (nat (int_size sz)) (drop sz input)) (s ! 1);
         h2 = cn_keccak (take (nat (int_size sz)) (drop (2 * sz) input)) (s ! 2);
         l0 = 0; l1 = MEM div 16; l2 = 2 * (MEM div 16);
         mem = cn_explode_scratchpad MEM SOFT_AES isa h0 l0 mem;
         mem = cn_explode_scratchpad MEM SOFT_AES isa h1 l1 mem;
         mem = cn_explode_scratchpad MEM SOFT_AES isa h2 l2 mem;
         ((v0, v1, v2), mem) =
           (cn_iter3 MASK SOFT_AES isa l0 l1 l2 ^^ ITERATIONS)
             ((cn_lane_init h0, cn_lane_init h1, cn_lane_init h2), mem);
         h0 = cn_implode_scratchpad MEM SOFT_AES isa mem l0 h0;
         h1 = cn_implode_scratchpad MEM SOFT_AES isa mem l1 h1;
         h2 = cn_implode_scratchpad MEM SOFT_AES isa mem l2 h2;
         h0 = cn_keccakf h0;
         h1 = cn_keccakf h1;
         h2 = cn_keccakf h2
     in (cn_extra_hash J h0 @ cn_extra_hash J h1 @ cn_extra_hash J h2,
         ctx\<lparr>cn_state := s[0 := h0, 1 := h1, 2 := h2], cn_memory := mem\<rparr>)))"

subsection \<open>Four lanes\<close>

definition cn_iter4 :: "u64 \<Rightarrow> bool \<Rightarrow> aes_isa \<Rightarrow> nat \<Rightarrow> nat \<Rightarrow> nat \<Rightarrow> nat \<Rightarrow>
    (lane_vars \<times> lane_vars \<times> lane_vars \<times> lane_vars) \<times> m128i list \<Rightarrow> (lane_vars \<times> lane_vars \<times> lane_vars \<times> lane_vars) \<times> m128i list" where
  "cn_iter4 MASK SOFT_AES isa l0 l1 l2 l3 st =
    (let (((al0, ah0, bx0, idx0), (al1, ah1, bx1, idx1), (al2, ah2, bx2, idx2), (al3, ah3, bx3, idx3)), mem) = st;
         cx0 = mem ! cn_slot MASK l0 idx0;
         cx1 = mem ! cn_slot MASK l1 idx1;
         cx2 = mem ! cn_slot MASK l2 idx2;
         cx3 = mem ! cn_slot MASK l3 idx3;
         cx0 = cn_aes SOFT_AES isa cx0 ah0 al0;
         cx1 = cn_aes SOFT_AES isa cx1 ah1 al1;
         cx2 = cn_aes SOFT_AES isa cx2 ah2 al2;
         cx3 = cn_aes SOFT_AES isa cx3 ah3 al3;
         mem = mem[cn_slot MASK l0 idx0 := mm_xor_si128 bx0 cx0];
         mem = mem[cn_slot MASK l1 idx1 := mm_xor_si128 bx1 cx1];
         mem = mem[cn_slot MASK l2 idx2 := mm_xor_si128 bx2 cx2];
         mem = mem[cn_slot MASK l3 idx3 := mm_xor_si128 bx3 cx3];
         idx0 = mm_cvtsi128_si64 cx0;
         idx1 = mm_cvtsi128_si64 cx1;
         idx2 = mm_cvtsi128_si64 cx2;
         idx3 = mm_cvtsi128_si64 cx3;
         bx0 = cx0;
         bx1 = cx1;
         bx2 = cx2;
         bx3 = cx3;
         (al0, ah0, idx0, mem) = cn_mul_part MASK l0 al0 ah0 idx0 mem;
         (al1, ah1, idx1, mem) = cn_mul_part MASK l1 al1 ah1 idx1 mem;
         (al2, ah2, idx2, mem) = cn_mul_part MASK l2 al2 ah2 idx2 mem;
         (al3, ah3, idx3, mem) = cn_mul_part MASK l3 al3 ah3 idx3 mem
     in (((al0, ah0, bx0, idx0), (al1, ah1, bx1, idx1), (al2, ah2, bx2, idx2), (al3, ah3, bx3, idx3)), mem))"

definition CryptoNightMultiHash_4 :: "nat \<Rightarrow> nat \<Rightarrow> u64 \<Rightarrow> bool \<Rightarrow> aes_isa \<Rightarrow> extra_junk \<Rightarrow>
    byte list \<Rightarrow> nat \<Rightarrow> cryptonight_ctx \<Rightarrow> (byte list \<times> cryptonight_ctx) option" where
  "CryptoNightMultiHash_4 ITERATIONS MEM MASK SOFT_AES isa J input sz ctx =
    (if int_size sz < 0 then None else Some
    (let s = cn_state ctx; mem = cn_memory ctx;
         h0 = cn_keccak (take (nat (int_size sz)) input) (s ! 0);
         h1 = cn_keccak (take (nat (int_size sz)) (drop sz input)) (s ! 1);
         h2 = cn_keccak (take (nat (int_size sz)) (drop (2 * sz) input)) (s ! 2);
         h3 = cn_keccak (take (nat (int_size sz)) (drop (3 * sz) input)) (s ! 3);
         l0 = 0; l1 = MEM div 16; l2 = 2 * (MEM div 16); l3 = 3 * (MEM div 16);
         mem = cn_explode_scratchpad MEM SOFT_AES isa h0 l0 mem;
         mem = cn_explode_scratchpad MEM SOFT_AES isa h1 l1 mem;
         mem = cn_explode_scratchpad MEM SOFT_AES isa h2 l2 mem;
         mem = cn_explode_scratchpad MEM SOFT_AES isa h3 l3 mem;
         ((v0, v1, v2, v3), mem) =
           (cn_iter4 MASK SOFT_AES isa l0 l1 l2 l3 ^^ ITERATIONS)
             ((cn_lane_init h0, cn_lane_init h1, cn_lane_init h2, cn_lane_init h3), mem);
         h0 = cn_implode_scratchpad MEM SOFT_AES isa mem l0 h0;
         h1 = cn_implode_scratchpad MEM SOFT_AES isa mem l1 h1;
         h2 = cn_implode_scratchpad MEM SOFT_AES isa mem l2 h2;
         h3 = cn_implode_scratchpad MEM SOFT_AES isa mem l3 h3;
         h0 = cn_keccakf h0;
         h1 = cn_keccakf h1;
         h2 = cn_keccakf h2;
         h3 = cn_keccakf h3
     in (cn_extra_hash J h0 @ cn_extra_hash J h1 @ cn_extra_hash J h2 @ cn_extra_hash J h3,
         ctx\<lparr>cn_state := s[0 := h0, 1 := h1, 2 := h2, 3 := h3], cn_memory := mem\<rparr>)))"

subsection \<open>Five lanes\<close>

definition cn_iter5 :: "u64 \<Rightarrow> bool \<Rightarrow> aes_isa \<Rightarrow> nat \<Rightarrow> nat \<Rightarrow> nat \<Rightarrow> nat \<Rightarrow> nat \<Rightarrow>
    (lane_vars \<times> lane_vars \<times> lane_vars \<times> lane_vars \<times> lane_vars) \<times> m128i list \<Rightarrow> (lane_vars \<times> lane_vars \<times> lane_vars \<times> lane_vars \<times> lane_vars) \<times> m128i list" where
  "cn_iter5 MASK SOFT_AES isa l0 l1 l2 l3 l4 st =
    (let (((al0, ah0, bx0, idx0), (al1, ah1, bx1, idx1), (al2, ah2, bx2, idx2), (al3, ah3, bx3, idx3), (al4, ah4, bx4, idx4)), mem) = st;
         cx0 = mem ! cn_slot MASK l0 idx0;
         cx1 = mem ! cn_slot MASK l1 idx1;
         cx2 = mem ! cn_slot MASK l2 idx2;
         cx3 = mem ! cn_slot MASK l3 idx3;
         cx4 = mem ! cn_slot MASK l4 idx4;
         cx0 = cn_aes SOFT_AES isa cx0 ah0 al0;
         cx1 = cn_aes SOFT_AES isa cx1 ah1 al1;
         cx2 = cn_aes SOFT_AES isa cx2 ah2 al2;
         cx3 = cn_aes SOFT_AES isa cx3 ah3 al3;
         cx4 = cn_aes SOFT_AES isa cx4 ah4 al4;
         mem = mem[cn_slot MASK l0 idx0 := mm_xor_si128 bx0 cx0];
         mem = mem[cn_slot MASK l1 idx1 := mm_xor_si128 bx1 cx1];
         mem = mem[cn_slot MASK l2 idx2 := mm_xor_si128 bx2 cx2];
         mem = mem[cn_slot MASK l3 idx3 := mm_xor_si128 bx3 cx3];
         mem = mem[cn_slot MASK l4 idx4 := mm_xor_si128 bx4 cx4];
         idx0 = mm_cvtsi128_si64 cx0;
         idx1 = mm_cvtsi128_si64 cx1;
         idx2 = mm_cvtsi128_si64 cx2;
         idx3 = mm_cvtsi128_si64 cx3;
         idx4 = mm_cvtsi128_si64 cx4;
         bx0 = cx0;
         bx1 = cx1;
         bx2 = cx2;
         bx3 = cx3;
         bx4 = cx4;
         (al0, ah0, idx0, mem) = cn_mul_part MASK l0 al0 ah0 idx0 mem;
         (al1, ah1, idx1, mem) = cn_mul_part MASK l1 al1 ah1 idx1 mem;
         (al2, ah2, idx2, mem) = cn_mul_part MASK l2 al2 ah2 idx2 mem;
         (al3, ah3, idx3, mem) = cn_mul_part MASK l3 al3 ah3 idx3 mem;
         (al4, ah4, idx4, mem) = cn_mul_part MASK l4 al4 ah4 idx4 mem
     in (((al0, ah0, bx0, idx0), (al1, ah1, bx1, idx1), (al2, ah2, bx2, idx2), (al3, ah3, bx3, idx3), (al4, ah4, bx4, idx4)), mem))"

definition CryptoNightMultiHash_5 :: "nat \<Rightarrow> nat \<Rightarrow> u64 \<Rightarrow> bool \<Rightarrow> aes_isa \<Rightarrow> extra_junk \<Rightarrow>
    byte list \<Rightarrow> nat \<Rightarrow> cryptonight_ctx \<Rightarrow> (byte list \<times> cryptonight_ctx) option" where
  "CryptoNightMultiHash_5 ITERATIONS MEM MASK SOFT_AES isa J input sz ctx =
    (if int_size sz < 0 then None else Some
    (let s = cn_state ctx; mem = cn_memory ctx;
         h0 = cn_keccak (take (nat (int_size sz)) input) (s ! 0);
         h1 = cn_keccak (take (nat (int_size sz)) (drop sz input)) (s ! 1);
         h2 = cn_keccak (take (nat (int_size sz)) (drop (2 * sz) input)) (s ! 2);
         h3 = cn_keccak (take (nat (int_size sz)) (drop (3 * sz) input)) (s ! 3);
         h4 = cn_keccak (take (nat (int_size sz)) (drop (4 * sz) input)) (s ! 4);
         l0 = 0; l1 = MEM div 16; l2 = 2 * (MEM div 16); l3 = 3 * (MEM div 16); l4 = 4 * (MEM div 16);
         mem = cn_explode_scratchpad MEM SOFT_AES isa h0 l0 mem;
         mem = cn_explode_scratchpad MEM SOFT_AES isa h1 l1 mem;
         mem = cn_explode_scratchpad MEM SOFT_AES isa h2 l2 mem;
         mem = cn_explode_scratchpad MEM SOFT_AES isa h3 l3 mem;
         mem = cn_explode_scratchpad MEM SOFT_AES isa h4 l4 mem;
         ((v0, v1, v2, v3, v4), mem) =
           (cn_iter5 MASK SOFT_AES isa l0 l1 l2 l3 l4 ^^ ITERATIONS)
             ((cn_lane_init h0, cn_lane_init h1, cn_lane_init h2, cn_lane_init h3, cn_lane_init h4), mem);
         h0 = cn_implode_scratchpad MEM SOFT_AES isa mem l0 h0;
         h1 = cn_implode_scratchpad MEM SOFT_AES isa mem l1 h1;
         h2 = cn_implode_scratchpad MEM SOFT_AES isa mem l2 h2;
         h3 = cn_implode_scratchpad MEM SOFT_AES isa mem l3 h3;
         h4 = cn_implode_scratchpad MEM SOFT_AES isa mem l4 h4;
         h0 = cn_keccakf h0;
         h1 = cn_keccakf h1;
         h2 = cn_keccakf h2;
         h3 = cn_keccakf h3;
         h4 = cn_keccakf h4
     in (cn_extra_hash J h0 @ cn_extra_hash J h1 @ cn_extra_hash J h2 @ cn_extra_hash J h3 @ cn_extra_hash J h4,
         ctx\<lparr>cn_state := s[0 := h0, 1 := h1, 2 := h2, 3 := h3, 4 := h4], cn_memory := mem\<rparr>)))"

section \<open>The hash methods\<close>

text \<open>The instances of the four function templates of \<^verbatim>\<open>CryptoNight.cpp\<close>.\<close>

datatype hash_method =
    cryptonight_aesni nat
  | cryptonight_softaes nat
  | cryptonight_lite_aesni nat
  | cryptonight_lite_softaes nat

text \<open>The class template for a number of lanes: a specialisation where there is one.\<close>

definition cn_instance :: "nat \<Rightarrow> nat \<Rightarrow> u64 \<Rightarrow> bool \<Rightarrow> aes_isa \<Rightarrow> extra_junk \<Rightarrow> nat \<Rightarrow>
    byte list \<Rightarrow> nat \<Rightarrow> cryptonight_ctx \<Rightarrow> (byte list \<times> cryptonight_ctx) option" where
  "cn_instance ITERATIONS MEM MASK SOFT_AES isa J NUM =
    (if NUM = 1 then CryptoNightMultiHash_1 ITERATIONS MEM MASK SOFT_AES isa J
     else if NUM = 2 then CryptoNightMultiHash_2 ITERATIONS MEM MASK SOFT_AES isa J
     else if NUM = 3 then CryptoNightMultiHash_3 ITERATIONS MEM MASK SOFT_AES isa J
     else if NUM = 4 then CryptoNightMultiHash_4 ITERATIONS MEM MASK SOFT_AES isa J
     else if NUM = 5 then CryptoNightMultiHash_5 ITERATIONS MEM MASK SOFT_AES isa J
     else CryptoNightMultiHash ITERATIONS MEM MASK SOFT_AES isa J NUM)"

fun call_method :: "aes_isa \<Rightarrow> extra_junk \<Rightarrow> hash_method \<Rightarrow> byte list \<Rightarrow> nat \<Rightarrow> cryptonight_ctx \<Rightarrow>
    (byte list \<times> cryptonight_ctx) option" where
  "call_method isa J (cryptonight_aesni n) = cn_instance 0x80000 MEMORY 0x1FFFF0 False isa J n"
| "call_method isa J (cryptonight_softaes n) = cn_instance 0x80000 MEMORY 0x1FFFF0 True isa J n"
| "call_method isa J (cryptonight_lite_aesni n) = cn_instance 0x40000 MEMORY_LITE 0xFFFF0 False isa J n"
| "call_method isa J (cryptonight_lite_softaes n) = cn_instance 0x40000 MEMORY_LITE 0xFFFF0 True isa J n"

text \<open>\<^verbatim>\<open>cryptonight_hash_ctx\<close>, null pointers before the first \<open>init\<close>.\<close>

type_synonym hash_table = "hash_method option list"

definition cryptonight_hash_ctx :: hash_table where
  "cryptonight_hash_ctx = replicate MAX_NUM_HASH_BLOCKS None"

fun setCryptoNightHashMethods :: "nat \<Rightarrow> Algo \<Rightarrow> bool \<Rightarrow> hash_table \<Rightarrow> hash_table" where
  "setCryptoNightHashMethods 0 algo aesni t = t"
| "setCryptoNightHashMethods (Suc n) algo aesni t =
    setCryptoNightHashMethods n algo aesni
      (t[n := Some (case algo of
           ALGO_CRYPTONIGHT \<Rightarrow> if aesni then cryptonight_aesni (Suc n) else cryptonight_softaes (Suc n)
         | ALGO_CRYPTONIGHT_LITE \<Rightarrow>
             if aesni then cryptonight_lite_aesni (Suc n) else cryptonight_lite_softaes (Suc n))])"

text \<open>\<open>None\<close>: a call through a null pointer, outside of the table, or with a size that is negative as an \<^verbatim>\<open>int\<close>.\<close>

definition CryptoNight_hash :: "aes_isa \<Rightarrow> extra_junk \<Rightarrow> hash_table \<Rightarrow> nat \<Rightarrow> byte list \<Rightarrow> nat \<Rightarrow> cryptonight_ctx \<Rightarrow>
    (byte list \<times> cryptonight_ctx) option" where
  "CryptoNight_hash isa J t factor input sz ctx =
    (if 1 \<le> factor \<and> factor \<le> length t then
       (case t ! (factor - 1) of None \<Rightarrow> None | Some m \<Rightarrow> call_method isa J m input sz ctx)
     else None)"

section \<open>The self test\<close>

definition test_input :: "byte list" where
  "test_input =
    [0x01, 0x00, 0xFB, 0x8E, 0x8A, 0xC8, 0x05, 0x89, 0x93, 0x23, 0x37, 0x1B, 0xB7, 0x90, 0xDB, 0x19,
     0x21, 0x8A, 0xFD, 0x8D, 0xB8, 0xE3, 0x75, 0x5D, 0x8B, 0x90, 0xF3, 0x9B, 0x3D, 0x55, 0x06, 0xA9,
     0xAB, 0xCE, 0x4F, 0xA9, 0x12, 0x24, 0x45, 0x00, 0x00, 0x00, 0x00, 0xEE, 0x81, 0x46, 0xD4, 0x9F,
     0xA9, 0x3E, 0xE7, 0x24, 0xDE, 0xB5, 0x7D, 0x12, 0xCB, 0xC6, 0xC6, 0xF3, 0xB9, 0x24, 0xD9, 0x46,
     0x12, 0x7C, 0x7A, 0x97, 0x41, 0x8F, 0x93, 0x48, 0x82, 0x8F, 0x0F, 0x02, 0x03, 0x05, 0xA0, 0xDB,
     0xD6, 0xBF, 0x05, 0xCF, 0x16, 0xE5, 0x03, 0xF3, 0xA6, 0x6F, 0x78, 0x00, 0x7C, 0xBF, 0x34, 0x14,
     0x43, 0x32, 0xEC, 0xBF, 0xC2, 0x2E, 0xD9, 0x5C, 0x87, 0x00, 0x38, 0x3B, 0x30, 0x9A, 0xCE, 0x19,
     0x23, 0xA0, 0x96, 0x4B, 0x00, 0x00, 0x00, 0x08, 0xBA, 0x93, 0x9A, 0x62, 0x72, 0x4C, 0x0D, 0x75,
     0x81, 0xFC, 0xE5, 0x76, 0x1E, 0x9D, 0x8A, 0x0E, 0x6A, 0x1C, 0x3F, 0x92, 0x4F, 0xDD, 0x84, 0x93,
     0xD1, 0x11, 0x56, 0x49, 0xC0, 0x5E, 0xB6, 0x01, 0x01, 0x00, 0xFB, 0x8E, 0x8A, 0xC8, 0x05, 0x89,
     0x93, 0x23, 0x37, 0x1B, 0xB7, 0x90, 0xDB, 0x19, 0x21, 0x8A, 0xFD, 0x8D, 0xB8, 0xE3, 0x75, 0x5D,
     0x8B, 0x90, 0xF3, 0x9B, 0x3D, 0x55, 0x06, 0xA9, 0xAB, 0xCE, 0x4F, 0xA9, 0x12, 0x24, 0x45, 0x00,
     0x00, 0x00, 0x00, 0xEE, 0x81, 0x46, 0xD4, 0x9F, 0xA9, 0x3E, 0xE7, 0x24, 0xDE, 0xB5, 0x7D, 0x12,
     0xCB, 0xC6, 0xC6, 0xF3, 0xB9, 0x24, 0xD9, 0x46, 0x12, 0x7C, 0x7A, 0x97, 0x41, 0x8F, 0x93, 0x48,
     0x82, 0x8F, 0x0F, 0x02, 0x03, 0x05, 0xA0, 0xDB, 0xD6, 0xBF, 0x05, 0xCF, 0x16, 0xE5, 0x03, 0xF3,
     0xA6, 0x6F, 0x78, 0x00, 0x7C, 0xBF, 0x34, 0x14, 0x43, 0x32, 0xEC, 0xBF, 0xC2, 0x2E, 0xD9, 0x5C,
     0x87, 0x00, 0x38, 0x3B, 0x30, 0x9A, 0xCE, 0x19, 0x23, 0xA0, 0x96, 0x4B, 0x00, 0x00, 0x00, 0x08,
     0xBA, 0x93, 0x9A, 0x62, 0x72, 0x4C, 0x0D, 0x75, 0x81, 0xFC, 0xE5, 0x76, 0x1E, 0x9D, 0x8A, 0x0E,
     0x6A, 0x1C, 0x3F, 0x92, 0x4F, 0xDD, 0x84, 0x93, 0xD1, 0x11, 0x56, 0x49, 0xC0, 0x5E, 0xB6, 0x01,
     0x01, 0x00, 0xFB, 0x8E, 0x8A, 0xC8, 0x05, 0x89, 0x93, 0x23, 0x37, 0x1B, 0xB7, 0x90, 0xDB, 0x19,
     0x21, 0x8A, 0xFD, 0x8D, 0xB8, 0xE3, 0x75, 0x5D, 0x8B, 0x90, 0xF3, 0x9B, 0x3D, 0x55, 0x06, 0xA9,
     0xAB, 0xCE, 0x4F, 0xA9, 0x12, 0x24, 0x45, 0x00, 0x00, 0x00, 0x00, 0xEE, 0x81, 0x46, 0xD4, 0x9F,
     0xA9, 0x3E, 0xE7, 0x24, 0xDE, 0xB5, 0x7D, 0x12, 0xCB, 0xC6, 0xC6, 0xF3, 0xB9, 0x24, 0xD9, 0x46,
     0x12, 0x7C, 0x7A, 0x97, 0x41, 0x8F, 0x93, 0x48, 0x82, 0x8F, 0x0F, 0x02, 0x03, 0x05, 0xA0, 0xDB,
     0xD6, 0xBF, 0x05, 0xCF, 0x16, 0xE5, 0x03, 0xF3, 0xA6, 0x6F, 0x78, 0x00, 0x7C, 0xBF, 0x34, 0x14,
     0x43, 0x32, 0xEC, 0xBF, 0xC2, 0x2E, 0xD9, 0x5C, 0x87, 0x00, 0x38, 0x3B, 0x30, 0x9A, 0xCE, 0x19,
     0x23, 0xA0, 0x96, 0x4B, 0x00, 0x00, 0x00, 0x08, 0xBA, 0x93, 0x9A, 0x62, 0x72, 0x4C, 0x0D, 0x75,
     0x81, 0xFC, 0xE5, 0x76, 0x1E, 0x9D, 0x8A, 0x0E, 0x6A, 0x1C, 0x3F, 0x92, 0x4F, 0xDD, 0x84, 0x93,
     0xD1, 0x11, 0x56, 0x49, 0xC0, 0x5E, 0xB6, 0x01]"

definition test_output0 :: "byte list" where
  "test_output0 =
    [0x1B, 0x60, 0x6A, 0x3F, 0x4A, 0x07, 0xD6, 0x48, 0x9A, 0x1B, 0xCD, 0x07, 0x69, 0x7B, 0xD1, 0x66,
     0x96, 0xB6, 0x1C, 0x8A, 0xE9, 0x82, 0xF6, 0x1A, 0x90, 0x16, 0x0F, 0x4E, 0x52, 0x82, 0x8A, 0x7F,
     0x1A, 0x3F, 0xFB, 0xEE, 0x90, 0x9B, 0x42, 0x0D, 0x91, 0xF7, 0xBE, 0x6E, 0x5F, 0xB5, 0x6D, 0xB7,
     0x1B, 0x31, 0x10, 0xD8, 0x86, 0x01, 0x1E, 0x87, 0x7E, 0xE5, 0x78, 0x6A, 0xFD, 0x08, 0x01, 0x00,
     0x1B, 0x60, 0x6A, 0x3F, 0x4A, 0x07, 0xD6, 0x48, 0x9A, 0x1B, 0xCD, 0x07, 0x69, 0x7B, 0xD1, 0x66,
     0x96, 0xB6, 0x1C, 0x8A, 0xE9, 0x82, 0xF6, 0x1A, 0x90, 0x16, 0x0F, 0x4E, 0x52, 0x82, 0x8A, 0x7F,
     0x1A, 0x3F, 0xFB, 0xEE, 0x90, 0x9B, 0x42, 0x0D, 0x91, 0xF7, 0xBE, 0x6E, 0x5F, 0xB5, 0x6D, 0xB7,
     0x1B, 0x31, 0x10, 0xD8, 0x86, 0x01, 0x1E, 0x87, 0x7E, 0xE5, 0x78, 0x6A, 0xFD, 0x08, 0x01, 0x00,
     0x1B, 0x60, 0x6A, 0x3F, 0x4A, 0x07, 0xD6, 0x48, 0x9A, 0x1B, 0xCD, 0x07, 0x69, 0x7B, 0xD1, 0x66,
     0x96, 0xB6, 0x1C, 0x8A, 0xE9, 0x82, 0xF6, 0x1A, 0x90, 0x16, 0x0F, 0x4E, 0x52, 0x82, 0x8A, 0x7F,
     0x1A, 0x3F, 0xFB, 0xEE, 0x90, 0x9B, 0x42, 0x0D, 0x91, 0xF7, 0xBE, 0x6E, 0x5F, 0xB5, 0x6D, 0xB7,
     0x1B, 0x31, 0x10, 0xD8, 0x86, 0x01, 0x1E, 0x87, 0x7E, 0xE5, 0x78, 0x6A, 0xFD, 0x08, 0x01, 0x00]"

definition test_output1 :: "byte list" where
  "test_output1 =
    [0x28, 0xA2, 0x2B, 0xAD, 0x3F, 0x93, 0xD1, 0x40, 0x8F, 0xCA, 0x47, 0x2E, 0xB5, 0xAD, 0x1C, 0xBE,
     0x75, 0xF2, 0x1D, 0x05, 0x3C, 0x8C, 0xE5, 0xB3, 0xAF, 0x10, 0x5A, 0x57, 0x71, 0x3E, 0x21, 0xDD,
     0x36, 0x95, 0xB4, 0xB5, 0x3B, 0xB0, 0x03, 0x58, 0xB0, 0xAD, 0x38, 0xDC, 0x16, 0x0F, 0xEB, 0x9E,
     0x00, 0x4E, 0xEC, 0xE0, 0x9B, 0x83, 0xA7, 0x2E, 0xF6, 0xBA, 0x98, 0x64, 0xD3, 0x51, 0x0C, 0x88,
     0x28, 0xA2, 0x2B, 0xAD, 0x3F, 0x93, 0xD1, 0x40, 0x8F, 0xCA, 0x47, 0x2E, 0xB5, 0xAD, 0x1C, 0xBE,
     0x75, 0xF2, 0x1D, 0x05, 0x3C, 0x8C, 0xE5, 0xB3, 0xAF, 0x10, 0x5A, 0x57, 0x71, 0x3E, 0x21, 0xDD,
     0x36, 0x95, 0xB4, 0xB5, 0x3B, 0xB0, 0x03, 0x58, 0xB0, 0xAD, 0x38, 0xDC, 0x16, 0x0F, 0xEB, 0x9E,
     0x00, 0x4E, 0xEC, 0xE0, 0x9B, 0x83, 0xA7, 0x2E, 0xF6, 0xBA, 0x98, 0x64, 0xD3, 0x51, 0x0C, 0x88,
     0x28, 0xA2, 0x2B, 0xAD, 0x3F, 0x93, 0xD1, 0x40, 0x8F, 0xCA, 0x47, 0x2E, 0xB5, 0xAD, 0x1C, 0xBE,
     0x75, 0xF2, 0x1D, 0x05, 0x3C, 0x8C, 0xE5, 0xB3, 0xAF, 0x10, 0x5A, 0x57, 0x71, 0x3E, 0x21, 0xDD,
     0x36, 0x95, 0xB4, 0xB5, 0x3B, 0xB0, 0x03, 0x58, 0xB0, 0xAD, 0x38, 0xDC, 0x16, 0x0F, 0xEB, 0x9E,
     0x00, 0x4E, 0xEC, 0xE0, 0x9B, 0x83, 0xA7, 0x2E, 0xF6, 0xBA, 0x98, 0x64, 0xD3, 0x51, 0x0C, 0x88]"

text \<open>
  \<open>ctx\<close> is the context that is allocated for the test; the calls use it one after the other. A null
  pointer in the second slot is called: it is not one of those checked.
\<close>

definition selfTest :: "aes_isa \<Rightarrow> extra_junk \<Rightarrow> hash_table \<Rightarrow> Algo \<Rightarrow> cryptonight_ctx \<Rightarrow> bool option" where
  "selfTest isa J t algo ctx =
    (if t ! 0 = None \<or> t ! 2 = None \<or> t ! 2 = None \<or> t ! 3 = None \<or> t ! 4 = None then Some False
     else case t ! 1 of None \<Rightarrow> None | Some m1 \<Rightarrow> do {
       let expected = (if algo = ALGO_CRYPTONIGHT_LITE then test_output1 else test_output0);
       (output, ctx) \<leftarrow> call_method isa J (the (t ! 0)) test_input 76 ctx;
       let resultSingle = (take 32 output = take 32 expected);
       (output, ctx) \<leftarrow> call_method isa J m1 test_input 76 ctx;
       let resultDouble = (take 64 output = take 64 expected);
       (output, ctx) \<leftarrow> call_method isa J (the (t ! 2)) test_input 76 ctx;
       let resultTriple = (take 96 output = take 96 expected);
       (output, ctx) \<leftarrow> call_method isa J (the (t ! 3)) test_input 76 ctx;
       let resultQuadruple = (take 128 output = take 128 expected);
       (output, ctx) \<leftarrow> call_method isa J (the (t ! 4)) test_input 76 ctx;
       let resultQuintuple = (take 160 output = take 160 expected);
       Some (resultSingle \<and> resultDouble \<and> resultTriple \<and> resultQuadruple \<and> resultQuintuple)})"

definition CryptoNight_init :: "aes_isa \<Rightarrow> extra_junk \<Rightarrow> Algo \<Rightarrow> bool \<Rightarrow> hash_table \<Rightarrow> cryptonight_ctx \<Rightarrow>
    hash_table \<times> bool option" where
  "CryptoNight_init isa J algo aesni t ctx =
    (let t = setCryptoNightHashMethods MAX_NUM_HASH_BLOCKS algo aesni t in (t, selfTest isa J t algo ctx))"

end
