(* ===== verification/CryptoNight_Lanes.thy ===== *)
theory CryptoNight_Lanes
  imports CryptoNight
begin

text \<open>
  The lanes of CryptoNight are independent: the memory is a row of pads, every access of an iteration stays
  in the pad of its lane, and so the unrolled iterations and the loop over the lanes change
  every lane as the iteration of one lane does. The locale \<open>lockstep\<close> is the contract of an
  iteration of all lanes, interpreted on the six bodies of the code.
\<close>

section \<open>Scratchpads\<close>

text \<open>The memory is cut into pads of \<open>n\<close> blocks: reading the \<open>k\<close>-th, and replacing it.\<close>

definition pad :: "nat \<Rightarrow> nat \<Rightarrow> 'a list \<Rightarrow> 'a list" where
  "pad n k mem = take n (drop (k * n) mem)"

definition put :: "nat \<Rightarrow> nat \<Rightarrow> 'a list \<Rightarrow> 'a list \<Rightarrow> 'a list" where
  "put n k p mem = take (k * n) mem @ p @ drop (k * n + n) mem"

lemma pad_room: "k < num \<Longrightarrow> num * n \<le> length mem \<Longrightarrow> k * n + n \<le> length mem"
proof -
  assume "k < num" "num * n \<le> length mem"
  then have "Suc k * n \<le> num * n" by (intro mult_le_mono1) simp
  then show ?thesis using \<open>num * n \<le> length mem\<close> by simp
qed

lemma length_pad: "k < num \<Longrightarrow> num * n \<le> length mem \<Longrightarrow> length (pad n k mem) = n"
  using pad_room [of k num n mem] by (simp add: pad_def)

lemma length_put: "k < num \<Longrightarrow> num * n \<le> length mem \<Longrightarrow> length p = n \<Longrightarrow> length (put n k p mem) = length mem"
  using pad_room [of k num n mem] by (simp add: put_def)

lemma nth_put:
  assumes "k < num" "num * n \<le> length mem" "length p = n" "i < length mem"
  shows "put n k p mem ! i = (if k * n \<le> i \<and> i < k * n + n then p ! (i - k * n) else mem ! i)"
  using assms pad_room [OF assms(1,2)] by (auto simp: put_def nth_append)

lemma nth_pad: "k < num \<Longrightarrow> num * n \<le> length mem \<Longrightarrow> j < n \<Longrightarrow> pad n k mem ! j = mem ! (k * n + j)"
  using pad_room [of k num n mem] by (simp add: pad_def)

lemma pads_apart: "k \<noteq> k' \<Longrightarrow> j < (n :: nat) \<Longrightarrow> \<not> (k * n \<le> k' * n + j \<and> k' * n + j < k * n + n)"
proof
  assume a: "k \<noteq> k'" "j < n" "k * n \<le> k' * n + j \<and> k' * n + j < k * n + n"
  then have "(k' * n + j) div n = k" by (intro div_nat_eqI) (simp_all add: mult.commute)
  moreover have "(k' * n + j) div n = k'" using a(2) by (intro div_nat_eqI) (simp_all add: mult.commute)
  ultimately show False using a(1) by simp
qed

lemma pad_put:
  assumes "k < num" "k' < num" "num * n \<le> length mem" "length p = n"
  shows "pad n k' (put n k p mem) = (if k = k' then p else pad n k' mem)"
proof (rule nth_equalityI)
  have num: "num * n \<le> length (put n k p mem)" using assms by (simp add: length_put)
  show "length (pad n k' (put n k p mem)) = length (if k = k' then p else pad n k' mem)"
    using assms num by (simp add: length_pad)
  fix j assume "j < length (pad n k' (put n k p mem))"
  then have j: "j < n" using length_pad [OF assms(2) num] by simp
  have "k' * n + j < length mem" using pad_room [OF assms(2,3)] j by simp
  then show "pad n k' (put n k p mem) ! j = (if k = k' then p else pad n k' mem) ! j"
    using assms num j pads_apart [of k k' j n] nth_put [OF assms(1,3,4), of "k' * n + j"]
    by (auto simp: nth_pad)
qed

lemma update_put:
  assumes "k < num" "num * n \<le> length mem" "j < n"
  shows "mem[k * n + j := v] = put n k ((pad n k mem)[j := v]) mem"
proof (rule nth_equalityI)
  note l = length_pad [OF assms(1,2)]
  show "length (mem[k * n + j := v]) = length (put n k ((pad n k mem)[j := v]) mem)"
    using assms l by (simp add: length_put)
  fix i assume "i < length (mem[k * n + j := v])"
  then have i: "i < length mem" by simp
  show "mem[k * n + j := v] ! i = put n k ((pad n k mem)[j := v]) mem ! i"
  proof (cases "k * n \<le> i \<and> i < k * n + n")
    case True
    then obtain t where t: "i = k * n + t" "t < n" by (metis add_less_cancel_left le_Suc_ex)
    then show ?thesis
      using i assms l nth_put [OF assms(1,2), of "(pad n k mem)[j := v]" i] nth_pad [OF assms(1,2) t(2)]
      by (simp add: nth_list_update)
  next
    case False
    then show ?thesis
      using i assms l nth_put [OF assms(1,2), of "(pad n k mem)[j := v]" i] by (auto simp: nth_list_update)
  qed
qed

lemma put_pad: "k < num \<Longrightarrow> num * n \<le> length mem \<Longrightarrow> put n k (pad n k mem) mem = mem"
  using pad_room [of k num n mem]
  by (simp add: put_def pad_def) (metis append_assoc append_take_drop_id take_add)

lemma put_put: "k < num \<Longrightarrow> num * n \<le> length mem \<Longrightarrow> length p = n \<Longrightarrow> put n k q (put n k p mem) = put n k q mem"
  using pad_room [of k num n mem] by (simp add: put_def)

section \<open>The pads of a memory\<close>

definition pads :: "nat \<Rightarrow> nat \<Rightarrow> m128i list \<Rightarrow> (nat \<Rightarrow> m128i list) \<Rightarrow> bool" where
  "pads n num mem f \<longleftrightarrow> num * n \<le> length mem \<and> (\<forall>k < num. pad n k mem = f k)"

lemma pads_length: "pads n num mem f \<Longrightarrow> k < num \<Longrightarrow> length (f k) = n"
  using length_pad [of k num n mem] by (auto simp: pads_def)

lemma pads_put:
  assumes "pads n num mem f" "k < num" "length p = n"
  shows "pads n num (put n k p mem) (f(k := p))" "length (put n k p mem) = length mem"
  using assms by (simp_all add: pads_def length_put [of k num] pad_put [of k num])

section \<open>One iteration on one lane\<close>

lemma cn_slot_0: "cn_slot MASK l idx = l + cn_slot MASK 0 idx"
  by (simp add: cn_slot_def)

lemma cn_slot_less: "unat MASK div 16 < n \<Longrightarrow> cn_slot MASK 0 idx < n"
proof -
  assume a: "unat MASK div 16 < n"
  have "idx AND MASK \<le> MASK" by (rule word_and_le1)
  then have "unat (idx AND MASK) div 16 \<le> unat MASK div 16" by (intro div_le_mono) (simp add: word_le_nat_alt)
  with a show ?thesis by (simp add: cn_slot_def)
qed

text \<open>
  The three accesses of the loop to the lane that starts at \<open>l\<close>: they read and change its pad as they would
  if it were the memory, and no other.
\<close>

lemma lane_read:
  assumes "pads n num mem f" "unat MASK div 16 < n" "k < num" "l = k * n"
  shows "mem ! cn_slot MASK l idx = f k ! cn_slot MASK 0 idx"
  using assms nth_pad [of k num n mem "cn_slot MASK 0 idx"] cn_slot_less [of MASK n idx]
  by (subst cn_slot_0) (simp add: pads_def)

lemma lane_write:
  assumes "pads n num mem f" "unat MASK div 16 < n" "k < num" "l = k * n"
  shows "\<exists>mem'. mem[cn_slot MASK l idx := v] = mem' \<and> pads n num mem' (f(k := (f k)[cn_slot MASK 0 idx := v])) \<and>
    length mem' = length mem"
proof -
  have "mem[cn_slot MASK l idx := v] = put n k ((f k)[cn_slot MASK 0 idx := v]) mem"
    using assms update_put [of k num n mem "cn_slot MASK 0 idx" v] cn_slot_less [of MASK n idx]
    by (subst cn_slot_0) (simp add: pads_def)
  then show ?thesis
    using pads_put [OF assms(1,3)] pads_length [OF assms(1,3)] by simp
qed

lemma mul_part_length: "cn_mul_part MASK l al ah idx mem = (x, y, z, p) \<Longrightarrow> length p = length mem"
  by (auto simp: cn_mul_part_def Let_def split: prod.splits)

lemma lane_mul:
  assumes "pads n num mem f" "unat MASK div 16 < n" "k < num" "l = k * n"
    and "cn_mul_part MASK 0 al ah idx (f k) = (x, y, z, p)"
  shows "\<exists>mem'. cn_mul_part MASK l al ah idx mem = (x, y, z, mem') \<and> pads n num mem' (f(k := p)) \<and> length mem' = length mem"
proof -
  obtain mem' where "cn_mul_part MASK l al ah idx mem = (x, y, z, mem')"
    "pads n num mem' (f(k := p))" "length mem' = length mem"
    using assms(5) lane_write [OF assms(1-4), of idx]
    by (auto simp: cn_mul_part_def Let_def lane_read [OF assms(1-4)] split: prod.splits)
  then show ?thesis by blast
qed

text \<open>The two halves of an iteration of a lane on its own.\<close>

lemma lane_halves:
  assumes "cn_iter1 MASK SOFT_AES isa 0 (v, p) = (w, r)"
  obtains al ah bx idx x y c z q where "v = (al, ah, bx, idx)" "w = (x, y, c, z)"
    "cn_aes SOFT_AES isa (p ! cn_slot MASK 0 idx) ah al = c" "p[cn_slot MASK 0 idx := mm_xor_si128 bx c] = q"
    "cn_mul_part MASK 0 al ah (mm_cvtsi128_si64 c) q = (x, y, z, r)"
proof -
  obtain al ah bx idx where v: "v = (al, ah, bx, idx)" by (metis prod_cases4)
  define c where "c = cn_aes SOFT_AES isa (p ! cn_slot MASK 0 idx) ah al"
  define q where "q = p[cn_slot MASK 0 idx := mm_xor_si128 bx c]"
  obtain x y z r' where B: "cn_mul_part MASK 0 al ah (mm_cvtsi128_si64 c) q = (x, y, z, r')" by (metis prod_cases4)
  then have w: "w = (x, y, c, z)" "r' = r"
    using assms by (auto simp: cn_iter1_def v Let_def c_def [symmetric] q_def [symmetric])
  show thesis by (rule that [OF v w(1) c_def [symmetric] q_def [symmetric] B [unfolded w(2)]])
qed

lemma cn_iter1_length: "cn_iter1 MASK SOFT_AES isa 0 (v, p) = (w, r) \<Longrightarrow> length r = length p"
  by (elim lane_halves) (auto dest: mul_part_length)

text \<open>
  The iterations of the class template and its specialisations: whatever order they load, encrypt, store and
  multiply the lanes in, every lane and its pad change as in the iteration of one lane.
\<close>

lemma cn_iter1_lanes:
  assumes P: "pads n num mem f" "unat MASK div 16 < n" and k: "k < num" and l: "l = k * n"
    and I: "cn_iter1 MASK SOFT_AES isa 0 (v, f k) = (w, p)"
  shows "\<exists>mem'. cn_iter1 MASK SOFT_AES isa l (v, mem) = (w, mem') \<and> pads n num mem' (f(k := p)) \<and> length mem' = length mem"
proof -
  obtain al ah bx idx x y c z q where v: "v = (al, ah, bx, idx)" "w = (x, y, c, z)"
    "cn_aes SOFT_AES isa (f k ! cn_slot MASK 0 idx) ah al = c" "(f k)[cn_slot MASK 0 idx := mm_xor_si128 bx c] = q"
    "cn_mul_part MASK 0 al ah (mm_cvtsi128_si64 c) q = (x, y, z, p)" using lane_halves [OF I] by metis
  obtain m0 where m0: "mem[cn_slot MASK l idx := mm_xor_si128 bx c] = m0" "pads n num m0 (f(k := q))" "length m0 = length mem"
    using lane_write [OF P k l] v(4) by metis
  obtain m1 where "cn_mul_part MASK l al ah (mm_cvtsi128_si64 c) m0 = (x, y, z, m1)" "pads n num m1 (f(k := p))" "length m1 = length mem"
    using lane_mul [OF m0(2) P(2) k l, of al ah "mm_cvtsi128_si64 c"] v(5) m0(3) by auto
  then show ?thesis
    by (auto simp: cn_iter1_def Let_def v(1,2) lane_read [OF P k l] v(3) m0(1))
qed

lemma cn_iter2_lanes:
  assumes P: "pads n num mem f" "unat MASK div 16 < n" and kk: "2 \<le> num"
    and l: "l0 = 0 * n" "l1 = 1 * n"
    and I0: "cn_iter1 MASK SOFT_AES isa 0 (v0, f 0) = (w0, p0)"
    and I1: "cn_iter1 MASK SOFT_AES isa 0 (v1, f 1) = (w1, p1)"
  shows "\<exists>mem'. cn_iter2 MASK SOFT_AES isa l0 l1 ((v0, v1), mem) = ((w0, w1), mem') \<and>
    pads n num mem' (f(0 := p0, 1 := p1)) \<and> length mem' = length mem"
proof -
  have k: "0 < num" "1 < num" using kk by simp_all
  obtain al0 ah0 bx0 idx0 x0 y0 c0 z0 q0 where v0: "v0 = (al0, ah0, bx0, idx0)" "w0 = (x0, y0, c0, z0)"
    "cn_aes SOFT_AES isa (f 0 ! cn_slot MASK 0 idx0) ah0 al0 = c0" "(f 0)[cn_slot MASK 0 idx0 := mm_xor_si128 bx0 c0] = q0"
    "cn_mul_part MASK 0 al0 ah0 (mm_cvtsi128_si64 c0) q0 = (x0, y0, z0, p0)" using lane_halves [OF I0] by metis
  obtain al1 ah1 bx1 idx1 x1 y1 c1 z1 q1 where v1: "v1 = (al1, ah1, bx1, idx1)" "w1 = (x1, y1, c1, z1)"
    "cn_aes SOFT_AES isa (f 1 ! cn_slot MASK 0 idx1) ah1 al1 = c1" "(f 1)[cn_slot MASK 0 idx1 := mm_xor_si128 bx1 c1] = q1"
    "cn_mul_part MASK 0 al1 ah1 (mm_cvtsi128_si64 c1) q1 = (x1, y1, z1, p1)" using lane_halves [OF I1] by metis
  obtain m0 where m0: "mem[cn_slot MASK l0 idx0 := mm_xor_si128 bx0 c0] = m0" "pads n num m0 (f(0 := q0))"
    "length m0 = length mem" using lane_write [OF P(1) P(2) k(1) l(1), of idx0 "mm_xor_si128 bx0 c0"] v0(4) by auto
  obtain m1 where m1: "m0[cn_slot MASK l1 idx1 := mm_xor_si128 bx1 c1] = m1" "pads n num m1 (f(0 := q0, 1 := q1))"
    "length m1 = length mem" using lane_write [OF m0(2) P(2) k(2) l(2), of idx1 "mm_xor_si128 bx1 c1"] v1(4) m0(3) by auto
  obtain n0 where n0: "cn_mul_part MASK l0 al0 ah0 (mm_cvtsi128_si64 c0) m1 = (x0, y0, z0, n0)" "pads n num n0 (f(0 := q0, 1 := q1, 0 := p0))"
    "length n0 = length mem" using lane_mul [OF m1(2) P(2) k(1) l(1), of al0 ah0 "mm_cvtsi128_si64 c0"] v0(5) m1(3) by auto
  obtain n1 where n1: "cn_mul_part MASK l1 al1 ah1 (mm_cvtsi128_si64 c1) n0 = (x1, y1, z1, n1)" "pads n num n1 (f(0 := q0, 1 := q1, 0 := p0, 1 := p1))"
    "length n1 = length mem" using lane_mul [OF n0(2) P(2) k(2) l(2), of al1 ah1 "mm_cvtsi128_si64 c1"] v1(5) n0(3) by auto
  have "cn_iter2 MASK SOFT_AES isa l0 l1 ((v0, v1), mem) = ((w0, w1), n1)"
    unfolding cn_iter2_def Let_def v0(1,2) v1(1,2)
    by (simp only: prod.case lane_read [OF P k(1) l(1)] v0(3) m0(1) n0(1) lane_read [OF P k(2) l(2)] v1(3) m1(1) n1(1))
  moreover have "f(0 := q0, 1 := q1, 0 := p0, 1 := p1) = f(0 := p0, 1 := p1)" by (simp add: fun_eq_iff)
  ultimately show ?thesis using n1(2,3) by simp
qed

lemma cn_iter3_lanes:
  assumes P: "pads n num mem f" "unat MASK div 16 < n" and kk: "3 \<le> num"
    and l: "l0 = 0 * n" "l1 = 1 * n" "l2 = 2 * n"
    and I0: "cn_iter1 MASK SOFT_AES isa 0 (v0, f 0) = (w0, p0)"
    and I1: "cn_iter1 MASK SOFT_AES isa 0 (v1, f 1) = (w1, p1)"
    and I2: "cn_iter1 MASK SOFT_AES isa 0 (v2, f 2) = (w2, p2)"
  shows "\<exists>mem'. cn_iter3 MASK SOFT_AES isa l0 l1 l2 ((v0, v1, v2), mem) = ((w0, w1, w2), mem') \<and>
    pads n num mem' (f(0 := p0, 1 := p1, 2 := p2)) \<and> length mem' = length mem"
proof -
  have k: "0 < num" "1 < num" "2 < num" using kk by simp_all
  obtain al0 ah0 bx0 idx0 x0 y0 c0 z0 q0 where v0: "v0 = (al0, ah0, bx0, idx0)" "w0 = (x0, y0, c0, z0)"
    "cn_aes SOFT_AES isa (f 0 ! cn_slot MASK 0 idx0) ah0 al0 = c0" "(f 0)[cn_slot MASK 0 idx0 := mm_xor_si128 bx0 c0] = q0"
    "cn_mul_part MASK 0 al0 ah0 (mm_cvtsi128_si64 c0) q0 = (x0, y0, z0, p0)" using lane_halves [OF I0] by metis
  obtain al1 ah1 bx1 idx1 x1 y1 c1 z1 q1 where v1: "v1 = (al1, ah1, bx1, idx1)" "w1 = (x1, y1, c1, z1)"
    "cn_aes SOFT_AES isa (f 1 ! cn_slot MASK 0 idx1) ah1 al1 = c1" "(f 1)[cn_slot MASK 0 idx1 := mm_xor_si128 bx1 c1] = q1"
    "cn_mul_part MASK 0 al1 ah1 (mm_cvtsi128_si64 c1) q1 = (x1, y1, z1, p1)" using lane_halves [OF I1] by metis
  obtain al2 ah2 bx2 idx2 x2 y2 c2 z2 q2 where v2: "v2 = (al2, ah2, bx2, idx2)" "w2 = (x2, y2, c2, z2)"
    "cn_aes SOFT_AES isa (f 2 ! cn_slot MASK 0 idx2) ah2 al2 = c2" "(f 2)[cn_slot MASK 0 idx2 := mm_xor_si128 bx2 c2] = q2"
    "cn_mul_part MASK 0 al2 ah2 (mm_cvtsi128_si64 c2) q2 = (x2, y2, z2, p2)" using lane_halves [OF I2] by metis
  obtain m0 where m0: "mem[cn_slot MASK l0 idx0 := mm_xor_si128 bx0 c0] = m0" "pads n num m0 (f(0 := q0))"
    "length m0 = length mem" using lane_write [OF P(1) P(2) k(1) l(1), of idx0 "mm_xor_si128 bx0 c0"] v0(4) by auto
  obtain m1 where m1: "m0[cn_slot MASK l1 idx1 := mm_xor_si128 bx1 c1] = m1" "pads n num m1 (f(0 := q0, 1 := q1))"
    "length m1 = length mem" using lane_write [OF m0(2) P(2) k(2) l(2), of idx1 "mm_xor_si128 bx1 c1"] v1(4) m0(3) by auto
  obtain m2 where m2: "m1[cn_slot MASK l2 idx2 := mm_xor_si128 bx2 c2] = m2" "pads n num m2 (f(0 := q0, 1 := q1, 2 := q2))"
    "length m2 = length mem" using lane_write [OF m1(2) P(2) k(3) l(3), of idx2 "mm_xor_si128 bx2 c2"] v2(4) m1(3) by auto
  obtain n0 where n0: "cn_mul_part MASK l0 al0 ah0 (mm_cvtsi128_si64 c0) m2 = (x0, y0, z0, n0)" "pads n num n0 (f(0 := q0, 1 := q1, 2 := q2, 0 := p0))"
    "length n0 = length mem" using lane_mul [OF m2(2) P(2) k(1) l(1), of al0 ah0 "mm_cvtsi128_si64 c0"] v0(5) m2(3) by auto
  obtain n1 where n1: "cn_mul_part MASK l1 al1 ah1 (mm_cvtsi128_si64 c1) n0 = (x1, y1, z1, n1)" "pads n num n1 (f(0 := q0, 1 := q1, 2 := q2, 0 := p0, 1 := p1))"
    "length n1 = length mem" using lane_mul [OF n0(2) P(2) k(2) l(2), of al1 ah1 "mm_cvtsi128_si64 c1"] v1(5) n0(3) by auto
  obtain n2 where n2: "cn_mul_part MASK l2 al2 ah2 (mm_cvtsi128_si64 c2) n1 = (x2, y2, z2, n2)" "pads n num n2 (f(0 := q0, 1 := q1, 2 := q2, 0 := p0, 1 := p1, 2 := p2))"
    "length n2 = length mem" using lane_mul [OF n1(2) P(2) k(3) l(3), of al2 ah2 "mm_cvtsi128_si64 c2"] v2(5) n1(3) by auto
  have "cn_iter3 MASK SOFT_AES isa l0 l1 l2 ((v0, v1, v2), mem) = ((w0, w1, w2), n2)"
    unfolding cn_iter3_def Let_def v0(1,2) v1(1,2) v2(1,2)
    by (simp only: prod.case lane_read [OF P k(1) l(1)] v0(3) m0(1) n0(1) lane_read [OF P k(2) l(2)] v1(3) m1(1) n1(1) lane_read [OF P k(3) l(3)] v2(3) m2(1) n2(1))
  moreover have "f(0 := q0, 1 := q1, 2 := q2, 0 := p0, 1 := p1, 2 := p2) = f(0 := p0, 1 := p1, 2 := p2)" by (simp add: fun_eq_iff)
  ultimately show ?thesis using n2(2,3) by simp
qed

lemma cn_iter4_lanes:
  assumes P: "pads n num mem f" "unat MASK div 16 < n" and kk: "4 \<le> num"
    and l: "l0 = 0 * n" "l1 = 1 * n" "l2 = 2 * n" "l3 = 3 * n"
    and I0: "cn_iter1 MASK SOFT_AES isa 0 (v0, f 0) = (w0, p0)"
    and I1: "cn_iter1 MASK SOFT_AES isa 0 (v1, f 1) = (w1, p1)"
    and I2: "cn_iter1 MASK SOFT_AES isa 0 (v2, f 2) = (w2, p2)"
    and I3: "cn_iter1 MASK SOFT_AES isa 0 (v3, f 3) = (w3, p3)"
  shows "\<exists>mem'. cn_iter4 MASK SOFT_AES isa l0 l1 l2 l3 ((v0, v1, v2, v3), mem) = ((w0, w1, w2, w3), mem') \<and>
    pads n num mem' (f(0 := p0, 1 := p1, 2 := p2, 3 := p3)) \<and> length mem' = length mem"
proof -
  have k: "0 < num" "1 < num" "2 < num" "3 < num" using kk by simp_all
  obtain al0 ah0 bx0 idx0 x0 y0 c0 z0 q0 where v0: "v0 = (al0, ah0, bx0, idx0)" "w0 = (x0, y0, c0, z0)"
    "cn_aes SOFT_AES isa (f 0 ! cn_slot MASK 0 idx0) ah0 al0 = c0" "(f 0)[cn_slot MASK 0 idx0 := mm_xor_si128 bx0 c0] = q0"
    "cn_mul_part MASK 0 al0 ah0 (mm_cvtsi128_si64 c0) q0 = (x0, y0, z0, p0)" using lane_halves [OF I0] by metis
  obtain al1 ah1 bx1 idx1 x1 y1 c1 z1 q1 where v1: "v1 = (al1, ah1, bx1, idx1)" "w1 = (x1, y1, c1, z1)"
    "cn_aes SOFT_AES isa (f 1 ! cn_slot MASK 0 idx1) ah1 al1 = c1" "(f 1)[cn_slot MASK 0 idx1 := mm_xor_si128 bx1 c1] = q1"
    "cn_mul_part MASK 0 al1 ah1 (mm_cvtsi128_si64 c1) q1 = (x1, y1, z1, p1)" using lane_halves [OF I1] by metis
  obtain al2 ah2 bx2 idx2 x2 y2 c2 z2 q2 where v2: "v2 = (al2, ah2, bx2, idx2)" "w2 = (x2, y2, c2, z2)"
    "cn_aes SOFT_AES isa (f 2 ! cn_slot MASK 0 idx2) ah2 al2 = c2" "(f 2)[cn_slot MASK 0 idx2 := mm_xor_si128 bx2 c2] = q2"
    "cn_mul_part MASK 0 al2 ah2 (mm_cvtsi128_si64 c2) q2 = (x2, y2, z2, p2)" using lane_halves [OF I2] by metis
  obtain al3 ah3 bx3 idx3 x3 y3 c3 z3 q3 where v3: "v3 = (al3, ah3, bx3, idx3)" "w3 = (x3, y3, c3, z3)"
    "cn_aes SOFT_AES isa (f 3 ! cn_slot MASK 0 idx3) ah3 al3 = c3" "(f 3)[cn_slot MASK 0 idx3 := mm_xor_si128 bx3 c3] = q3"
    "cn_mul_part MASK 0 al3 ah3 (mm_cvtsi128_si64 c3) q3 = (x3, y3, z3, p3)" using lane_halves [OF I3] by metis
  obtain m0 where m0: "mem[cn_slot MASK l0 idx0 := mm_xor_si128 bx0 c0] = m0" "pads n num m0 (f(0 := q0))"
    "length m0 = length mem" using lane_write [OF P(1) P(2) k(1) l(1), of idx0 "mm_xor_si128 bx0 c0"] v0(4) by auto
  obtain m1 where m1: "m0[cn_slot MASK l1 idx1 := mm_xor_si128 bx1 c1] = m1" "pads n num m1 (f(0 := q0, 1 := q1))"
    "length m1 = length mem" using lane_write [OF m0(2) P(2) k(2) l(2), of idx1 "mm_xor_si128 bx1 c1"] v1(4) m0(3) by auto
  obtain m2 where m2: "m1[cn_slot MASK l2 idx2 := mm_xor_si128 bx2 c2] = m2" "pads n num m2 (f(0 := q0, 1 := q1, 2 := q2))"
    "length m2 = length mem" using lane_write [OF m1(2) P(2) k(3) l(3), of idx2 "mm_xor_si128 bx2 c2"] v2(4) m1(3) by auto
  obtain m3 where m3: "m2[cn_slot MASK l3 idx3 := mm_xor_si128 bx3 c3] = m3" "pads n num m3 (f(0 := q0, 1 := q1, 2 := q2, 3 := q3))"
    "length m3 = length mem" using lane_write [OF m2(2) P(2) k(4) l(4), of idx3 "mm_xor_si128 bx3 c3"] v3(4) m2(3) by auto
  obtain n0 where n0: "cn_mul_part MASK l0 al0 ah0 (mm_cvtsi128_si64 c0) m3 = (x0, y0, z0, n0)" "pads n num n0 (f(0 := q0, 1 := q1, 2 := q2, 3 := q3, 0 := p0))"
    "length n0 = length mem" using lane_mul [OF m3(2) P(2) k(1) l(1), of al0 ah0 "mm_cvtsi128_si64 c0"] v0(5) m3(3) by auto
  obtain n1 where n1: "cn_mul_part MASK l1 al1 ah1 (mm_cvtsi128_si64 c1) n0 = (x1, y1, z1, n1)" "pads n num n1 (f(0 := q0, 1 := q1, 2 := q2, 3 := q3, 0 := p0, 1 := p1))"
    "length n1 = length mem" using lane_mul [OF n0(2) P(2) k(2) l(2), of al1 ah1 "mm_cvtsi128_si64 c1"] v1(5) n0(3) by auto
  obtain n2 where n2: "cn_mul_part MASK l2 al2 ah2 (mm_cvtsi128_si64 c2) n1 = (x2, y2, z2, n2)" "pads n num n2 (f(0 := q0, 1 := q1, 2 := q2, 3 := q3, 0 := p0, 1 := p1, 2 := p2))"
    "length n2 = length mem" using lane_mul [OF n1(2) P(2) k(3) l(3), of al2 ah2 "mm_cvtsi128_si64 c2"] v2(5) n1(3) by auto
  obtain n3 where n3: "cn_mul_part MASK l3 al3 ah3 (mm_cvtsi128_si64 c3) n2 = (x3, y3, z3, n3)" "pads n num n3 (f(0 := q0, 1 := q1, 2 := q2, 3 := q3, 0 := p0, 1 := p1, 2 := p2, 3 := p3))"
    "length n3 = length mem" using lane_mul [OF n2(2) P(2) k(4) l(4), of al3 ah3 "mm_cvtsi128_si64 c3"] v3(5) n2(3) by auto
  have "cn_iter4 MASK SOFT_AES isa l0 l1 l2 l3 ((v0, v1, v2, v3), mem) = ((w0, w1, w2, w3), n3)"
    unfolding cn_iter4_def Let_def v0(1,2) v1(1,2) v2(1,2) v3(1,2)
    by (simp only: prod.case lane_read [OF P k(1) l(1)] v0(3) m0(1) n0(1) lane_read [OF P k(2) l(2)] v1(3) m1(1) n1(1) lane_read [OF P k(3) l(3)] v2(3) m2(1) n2(1) lane_read [OF P k(4) l(4)] v3(3) m3(1) n3(1))
  moreover have "f(0 := q0, 1 := q1, 2 := q2, 3 := q3, 0 := p0, 1 := p1, 2 := p2, 3 := p3) = f(0 := p0, 1 := p1, 2 := p2, 3 := p3)" by (simp add: fun_eq_iff)
  ultimately show ?thesis using n3(2,3) by simp
qed

lemma cn_iter5_lanes:
  assumes P: "pads n num mem f" "unat MASK div 16 < n" and kk: "5 \<le> num"
    and l: "l0 = 0 * n" "l1 = 1 * n" "l2 = 2 * n" "l3 = 3 * n" "l4 = 4 * n"
    and I0: "cn_iter1 MASK SOFT_AES isa 0 (v0, f 0) = (w0, p0)"
    and I1: "cn_iter1 MASK SOFT_AES isa 0 (v1, f 1) = (w1, p1)"
    and I2: "cn_iter1 MASK SOFT_AES isa 0 (v2, f 2) = (w2, p2)"
    and I3: "cn_iter1 MASK SOFT_AES isa 0 (v3, f 3) = (w3, p3)"
    and I4: "cn_iter1 MASK SOFT_AES isa 0 (v4, f 4) = (w4, p4)"
  shows "\<exists>mem'. cn_iter5 MASK SOFT_AES isa l0 l1 l2 l3 l4 ((v0, v1, v2, v3, v4), mem) = ((w0, w1, w2, w3, w4), mem') \<and>
    pads n num mem' (f(0 := p0, 1 := p1, 2 := p2, 3 := p3, 4 := p4)) \<and> length mem' = length mem"
proof -
  have k: "0 < num" "1 < num" "2 < num" "3 < num" "4 < num" using kk by simp_all
  obtain al0 ah0 bx0 idx0 x0 y0 c0 z0 q0 where v0: "v0 = (al0, ah0, bx0, idx0)" "w0 = (x0, y0, c0, z0)"
    "cn_aes SOFT_AES isa (f 0 ! cn_slot MASK 0 idx0) ah0 al0 = c0" "(f 0)[cn_slot MASK 0 idx0 := mm_xor_si128 bx0 c0] = q0"
    "cn_mul_part MASK 0 al0 ah0 (mm_cvtsi128_si64 c0) q0 = (x0, y0, z0, p0)" using lane_halves [OF I0] by metis
  obtain al1 ah1 bx1 idx1 x1 y1 c1 z1 q1 where v1: "v1 = (al1, ah1, bx1, idx1)" "w1 = (x1, y1, c1, z1)"
    "cn_aes SOFT_AES isa (f 1 ! cn_slot MASK 0 idx1) ah1 al1 = c1" "(f 1)[cn_slot MASK 0 idx1 := mm_xor_si128 bx1 c1] = q1"
    "cn_mul_part MASK 0 al1 ah1 (mm_cvtsi128_si64 c1) q1 = (x1, y1, z1, p1)" using lane_halves [OF I1] by metis
  obtain al2 ah2 bx2 idx2 x2 y2 c2 z2 q2 where v2: "v2 = (al2, ah2, bx2, idx2)" "w2 = (x2, y2, c2, z2)"
    "cn_aes SOFT_AES isa (f 2 ! cn_slot MASK 0 idx2) ah2 al2 = c2" "(f 2)[cn_slot MASK 0 idx2 := mm_xor_si128 bx2 c2] = q2"
    "cn_mul_part MASK 0 al2 ah2 (mm_cvtsi128_si64 c2) q2 = (x2, y2, z2, p2)" using lane_halves [OF I2] by metis
  obtain al3 ah3 bx3 idx3 x3 y3 c3 z3 q3 where v3: "v3 = (al3, ah3, bx3, idx3)" "w3 = (x3, y3, c3, z3)"
    "cn_aes SOFT_AES isa (f 3 ! cn_slot MASK 0 idx3) ah3 al3 = c3" "(f 3)[cn_slot MASK 0 idx3 := mm_xor_si128 bx3 c3] = q3"
    "cn_mul_part MASK 0 al3 ah3 (mm_cvtsi128_si64 c3) q3 = (x3, y3, z3, p3)" using lane_halves [OF I3] by metis
  obtain al4 ah4 bx4 idx4 x4 y4 c4 z4 q4 where v4: "v4 = (al4, ah4, bx4, idx4)" "w4 = (x4, y4, c4, z4)"
    "cn_aes SOFT_AES isa (f 4 ! cn_slot MASK 0 idx4) ah4 al4 = c4" "(f 4)[cn_slot MASK 0 idx4 := mm_xor_si128 bx4 c4] = q4"
    "cn_mul_part MASK 0 al4 ah4 (mm_cvtsi128_si64 c4) q4 = (x4, y4, z4, p4)" using lane_halves [OF I4] by metis
  obtain m0 where m0: "mem[cn_slot MASK l0 idx0 := mm_xor_si128 bx0 c0] = m0" "pads n num m0 (f(0 := q0))"
    "length m0 = length mem" using lane_write [OF P(1) P(2) k(1) l(1), of idx0 "mm_xor_si128 bx0 c0"] v0(4) by auto
  obtain m1 where m1: "m0[cn_slot MASK l1 idx1 := mm_xor_si128 bx1 c1] = m1" "pads n num m1 (f(0 := q0, 1 := q1))"
    "length m1 = length mem" using lane_write [OF m0(2) P(2) k(2) l(2), of idx1 "mm_xor_si128 bx1 c1"] v1(4) m0(3) by auto
  obtain m2 where m2: "m1[cn_slot MASK l2 idx2 := mm_xor_si128 bx2 c2] = m2" "pads n num m2 (f(0 := q0, 1 := q1, 2 := q2))"
    "length m2 = length mem" using lane_write [OF m1(2) P(2) k(3) l(3), of idx2 "mm_xor_si128 bx2 c2"] v2(4) m1(3) by auto
  obtain m3 where m3: "m2[cn_slot MASK l3 idx3 := mm_xor_si128 bx3 c3] = m3" "pads n num m3 (f(0 := q0, 1 := q1, 2 := q2, 3 := q3))"
    "length m3 = length mem" using lane_write [OF m2(2) P(2) k(4) l(4), of idx3 "mm_xor_si128 bx3 c3"] v3(4) m2(3) by auto
  obtain m4 where m4: "m3[cn_slot MASK l4 idx4 := mm_xor_si128 bx4 c4] = m4" "pads n num m4 (f(0 := q0, 1 := q1, 2 := q2, 3 := q3, 4 := q4))"
    "length m4 = length mem" using lane_write [OF m3(2) P(2) k(5) l(5), of idx4 "mm_xor_si128 bx4 c4"] v4(4) m3(3) by auto
  obtain n0 where n0: "cn_mul_part MASK l0 al0 ah0 (mm_cvtsi128_si64 c0) m4 = (x0, y0, z0, n0)" "pads n num n0 (f(0 := q0, 1 := q1, 2 := q2, 3 := q3, 4 := q4, 0 := p0))"
    "length n0 = length mem" using lane_mul [OF m4(2) P(2) k(1) l(1), of al0 ah0 "mm_cvtsi128_si64 c0"] v0(5) m4(3) by auto
  obtain n1 where n1: "cn_mul_part MASK l1 al1 ah1 (mm_cvtsi128_si64 c1) n0 = (x1, y1, z1, n1)" "pads n num n1 (f(0 := q0, 1 := q1, 2 := q2, 3 := q3, 4 := q4, 0 := p0, 1 := p1))"
    "length n1 = length mem" using lane_mul [OF n0(2) P(2) k(2) l(2), of al1 ah1 "mm_cvtsi128_si64 c1"] v1(5) n0(3) by auto
  obtain n2 where n2: "cn_mul_part MASK l2 al2 ah2 (mm_cvtsi128_si64 c2) n1 = (x2, y2, z2, n2)" "pads n num n2 (f(0 := q0, 1 := q1, 2 := q2, 3 := q3, 4 := q4, 0 := p0, 1 := p1, 2 := p2))"
    "length n2 = length mem" using lane_mul [OF n1(2) P(2) k(3) l(3), of al2 ah2 "mm_cvtsi128_si64 c2"] v2(5) n1(3) by auto
  obtain n3 where n3: "cn_mul_part MASK l3 al3 ah3 (mm_cvtsi128_si64 c3) n2 = (x3, y3, z3, n3)" "pads n num n3 (f(0 := q0, 1 := q1, 2 := q2, 3 := q3, 4 := q4, 0 := p0, 1 := p1, 2 := p2, 3 := p3))"
    "length n3 = length mem" using lane_mul [OF n2(2) P(2) k(4) l(4), of al3 ah3 "mm_cvtsi128_si64 c3"] v3(5) n2(3) by auto
  obtain n4 where n4: "cn_mul_part MASK l4 al4 ah4 (mm_cvtsi128_si64 c4) n3 = (x4, y4, z4, n4)" "pads n num n4 (f(0 := q0, 1 := q1, 2 := q2, 3 := q3, 4 := q4, 0 := p0, 1 := p1, 2 := p2, 3 := p3, 4 := p4))"
    "length n4 = length mem" using lane_mul [OF n3(2) P(2) k(5) l(5), of al4 ah4 "mm_cvtsi128_si64 c4"] v4(5) n3(3) by auto
  have "cn_iter5 MASK SOFT_AES isa l0 l1 l2 l3 l4 ((v0, v1, v2, v3, v4), mem) = ((w0, w1, w2, w3, w4), n4)"
    unfolding cn_iter5_def Let_def v0(1,2) v1(1,2) v2(1,2) v3(1,2) v4(1,2)
    by (simp only: prod.case lane_read [OF P k(1) l(1)] v0(3) m0(1) n0(1) lane_read [OF P k(2) l(2)] v1(3) m1(1) n1(1) lane_read [OF P k(3) l(3)] v2(3) m2(1) n2(1) lane_read [OF P k(4) l(4)] v3(3) m3(1) n3(1) lane_read [OF P k(5) l(5)] v4(3) m4(1) n4(1))
  moreover have "f(0 := q0, 1 := q1, 2 := q2, 3 := q3, 4 := q4, 0 := p0, 1 := p1, 2 := p2, 3 := p3, 4 := p4) = f(0 := p0, 1 := p1, 2 := p2, 3 := p3, 4 := p4)" by (simp add: fun_eq_iff)
  ultimately show ?thesis using n4(2,3) by simp
qed

section \<open>Lanes in lockstep\<close>

text \<open>
  What the class template promises of the body of its loop: one iteration of all lanes is one iteration of every
  lane on its own pad. Its client gets the same of the whole loop.
\<close>

locale lockstep =
  fixes n num :: nat
    and ok :: bool
    and good :: "'s \<Rightarrow> bool"
    and lane_of :: "'s \<Rightarrow> nat \<Rightarrow> lane_vars"
    and one :: "lane_vars \<times> m128i list \<Rightarrow> lane_vars \<times> m128i list"
    and body :: "'s \<times> m128i list \<Rightarrow> 's \<times> m128i list"
  assumes body_lanes: "ok \<Longrightarrow> good vs \<Longrightarrow> pads n num mem f \<Longrightarrow>
    \<exists>vs' mem'. body (vs, mem) = (vs', mem') \<and> good vs' \<and> length mem' = length mem \<and>
      (\<forall>k < num. lane_of vs' k = fst (one (lane_of vs k, f k))) \<and> pads n num mem' (\<lambda>k. snd (one (lane_of vs k, f k)))"
begin

lemma loop_lanes:
  assumes ok "good vs" "pads n num mem f"
  shows "\<exists>vs' mem'. (body ^^ i) (vs, mem) = (vs', mem') \<and> good vs' \<and> length mem' = length mem \<and>
    (\<forall>k < num. lane_of vs' k = fst ((one ^^ i) (lane_of vs k, f k))) \<and>
    pads n num mem' (\<lambda>k. snd ((one ^^ i) (lane_of vs k, f k)))"
proof (induction i)
  case 0
  then show ?case using assms by simp
next
  case (Suc i)
  then obtain vs' mem' where i: "(body ^^ i) (vs, mem) = (vs', mem')" "good vs'" "length mem' = length mem"
    "\<forall>k < num. lane_of vs' k = fst ((one ^^ i) (lane_of vs k, f k))"
    "pads n num mem' (\<lambda>k. snd ((one ^^ i) (lane_of vs k, f k)))" by blast
  have e: "(one (lane_of vs' k, snd ((one ^^ i) (lane_of vs k, f k)))) = (one ^^ Suc i) (lane_of vs k, f k)" if "k < num" for k
    using i(4) that by simp
  from body_lanes [OF assms(1) i(2,5)] obtain vs2 mem2 where
    "body (vs', mem') = (vs2, mem2)" "good vs2" "length mem2 = length mem'"
    "\<forall>k < num. lane_of vs2 k = fst (one (lane_of vs' k, snd ((one ^^ i) (lane_of vs k, f k))))"
    "pads n num mem2 (\<lambda>k. snd (one (lane_of vs' k, snd ((one ^^ i) (lane_of vs k, f k)))))" by blast
  then show ?case using i(1,3) e by (intro exI [of _ vs2] exI [of _ mem2]) (auto simp: pads_def)
qed

end

lemma pads_upto: "pads n num mem f \<Longrightarrow> (\<And>k. k < num \<Longrightarrow> f k = g k) \<Longrightarrow> pads n num mem g"
  by (simp add: pads_def)

interpretation lanes1: lockstep n 1 "unat MASK div 16 < n" "\<lambda>v. True" "\<lambda>v k. v"
  "cn_iter1 MASK SOFT_AES isa 0" "cn_iter1 MASK SOFT_AES isa 0" for n MASK SOFT_AES isa
proof
  fix v mem and f :: "nat \<Rightarrow> m128i list"
  assume a: "unat MASK div 16 < n" "pads n 1 mem f"
  obtain w p where I: "cn_iter1 MASK SOFT_AES isa 0 (v, f 0) = (w, p)" by (metis surj_pair)
  from cn_iter1_lanes [OF a(2,1) _ _ I, of 0] obtain mem' where
    "cn_iter1 MASK SOFT_AES isa 0 (v, mem) = (w, mem')" "pads n 1 mem' (f(0 := p))" "length mem' = length mem" by auto
  then show "\<exists>vs' mem'. cn_iter1 MASK SOFT_AES isa 0 (v, mem) = (vs', mem') \<and> True \<and> length mem' = length mem \<and>
      (\<forall>k < 1. vs' = fst (cn_iter1 MASK SOFT_AES isa 0 (v, f k))) \<and> pads n 1 mem' (\<lambda>k. snd (cn_iter1 MASK SOFT_AES isa 0 (v, f k)))"
    using I by (auto elim!: pads_upto)
qed

fun lanes_2 :: "lane_vars \<times> lane_vars \<Rightarrow> nat \<Rightarrow> lane_vars" where
  "lanes_2 (v0, v1) k = [v0, v1] ! k"

interpretation lanes2: lockstep n 2 "unat MASK div 16 < n" "\<lambda>vs. True" lanes_2
  "cn_iter1 MASK SOFT_AES isa 0" "cn_iter2 MASK SOFT_AES isa 0 n" for n MASK SOFT_AES isa
proof
  fix vs :: "lane_vars \<times> lane_vars" and mem and f :: "nat \<Rightarrow> m128i list"
  assume a: "unat MASK div 16 < n" "pads n 2 mem f"
  let ?one = "cn_iter1 MASK SOFT_AES isa 0"
  obtain v0 v1 where v: "vs = (v0, v1)" by (metis prod.collapse)
  obtain w0 p0 where I0: "?one (v0, f 0) = (w0, p0)" by (metis surj_pair)
  obtain w1 p1 where I1: "?one (v1, f 1) = (w1, p1)" by (metis surj_pair)
  have "2 \<le> (2 :: nat)" by (rule order_refl)
  from cn_iter2_lanes [OF a(2,1) this _ _ I0 I1, where ?l0.0 = "0" and ?l1.0 = "n"] obtain mem' where
    it: "cn_iter2 MASK SOFT_AES isa 0 n (vs, mem) = ((w0, w1), mem')"
    "pads n 2 mem' (f(0 := p0, 1 := p1))" "length mem' = length mem" unfolding v by auto
  have k: "k < 2 \<longleftrightarrow> k \<in> {0, 1}" for k :: nat by auto
  have "\<forall>k < 2. lanes_2 (w0, w1) k = fst (?one (lanes_2 vs k, f k))"
    "pads n 2 mem' (\<lambda>k. snd (?one (lanes_2 vs k, f k)))"
    using I0 I1 by (auto simp: k v intro!: pads_upto [OF it(2)])
  then show "\<exists>vs' mem'. cn_iter2 MASK SOFT_AES isa 0 n (vs, mem) = (vs', mem') \<and> True \<and> length mem' = length mem \<and>
      (\<forall>k < 2. lanes_2 vs' k = fst (?one (lanes_2 vs k, f k))) \<and> pads n 2 mem' (\<lambda>k. snd (?one (lanes_2 vs k, f k)))"
    using it by blast
qed

fun lanes_3 :: "lane_vars \<times> lane_vars \<times> lane_vars \<Rightarrow> nat \<Rightarrow> lane_vars" where
  "lanes_3 (v0, v1, v2) k = [v0, v1, v2] ! k"

interpretation lanes3: lockstep n 3 "unat MASK div 16 < n" "\<lambda>vs. True" lanes_3
  "cn_iter1 MASK SOFT_AES isa 0" "cn_iter3 MASK SOFT_AES isa 0 n (2 * n)" for n MASK SOFT_AES isa
proof
  fix vs :: "lane_vars \<times> lane_vars \<times> lane_vars" and mem and f :: "nat \<Rightarrow> m128i list"
  assume a: "unat MASK div 16 < n" "pads n 3 mem f"
  let ?one = "cn_iter1 MASK SOFT_AES isa 0"
  obtain v0 v1 v2 where v: "vs = (v0, v1, v2)" by (metis prod.collapse)
  obtain w0 p0 where I0: "?one (v0, f 0) = (w0, p0)" by (metis surj_pair)
  obtain w1 p1 where I1: "?one (v1, f 1) = (w1, p1)" by (metis surj_pair)
  obtain w2 p2 where I2: "?one (v2, f 2) = (w2, p2)" by (metis surj_pair)
  have "3 \<le> (3 :: nat)" by (rule order_refl)
  from cn_iter3_lanes [OF a(2,1) this _ _ _ I0 I1 I2, where ?l0.0 = "0" and ?l1.0 = "n" and ?l2.0 = "(2 * n)"] obtain mem' where
    it: "cn_iter3 MASK SOFT_AES isa 0 n (2 * n) (vs, mem) = ((w0, w1, w2), mem')"
    "pads n 3 mem' (f(0 := p0, 1 := p1, 2 := p2))" "length mem' = length mem" unfolding v by auto
  have k: "k < 3 \<longleftrightarrow> k \<in> {0, 1, 2}" for k :: nat by auto
  have "\<forall>k < 3. lanes_3 (w0, w1, w2) k = fst (?one (lanes_3 vs k, f k))"
    "pads n 3 mem' (\<lambda>k. snd (?one (lanes_3 vs k, f k)))"
    using I0 I1 I2 by (auto simp: k v intro!: pads_upto [OF it(2)])
  then show "\<exists>vs' mem'. cn_iter3 MASK SOFT_AES isa 0 n (2 * n) (vs, mem) = (vs', mem') \<and> True \<and> length mem' = length mem \<and>
      (\<forall>k < 3. lanes_3 vs' k = fst (?one (lanes_3 vs k, f k))) \<and> pads n 3 mem' (\<lambda>k. snd (?one (lanes_3 vs k, f k)))"
    using it by blast
qed

fun lanes_4 :: "lane_vars \<times> lane_vars \<times> lane_vars \<times> lane_vars \<Rightarrow> nat \<Rightarrow> lane_vars" where
  "lanes_4 (v0, v1, v2, v3) k = [v0, v1, v2, v3] ! k"

interpretation lanes4: lockstep n 4 "unat MASK div 16 < n" "\<lambda>vs. True" lanes_4
  "cn_iter1 MASK SOFT_AES isa 0" "cn_iter4 MASK SOFT_AES isa 0 n (2 * n) (3 * n)" for n MASK SOFT_AES isa
proof
  fix vs :: "lane_vars \<times> lane_vars \<times> lane_vars \<times> lane_vars" and mem and f :: "nat \<Rightarrow> m128i list"
  assume a: "unat MASK div 16 < n" "pads n 4 mem f"
  let ?one = "cn_iter1 MASK SOFT_AES isa 0"
  obtain v0 v1 v2 v3 where v: "vs = (v0, v1, v2, v3)" by (metis prod.collapse)
  obtain w0 p0 where I0: "?one (v0, f 0) = (w0, p0)" by (metis surj_pair)
  obtain w1 p1 where I1: "?one (v1, f 1) = (w1, p1)" by (metis surj_pair)
  obtain w2 p2 where I2: "?one (v2, f 2) = (w2, p2)" by (metis surj_pair)
  obtain w3 p3 where I3: "?one (v3, f 3) = (w3, p3)" by (metis surj_pair)
  have "4 \<le> (4 :: nat)" by (rule order_refl)
  from cn_iter4_lanes [OF a(2,1) this _ _ _ _ I0 I1 I2 I3, where ?l0.0 = "0" and ?l1.0 = "n" and ?l2.0 = "(2 * n)" and ?l3.0 = "(3 * n)"] obtain mem' where
    it: "cn_iter4 MASK SOFT_AES isa 0 n (2 * n) (3 * n) (vs, mem) = ((w0, w1, w2, w3), mem')"
    "pads n 4 mem' (f(0 := p0, 1 := p1, 2 := p2, 3 := p3))" "length mem' = length mem" unfolding v by auto
  have k: "k < 4 \<longleftrightarrow> k \<in> {0, 1, 2, 3}" for k :: nat by auto
  have "\<forall>k < 4. lanes_4 (w0, w1, w2, w3) k = fst (?one (lanes_4 vs k, f k))"
    "pads n 4 mem' (\<lambda>k. snd (?one (lanes_4 vs k, f k)))"
    using I0 I1 I2 I3 by (auto simp: k v intro!: pads_upto [OF it(2)])
  then show "\<exists>vs' mem'. cn_iter4 MASK SOFT_AES isa 0 n (2 * n) (3 * n) (vs, mem) = (vs', mem') \<and> True \<and> length mem' = length mem \<and>
      (\<forall>k < 4. lanes_4 vs' k = fst (?one (lanes_4 vs k, f k))) \<and> pads n 4 mem' (\<lambda>k. snd (?one (lanes_4 vs k, f k)))"
    using it by blast
qed

fun lanes_5 :: "lane_vars \<times> lane_vars \<times> lane_vars \<times> lane_vars \<times> lane_vars \<Rightarrow> nat \<Rightarrow> lane_vars" where
  "lanes_5 (v0, v1, v2, v3, v4) k = [v0, v1, v2, v3, v4] ! k"

interpretation lanes5: lockstep n 5 "unat MASK div 16 < n" "\<lambda>vs. True" lanes_5
  "cn_iter1 MASK SOFT_AES isa 0" "cn_iter5 MASK SOFT_AES isa 0 n (2 * n) (3 * n) (4 * n)" for n MASK SOFT_AES isa
proof
  fix vs :: "lane_vars \<times> lane_vars \<times> lane_vars \<times> lane_vars \<times> lane_vars" and mem and f :: "nat \<Rightarrow> m128i list"
  assume a: "unat MASK div 16 < n" "pads n 5 mem f"
  let ?one = "cn_iter1 MASK SOFT_AES isa 0"
  obtain v0 v1 v2 v3 v4 where v: "vs = (v0, v1, v2, v3, v4)" by (metis prod.collapse)
  obtain w0 p0 where I0: "?one (v0, f 0) = (w0, p0)" by (metis surj_pair)
  obtain w1 p1 where I1: "?one (v1, f 1) = (w1, p1)" by (metis surj_pair)
  obtain w2 p2 where I2: "?one (v2, f 2) = (w2, p2)" by (metis surj_pair)
  obtain w3 p3 where I3: "?one (v3, f 3) = (w3, p3)" by (metis surj_pair)
  obtain w4 p4 where I4: "?one (v4, f 4) = (w4, p4)" by (metis surj_pair)
  have "5 \<le> (5 :: nat)" by (rule order_refl)
  from cn_iter5_lanes [OF a(2,1) this _ _ _ _ _ I0 I1 I2 I3 I4, where ?l0.0 = "0" and ?l1.0 = "n" and ?l2.0 = "(2 * n)" and ?l3.0 = "(3 * n)" and ?l4.0 = "(4 * n)"] obtain mem' where
    it: "cn_iter5 MASK SOFT_AES isa 0 n (2 * n) (3 * n) (4 * n) (vs, mem) = ((w0, w1, w2, w3, w4), mem')"
    "pads n 5 mem' (f(0 := p0, 1 := p1, 2 := p2, 3 := p3, 4 := p4))" "length mem' = length mem" unfolding v by auto
  have k: "k < 5 \<longleftrightarrow> k \<in> {0, 1, 2, 3, 4}" for k :: nat by auto
  have "\<forall>k < 5. lanes_5 (w0, w1, w2, w3, w4) k = fst (?one (lanes_5 vs k, f k))"
    "pads n 5 mem' (\<lambda>k. snd (?one (lanes_5 vs k, f k)))"
    using I0 I1 I2 I3 I4 by (auto simp: k v intro!: pads_upto [OF it(2)])
  then show "\<exists>vs' mem'. cn_iter5 MASK SOFT_AES isa 0 n (2 * n) (3 * n) (4 * n) (vs, mem) = (vs', mem') \<and> True \<and> length mem' = length mem \<and>
      (\<forall>k < 5. lanes_5 vs' k = fst (?one (lanes_5 vs k, f k))) \<and> pads n 5 mem' (\<lambda>k. snd (?one (lanes_5 vs k, f k)))"
    using it by blast
qed

text \<open>The loop over the lanes.\<close>

lemma cn_lane_step_eq: "cn_lane_step MASK SOFT_AES isa l st = cn_iter1 MASK SOFT_AES isa l st"
  by (simp add: cn_lane_step_def cn_iter1_def)

lemma cn_iteration_prefix:
  assumes "unat MASK div 16 < MEM div 16" "length vs = NUM" "pads (MEM div 16) NUM mem f" "j \<le> NUM"
  shows "\<exists>vs' mem'. fold (\<lambda>k (vs, mem).
        let (v, mem) = cn_lane_step MASK SOFT_AES isa (k * (MEM div 16)) (vs ! k, mem) in (vs[k := v], mem)) [0..<j] (vs, mem)
      = (vs', mem') \<and> length vs' = NUM \<and> length mem' = length mem \<and>
      (\<forall>k < NUM. vs' ! k = (if k < j then fst (cn_iter1 MASK SOFT_AES isa 0 (vs ! k, f k)) else vs ! k)) \<and>
      pads (MEM div 16) NUM mem' (\<lambda>k. if k < j then snd (cn_iter1 MASK SOFT_AES isa 0 (vs ! k, f k)) else f k)"
  using assms(4)
proof (induction j)
  case (Suc j)
  let ?f = "\<lambda>k. if k < j then snd (cn_iter1 MASK SOFT_AES isa 0 (vs ! k, f k)) else f k"
  from Suc obtain vs' mem' where IH: "fold (\<lambda>k (vs, mem).
        let (v, mem) = cn_lane_step MASK SOFT_AES isa (k * (MEM div 16)) (vs ! k, mem) in (vs[k := v], mem)) [0..<j] (vs, mem)
      = (vs', mem')" "length vs' = NUM" "length mem' = length mem"
      "\<forall>k < NUM. vs' ! k = (if k < j then fst (cn_iter1 MASK SOFT_AES isa 0 (vs ! k, f k)) else vs ! k)"
      "pads (MEM div 16) NUM mem' ?f" by auto
  have j: "j < NUM" "vs' ! j = vs ! j" using Suc.prems IH(4) by auto
  obtain w p where I: "cn_iter1 MASK SOFT_AES isa 0 (vs ! j, ?f j) = (w, p)" by (metis surj_pair)
  from cn_iter1_lanes [OF IH(5) assms(1) j(1) refl I] obtain mem2 where
    s: "cn_iter1 MASK SOFT_AES isa (j * (MEM div 16)) (vs ! j, mem') = (w, mem2)"
    "pads (MEM div 16) NUM mem2 (?f(j := p))" "length mem2 = length mem'" by blast
  show ?case
    using IH j I s
    by (intro exI [of _ "vs'[j := w]"] exI [of _ mem2])
      (auto simp: cn_lane_step_eq nth_list_update less_Suc_eq elim!: pads_upto)
qed (simp add: assms)

interpretation lanes_n: lockstep "MEM div 16" NUM "unat MASK div 16 < MEM div 16" "\<lambda>vs. length vs = NUM" "(!)"
  "cn_iter1 MASK SOFT_AES isa 0" "cn_iteration MEM MASK SOFT_AES isa NUM" for MEM NUM MASK SOFT_AES isa
proof
  fix vs :: "lane_vars list" and mem f
  assume a: "unat MASK div 16 < MEM div 16" "length vs = NUM" "pads (MEM div 16) NUM mem f"
  show "\<exists>vs' mem'. cn_iteration MEM MASK SOFT_AES isa NUM (vs, mem) = (vs', mem') \<and> length vs' = NUM \<and>
      length mem' = length mem \<and> (\<forall>k < NUM. vs' ! k = fst (cn_iter1 MASK SOFT_AES isa 0 (vs ! k, f k))) \<and>
      pads (MEM div 16) NUM mem' (\<lambda>k. snd (cn_iter1 MASK SOFT_AES isa 0 (vs ! k, f k)))"
    using cn_iteration_prefix [OF a order_refl, of SOFT_AES isa]
    by (auto simp: cn_iteration_def elim!: pads_upto)
qed

end
