(* ===== verification/Groestl_Correct.thy ===== *)
theory Groestl_Correct
  imports Groestl Soft_AES_Correct
begin

text \<open>
  The rounds of Groestl-256: the table of the code is the S-box of AES followed by one column of MixBytes,
  and a round of the code on 16 words is AddRoundConstant, SubBytes, ShiftBytes and MixBytes on
  the matrix of their 64 bytes.
\<close>

definition groestl_entry :: "byte \<Rightarrow> u32 list" where
  "groestl_entry s =
    [word_of_le [gf_mul s 2, gf_mul s 7, gf_mul s 5, gf_mul s 3],
     word_of_le [gf_mul s 5, gf_mul s 4, gf_mul s 3, gf_mul s 2]]"

lemma gf_mul_4: "gf_mul a 4 = xtime (xtime a)"
  and gf_mul_5: "gf_mul a 5 = xtime (xtime a) XOR a"
  and gf_mul_7: "gf_mul a 7 = xtime (xtime a) XOR xtime a XOR a"
  by (simp_all add: gf_mul_eval xor.commute xor.left_commute)

lemma groestl_entry_word:
  "groestl_entry s = (let d = xtime s; q = xtime d; t = d XOR s; v = q XOR s; z = q XOR t in
    [word_of_le [d, z, v, t], word_of_le [v, q, t, d]])"
  by (simp add: groestl_entry_def gf_mul_2 gf_mul_3 gf_mul_4 gf_mul_5 gf_mul_7 Let_def xor.assoc)

lemmas groestl_entry_eval = groestl_entry_word Let_def xtime_eval

lemma groestl_T_0:
  "concat (map groestl_entry [0x63, 0x7c, 0x77, 0x7b, 0xf2, 0x6b, 0x6f, 0xc5, 0x30, 0x1, 0x67, 0x2b, 0xfe, 0xd7, 0xab, 0x76]) =
     [0xa5f432c6, 0xc6a597f4, 0x84976ff8, 0xf884eb97, 0x99b05eee, 0xee99c7b0, 0x8d8c7af6, 0xf68df78c,
      0xd17e8ff, 0xff0de517, 0xbddc0ad6, 0xd6bdb7dc, 0xb1c816de, 0xdeb1a7c8, 0x54fc6d91, 0x915439fc,
      0x50f09060, 0x6050c0f0, 0x3050702, 0x2030405, 0xa9e02ece, 0xcea987e0, 0x7d87d156, 0x567dac87,
      0x192bcce7, 0xe719d52b, 0x62a613b5, 0xb56271a6, 0xe6317c4d, 0x4de69a31, 0x9ab559ec, 0xec9ac3b5]"
  by (simp add: groestl_entry_eval)

lemma groestl_T_1:
  "concat (map groestl_entry [0xca, 0x82, 0xc9, 0x7d, 0xfa, 0x59, 0x47, 0xf0, 0xad, 0xd4, 0xa2, 0xaf, 0x9c, 0xa4, 0x72, 0xc0]) =
     [0x45cf408f, 0x8f4505cf, 0x9dbca31f, 0x1f9d3ebc, 0x40c04989, 0x894009c0, 0x879268fa, 0xfa87ef92,
      0x153fd0ef, 0xef15c53f, 0xeb2694b2, 0xb2eb7f26, 0xc940ce8e, 0x8ec90740, 0xb1de6fb, 0xfb0bed1d,
      0xec2f6e41, 0x41ec822f, 0x67a91ab3, 0xb3677da9, 0xfd1c435f, 0x5ffdbe1c, 0xea256045, 0x45ea8a25,
      0xbfdaf923, 0x23bf46da, 0xf7025153, 0x53f7a602, 0x96a145e4, 0xe496d3a1, 0x5bed769b, 0x9b5b2ded]"
  by (simp add: groestl_entry_eval)

lemma groestl_T_2:
  "concat (map groestl_entry [0xb7, 0xfd, 0x93, 0x26, 0x36, 0x3f, 0xf7, 0xcc, 0x34, 0xa5, 0xe5, 0xf1, 0x71, 0xd8, 0x31, 0x15]) =
     [0xc25d2875, 0x75c2ea5d, 0x1c24c5e1, 0xe11cd924, 0xaee9d43d, 0x3dae7ae9, 0x6abef24c, 0x4c6a98be,
      0x5aee826c, 0x6c5ad8ee, 0x41c3bd7e, 0x7e41fcc3, 0x206f3f5, 0xf502f106, 0x4fd15283, 0x834f1dd1,
      0x5ce48c68, 0x685cd0e4, 0xf4075651, 0x51f4a207, 0x345c8dd1, 0xd134b95c, 0x818e1f9, 0xf908e918,
      0x93ae4ce2, 0xe293dfae, 0x73953eab, 0xab734d95, 0x53f59762, 0x6253c4f5, 0x3f416b2a, 0x2a3f5441]"
  by (simp add: groestl_entry_eval)

lemma groestl_T_3:
  "concat (map groestl_entry [0x4, 0xc7, 0x23, 0xc3, 0x18, 0x96, 0x5, 0x9a, 0x7, 0x12, 0x80, 0xe2, 0xeb, 0x27, 0xb2, 0x75]) =
     [0xc141c08, 0x80c1014, 0x52f66395, 0x955231f6, 0x65afe946, 0x46658caf, 0x5ee27f9d, 0x9d5e21e2,
      0x28784830, 0x30286078, 0xa1f8cf37, 0x37a16ef8, 0xf111b0a, 0xa0f1411, 0xb5c4eb2f, 0x2fb55ec4,
      0x91b150e, 0xe091c1b, 0x365a7e24, 0x2436485a, 0x9bb6ad1b, 0x1b9b36b6, 0x3d4798df, 0xdf3da547,
      0x266aa7cd, 0xcd26816a, 0x69bbf54e, 0x4e699cbb, 0xcd4c337f, 0x7fcdfe4c, 0x9fba50ea, 0xea9fcfba]"
  by (simp add: groestl_entry_eval)

lemma groestl_T_4:
  "concat (map groestl_entry [0x9, 0x83, 0x2c, 0x1a, 0x1b, 0x6e, 0x5a, 0xa0, 0x52, 0x3b, 0xd6, 0xb3, 0x29, 0xe3, 0x2f, 0x84]) =
     [0x1b2d3f12, 0x121b242d, 0x9eb9a41d, 0x1d9e3ab9, 0x749cc458, 0x5874b09c, 0x2e724634, 0x342e6872,
      0x2d774136, 0x362d6c77, 0xb2cd11dc, 0xdcb2a3cd, 0xee299db4, 0xb4ee7329, 0xfb164d5b, 0x5bfbb616,
      0xf601a5a4, 0xa4f65301, 0x4dd7a176, 0x764decd7, 0x61a314b7, 0xb76175a3, 0xce49347d, 0x7dcefa49,
      0x7b8ddf52, 0x527ba48d, 0x3e429fdd, 0xdd3ea142, 0x7193cd5e, 0x5e71bc93, 0x97a2b113, 0x139726a2]"
  by (simp add: groestl_entry_eval)

lemma groestl_T_5:
  "concat (map groestl_entry [0x53, 0xd1, 0x0, 0xed, 0x20, 0xfc, 0xb1, 0x5b, 0x6a, 0xcb, 0xbe, 0x39, 0x4a, 0x4c, 0x58, 0xcf]) =
     [0xf504a2a6, 0xa6f55704, 0x68b801b9, 0xb96869b8, 0x0, 0x0, 0x2c74b5c1, 0xc12c9974,
      0x60a0e040, 0x406080a0, 0x1f21c2e3, 0xe31fdd21, 0xc8433a79, 0x79c8f243, 0xed2c9ab6, 0xb6ed772c,
      0xbed90dd4, 0xd4beb3d9, 0x46ca478d, 0x8d4601ca, 0xd9701767, 0x67d9ce70, 0x4bddaf72, 0x724be4dd,
      0xde79ed94, 0x94de3379, 0xd467ff98, 0x98d42b67, 0xe82393b0, 0xb0e87b23, 0x4ade5b85, 0x854a11de]"
  by (simp add: groestl_entry_eval)

lemma groestl_T_6:
  "concat (map groestl_entry [0xd0, 0xef, 0xaa, 0xfb, 0x43, 0x4d, 0x33, 0x85, 0x45, 0xf9, 0x2, 0x7f, 0x50, 0x3c, 0x9f, 0xa8]) =
     [0x6bbd06bb, 0xbb6b6dbd, 0x2a7ebbc5, 0xc52a917e, 0xe5347b4f, 0x4fe59e34, 0x163ad7ed, 0xed16c13a,
      0xc554d286, 0x86c51754, 0xd762f89a, 0x9ad72f62, 0x55ff9966, 0x6655ccff, 0x94a7b611, 0x119422a7,
      0xcf4ac08a, 0x8acf0f4a, 0x1030d9e9, 0xe910c930, 0x60a0e04, 0x406080a, 0x819866fe, 0xfe81e798,
      0xf00baba0, 0xa0f05b0b, 0x44ccb478, 0x7844f0cc, 0xbad5f025, 0x25ba4ad5, 0xe33e754b, 0x4be3963e]"
  by (simp add: groestl_entry_eval)

lemma groestl_T_7:
  "concat (map groestl_entry [0x51, 0xa3, 0x40, 0x8f, 0x92, 0x9d, 0x38, 0xf5, 0xbc, 0xb6, 0xda, 0x21, 0x10, 0xff, 0xf3, 0xd2]) =
     [0xf30eaca2, 0xa2f35f0e, 0xfe19445d, 0x5dfeba19, 0xc05bdb80, 0x80c01b5b, 0x8a858005, 0x58a0a85,
      0xadecd33f, 0x3fad7eec, 0xbcdffe21, 0x21bc42df, 0x48d8a870, 0x7048e0d8, 0x40cfdf1, 0xf104f90c,
      0xdf7a1963, 0x63dfc67a, 0xc1582f77, 0x77c1ee58, 0x759f30af, 0xaf75459f, 0x63a5e742, 0x426384a5,
      0x30507020, 0x20304050, 0x1a2ecbe5, 0xe51ad12e, 0xe12effd, 0xfd0ee112, 0x6db708bf, 0xbf6d65b7]"
  by (simp add: groestl_entry_eval)

lemma groestl_T_8:
  "concat (map groestl_entry [0xcd, 0xc, 0x13, 0xec, 0x5f, 0x97, 0x44, 0x17, 0xc4, 0xa7, 0x7e, 0x3d, 0x64, 0x5d, 0x19, 0x73]) =
     [0x4cd45581, 0x814c19d4, 0x143c2418, 0x1814303c, 0x355f7926, 0x26354c5f, 0x2f71b2c3, 0xc32f9d71,
      0xe13886be, 0xbee16738, 0xa2fdc835, 0x35a26afd, 0xcc4fc788, 0x88cc0b4f, 0x394b652e, 0x2e395c4b,
      0x57f96a93, 0x93573df9, 0xf20d5855, 0x55f2aa0d, 0x829d61fc, 0xfc82e39d, 0x47c9b37a, 0x7a47f4c9,
      0xacef27c8, 0xc8ac8bef, 0xe73288ba, 0xbae76f32, 0x2b7d4f32, 0x322b647d, 0x95a442e6, 0xe695d7a4]"
  by (simp add: groestl_entry_eval)

lemma groestl_T_9:
  "concat (map groestl_entry [0x60, 0x81, 0x4f, 0xdc, 0x22, 0x2a, 0x90, 0x88, 0x46, 0xee, 0xb8, 0x14, 0xde, 0x5e, 0xb, 0xdb]) =
     [0xa0fb3bc0, 0xc0a09bfb, 0x98b3aa19, 0x199832b3, 0xd168f69e, 0x9ed12768, 0x7f8122a3, 0xa37f5d81,
      0x66aaee44, 0x446688aa, 0x7e82d654, 0x547ea882, 0xabe6dd3b, 0x3bab76e6, 0x839e950b, 0xb83169e,
      0xca45c98c, 0x8cca0345, 0x297bbcc7, 0xc729957b, 0xd36e056b, 0x6bd3d66e, 0x3c446c28, 0x283c5044,
      0x798b2ca7, 0xa779558b, 0xe23d81bc, 0xbce2633d, 0x1d273116, 0x161d2c27, 0x769a37ad, 0xad76419a]"
  by (simp add: groestl_entry_eval)

lemma groestl_T_10:
  "concat (map groestl_entry [0xe0, 0x32, 0x3a, 0xa, 0x49, 0x6, 0x24, 0x5c, 0xc2, 0xd3, 0xac, 0x62, 0x91, 0x95, 0xe4, 0x79]) =
     [0x3b4d96db, 0xdb3bad4d, 0x56fa9e64, 0x6456c8fa, 0x4ed2a674, 0x744ee8d2, 0x1e223614, 0x141e2822,
      0xdb76e492, 0x92db3f76, 0xa1e120c, 0xc0a181e, 0x6cb4fc48, 0x486c90b4, 0xe4378fb8, 0xb8e46b37,
      0x5de7789f, 0x9f5d25e7, 0x6eb20fbd, 0xbd6e61b2, 0xef2a6943, 0x43ef862a, 0xa6f135c4, 0xc4a693f1,
      0xa8e3da39, 0x39a872e3, 0xa4f7c631, 0x31a462f7, 0x37598ad3, 0xd337bd59, 0x8b8674f2, 0xf28bff86]"
  by (simp add: groestl_entry_eval)

lemma groestl_T_11:
  "concat (map groestl_entry [0xe7, 0xc8, 0x37, 0x6d, 0x8d, 0xd5, 0x4e, 0xa9, 0x6c, 0x56, 0xf4, 0xea, 0x65, 0x7a, 0xae, 0x8]) =
     [0x325683d5, 0xd532b156, 0x43c54e8b, 0x8b430dc5, 0x59eb856e, 0x6e59dceb, 0xb7c218da, 0xdab7afc2,
      0x8c8f8e01, 0x18c028f, 0x64ac1db1, 0xb16479ac, 0xd26df19c, 0x9cd2236d, 0xe03b7249, 0x49e0923b,
      0xb4c71fd8, 0xd8b4abc7, 0xfa15b9ac, 0xacfa4315, 0x709faf3, 0xf307fd09, 0x256fa0cf, 0xcf25856f,
      0xafea20ca, 0xcaaf8fea, 0x8e897df4, 0xf48ef389, 0xe9206747, 0x47e98e20, 0x18283810, 0x10182028]"
  by (simp add: groestl_entry_eval)

lemma groestl_T_12:
  "concat (map groestl_entry [0xba, 0x78, 0x25, 0x2e, 0x1c, 0xa6, 0xb4, 0xc6, 0xe8, 0xdd, 0x74, 0x1f, 0x4b, 0xbd, 0x8b, 0x8a]) =
     [0xd5640b6f, 0x6fd5de64, 0x888373f0, 0xf088fb83, 0x6fb1fb4a, 0x4a6f94b1, 0x7296ca5c, 0x5c72b896,
      0x246c5438, 0x3824706c, 0xf1085f57, 0x57f1ae08, 0xc7522173, 0x73c7e652, 0x51f36497, 0x975135f3,
      0x2365aecb, 0xcb238d65, 0x7c8425a1, 0xa17c5984, 0x9cbf57e8, 0xe89ccbbf, 0x21635d3e, 0x3e217c63,
      0xdd7cea96, 0x96dd377c, 0xdc7f1e61, 0x61dcc27f, 0x86919c0d, 0xd861a91, 0x85949b0f, 0xf851e94]"
  by (simp add: groestl_entry_eval)

lemma groestl_T_13:
  "concat (map groestl_entry [0x70, 0x3e, 0xb5, 0x66, 0x48, 0x3, 0xf6, 0xe, 0x61, 0x35, 0x57, 0xb9, 0x86, 0xc1, 0x1d, 0x9e]) =
     [0x90ab4be0, 0xe090dbab, 0x42c6ba7c, 0x7c42f8c6, 0xc4572671, 0x71c4e257, 0xaae529cc, 0xccaa83e5,
      0xd873e390, 0x90d83b73, 0x50f0906, 0x6050c0f, 0x103f4f7, 0xf701f503, 0x12362a1c, 0x1c123836,
      0xa3fe3cc2, 0xc2a39ffe, 0x5fe18b6a, 0x6a5fd4e1, 0xf910beae, 0xaef94710, 0xd06b0269, 0x69d0d26b,
      0x91a8bf17, 0x17912ea8, 0x58e87199, 0x995829e8, 0x2769533a, 0x3a277469, 0xb9d0f727, 0x27b94ed0]"
  by (simp add: groestl_entry_eval)

lemma groestl_T_14:
  "concat (map groestl_entry [0xe1, 0xf8, 0x98, 0x11, 0x69, 0xd9, 0x8e, 0x94, 0x9b, 0x1e, 0x87, 0xe9, 0xce, 0x55, 0x28, 0xdf]) =
     [0x384891d9, 0xd938a948, 0x1335deeb, 0xeb13cd35, 0xb3cee52b, 0x2bb356ce, 0x33557722, 0x22334455,
      0xbbd604d2, 0xd2bbbfd6, 0x709039a9, 0xa9704990, 0x89808707, 0x7890e80, 0xa7f2c133, 0x33a766f2,
      0xb6c1ec2d, 0x2db65ac1, 0x22665a3c, 0x3c227866, 0x92adb815, 0x15922aad, 0x2060a9c9, 0xc9208960,
      0x49db5c87, 0x874915db, 0xff1ab0aa, 0xaaff4f1a, 0x7888d850, 0x5078a088, 0x7a8e2ba5, 0xa57a518e]"
  by (simp add: groestl_entry_eval)

lemma groestl_T_15:
  "concat (map groestl_entry [0x8c, 0xa1, 0x89, 0xd, 0xbf, 0xe6, 0x42, 0x68, 0x41, 0x99, 0x2d, 0xf, 0xb0, 0x54, 0xbb, 0x16]) =
     [0x8f8a8903, 0x38f068a, 0xf8134a59, 0x59f8b213, 0x809b9209, 0x980129b, 0x1739231a, 0x1a173439,
      0xda751065, 0x65daca75, 0x315384d7, 0xd731b553, 0xc651d584, 0x84c61351, 0xb8d303d0, 0xd0b8bbd3,
      0xc35edc82, 0x82c31f5e, 0xb0cbe229, 0x29b052cb, 0x7799c35a, 0x5a77b499, 0x11332d1e, 0x1e113c33,
      0xcb463d7b, 0x7bcbf646, 0xfc1fb7a8, 0xa8fc4b1f, 0xd6610c6d, 0x6dd6da61, 0x3a4e622c, 0x2c3a584e]"
  by (simp add: groestl_entry_eval)

lemma groestl_T_blocks: "groestl_T =
    [0xa5f432c6, 0xc6a597f4, 0x84976ff8, 0xf884eb97, 0x99b05eee, 0xee99c7b0, 0x8d8c7af6, 0xf68df78c,
      0xd17e8ff, 0xff0de517, 0xbddc0ad6, 0xd6bdb7dc, 0xb1c816de, 0xdeb1a7c8, 0x54fc6d91, 0x915439fc,
      0x50f09060, 0x6050c0f0, 0x3050702, 0x2030405, 0xa9e02ece, 0xcea987e0, 0x7d87d156, 0x567dac87,
      0x192bcce7, 0xe719d52b, 0x62a613b5, 0xb56271a6, 0xe6317c4d, 0x4de69a31, 0x9ab559ec, 0xec9ac3b5] @
    [0x45cf408f, 0x8f4505cf, 0x9dbca31f, 0x1f9d3ebc, 0x40c04989, 0x894009c0, 0x879268fa, 0xfa87ef92,
      0x153fd0ef, 0xef15c53f, 0xeb2694b2, 0xb2eb7f26, 0xc940ce8e, 0x8ec90740, 0xb1de6fb, 0xfb0bed1d,
      0xec2f6e41, 0x41ec822f, 0x67a91ab3, 0xb3677da9, 0xfd1c435f, 0x5ffdbe1c, 0xea256045, 0x45ea8a25,
      0xbfdaf923, 0x23bf46da, 0xf7025153, 0x53f7a602, 0x96a145e4, 0xe496d3a1, 0x5bed769b, 0x9b5b2ded] @
    [0xc25d2875, 0x75c2ea5d, 0x1c24c5e1, 0xe11cd924, 0xaee9d43d, 0x3dae7ae9, 0x6abef24c, 0x4c6a98be,
      0x5aee826c, 0x6c5ad8ee, 0x41c3bd7e, 0x7e41fcc3, 0x206f3f5, 0xf502f106, 0x4fd15283, 0x834f1dd1,
      0x5ce48c68, 0x685cd0e4, 0xf4075651, 0x51f4a207, 0x345c8dd1, 0xd134b95c, 0x818e1f9, 0xf908e918,
      0x93ae4ce2, 0xe293dfae, 0x73953eab, 0xab734d95, 0x53f59762, 0x6253c4f5, 0x3f416b2a, 0x2a3f5441] @
    [0xc141c08, 0x80c1014, 0x52f66395, 0x955231f6, 0x65afe946, 0x46658caf, 0x5ee27f9d, 0x9d5e21e2,
      0x28784830, 0x30286078, 0xa1f8cf37, 0x37a16ef8, 0xf111b0a, 0xa0f1411, 0xb5c4eb2f, 0x2fb55ec4,
      0x91b150e, 0xe091c1b, 0x365a7e24, 0x2436485a, 0x9bb6ad1b, 0x1b9b36b6, 0x3d4798df, 0xdf3da547,
      0x266aa7cd, 0xcd26816a, 0x69bbf54e, 0x4e699cbb, 0xcd4c337f, 0x7fcdfe4c, 0x9fba50ea, 0xea9fcfba] @
    [0x1b2d3f12, 0x121b242d, 0x9eb9a41d, 0x1d9e3ab9, 0x749cc458, 0x5874b09c, 0x2e724634, 0x342e6872,
      0x2d774136, 0x362d6c77, 0xb2cd11dc, 0xdcb2a3cd, 0xee299db4, 0xb4ee7329, 0xfb164d5b, 0x5bfbb616,
      0xf601a5a4, 0xa4f65301, 0x4dd7a176, 0x764decd7, 0x61a314b7, 0xb76175a3, 0xce49347d, 0x7dcefa49,
      0x7b8ddf52, 0x527ba48d, 0x3e429fdd, 0xdd3ea142, 0x7193cd5e, 0x5e71bc93, 0x97a2b113, 0x139726a2] @
    [0xf504a2a6, 0xa6f55704, 0x68b801b9, 0xb96869b8, 0x0, 0x0, 0x2c74b5c1, 0xc12c9974,
      0x60a0e040, 0x406080a0, 0x1f21c2e3, 0xe31fdd21, 0xc8433a79, 0x79c8f243, 0xed2c9ab6, 0xb6ed772c,
      0xbed90dd4, 0xd4beb3d9, 0x46ca478d, 0x8d4601ca, 0xd9701767, 0x67d9ce70, 0x4bddaf72, 0x724be4dd,
      0xde79ed94, 0x94de3379, 0xd467ff98, 0x98d42b67, 0xe82393b0, 0xb0e87b23, 0x4ade5b85, 0x854a11de] @
    [0x6bbd06bb, 0xbb6b6dbd, 0x2a7ebbc5, 0xc52a917e, 0xe5347b4f, 0x4fe59e34, 0x163ad7ed, 0xed16c13a,
      0xc554d286, 0x86c51754, 0xd762f89a, 0x9ad72f62, 0x55ff9966, 0x6655ccff, 0x94a7b611, 0x119422a7,
      0xcf4ac08a, 0x8acf0f4a, 0x1030d9e9, 0xe910c930, 0x60a0e04, 0x406080a, 0x819866fe, 0xfe81e798,
      0xf00baba0, 0xa0f05b0b, 0x44ccb478, 0x7844f0cc, 0xbad5f025, 0x25ba4ad5, 0xe33e754b, 0x4be3963e] @
    [0xf30eaca2, 0xa2f35f0e, 0xfe19445d, 0x5dfeba19, 0xc05bdb80, 0x80c01b5b, 0x8a858005, 0x58a0a85,
      0xadecd33f, 0x3fad7eec, 0xbcdffe21, 0x21bc42df, 0x48d8a870, 0x7048e0d8, 0x40cfdf1, 0xf104f90c,
      0xdf7a1963, 0x63dfc67a, 0xc1582f77, 0x77c1ee58, 0x759f30af, 0xaf75459f, 0x63a5e742, 0x426384a5,
      0x30507020, 0x20304050, 0x1a2ecbe5, 0xe51ad12e, 0xe12effd, 0xfd0ee112, 0x6db708bf, 0xbf6d65b7] @
    [0x4cd45581, 0x814c19d4, 0x143c2418, 0x1814303c, 0x355f7926, 0x26354c5f, 0x2f71b2c3, 0xc32f9d71,
      0xe13886be, 0xbee16738, 0xa2fdc835, 0x35a26afd, 0xcc4fc788, 0x88cc0b4f, 0x394b652e, 0x2e395c4b,
      0x57f96a93, 0x93573df9, 0xf20d5855, 0x55f2aa0d, 0x829d61fc, 0xfc82e39d, 0x47c9b37a, 0x7a47f4c9,
      0xacef27c8, 0xc8ac8bef, 0xe73288ba, 0xbae76f32, 0x2b7d4f32, 0x322b647d, 0x95a442e6, 0xe695d7a4] @
    [0xa0fb3bc0, 0xc0a09bfb, 0x98b3aa19, 0x199832b3, 0xd168f69e, 0x9ed12768, 0x7f8122a3, 0xa37f5d81,
      0x66aaee44, 0x446688aa, 0x7e82d654, 0x547ea882, 0xabe6dd3b, 0x3bab76e6, 0x839e950b, 0xb83169e,
      0xca45c98c, 0x8cca0345, 0x297bbcc7, 0xc729957b, 0xd36e056b, 0x6bd3d66e, 0x3c446c28, 0x283c5044,
      0x798b2ca7, 0xa779558b, 0xe23d81bc, 0xbce2633d, 0x1d273116, 0x161d2c27, 0x769a37ad, 0xad76419a] @
    [0x3b4d96db, 0xdb3bad4d, 0x56fa9e64, 0x6456c8fa, 0x4ed2a674, 0x744ee8d2, 0x1e223614, 0x141e2822,
      0xdb76e492, 0x92db3f76, 0xa1e120c, 0xc0a181e, 0x6cb4fc48, 0x486c90b4, 0xe4378fb8, 0xb8e46b37,
      0x5de7789f, 0x9f5d25e7, 0x6eb20fbd, 0xbd6e61b2, 0xef2a6943, 0x43ef862a, 0xa6f135c4, 0xc4a693f1,
      0xa8e3da39, 0x39a872e3, 0xa4f7c631, 0x31a462f7, 0x37598ad3, 0xd337bd59, 0x8b8674f2, 0xf28bff86] @
    [0x325683d5, 0xd532b156, 0x43c54e8b, 0x8b430dc5, 0x59eb856e, 0x6e59dceb, 0xb7c218da, 0xdab7afc2,
      0x8c8f8e01, 0x18c028f, 0x64ac1db1, 0xb16479ac, 0xd26df19c, 0x9cd2236d, 0xe03b7249, 0x49e0923b,
      0xb4c71fd8, 0xd8b4abc7, 0xfa15b9ac, 0xacfa4315, 0x709faf3, 0xf307fd09, 0x256fa0cf, 0xcf25856f,
      0xafea20ca, 0xcaaf8fea, 0x8e897df4, 0xf48ef389, 0xe9206747, 0x47e98e20, 0x18283810, 0x10182028] @
    [0xd5640b6f, 0x6fd5de64, 0x888373f0, 0xf088fb83, 0x6fb1fb4a, 0x4a6f94b1, 0x7296ca5c, 0x5c72b896,
      0x246c5438, 0x3824706c, 0xf1085f57, 0x57f1ae08, 0xc7522173, 0x73c7e652, 0x51f36497, 0x975135f3,
      0x2365aecb, 0xcb238d65, 0x7c8425a1, 0xa17c5984, 0x9cbf57e8, 0xe89ccbbf, 0x21635d3e, 0x3e217c63,
      0xdd7cea96, 0x96dd377c, 0xdc7f1e61, 0x61dcc27f, 0x86919c0d, 0xd861a91, 0x85949b0f, 0xf851e94] @
    [0x90ab4be0, 0xe090dbab, 0x42c6ba7c, 0x7c42f8c6, 0xc4572671, 0x71c4e257, 0xaae529cc, 0xccaa83e5,
      0xd873e390, 0x90d83b73, 0x50f0906, 0x6050c0f, 0x103f4f7, 0xf701f503, 0x12362a1c, 0x1c123836,
      0xa3fe3cc2, 0xc2a39ffe, 0x5fe18b6a, 0x6a5fd4e1, 0xf910beae, 0xaef94710, 0xd06b0269, 0x69d0d26b,
      0x91a8bf17, 0x17912ea8, 0x58e87199, 0x995829e8, 0x2769533a, 0x3a277469, 0xb9d0f727, 0x27b94ed0] @
    [0x384891d9, 0xd938a948, 0x1335deeb, 0xeb13cd35, 0xb3cee52b, 0x2bb356ce, 0x33557722, 0x22334455,
      0xbbd604d2, 0xd2bbbfd6, 0x709039a9, 0xa9704990, 0x89808707, 0x7890e80, 0xa7f2c133, 0x33a766f2,
      0xb6c1ec2d, 0x2db65ac1, 0x22665a3c, 0x3c227866, 0x92adb815, 0x15922aad, 0x2060a9c9, 0xc9208960,
      0x49db5c87, 0x874915db, 0xff1ab0aa, 0xaaff4f1a, 0x7888d850, 0x5078a088, 0x7a8e2ba5, 0xa57a518e] @
    [0x8f8a8903, 0x38f068a, 0xf8134a59, 0x59f8b213, 0x809b9209, 0x980129b, 0x1739231a, 0x1a173439,
      0xda751065, 0x65daca75, 0x315384d7, 0xd731b553, 0xc651d584, 0x84c61351, 0xb8d303d0, 0xd0b8bbd3,
      0xc35edc82, 0x82c31f5e, 0xb0cbe229, 0x29b052cb, 0x7799c35a, 0x5a77b499, 0x11332d1e, 0x1e113c33,
      0xcb463d7b, 0x7bcbf646, 0xfc1fb7a8, 0xa8fc4b1f, 0xd6610c6d, 0x6dd6da61, 0x3a4e622c, 0x2c3a584e]"
  by (simp add: groestl_T_def)

lemma groestl_T_entries: "groestl_T = concat (map groestl_entry saes_sbox)"
  unfolding saes_sbox_blocks map_append concat_append
  by (simp only: groestl_T_blocks groestl_T_0 groestl_T_1 groestl_T_2 groestl_T_3 groestl_T_4 groestl_T_5 groestl_T_6
      groestl_T_7 groestl_T_8 groestl_T_9 groestl_T_10 groestl_T_11 groestl_T_12 groestl_T_13 groestl_T_14 groestl_T_15)

lemma concat_pairs:
  assumes "\<And>x. f x = [g x, h x]" "i < length xs"
  shows "concat (map f xs) ! (2 * i) = g (xs ! i)" "concat (map f xs) ! (2 * i + 1) = h (xs ! i)"
  using assms(2)
proof (induction xs arbitrary: i)
  case (Cons x xs)
  {
    case 1
    then show ?case using Cons.IH(1) [of "i - 1"] by (cases i) (simp_all add: assms(1))
  next
    case 2
    then show ?case using Cons.IH(2) [of "i - 1"] by (cases i) (simp_all add: assms(1))
  }
qed simp_all

lemma groestl_T_nth:
  "groestl_T ! (2 * unat p) = (let s = SubByte p in word_of_le [gf_mul s 2, gf_mul s 7, gf_mul s 5, gf_mul s 3])"
  "groestl_T ! Suc (2 * unat p) = (let s = SubByte p in word_of_le [gf_mul s 5, gf_mul s 4, gf_mul s 3, gf_mul s 2])"
proof -
  have p: "unat p < length saes_sbox" by simp
  show "groestl_T ! (2 * unat p) = (let s = SubByte p in word_of_le [gf_mul s 2, gf_mul s 7, gf_mul s 5, gf_mul s 3])"
    "groestl_T ! Suc (2 * unat p) = (let s = SubByte p in word_of_le [gf_mul s 5, gf_mul s 4, gf_mul s 3, gf_mul s 2])"
    using concat_pairs [of groestl_entry, OF groestl_entry_def p]
    by (simp_all add: SubByte_sbox Let_def del: word_of_le.simps flip: groestl_T_entries)
qed

section \<open>The rounds of the specification\<close>

definition groestl_circ :: "byte list" where "groestl_circ = [2, 2, 3, 4, 5, 3, 5, 7]"

definition groestl_mix_column :: "byte list \<Rightarrow> byte list" where
  "groestl_mix_column col =
    map (\<lambda>r. foldr (\<lambda>i a. gf_mul (col ! i) (groestl_circ ! ((8 + i - r) mod 8)) XOR a) [0..<8] 0) [0..<8]"

definition MixBytes :: "byte list \<Rightarrow> byte list" where
  "MixBytes st = concat (map (\<lambda>c. groestl_mix_column (take 8 (drop (8 * c) st))) [0..<8])"

definition ShiftBytes :: "nat list \<Rightarrow> byte list \<Rightarrow> byte list" where
  "ShiftBytes sh st = map (\<lambda>k. st ! (8 * ((k div 8 + sh ! (k mod 8)) mod 8) + k mod 8)) [0..<64]"

definition AddRoundConstant_P :: "byte \<Rightarrow> byte list \<Rightarrow> byte list" where
  "AddRoundConstant_P r st =
    map (\<lambda>k. st ! k XOR (if k mod 8 = 0 then of_nat (16 * (k div 8)) XOR r else 0)) [0..<64]"

definition AddRoundConstant_Q :: "byte \<Rightarrow> byte list \<Rightarrow> byte list" where
  "AddRoundConstant_Q r st =
    map (\<lambda>k. st ! k XOR 0xff XOR (if k mod 8 = 7 then of_nat (16 * (k div 8)) XOR r else 0)) [0..<64]"

definition groestl_round_P :: "byte \<Rightarrow> byte list \<Rightarrow> byte list" where
  "groestl_round_P r st =
    MixBytes (ShiftBytes [0, 1, 2, 3, 4, 5, 6, 7] (map SubByte (AddRoundConstant_P r st)))"

definition groestl_round_Q :: "byte \<Rightarrow> byte list \<Rightarrow> byte list" where
  "groestl_round_Q r st =
    MixBytes (ShiftBytes [1, 3, 5, 7, 0, 2, 4, 6] (map SubByte (AddRoundConstant_Q r st)))"

definition groestl_perm_P :: "byte list \<Rightarrow> byte list" where
  "groestl_perm_P st = fold groestl_round_P (map of_nat [0..<10]) st"

definition groestl_perm_Q :: "byte list \<Rightarrow> byte list" where
  "groestl_perm_Q st = fold groestl_round_Q (map of_nat [0..<10]) st"

section \<open>The rounds of the code\<close>

definition bytes_of :: "u32 list \<Rightarrow> byte list" where
  "bytes_of x = concat (map (le_bytes 4) x)"

definition wbyte :: "u32 list \<Rightarrow> nat \<Rightarrow> nat \<Rightarrow> byte" where
  "wbyte x c r = ucast (drop_bit (8 * r) (x ! c))"

lemma length_bytes_of [simp]: "length (bytes_of x) = 4 * length x"
  by (induction x) (simp_all add: bytes_of_def)

lemma bytes_of_nth:
  "c < length x \<Longrightarrow> r < 4 \<Longrightarrow> bytes_of x ! (4 * c + r) = wbyte x c r"
proof (induction x arbitrary: c)
  case (Cons w x)
  then show ?case
    by (cases c) (simp_all add: bytes_of_def nth_append wbyte_def le_bytes_def)
qed simp

lemma bytes_of_index:
  "k < 4 * length x \<Longrightarrow> bytes_of x ! k = wbyte x (k div 4) (k mod 4)"
  using bytes_of_nth [of "k div 4" x "k mod 4"] by simp

lemma bit_byte_less: "bit (b :: byte) n \<Longrightarrow> n < 8"
  by (drule bit_imp_le_length) simp

lemma rotate_bytes:
  "ROTATE_COLUMN_DOWN (word_of_le [a, b, c, d]) (word_of_le [e, f, g, h]) (Suc 0) = (word_of_le [h, a, b, c], word_of_le [d, e, f, g])"
  "ROTATE_COLUMN_DOWN (word_of_le [a, b, c, d]) (word_of_le [e, f, g, h]) 2 = (word_of_le [g, h, a, b], word_of_le [c, d, e, f])"
  "ROTATE_COLUMN_DOWN (word_of_le [a, b, c, d]) (word_of_le [e, f, g, h]) 3 = (word_of_le [f, g, h, a], word_of_le [b, c, d, e])"
  by ((auto simp: ROTATE_COLUMN_DOWN_def bit_simps bit_word_high intro!: bit_word_eqI; drule bit_byte_less; linarith)+)

lemma x_byte_wbyte: "x_byte x c r = unat (wbyte x c r)"
  by (simp add: x_byte_def wbyte_def)

lemma groestl_upt_8: "[0..<8] = [0, Suc 0, 2, 3, 4, 5, 6, 7]"
  by (simp add: upt_rec)

lemma COLUMN_mix:
  "COLUMN x c0 c1 c2 c3 c4 c5 c6 c7 =
    (let col = groestl_mix_column (map SubByte [wbyte x c0 0, wbyte x c1 1, wbyte x c2 2, wbyte x c3 3,
        wbyte x c4 0, wbyte x c5 1, wbyte x c6 2, wbyte x c7 3])
     in [word_of_le (take 4 col), word_of_le (drop 4 col)])"
proof -
  have b: "x_byte x c 0 = unat (wbyte x c 0)" for c by (rule x_byte_wbyte)
  show ?thesis
  unfolding COLUMN_def x_byte_wbyte Let_def
  by (simp add: groestl_T_nth groestl_T_nth [simplified] Let_def rotate_bytes word_of_le_xor groestl_mix_column_def groestl_upt_8 groestl_circ_def
      ac_simps del: word_of_le.simps)
qed

lemma length_mix_column [simp]: "length (groestl_mix_column col) = 8"
  by (simp add: groestl_mix_column_def)

lemma bytes_of_append [simp]: "bytes_of (x @ y) = bytes_of x @ bytes_of y"
  by (simp add: bytes_of_def)

lemma bytes_of_column: "length col = 8 \<Longrightarrow> bytes_of [word_of_le (take 4 col), word_of_le (drop 4 col)] = col"
  by (simp add: bytes_of_def bytes_of_word_of_le del: word_of_le.simps)

lemma bytes_of_COLUMN:
  "bytes_of (COLUMN x c0 c1 c2 c3 c4 c5 c6 c7) = groestl_mix_column (map SubByte
     [wbyte x c0 0, wbyte x c1 1, wbyte x c2 2, wbyte x c3 3, wbyte x c4 0, wbyte x c5 1, wbyte x c6 2, wbyte x c7 3])"
  by (simp only: COLUMN_mix Let_def bytes_of_column length_mix_column)

lemma length_COLUMN [simp]: "length (COLUMN x c0 c1 c2 c3 c4 c5 c6 c7) = 2"
  by (simp add: COLUMN_mix Let_def del: word_of_le.simps)

lemma column_of_map:
  assumes "c < 8"
  shows "take 8 (drop (8 * c) (map f [0..<64])) = map (\<lambda>r. f (8 * c + r)) [0..<8]"
proof (rule nth_equalityI)
  have "8 * c + 8 \<le> 64" using assms by simp
  then show "length (take 8 (drop (8 * c) (map f [0..<64]))) = length (map (\<lambda>r. f (8 * c + r)) [0..<8])"
    by simp
  fix i assume "i < length (take 8 (drop (8 * c) (map f [0..<64])))"
  then show "take 8 (drop (8 * c) (map f [0..<64])) ! i = map (\<lambda>r. f (8 * c + r)) [0..<8] ! i"
    using assms by simp
qed

lemma shifted_columns:
  "MixBytes (ShiftBytes sh st) =
    concat (map (\<lambda>c. groestl_mix_column (map (\<lambda>r. st ! (8 * ((c + sh ! r) mod 8) + r)) [0..<8])) [0..<8])"
proof -
  have "take 8 (drop (8 * c) (ShiftBytes sh st)) = map (\<lambda>r. st ! (8 * ((c + sh ! r) mod 8) + r)) [0..<8]" if "c < 8" for c
    unfolding ShiftBytes_def column_of_map [OF that] by (rule map_cong) auto
  then show ?thesis unfolding MixBytes_def by (intro arg_cong [of _ _ concat] map_cong) auto
qed

lemma round_columns:
  assumes "length x = 16"
  shows "MixBytes (ShiftBytes [0, 1, 2, 3, 4, 5, 6, 7] (map SubByte (bytes_of x))) = bytes_of (
         COLUMN x 0 2 4 6 9 11 13 15 @
         COLUMN x 2 4 6 8 11 13 15 1 @
         COLUMN x 4 6 8 10 13 15 1 3 @
         COLUMN x 6 8 10 12 15 1 3 5 @
         COLUMN x 8 10 12 14 1 3 5 7 @
         COLUMN x 10 12 14 0 3 5 7 9 @
         COLUMN x 12 14 0 2 5 7 9 11 @
         COLUMN x 14 0 2 4 7 9 11 13)"
    and "MixBytes (ShiftBytes [1, 3, 5, 7, 0, 2, 4, 6] (map SubByte (bytes_of x))) = bytes_of (
        COLUMN x 2 6 10 14 1 5 9 13 @
         COLUMN x 4 8 12 0 3 7 11 15 @
         COLUMN x 6 10 14 2 5 9 13 1 @
         COLUMN x 8 12 0 4 7 11 15 3 @
         COLUMN x 10 14 2 6 9 13 1 5 @
         COLUMN x 12 0 4 8 11 15 3 7 @
         COLUMN x 14 2 6 10 13 1 5 9 @
         COLUMN x 0 4 8 12 15 3 7 11)"
  unfolding shifted_columns bytes_of_append bytes_of_COLUMN
  using assms by (simp_all add: groestl_upt_8 bytes_of_index flip: numeral_2_eq_2)

section \<open>Round constants\<close>

lemma groestl_word_xor: "length bs = 4 \<Longrightarrow> le_bytes 4 ((w :: u32) XOR word_of_le bs) = map2 (XOR) (le_bytes 4 w) bs"
proof -
  assume l: "length bs = 4"
  have "le_bytes 4 (word_of_le (le_bytes 4 w) XOR word_of_le bs :: u32) = map2 (XOR) (le_bytes 4 w) bs"
    using l by (simp only: word_of_le_xor length_le_bytes) (rule bytes_of_word_of_le, simp)
  then show ?thesis by (simp add: word_of_le_bytes)
qed

lemma concat_xor:
  assumes "length (cs :: byte list list) = length x" "\<forall>c \<in> set cs. length c = 4"
  shows "concat (map2 (\<lambda>w c. map2 (XOR) (le_bytes 4 w) c) x cs) = map2 (XOR) (bytes_of x) (concat cs)"
  using assms by (induction cs x rule: list_induct2) (simp_all add: bytes_of_def)

lemma bytes_of_xor_all:
  assumes "length x = 16" "length y = 16" "\<And>i. i < 16 \<Longrightarrow> y ! i = x ! i XOR word_of_le (cs ! i)"
    "\<And>i. i < 16 \<Longrightarrow> length (cs ! i) = 4" "length cs = 16"
  shows "bytes_of y = map2 (XOR) (bytes_of x) (concat cs)"
proof -
  have "bytes_of y = concat (map2 (\<lambda>w c. map2 (XOR) (le_bytes 4 w) c) x cs)"
    unfolding bytes_of_def by (intro arg_cong [of _ _ concat] nth_equalityI) (simp_all add: assms groestl_word_xor)
  moreover have "\<forall>c \<in> set cs. length c = 4" using assms by (auto simp: in_set_conv_nth)
  then have "concat (map2 (\<lambda>w c. map2 (XOR) (le_bytes 4 w) c) x cs) = map2 (XOR) (bytes_of x) (concat cs)"
    by (rule concat_xor [OF assms(5) [folded assms(1)]])
  ultimately show ?thesis by simp
qed

definition P_words :: "byte \<Rightarrow> byte list list" where
  "P_words r = concat (map (\<lambda>c. [[c XOR r, 0, 0, 0], [0, 0, 0, 0]]) [0x00, 0x10, 0x20, 0x30, 0x40, 0x50, 0x60, 0x70])"

definition Q_words :: "byte \<Rightarrow> byte list list" where
  "Q_words r = concat (map (\<lambda>c. [[0xff, 0xff, 0xff, 0xff], [0xff, 0xff, 0xff, c XOR r]])
     [0xff, 0xef, 0xdf, 0xcf, 0xbf, 0xaf, 0x9f, 0x8f])"

definition RND512P_key :: "u32 list \<Rightarrow> u32 \<Rightarrow> u32 list" where
  "RND512P_key x r =
    (let x = xor_at 0 (0x00000000 XOR r) x; x = xor_at 2 (0x00000010 XOR r) x;
         x = xor_at 4 (0x00000020 XOR r) x; x = xor_at 6 (0x00000030 XOR r) x;
         x = xor_at 8 (0x00000040 XOR r) x; x = xor_at 10 (0x00000050 XOR r) x;
         x = xor_at 12 (0x00000060 XOR r) x in xor_at 14 (0x00000070 XOR r) x)"

definition RND512Q_key :: "u32 list \<Rightarrow> u32 \<Rightarrow> u32 list" where
  "RND512Q_key x r =
    (let x = not_at 0 x; x = xor_at 1 (0xffffffff XOR r) x; x = not_at 2 x; x = xor_at 3 (0xefffffff XOR r) x;
         x = not_at 4 x; x = xor_at 5 (0xdfffffff XOR r) x; x = not_at 6 x; x = xor_at 7 (0xcfffffff XOR r) x;
         x = not_at 8 x; x = xor_at 9 (0xbfffffff XOR r) x; x = not_at 10 x; x = xor_at 11 (0xafffffff XOR r) x;
         x = not_at 12 x; x = xor_at 13 (0x9fffffff XOR r) x; x = not_at 14 x in xor_at 15 (0x8fffffff XOR r) x)"

lemma list16_ex: "length x = 16 \<longleftrightarrow> (\<exists>a b c d e f g h i j k l m n p q. x = [a, b, c, d, e, f, g, h, i, j, k, l, m, n, p, q])"
  by (auto simp: numeral_eq_Suc length_Suc_conv)

lemma word_consts_P:
  "word_of_le [c XOR r, 0, 0, 0] = ucast c XOR (ucast r :: u32)" "word_of_le [r, 0, 0, 0] = (ucast r :: u32)"
  "word_of_le [0, 0, 0, 0] = (0 :: u32)"
  by (simp_all add: unsigned_xor_eq)

lemma RND512P_key_words:
  assumes "length x = 16"
  shows "RND512P_key x (ucast r) = map2 (\<lambda>w c. w XOR word_of_le c) x (P_words r)"
  using assms by (auto simp: list16_ex RND512P_key_def xor_at_def P_words_def word_consts_P unsigned_xor_eq xor.assoc simp del: word_of_le.simps)


lemma word_consts_Q:
  "word_of_le [0xff, 0xff, 0xff, 0xff XOR r] = 0xffffffff XOR push_bit 24 (ucast r :: u32)"
  "word_of_le [0xff, 0xff, 0xff, 0xef XOR r] = 0xefffffff XOR push_bit 24 (ucast r :: u32)"
  "word_of_le [0xff, 0xff, 0xff, 0xdf XOR r] = 0xdfffffff XOR push_bit 24 (ucast r :: u32)"
  "word_of_le [0xff, 0xff, 0xff, 0xcf XOR r] = 0xcfffffff XOR push_bit 24 (ucast r :: u32)"
  "word_of_le [0xff, 0xff, 0xff, 0xbf XOR r] = 0xbfffffff XOR push_bit 24 (ucast r :: u32)"
  "word_of_le [0xff, 0xff, 0xff, 0xaf XOR r] = 0xafffffff XOR push_bit 24 (ucast r :: u32)"
  "word_of_le [0xff, 0xff, 0xff, 0x9f XOR r] = 0x9fffffff XOR push_bit 24 (ucast r :: u32)"
  "word_of_le [0xff, 0xff, 0xff, 0x8f XOR r] = 0x8fffffff XOR push_bit 24 (ucast r :: u32)"
  "w XOR word_of_le [0xff, 0xff, 0xff, 0xff] = NOT (w :: u32)"
proof -
  have split: "word_of_le [0xff, 0xff, 0xff, c XOR r] = word_of_le [0xff, 0xff, 0xff, c] XOR (word_of_le [0, 0, 0, r] :: u32)" for c
    by (subst word_of_le_xor) simp_all
  have key: "(word_of_le [0, 0, 0, r] :: u32) = push_bit 24 (ucast r)" by (simp add: push_bit_push_bit)
  show "word_of_le [0xff, 0xff, 0xff, 0xff XOR r] = 0xffffffff XOR push_bit 24 (ucast r :: u32)"
    "word_of_le [0xff, 0xff, 0xff, 0xef XOR r] = 0xefffffff XOR push_bit 24 (ucast r :: u32)"
    "word_of_le [0xff, 0xff, 0xff, 0xdf XOR r] = 0xdfffffff XOR push_bit 24 (ucast r :: u32)"
    "word_of_le [0xff, 0xff, 0xff, 0xcf XOR r] = 0xcfffffff XOR push_bit 24 (ucast r :: u32)"
    "word_of_le [0xff, 0xff, 0xff, 0xbf XOR r] = 0xbfffffff XOR push_bit 24 (ucast r :: u32)"
    "word_of_le [0xff, 0xff, 0xff, 0xaf XOR r] = 0xafffffff XOR push_bit 24 (ucast r :: u32)"
    "word_of_le [0xff, 0xff, 0xff, 0x9f XOR r] = 0x9fffffff XOR push_bit 24 (ucast r :: u32)"
    "word_of_le [0xff, 0xff, 0xff, 0x8f XOR r] = 0x8fffffff XOR push_bit 24 (ucast r :: u32)"
    unfolding split key by simp_all
  have "word_of_le [0xff, 0xff, 0xff, 0xff] = (- 1 :: u32)" by simp
  then show "w XOR word_of_le [0xff, 0xff, 0xff, 0xff] = NOT (w :: u32)"
    by (simp only: bit.xor_one_right)
qed

lemma RND512Q_key_words:
  assumes "length x = 16"
  shows "RND512Q_key x (push_bit 24 (ucast r)) = map2 (\<lambda>w c. w XOR word_of_le c) x (Q_words r)"
  using assms by (auto simp: list16_ex RND512Q_key_def xor_at_def not_at_def Q_words_def word_consts_Q simp del: word_of_le.simps)

lemma map2_index: "length st = n \<Longrightarrow> map2 (XOR) st (map f [0..<n]) = map (\<lambda>k. st ! k XOR f k) [0..<n]"
  by (rule nth_equalityI) simp_all

lemma bytes_of_xor_words:
  assumes "length x = 16" "length cs = 16" "\<forall>c \<in> set cs. length c = 4"
  shows "bytes_of (map2 (\<lambda>w c. w XOR word_of_le c) x cs) = map2 (XOR) (bytes_of x) (concat cs)"
  using assms by (intro bytes_of_xor_all) simp_all

lemma key_bytes_P: "length x = 16 \<Longrightarrow> bytes_of (RND512P_key x (ucast r)) = AddRoundConstant_P r (bytes_of x)"
proof -
  assume x: "length x = 16"
  have "concat (P_words r) = map (\<lambda>k. if k mod 8 = 0 then of_nat (16 * (k div 8)) XOR r else 0) [0..<64]"
    by (simp add: P_words_def upt_rec)
  moreover have "length (P_words r) = 16" "\<forall>c \<in> set (P_words r). length c = 4" by (simp_all add: P_words_def)
  ultimately show ?thesis
    using x by (simp add: RND512P_key_words bytes_of_xor_words map2_index AddRoundConstant_P_def)
qed

lemma key_bytes_Q: "length x = 16 \<Longrightarrow> bytes_of (RND512Q_key x (push_bit 24 (ucast r))) = AddRoundConstant_Q r (bytes_of x)"
proof -
  assume x: "length x = 16"
  have "concat (Q_words r) = map (\<lambda>k. 0xff XOR (if k mod 8 = 7 then of_nat (16 * (k div 8)) XOR r else 0)) [0..<64]"
    by (simp add: Q_words_def upt_rec flip: xor.assoc)
  moreover have "length (Q_words r) = 16" "\<forall>c \<in> set (Q_words r). length c = 4" by (simp_all add: Q_words_def)
  ultimately show ?thesis
    using x by (simp add: RND512Q_key_words bytes_of_xor_words map2_index AddRoundConstant_Q_def xor.assoc)
qed

lemma length_keys [simp]: "length (RND512P_key x r) = length x" "length (RND512Q_key x r) = length x"
  by (simp_all add: RND512P_key_def RND512Q_key_def Let_def not_at_def)

lemma RND512P_round: "length x = 16 \<Longrightarrow> bytes_of (RND512P x (ucast r)) = groestl_round_P r (bytes_of x)"
  using round_columns(1) [of "RND512P_key x (ucast r)"]
  by (simp only: groestl_round_P_def key_bytes_P [symmetric] length_keys) (simp only: RND512P_def RND512P_key_def Let_def)

lemma RND512Q_round:
  "length x = 16 \<Longrightarrow> bytes_of (RND512Q x (push_bit 24 (ucast r))) = groestl_round_Q r (bytes_of x)"
  using round_columns(2) [of "RND512Q_key x (push_bit 24 (ucast r))"]
  by (simp only: groestl_round_Q_def key_bytes_Q [symmetric] length_keys) (simp only: RND512Q_def RND512Q_key_def Let_def)

lemma length_RND512 [simp]: "length (RND512P x r) = 16" "length (RND512Q x r) = 16"
  by (simp_all add: RND512P_def RND512Q_def Let_def)

lemma groestl_P_bytes:
  assumes "length x = 16"
  shows "bytes_of (groestl_P x) = groestl_perm_P (bytes_of x)" "length (groestl_P x) = 16"
proof -
  have r: "[0x00000000, 0x00000001, 0x00000002, 0x00000003, 0x00000004, 0x00000005, 0x00000006, 0x00000007, 0x00000008, 0x00000009 :: u32] =
      map ucast (map of_nat [0..<10] :: byte list)" by (simp add: upt_rec)
  have "length x = 16 \<Longrightarrow> bytes_of (fold (\<lambda>r x. RND512P x r) (map ucast rs) x) = fold groestl_round_P rs (bytes_of x) \<and>
      length (fold (\<lambda>r x. RND512P x r) (map ucast rs) x) = 16" for rs x
    by (induction rs arbitrary: x) (simp_all add: RND512P_round)
  from this [OF assms, of "map of_nat [0..<10]"]
  show "bytes_of (groestl_P x) = groestl_perm_P (bytes_of x)" "length (groestl_P x) = 16"
    by (simp_all only: groestl_P_def r groestl_perm_P_def)
qed

lemma groestl_Q_bytes:
  assumes "length x = 16"
  shows "bytes_of (groestl_Q x) = groestl_perm_Q (bytes_of x)" "length (groestl_Q x) = 16"
proof -
  have r: "[0x00000000, 0x01000000, 0x02000000, 0x03000000, 0x04000000, 0x05000000, 0x06000000, 0x07000000, 0x08000000, 0x09000000 :: u32] =
      map (\<lambda>r. push_bit 24 (ucast r)) (map of_nat [0..<10] :: byte list)" by (simp add: upt_rec)
  have "length x = 16 \<Longrightarrow> bytes_of (fold (\<lambda>r x. RND512Q x r) (map (\<lambda>r. push_bit 24 (ucast r)) rs) x) = fold groestl_round_Q rs (bytes_of x) \<and>
      length (fold (\<lambda>r x. RND512Q x r) (map (\<lambda>r. push_bit 24 (ucast r)) rs) x) = 16" for rs :: "byte list" and x
    by (induction rs arbitrary: x) (simp_all add: RND512Q_round)
  from this [OF assms, of "map of_nat [0..<10]"]
  show "bytes_of (groestl_Q x) = groestl_perm_Q (bytes_of x)" "length (groestl_Q x) = 16"
    by (simp_all only: groestl_Q_def r groestl_perm_Q_def)
qed

end
