(* ===== verification/Groestl_Hash.thy ===== *)
theory Groestl_Hash
  imports Groestl_Correct
begin

text \<open>
  Groestl-256 as a function of the message: the padding, the compression of its blocks and the output
  transformation on bytes, and the proof that the buffered code with its split block counter computes it.
\<close>

section \<open>The hash function\<close>

definition xor_bytes :: "byte list \<Rightarrow> byte list \<Rightarrow> byte list" where
  "xor_bytes a b = map2 (XOR) a b"

definition groestl_compress :: "byte list \<Rightarrow> byte list \<Rightarrow> byte list" where
  "groestl_compress h m = xor_bytes h (xor_bytes (groestl_perm_P (xor_bytes h m)) (groestl_perm_Q m))"

text \<open>
  The padding: the last bit is followed by a one, zeros and the number of blocks on 8 bytes. The blocks are
  those of a message of whole bytes and the marked byte, which holds the last bits of a partial one.
\<close>

definition groestl_marked :: "byte list \<Rightarrow> nat \<Rightarrow> byte" where
  "groestl_marked data d =
    (if d mod 8 = 0 then 0x80
     else (data ! (d div 8) AND push_bit (8 - d mod 8) (push_bit (d mod 8) 1 - 1)) XOR push_bit (7 - d mod 8) 1)"

definition groestl_blocks :: "nat \<Rightarrow> nat" where
  "groestl_blocks n = (n + 9 + 63) div 64"

definition groestl_pad :: "byte list \<Rightarrow> nat \<Rightarrow> byte list" where
  "groestl_pad data d =
    (let n = d div 8
     in take n data @ [groestl_marked data d] @ replicate (64 * groestl_blocks n - 9 - n) 0 @
        be_bytes 8 (of_nat (groestl_blocks n) :: u64))"

definition groestl_iv :: "byte list" where
  "groestl_iv = replicate 62 0 @ [0x01, 0x00]"

definition groestl_spec :: "byte list \<Rightarrow> nat \<Rightarrow> byte list" where
  "groestl_spec data d =
    (let h = foldl groestl_compress groestl_iv (chunks 64 (groestl_pad data d))
     in drop 32 (xor_bytes h (groestl_perm_P h)))"

section \<open>The code computes it\<close>

lemma bytes_of_words: "length bs = 64 \<Longrightarrow> bytes_of (words_of bs) = bs"
proof -
  assume l: "length bs = 64"
  have "le_bytes 4 (word_of_le (take 4 (drop (4 * i) bs)) :: u32) = take 4 (drop (4 * i) bs)" if "i < 16" for i
    using that l by (intro bytes_of_word_of_le) simp
  then have "bytes_of (words_of bs) = concat (map (\<lambda>i. take 4 (drop (4 * i) bs)) [0..<16])"
    unfolding bytes_of_def words_of_def by (intro arg_cong [of _ _ concat]) (auto simp: comp_def)
  moreover have "concat (map (\<lambda>i. take 4 (drop (4 * i) bs)) [0..<k]) = take (4 * k) bs" for k
  proof (induction k)
    case (Suc k)
    have "take (4 * Suc k) bs = take (4 * k) bs @ take 4 (drop (4 * k) bs)"
      using take_add [of "4 * k" 4 bs] by (simp add: add.commute)
    then show ?case using Suc by simp
  qed simp
  ultimately show ?thesis using l by simp
qed

lemma length_words_of [simp]: "length (words_of bs) = 16"
  by (simp add: words_of_def)

lemma bytes_of_xor:
  assumes "length a = 16" "length b = 16" "length c = 16" "\<And>i. i < 16 \<Longrightarrow> c ! i = a ! i XOR b ! i"
  shows "bytes_of c = xor_bytes (bytes_of a) (bytes_of b)"
proof -
  have "c = map2 (XOR) a b" using assms by (intro nth_equalityI) simp_all
  moreover have "bytes_of (map2 (XOR) a b) = xor_bytes (bytes_of a) (bytes_of b)"
  proof -
    have "length a = length b" using assms by simp
    then show ?thesis
      by (induction a b rule: list_induct2) (simp_all add: bytes_of_def xor_bytes_def le_bytes_4 unsigned_xor_eq drop_bit_xor)
  qed
  ultimately show ?thesis by simp
qed

lemma length_xor_words [simp]: "length (xor_words a b) = 16"
  by (simp add: xor_words_def)

lemma F512_bytes:
  assumes "length h = 16" "length m = 64"
  shows "bytes_of (F512 h (words_of m)) = groestl_compress (bytes_of h) m" "length (F512 h (words_of m)) = 16"
proof -
  define p where "p = groestl_P (xor_words h (words_of m))"
  define q where "q = groestl_Q (words_of m)"
  have hm: "bytes_of (xor_words h (words_of m)) = xor_bytes (bytes_of h) m"
    using assms bytes_of_xor [of h "words_of m" "xor_words h (words_of m)"] by (simp add: xor_words_def bytes_of_words)
  have p: "length p = 16" "bytes_of p = groestl_perm_P (xor_bytes (bytes_of h) m)"
    using groestl_P_bytes [of "xor_words h (words_of m)"] hm by (simp_all add: p_def)
  have q: "length q = 16" "bytes_of q = groestl_perm_Q m"
    using groestl_Q_bytes [of "words_of m"] assms by (simp_all add: q_def bytes_of_words)
  have F: "F512 h (words_of m) = map (\<lambda>i. h ! i XOR (p ! i XOR q ! i)) [0..<16]"
    by (simp add: F512_def p_def q_def)
  then show "length (F512 h (words_of m)) = 16" by simp
  have "bytes_of (xor_words p q) = xor_bytes (bytes_of p) (bytes_of q)"
    using p q by (intro bytes_of_xor) (simp_all add: xor_words_def)
  moreover have "bytes_of (F512 h (words_of m)) = xor_bytes (bytes_of h) (bytes_of (xor_words p q))"
    using assms F by (intro bytes_of_xor) (simp_all add: xor_words_def)
  ultimately show "bytes_of (F512 h (words_of m)) = groestl_compress (bytes_of h) m"
    using p q by (simp add: groestl_compress_def)
qed

text \<open>A context that has digested \<open>k\<close> blocks with the chaining value \<open>h\<close>.\<close>

definition digested :: "byte list \<Rightarrow> nat \<Rightarrow> groestlHashState \<Rightarrow> bool" where
  "digested h k ctx \<longleftrightarrow> length (chaining ctx) = 16 \<and> bytes_of (chaining ctx) = h \<and>
    length (groestl_buffer ctx) = 64 \<and>
    block_counter1 ctx = of_nat k \<and> block_counter2 ctx = of_nat (k div 2 ^ 32)"

lemma count_carry:
  "of_nat (Suc k div N) = (if N dvd Suc k then of_nat (k div N) + 1 else of_nat (k div N) :: u32)"
  by (simp add: div_Suc dvd_eq_mod_eq_0 add.commute)

lemma count_next:
  assumes "c1 = (of_nat k :: u32)" "c2 = (of_nat (k div 2 ^ 32) :: u32)"
  shows "(if c1 + 1 = 0 then c2 + 1 else c2) = of_nat (Suc k div 2 ^ 32)"
proof -
  have "c1 + 1 = of_nat (Suc k)" using assms(1) by (simp add: add.commute)
  then have "c1 + 1 = 0 \<longleftrightarrow> 2 ^ LENGTH(32) dvd Suc k" by (simp only: word_of_nat_eq_0_iff)
  then have zero: "c1 + 1 = 0 \<longleftrightarrow> 2 ^ 32 dvd Suc k" by (simp only: len_of_numeral_defs) simp
  show ?thesis by (simp only: zero count_carry assms(2))
qed

lemma digested_count: "digested h k ctx \<Longrightarrow> digested h (Suc k) (count_block ctx)"
proof -
  assume a: "digested h k ctx"
  then have "block_counter1 (count_block ctx) = of_nat (Suc k)"
    "block_counter2 (count_block ctx) = (if block_counter1 ctx + 1 = 0 then block_counter2 ctx + 1 else block_counter2 ctx)"
    by (simp_all add: digested_def count_block_def Let_def add.commute)
  moreover have "chaining (count_block ctx) = chaining ctx" "groestl_buffer (count_block ctx) = groestl_buffer ctx"
    by (simp_all add: count_block_def Let_def)
  ultimately show "digested h (Suc k) (count_block ctx)"
    using a count_next [of "block_counter1 ctx" k "block_counter2 ctx"] by (simp only: digested_def)
qed

lemma block_fields [simp]:
  "groestl_buffer (groestl_block ctx b) = groestl_buffer ctx" "groestl_buf_ptr (groestl_block ctx b) = groestl_buf_ptr ctx"
  "bits_in_last_byte (groestl_block ctx b) = bits_in_last_byte ctx"
  "groestl_buffer (count_block ctx) = groestl_buffer ctx" "groestl_buf_ptr (count_block ctx) = groestl_buf_ptr ctx"
  "bits_in_last_byte (count_block ctx) = bits_in_last_byte ctx" "chaining (count_block ctx) = chaining ctx"
  by (simp_all add: groestl_block_def count_block_def Let_def)

lemma digested_block:
  assumes "digested h k ctx" "length b = 64"
  shows "digested (groestl_compress h b) (Suc k) (groestl_block ctx b)"
proof -
  have "digested (groestl_compress h b) k (ctx\<lparr>chaining := F512 (chaining ctx) (words_of b)\<rparr>)"
    using assms F512_bytes [of "chaining ctx" b] by (simp add: digested_def)
  then show ?thesis unfolding groestl_block_def by (rule digested_count)
qed

lemma Transform_chunks: "n \<le> length input \<Longrightarrow>
    groestl_Transform ctx input (int n) = foldl groestl_block ctx (chunks 64 (take n input))"
proof (induction n arbitrary: ctx input rule: less_induct)
  case (less n)
  show ?case
  proof (cases "64 \<le> n")
    case True
    then have "int n - 64 = int (n - 64)" by simp
    then have "groestl_Transform ctx input (int n) = groestl_Transform (groestl_block ctx (take 64 input)) (drop 64 input) (int (n - 64))"
      using True by (subst groestl_Transform.simps) simp
    also have "\<dots> = foldl groestl_block (groestl_block ctx (take 64 input)) (chunks 64 (take (n - 64) (drop 64 input)))"
      using True less.prems by (intro less.IH) simp_all
    also have "\<dots> = foldl groestl_block ctx (chunks 64 (take n input))"
      using True less.prems by (simp add: chunks_step min_def drop_take)
    finally show ?thesis .
  next
    case False
    then show ?thesis using less.prems by (subst groestl_Transform.simps) (simp add: chunks_short)
  qed
qed

text \<open>The length keeps its value below \<open>2^31\<close>.\<close>

lemma sint_length: "n < 2 ^ 31 \<Longrightarrow> sint (of_nat n :: 32 word) = int n"
  by (simp add: signed_of_nat signed_take_bit_int_eq_self_iff)

lemma bulk_nat:
  "groestl_bulk ctx input (int n) remb =
    (let ctx = groestl_Transform ctx input (int n);
         ctx = groestl_store (take (n - n div 64 * 64) (drop (n div 64 * 64) input)) ctx
     in if remb \<noteq> 0 then groestl_store [input ! n] (ctx\<lparr>bits_in_last_byte := remb\<rparr>) else ctx)"
proof -
  define q where "q = n div 64 * 64"
  have "q \<le> n" by (simp add: q_def)
  then have m: "max (int q) (int n) = int n" "nat (int n - int q) = n - q" by simp_all
  have d: "int n sdiv 64 * 64 = int q"
    by (cases "n = 0") (simp_all add: signed_divide_int_def zdiv_int q_def)
  show ?thesis unfolding groestl_bulk_def Let_def d m q_def [symmetric] nat_int by (simp add: groestl_byte_def)
qed

lemma foldl_fields [simp]:
  "groestl_buffer (foldl groestl_block ctx bs) = groestl_buffer ctx"
  "groestl_buf_ptr (foldl groestl_block ctx bs) = groestl_buf_ptr ctx"
  "bits_in_last_byte (foldl groestl_block ctx bs) = bits_in_last_byte ctx"
  by (induction bs arbitrary: ctx) simp_all

lemma digested_blocks:
  "digested h k ctx \<Longrightarrow> \<forall>b \<in> set bs. length b = 64 \<Longrightarrow>
    digested (foldl groestl_compress h bs) (k + length bs) (foldl groestl_block ctx bs)"
proof (induction bs arbitrary: h k ctx)
  case (Cons b bs)
  then show ?case using Cons.IH [OF digested_block, of h k ctx b] by simp
qed simp

lemma chunks_take: "chunks m (take n xs) = chunks m (take (n div m * m) xs)" if "0 < m" "n \<le> length xs"
proof -
  have le: "n div m * m \<le> n" by simp
  have "take n xs = take (n div m * m) xs @ drop (n div m * m) (take n xs)"
    using le by (metis append_take_drop_id min.absorb2 min.commute take_take)
  moreover have "chunks m (drop (n div m * m) (take n xs)) = []"
  proof (rule chunks_short)
    have "n - n div m * m < m" using that by (simp add: minus_div_mult_eq_mod)
    then show "length (drop (n div m * m) (take n xs)) < m" using that by simp
  qed
  moreover have "chunks m (take (n div m * m) xs @ ys) = chunks m (take (n div m * m) xs) @ chunks m ys" for ys
    using that le order_trans [OF le that(2)] by (intro chunks_append) (simp_all add: min_def)
  ultimately show ?thesis by (metis append_Nil2)
qed

lemma digested_store:
  assumes "digested h k ctx" "groestl_buf_ptr ctx + length bs \<le> 64" "take (groestl_buf_ptr ctx) (groestl_buffer ctx) = t"
  shows "digested h k (groestl_store bs ctx)" "groestl_buf_ptr (groestl_store bs ctx) = groestl_buf_ptr ctx + length bs"
    "take (groestl_buf_ptr ctx + length bs) (groestl_buffer (groestl_store bs ctx)) = t @ bs"
  using assms by (cases bs; auto simp: groestl_store_def digested_def min_def)+

lemma groestl_Init_digested:
  assumes "length (groestl_buffer junk) = 64"
  shows "digested groestl_iv 0 (groestl_Init junk)" "groestl_buf_ptr (groestl_Init junk) = 0"
    "bits_in_last_byte (groestl_Init junk) = 0"
proof -
  have "(replicate 16 0)[15 := u32BIG 256] = replicate 15 0 @ [0x10000]"
  proof -
    have "replicate 16 (0 :: u32) = replicate 15 0 @ [0]" by (simp add: numeral_eq_Suc)
    then show ?thesis by (simp add: list_update_append u32BIG_def)
  qed
  moreover have "bytes_of (replicate n 0) = replicate (4 * n) 0" for n
    by (induction n) (simp_all add: bytes_of_def le_bytes_def upt_rec numeral_eq_Suc)
  moreover have "bytes_of [0x10000] = [0, 0, 1, 0]" by (simp add: bytes_of_def le_bytes_4)
  ultimately have "bytes_of ((replicate 16 0)[15 := u32BIG 256]) = replicate 60 0 @ [0, 0, 1, 0]" by simp
  also have "\<dots> = groestl_iv" by (simp add: groestl_iv_def numeral_eq_Suc)
  finally show "digested groestl_iv 0 (groestl_Init junk)" using assms
    by (simp add: digested_def groestl_Init_def)
qed (simp_all add: groestl_Init_def)

lemma length_take_chunks: "n \<le> length xs \<Longrightarrow> length (chunks 64 (take (n div 64 * 64) xs)) = n div 64"
proof -
  assume "n \<le> length xs"
  then have "length (take (n div 64 * 64) xs) = n div 64 * 64"
    using order_trans [of "n div 64 * 64" n "length xs"] by (simp add: min_def)
  then show ?thesis by (simp add: length_chunks)
qed

lemma bulk_digested:
  assumes d: "digested h k ctx" and p: "groestl_buf_ptr ctx = 0" and n: "n \<le> length input"
    and r: "remb \<noteq> 0 \<Longrightarrow> n < length input"
  defines "ctx' \<equiv> groestl_bulk ctx input (int n) remb"
  shows "digested (foldl groestl_compress h (chunks 64 (take (n div 64 * 64) input))) (k + n div 64) ctx'"
    "bits_in_last_byte ctx' = (if remb = 0 then bits_in_last_byte ctx else remb)"
    "groestl_buf_ptr ctx' = n mod 64 + (if remb = 0 then 0 else 1)"
    "take (groestl_buf_ptr ctx') (groestl_buffer ctx') =
      drop (n div 64 * 64) (take n input) @ (if remb = 0 then [] else [input ! n])"
proof -
  define q where "q = n div 64 * 64"
  define h' where "h' = foldl groestl_compress h (chunks 64 (take q input))"
  define ctx1 where "ctx1 = groestl_Transform ctx input (int n)"
  define t where "t = drop q (take n input)"
  define ctx2 where "ctx2 = groestl_store t ctx1"
  have q: "q \<le> n" "n - q = n mod 64" "n mod 64 < 64" by (simp_all add: q_def minus_div_mult_eq_mod)
  have t: "length t = n mod 64" "take (n - q) (drop q input) = t" using n q by (simp_all add: t_def drop_take)
  have c: "ctx1 = foldl groestl_block ctx (chunks 64 (take q input))"
    using Transform_chunks [OF n, of ctx] chunks_take [of 64 n input] n by (simp add: ctx1_def q_def)
  have 1: "digested h' (k + n div 64) ctx1" "groestl_buf_ptr ctx1 = 0" "bits_in_last_byte ctx1 = bits_in_last_byte ctx"
    using digested_blocks [OF d, of "chunks 64 (take q input)"] p n
    by (auto simp: c h'_def q_def length_take_chunks dest: chunks_length_all)
  have 2: "digested h' (k + n div 64) ctx2" "groestl_buf_ptr ctx2 = n mod 64"
    "take (n mod 64) (groestl_buffer ctx2) = t" "bits_in_last_byte ctx2 = bits_in_last_byte ctx"
    using digested_store [OF 1(1), of t "[]"] 1 t q(3) by (simp_all add: ctx2_def groestl_store_def)
  have e: "ctx' = (if remb \<noteq> 0 then groestl_store [input ! n] (ctx2\<lparr>bits_in_last_byte := remb\<rparr>) else ctx2)"
    by (simp add: ctx'_def bulk_nat ctx2_def ctx1_def t(2) [unfolded q_def] Let_def)
  have 3: "digested h' (k + n div 64) (ctx2\<lparr>bits_in_last_byte := remb\<rparr>)" using 2(1) by (simp add: digested_def)
  note s = digested_store [OF 3, of "[input ! n]" t]
  have "bits_in_last_byte (groestl_store bs c) = bits_in_last_byte c" for bs c by (simp add: groestl_store_def)
  then show "digested h' (k + n div 64) ctx'"
    "bits_in_last_byte ctx' = (if remb = 0 then bits_in_last_byte ctx else remb)"
    "groestl_buf_ptr ctx' = n mod 64 + (if remb = 0 then 0 else 1)"
    "take (groestl_buf_ptr ctx') (groestl_buffer ctx') = t @ (if remb = 0 then [] else [input ! n])"
    using 2 s q(3) by (auto simp: e)
qed

lemma mark_digested:
  assumes d: "digested h k ctx"
    and bits: "if remb = 0 then bits_in_last_byte ctx = 0 \<and> take (groestl_buf_ptr ctx) (groestl_buffer ctx) = t
      else bits_in_last_byte ctx = remb \<and> take (groestl_buf_ptr ctx) (groestl_buffer ctx) = t @ [b]"
    and p: "groestl_buf_ptr ctx = length t + (if remb = 0 then 0 else 1)" "length t < 64"
  defines "m \<equiv> (if remb = 0 then 0x80 else (b AND push_bit (8 - remb) (push_bit remb 1 - 1)) XOR push_bit (7 - remb) 1)"
  shows "digested h k (groestl_mark ctx)" "groestl_buf_ptr (groestl_mark ctx) = Suc (length t)"
    "take (Suc (length t)) (groestl_buffer (groestl_mark ctx)) = t @ [m]"
proof -
  have "digested h k (groestl_mark ctx) \<and> groestl_buf_ptr (groestl_mark ctx) = Suc (length t) \<and>
    take (Suc (length t)) (groestl_buffer (groestl_mark ctx)) = t @ [m]"
  proof (cases "remb = 0")
    case True
    then show ?thesis
      using bits p digested_store [OF d, of "[0x80]" t] by (simp add: groestl_mark_def m_def Let_def)
  next
    case False
    have len: "length (groestl_buffer ctx) = 64" using d by (simp add: digested_def)
    have "groestl_buffer ctx ! length t = take (Suc (length t)) (groestl_buffer ctx) ! length t" by simp
    also have "\<dots> = b" using False bits p by simp
    finally have b: "groestl_buffer ctx ! length t = b" .
    have "take (Suc (length t)) ((groestl_buffer ctx)[length t := m]) = (t @ [b])[length t := m]"
      using False bits p by (simp add: take_update_swap)
    then show ?thesis
      using False bits p d b by (simp add: groestl_mark_def Let_def digested_def m_def)
  qed
  then show "digested h k (groestl_mark ctx)" "groestl_buf_ptr (groestl_mark ctx) = Suc (length t)"
    "take (Suc (length t)) (groestl_buffer (groestl_mark ctx)) = t @ [m]" by auto
qed

text \<open>What is left of \<^verbatim>\<open>Final\<close> after the mark.\<close>

definition groestl_room :: "groestlHashState \<Rightarrow> groestlHashState" where
  "groestl_room ctx =
    (if groestl_buf_ptr ctx > 56 then
       let ctx = groestl_store (replicate (64 - groestl_buf_ptr ctx) 0) ctx;
           ctx = groestl_Transform ctx (groestl_buffer ctx) 64
       in ctx\<lparr>groestl_buf_ptr := 0\<rparr>
     else ctx)"

lemma Transform_one: "length b = 64 \<Longrightarrow> groestl_Transform ctx b 64 = groestl_block ctx b"
  using Transform_chunks [of 64 b ctx] by (simp add: chunks_one)

lemma room_digested:
  assumes d: "digested h k ctx" and t: "take (groestl_buf_ptr ctx) (groestl_buffer ctx) = t" and p: "groestl_buf_ptr ctx \<le> 64"
  defines "long \<equiv> groestl_buf_ptr ctx > 56"
  shows "digested (if long then groestl_compress h (t @ replicate (64 - groestl_buf_ptr ctx) 0) else h)
      (if long then Suc k else k) (groestl_room ctx)"
    "groestl_buf_ptr (groestl_room ctx) = (if long then 0 else groestl_buf_ptr ctx)"
    "take (groestl_buf_ptr (groestl_room ctx)) (groestl_buffer (groestl_room ctx)) = (if long then [] else t)"
proof -
  define c where "c = groestl_store (replicate (64 - groestl_buf_ptr ctx) 0) ctx"
  have lt: "length t = groestl_buf_ptr ctx" using d p t by (auto simp: digested_def)
  have c: "digested h k c" "take 64 (groestl_buffer c) = t @ replicate (64 - groestl_buf_ptr ctx) 0" "length (groestl_buffer c) = 64"
    using digested_store [OF d _ t, of "replicate (64 - groestl_buf_ptr ctx) 0"] p lt by (simp_all add: c_def digested_def)
  then have b: "groestl_buffer c = t @ replicate (64 - groestl_buf_ptr ctx) 0" by simp
  have "digested (groestl_compress h (groestl_buffer c)) (Suc k) ((groestl_block c (groestl_buffer c))\<lparr>groestl_buf_ptr := 0\<rparr>)"
    using digested_block [OF c(1,3)] by (simp add: digested_def)
  moreover have "groestl_room ctx = (if long then (groestl_block c (groestl_buffer c))\<lparr>groestl_buf_ptr := 0\<rparr> else ctx)"
    by (simp add: groestl_room_def long_def c_def [symmetric] Transform_one c(3) Let_def)
  ultimately show "digested (if long then groestl_compress h (t @ replicate (64 - groestl_buf_ptr ctx) 0) else h)
      (if long then Suc k else k) (groestl_room ctx)"
    "groestl_buf_ptr (groestl_room ctx) = (if long then 0 else groestl_buf_ptr ctx)"
    "take (groestl_buf_ptr (groestl_room ctx)) (groestl_buffer (groestl_room ctx)) = (if long then [] else t)"
    using d t b by auto
qed

lemma be_bytes_halves: "be_bytes 4 (of_nat (k div 2 ^ 32) :: u32) @ be_bytes 4 (of_nat k :: u32) = be_bytes 8 (of_nat k :: u64)"
proof -
  have "le_bytes 4 (of_nat k :: u32) @ le_bytes 4 (of_nat (k div 2 ^ 32) :: u32) = le_bytes 8 (of_nat k :: u64)"
    unfolding drop_bit_eq_div [symmetric]
    by (simp add: le_bytes_def upt_rec) (auto intro!: bit_word_eqI simp: bit_simps)
  then show ?thesis by (simp add: be_bytes_def flip: rev_append)
qed


text \<open>The last block and the output.\<close>

definition groestl_last :: "groestlHashState \<Rightarrow> groestlHashState" where
  "groestl_last ctx =
    (let ctx = groestl_store (replicate (56 - groestl_buf_ptr ctx) 0) ctx;
         ctx = count_block ctx;
         ctx = ctx\<lparr>groestl_buffer := take 56 (groestl_buffer ctx) @
                      be_bytes 4 (block_counter2 ctx) @ be_bytes 4 (block_counter1 ctx),
                   groestl_buf_ptr := 56, block_counter1 := 0, block_counter2 := 0\<rparr>
     in groestl_Transform ctx (groestl_buffer ctx) 64)"

lemma last_digested:
  assumes d: "digested h k ctx" and t: "take (groestl_buf_ptr ctx) (groestl_buffer ctx) = t" and p: "groestl_buf_ptr ctx \<le> 56"
  shows "bytes_of (chaining (groestl_last ctx)) =
      groestl_compress h (t @ replicate (56 - groestl_buf_ptr ctx) 0 @ be_bytes 8 (of_nat (Suc k) :: u64))"
    and "length (chaining (groestl_last ctx)) = 16"
proof -
  define c where "c = count_block (groestl_store (replicate (56 - groestl_buf_ptr ctx) 0) ctx)"
  have c: "digested h (Suc k) c" "take 56 (groestl_buffer c) = t @ replicate (56 - groestl_buf_ptr ctx) 0"
    using digested_store [OF d _ t, of "replicate (56 - groestl_buf_ptr ctx) 0"] p by (simp_all add: c_def digested_count)
  define b where "b = t @ replicate (56 - groestl_buf_ptr ctx) 0 @ be_bytes 8 (of_nat (Suc k) :: u64)"
  have lt: "length t = groestl_buf_ptr ctx" using d p t by (auto simp: digested_def)
  have lb: "length b = 64" using p by (simp add: b_def lt)
  have e: "take 56 (groestl_buffer c) @ be_bytes 4 (block_counter2 c) @ be_bytes 4 (block_counter1 c) = b"
    using c be_bytes_halves [of "Suc k"] by (simp only: digested_def b_def append_assoc)
  have "groestl_last ctx = groestl_Transform
      (c\<lparr>groestl_buffer := b, groestl_buf_ptr := 56, block_counter1 := 0, block_counter2 := 0\<rparr>) b 64"
    unfolding groestl_last_def Let_def c_def [symmetric] e by simp
  then have "groestl_last ctx = groestl_block (c\<lparr>groestl_buffer := b, groestl_buf_ptr := 56, block_counter1 := 0, block_counter2 := 0\<rparr>) b"
    by (simp only: Transform_one [OF lb])
  moreover have "bytes_of (chaining c) = h" "length (chaining c) = 16" using c by (simp_all add: digested_def)
  ultimately show "bytes_of (chaining (groestl_last ctx)) = groestl_compress h b" "length (chaining (groestl_last ctx)) = 16"
    using F512_bytes [of "chaining c" b] lb by (simp_all add: groestl_block_def)
qed

lemma Final_parts: "snd (groestl_Final ctx) =
   drop 32 (bytes_of (chaining (OutputTransformation (groestl_last (groestl_room (groestl_mark ctx))))))"
  by (simp add: groestl_Final_def groestl_last_def groestl_room_def Let_def bytes_of_def)

lemma output_bytes:
  assumes "length (chaining ctx) = 16"
  shows "bytes_of (chaining (OutputTransformation ctx)) =
    xor_bytes (bytes_of (chaining ctx)) (groestl_perm_P (bytes_of (chaining ctx)))"
  using groestl_P_bytes [OF assms] assms
    bytes_of_xor [of "chaining ctx" "groestl_P (chaining ctx)" "xor_words (chaining ctx) (groestl_P (chaining ctx))"]
  by (simp add: OutputTransformation_def xor_words_def)

lemma groestl_spec_eq:
  assumes "length (groestl_buffer junk) = 64" and "d div 8 + (if d mod 8 = 0 then 0 else 1) \<le> length data"
    and "d div 8 < 2 ^ 31"
  shows "groestl junk data d = groestl_spec data d"
proof -
  define n where "n = d div 8"
  define r where "r = n mod 64"
  define q where "q = n div 64 * 64"
  define t where "t = drop q (take n data)"
  define h where "h = foldl groestl_compress groestl_iv (chunks 64 (take q data))"
  define m where "m = groestl_marked data d"
  have n: "n \<le> length data" "d mod 8 \<noteq> 0 \<Longrightarrow> n < length data" using assms(2) by (auto simp: n_def split: if_splits)
  have lt: "length t = r" "r < 64" using n by (simp_all add: t_def q_def r_def minus_div_mult_eq_mod)
  note I = groestl_Init_digested [OF assms(1)]
  define u where "u = groestl_Update (groestl_Init junk) data d"
  have "u = groestl_bulk (groestl_Init junk) data (int n) (d mod 8)"
    using I(2) sint_length [OF assms(3)] by (simp add: u_def groestl_Update_def n_def)
  note B = bulk_digested [where remb = "d mod 8", OF I(1,2) n, folded this, folded q_def, folded h_def t_def r_def]
  have bits: "if d mod 8 = 0 then bits_in_last_byte u = 0 \<and> take (groestl_buf_ptr u) (groestl_buffer u) = t
      else bits_in_last_byte u = d mod 8 \<and> take (groestl_buf_ptr u) (groestl_buffer u) = t @ [data ! n]"
    using B(2) B(4) I(3) by (cases "d mod 8 = 0") (simp_all only: if_True if_False append_Nil2 if_P if_not_P simp_thms)
  have ptr: "groestl_buf_ptr u = length t + (if d mod 8 = 0 then 0 else 1)" using B(3) lt by simp
  have M: "digested h (n div 64) (groestl_mark u)" "groestl_buf_ptr (groestl_mark u) = Suc r"
    "take (Suc r) (groestl_buffer (groestl_mark u)) = t @ [m]"
    using mark_digested [OF B(1) bits ptr] lt
    by (simp_all add: m_def groestl_marked_def n_def [symmetric])
  define v where "v = groestl_room (groestl_mark u)"
  define out where "out = groestl_last v"
  define K where "K = groestl_blocks n"
  define z where "z = 64 * K - 9 - n"
  have nq: "n = 64 * (n div 64) + r" by (simp add: r_def)
  have K: "K = n div 64 + (if r < 56 then 1 else 2)"
    unfolding K_def groestl_blocks_def using lt(2) by (subst nq) (auto simp: div_mult_self1 intro!: div_nat_eqI)
  have pad: "groestl_pad data d = take q data @ (t @ [m]) @ replicate z 0 @ be_bytes 8 (of_nat K :: u64)"
  proof -
    have "take n data = take q data @ t"
      using append_take_drop_id [of q "take n data"] by (simp add: t_def q_def min_def)
    then show ?thesis by (simp add: groestl_pad_def Let_def m_def z_def K_def n_def)
  qed
  have "q \<le> n" by (simp add: q_def)
  then have "length (take q data) = q" using n(1) by (simp add: min_absorb2)
  then have blocks: "chunks 64 (groestl_pad data d) =
      chunks 64 (take q data) @ chunks 64 ((t @ [m]) @ replicate z 0 @ be_bytes 8 (of_nat K :: u64))"
    unfolding pad by (intro chunks_append) (simp_all add: q_def)
  have R: "bytes_of (chaining out) = foldl groestl_compress h (chunks 64 ((t @ [m]) @ replicate z 0 @ be_bytes 8 (of_nat K :: u64)))"
    "length (chaining out) = 16"
  proof -
    have p: "groestl_buf_ptr (groestl_mark u) \<le> 64" using M(2) lt by simp
    note V = room_digested [OF M(1) M(3) [folded M(2)] p, folded v_def, unfolded M(2)]
    have be: "length (be_bytes 8 (of_nat K :: u64)) = 8" by simp
    have "bytes_of (chaining out) = foldl groestl_compress h (chunks 64 ((t @ [m]) @ replicate z 0 @ be_bytes 8 (of_nat K :: u64))) \<and>
      length (chaining out) = 16"
    proof (cases "r < 56")
      case True
      then have z: "z = 56 - Suc r" and K1: "K = Suc (n div 64)" using nq K by (simp_all add: z_def)
      have "digested h (n div 64) v" "take (groestl_buf_ptr v) (groestl_buffer v) = t @ [m]" "groestl_buf_ptr v = Suc r"
        using V True by simp_all
      from last_digested [OF this(1,2)] this(3) True show ?thesis
        by (simp add: out_def z K1 chunks_one lt)
    next
      case False
      define A where "A = (t @ [m]) @ replicate (64 - Suc r) 0"
      have z: "z = (64 - Suc r) + 56" and K1: "K = Suc (Suc (n div 64))" using nq K False lt(2) by (simp_all add: z_def)
      have "digested (groestl_compress h A) (Suc (n div 64)) v" "take (groestl_buf_ptr v) (groestl_buffer v) = []" "groestl_buf_ptr v = 0"
        using V False by (simp_all add: A_def)
      from last_digested [OF this(1,2)] this(3)
      have "bytes_of (chaining out) = groestl_compress (groestl_compress h A) (replicate 56 0 @ be_bytes 8 (of_nat K :: u64))"
        "length (chaining out) = 16" by (simp_all add: out_def K1)
      moreover have e: "(t @ [m]) @ replicate z 0 @ be_bytes 8 (of_nat K :: u64) = A @ replicate 56 0 @ be_bytes 8 (of_nat K :: u64)"
        by (simp only: z A_def replicate_add append_assoc)
      moreover have "length A = 64" using lt by (simp add: A_def)
      ultimately show ?thesis unfolding e by (simp add: chunks_append chunks_one)
    qed
    then show "bytes_of (chaining out) = foldl groestl_compress h (chunks 64 ((t @ [m]) @ replicate z 0 @ be_bytes 8 (of_nat K :: u64)))"
      "length (chaining out) = 16" by auto
  qed
  have "groestl junk data d = drop 32 (xor_bytes (bytes_of (chaining out)) (groestl_perm_P (bytes_of (chaining out))))"
    using output_bytes [OF R(2)] by (simp add: groestl_def Final_parts u_def [symmetric] v_def [symmetric] out_def [symmetric])
  then show ?thesis using R(1) blocks by (simp add: groestl_spec_def h_def Let_def)
qed

text \<open>
  From \<open>2^31\<close> bytes on the length is negative for as many bytes again: nothing of the message is absorbed, and the
  digest is that of the empty message.
\<close>
lemma groestl_long_message:
  assumes "length (groestl_buffer junk) = 64" "d mod 8 = 0" "sint (of_nat (d div 8) :: 32 word) < 0"
  shows "groestl junk data d = groestl_spec [] 0"
proof -
  define n where "n = sint (of_nat (d div 8) :: 32 word)"
  have T: "groestl_Transform c bs n = c" for c bs using assms(3) by (subst groestl_Transform.simps) (simp add: n_def)
  have "n \<le> n sdiv 64 * 64" "n sdiv 64 \<le> 0"
    using assms(3) by (auto simp: n_def signed_divide_int_def sgn_if)
  then have "take (nat (n - n sdiv 64 * 64)) (drop (nat (n sdiv 64 * 64)) bs) = []" for bs :: "byte list" by simp
  then have "groestl_bulk c bs n 0 = groestl_store [] c" for c bs by (simp only: groestl_bulk_def Let_def T) simp
  moreover have "groestl_bulk c [] 0 0 = groestl_store [] c" for c
    by (simp add: groestl_bulk_def Let_def groestl_Transform.simps [of c "[]" 0])
  ultimately have "groestl_Update (groestl_Init junk) data d = groestl_Update (groestl_Init junk) [] 0"
    using groestl_Init_digested(2) [OF assms(1)] assms(2) by (simp add: groestl_Update_def n_def [symmetric])
  then have "groestl junk data d = groestl junk [] 0" by (simp add: groestl_def)
  also have "\<dots> = groestl_spec [] 0" using groestl_spec_eq [of junk 0 "[]"] assms(1) by simp
  finally show ?thesis .
qed

text \<open>C3: for every message of less than 2^31 whole bytes, with or without a partial last byte, and whatever the stack
  holds, groestl is Groestl-256 of the specification: rounds on a matrix of bytes with the S-box of AES, the
  compression of every block of the message padded with the number of its blocks, and the truncated output
  transformation. So the buffered update, the table of the code and its words lose nothing. The bound is that of the
  int that holds the number of bytes: beyond it the length is cut, see groestl_long_message.\<close>
theorem groestl_is_spec:
  assumes "length (groestl_buffer junk) = 64" and "d div 8 + (if d mod 8 = 0 then 0 else 1) \<le> length data"
    and "d div 8 < 2 ^ 31"
  shows "groestl junk data d = groestl_spec data d"
  by (rule groestl_spec_eq [OF assms])

theorem groestl_is_spec_witness:
  "groestl \<lparr>chaining = [], block_counter1 = 7, block_counter2 = 8, groestl_buffer = replicate 64 9, groestl_buf_ptr = 5,
     bits_in_last_byte = 3\<rparr> [1, 2, 3] 19 = groestl_spec [1, 2, 3] 19"
  using groestl_is_spec [of "\<lparr>chaining = [], block_counter1 = 7, block_counter2 = 8, groestl_buffer = replicate 64 9,
     groestl_buf_ptr = 5, bits_in_last_byte = 3\<rparr>" 19 "[1, 2, 3]"] by simp

lemma groestl_spec_take: "groestl_spec (take n data) (8 * n) = groestl_spec data (8 * n)"
  by (simp add: groestl_spec_def groestl_pad_def groestl_marked_def)

end
