(* ===== verification/Jh_Correct.thy ===== *)
theory Jh_Correct
  imports Jh
begin

text \<open>
  JH: the bit-sliced substitution and linear layer act on every pair of nibbles as the S-boxes that the
  round constant selects and the code over the field of 16 elements, and the buffered calls compress
  the blocks of the padded message.
\<close>

section \<open>The substitution and the linear layer\<close>

text \<open>The two S-boxes, the most significant bit of a nibble first; one bit of the round constant selects.\<close>

definition jh_S0 :: "nat list" where "jh_S0 = [9, 0, 4, 11, 13, 12, 3, 15, 1, 10, 2, 6, 7, 5, 8, 14]"
definition jh_S1 :: "nat list" where "jh_S1 = [3, 12, 6, 13, 5, 7, 1, 9, 15, 2, 0, 4, 11, 10, 14, 8]"

definition nibble :: "u64 \<Rightarrow> u64 \<Rightarrow> u64 \<Rightarrow> u64 \<Rightarrow> nat \<Rightarrow> nat" where
  "nibble a b c d n =
    8 * of_bool (bit a n) + 4 * of_bool (bit b n) + 2 * of_bool (bit c n) + of_bool (bit d n)"

fun jh_even :: "jh_words \<Rightarrow> nat \<Rightarrow> nat" where
  "jh_even (m0, m1, m2, m3, m4, m5, m6, m7) n = nibble m0 m1 m2 m3 n"

fun jh_odd :: "jh_words \<Rightarrow> nat \<Rightarrow> nat" where
  "jh_odd (m0, m1, m2, m3, m4, m5, m6, m7) n = nibble m4 m5 m6 m7 n"

lemma nibble_SS:
  assumes "n < 64"
  shows "jh_even (jh_SS c0 c1 m) n = (if bit c0 n then jh_S1 else jh_S0) ! jh_even m n"
    and "jh_odd (jh_SS c0 c1 m) n = (if bit c1 n then jh_S1 else jh_S0) ! jh_odd m n"
proof -
  obtain m0 m1 m2 m3 m4 m5 m6 m7 where m: "m = (m0, m1, m2, m3, m4, m5, m6, m7)" by (metis prod.collapse)
  show "jh_even (jh_SS c0 c1 m) n = (if bit c0 n then jh_S1 else jh_S0) ! jh_even m n"
    unfolding m
    by (cases "bit m0 n"; cases "bit m1 n"; cases "bit m2 n"; cases "bit m3 n"; cases "bit c0 n")
      (simp_all add: jh_SS_def Let_def nibble_def bit_simps assms jh_S0_def jh_S1_def)
  show "jh_odd (jh_SS c0 c1 m) n = (if bit c1 n then jh_S1 else jh_S0) ! jh_odd m n"
    unfolding m
    by (cases "bit m4 n"; cases "bit m5 n"; cases "bit m6 n"; cases "bit m7 n"; cases "bit c1 n")
      (simp_all add: jh_SS_def Let_def nibble_def bit_simps assms jh_S0_def jh_S1_def)
qed

text \<open>The code of the linear layer: multiplication by 2 in the field of 16 elements.\<close>

definition gf16_double :: "nat \<Rightarrow> nat" where
  "gf16_double a = (if a < 8 then 2 * a else (2 * a) XOR 19)"

definition jh_mds :: "nat \<times> nat \<Rightarrow> nat \<times> nat" where
  "jh_mds = (\<lambda>(a, b). let b' = b XOR gf16_double a in (a XOR gf16_double b', b'))"

lemma nibble_L:
  assumes "n < 64"
  shows "(jh_even (jh_L m) n, jh_odd (jh_L m) n) = jh_mds (jh_even m n, jh_odd m n)"
proof -
  obtain m0 m1 m2 m3 m4 m5 m6 m7 where m: "m = (m0, m1, m2, m3, m4, m5, m6, m7)" by (metis prod.collapse)
  have a: "(a, b) = jh_mds (c, d) \<longleftrightarrow> b = (d XOR gf16_double c) \<and> a = (c XOR gf16_double b)" for a b c d
    by (auto simp: jh_mds_def Let_def)
  show ?thesis
    unfolding m a
    by (cases "bit m0 n"; cases "bit m1 n"; cases "bit m2 n"; cases "bit m3 n";
        cases "bit m4 n"; cases "bit m5 n"; cases "bit m6 n"; cases "bit m7 n")
      (simp_all add: jh_L_def Let_def nibble_def bit_simps assms gf16_double_def flip: numeral_2_eq_2 numeral_3_eq_3)
qed

section \<open>The hash function\<close>

text \<open>The compression of a block into the state of 16 words.\<close>

definition jh_compress :: "u64 list \<Rightarrow> byte list \<Rightarrow> u64 list" where
  "jh_compress h m =
    (let w = jh_words_of m
     in map2 (XOR) (E8 (map2 (XOR) h (w @ replicate 8 0))) (replicate 8 0 @ w))"

text \<open>
  The padding: a one bit, zeros up to a whole block that has room for them or, when the message ends with a
  block, the length in the same block as the one bit, else in a block of its own. The part of the last
  byte that is not of the message holds zeros.
\<close>

definition jh_pad :: "byte list \<Rightarrow> nat \<Rightarrow> byte list" where
  "jh_pad data d =
    (let n = d div 8; len = be_bytes 8 (of_nat d :: u64)
     in take n data @
        (if d mod 512 = 0 then 0x80 # replicate 55 0 @ len
         else ((if d mod 8 = 0 then 0 else data ! n) OR push_bit (7 - d mod 8) 1) #
              replicate (63 - n mod 64) 0 @ replicate 56 0 @ len))"

definition jh_iv :: "nat \<Rightarrow> byte list" where
  "jh_iv bits = (if bits = 224 then JH224_H0 else if bits = 256 then JH256_H0
                 else if bits = 384 then JH384_H0 else JH512_H0)"

definition jh_spec :: "nat \<Rightarrow> byte list \<Rightarrow> nat \<Rightarrow> byte list" where
  "jh_spec bits data d =
    (let h = foldl jh_compress (jh_words_of (jh_iv bits)) (chunks 64 (jh_pad data d))
     in drop (128 - bits div 8) (concat (map (le_bytes 8) h)))"

lemma length_jh_column [simp]: "length (jh_column swap r i x) = length x"
  by (simp add: jh_column_def Let_def split_beta)

lemma length_jh_exchange [simp]: "length (jh_exchange x) = length x"
  by (simp add: jh_exchange_def)

lemma length_jh_round [simp]: "length (jh_round swap r x) = length x"
  by (simp add: jh_round_def)

lemma length_jh_seven [simp]: "length (jh_seven n x) = length x"
  by (simp add: jh_seven_def Let_def)

lemma length_E8 [simp]: "length (E8 x) = length x"
  by (simp add: E8_def)

lemma length_jh_words_of [simp]: "length (jh_words_of bs) = length bs div 8"
  by (simp add: jh_words_of_def)

lemma length_jh_compress [simp]: "length h = 16 \<Longrightarrow> length m = 64 \<Longrightarrow> length (jh_compress h m) = 16"
  by (simp add: jh_compress_def Let_def)

lemma list_8_ex: "length w = 8 \<longleftrightarrow> (\<exists>a b c d e f g h. w = [a, b, c, d, e, f, g, h])"
  by (auto simp: numeral_eq_Suc length_Suc_conv)

lemma list_16_ex: "length x = 16 \<longleftrightarrow> (\<exists>a b c d e f g h i j k l m n p q. x = [a, b, c, d, e, f, g, h, i, j, k, l, m, n, p, q])"
  by (auto simp: numeral_eq_Suc length_Suc_conv)

lemma xor_halves:
  assumes "length (x :: u64 list) = 16" "length w = 8"
  shows "fold (\<lambda>i. xor_at i (w ! i)) [0..<8] x = map2 (XOR) x (w @ replicate 8 0)"
    and "fold (\<lambda>i. xor_at (8 + i) (w ! i)) [0..<8] x = map2 (XOR) x (replicate 8 0 @ w)"
proof -
  have eight: "replicate 8 (0 :: u64) = [0, 0, 0, 0, 0, 0, 0, 0]" by (simp add: numeral_eq_Suc)
  show "fold (\<lambda>i. xor_at i (w ! i)) [0..<8] x = map2 (XOR) x (w @ replicate 8 0)"
    "fold (\<lambda>i. xor_at (8 + i) (w ! i)) [0..<8] x = map2 (XOR) x (replicate 8 0 @ w)"
    using assms by (auto simp: list_8_ex list_16_ex upt_rec xor_at_def eight)
qed

lemma F8_compress:
  assumes "length (jh_x S) = 16" "length (jh_buffer S) = 64"
  shows "F8 S = S\<lparr>jh_x := jh_compress (jh_x S) (jh_buffer S)\<rparr>"
  using assms xor_halves [of _ "jh_words_of (jh_buffer S)"] by (simp add: F8_def jh_compress_def Let_def)

lemma memcpy_block: "64 \<le> length data \<Longrightarrow> length (jh_buffer S) = 64 \<Longrightarrow>
    jh_memcpy 0 data 64 S = S\<lparr>jh_buffer := take 64 data\<rparr>"
  by (simp add: jh_memcpy_def)

lemma jh_blocks_chunks:
  assumes "length (jh_x S) = 16" "length (jh_buffer S) = 64" "64 * (d div 512) \<le> length data"
  shows "\<exists>b. length b = 64 \<and> jh_blocks S data d =
    (S\<lparr>jh_x := foldl jh_compress (jh_x S) (chunks 64 (take (64 * (d div 512)) data)), jh_buffer := b\<rparr>,
     drop (64 * (d div 512)) data, d mod 512)"
  using assms
proof (induction S data d rule: jh_blocks.induct)
  case (1 S data d)
  show ?case
  proof (cases "512 \<le> d")
    case True
    then have q: "d div 512 = Suc ((d - 512) div 512)" "d mod 512 = (d - 512) mod 512"
      by (simp_all add: le_div_geq le_mod_geq)
    define S1 where "S1 = F8 (jh_memcpy 0 data 64 S)"
    have S1: "S1 = S\<lparr>jh_x := jh_compress (jh_x S) (take 64 data), jh_buffer := take 64 data\<rparr>"
      using 1 q(1) by (simp add: S1_def memcpy_block F8_compress)
    have c: "chunks 64 (take (64 * Suc k) data) = take 64 data # chunks 64 (take (64 * k) (drop 64 data))"
      if "64 * Suc k \<le> length data" for k using that by (simp add: chunks_step min_def drop_take)
    have "\<exists>b. length b = 64 \<and> jh_blocks S1 (drop 64 data) (d - 512) =
      (S1\<lparr>jh_x := foldl jh_compress (jh_x S1) (chunks 64 (take (64 * ((d - 512) div 512)) (drop 64 data))), jh_buffer := b\<rparr>,
       drop (64 * ((d - 512) div 512)) (drop 64 data), (d - 512) mod 512)"
      unfolding S1_def using 1(2-4) q(1) True
      by (intro 1(1)) (simp_all add: S1_def [symmetric] S1)
    then show ?thesis
      using True 1(4) q c [of "(d - 512) div 512"] by (subst jh_blocks.simps) (auto simp: S1_def [symmetric] S1 add.commute)
  next
    case False
    then show ?thesis using 1
      by (subst jh_blocks.simps) (auto simp: chunks_short intro!: exI [of _ "jh_buffer S"])
  qed
qed

lemma length_jh_iv [simp]: "length (jh_iv bits) = 128"
  by (simp add: jh_iv_def JH224_H0_def JH256_H0_def JH384_H0_def JH512_H0_def)

lemma Init_iv: "bits = 224 \<or> bits = 256 \<or> bits = 384 \<or> bits = 512 \<Longrightarrow>
    jh_Init S bits = S\<lparr>jh_databitlen := 0, datasize_in_buffer := 0, jh_hashbitlen := bits, jh_x := jh_words_of (jh_iv bits)\<rparr>"
  by (auto simp: jh_Init_def jh_iv_def)


definition jh_rest_block :: "byte list \<Rightarrow> nat \<Rightarrow> byte list" where
  "jh_rest_block data d =
    (let n = d div 8; t = drop (n div 64 * 64) (take n data)
     in t @ ((if d mod 8 = 0 then 0 else data ! n) OR push_bit (7 - d mod 8) 1) # replicate (63 - n mod 64) 0)"

lemma jh_rest_bits: "unat ((of_nat d :: u64) AND 0x1ff) = d mod 512" "unat ((of_nat d :: u64) AND 7) = d mod 8"
proof -
  have m: "(0x1ff :: u64) = mask 9" "(7 :: u64) = mask 3" by (simp_all add: mask_eq_exp_minus_1)
  have "unat ((of_nat d :: u64) AND mask k) = d mod 2 ^ k" if "k \<le> 64" for k
  proof -
    have "unat (take_bit k (of_nat d :: u64)) = take_bit k (take_bit 64 d)"
      by (simp add: unsigned_take_bit_eq unsigned_of_nat)
    also have "\<dots> = take_bit k d" using that by (simp only: take_bit_take_bit min_absorb1)
    finally show ?thesis by (simp only: take_bit_eq_mask [symmetric] take_bit_eq_mod [of k d])
  qed
  from this [of 9] this [of 3] show "unat ((of_nat d :: u64) AND 0x1ff) = d mod 512" "unat ((of_nat d :: u64) AND 7) = d mod 8"
    by (simp_all only: m) simp_all
qed

lemma jh_length_F8:
  assumes "length (jh_x S) = 16"
  shows "jh_x (F8 (jh_length_block b S)) = jh_compress (jh_x S) (b # replicate 55 0 @ be_bytes 8 (jh_databitlen S))"
    "jh_hashbitlen (F8 (jh_length_block b S)) = jh_hashbitlen S"
  using assms F8_compress [of "jh_length_block b S"] by (simp_all add: jh_length_block_def)

text \<open>The end of the message, and the output.\<close>

definition jh_close :: "jh_state \<Rightarrow> jh_state" where
  "jh_close S =
    (let rest = unat (jh_databitlen S AND 0x1ff)
     in if rest = 0 then F8 (jh_length_block 0x80 S)
        else let i = rest div 8 + (if datasize_in_buffer S mod 8 = 0 then 0 else 1);
                 b = take i (jh_buffer S) @ replicate (64 - i) 0;
                 b = b[rest div 8 := b ! (rest div 8) OR push_bit (7 - unat (jh_databitlen S AND 7)) 1]
             in F8 (jh_length_block 0 (F8 (S\<lparr>jh_buffer := b\<rparr>))))"

lemma Final_close: "jh_Final S =
  (let h = concat (map (le_bytes 8) (jh_x (jh_close S))); bits = jh_hashbitlen (jh_close S)
   in if bits = 224 then take 28 (drop (64 + 36) h)
      else if bits = 256 then take 32 (drop (64 + 32) h)
      else if bits = 384 then take 48 (drop (64 + 16) h)
      else if bits = 512 then take 64 (drop 64 h) else [])"
  unfolding jh_Final_def jh_close_def Let_def by (rule refl)

lemma jh_offsets:
  assumes "(d :: nat) = 512 * q + 8 * r + m" "r < 64" "m < 8"
  shows "d mod 512 = 8 * r + m" "d mod 8 = m" "d div 8 = 64 * q + r" "d div 8 mod 64 = r" "d div 8 div 64 = q" "d div 512 = q"
    "(8 * r + m) div 8 = r" "(8 * r + m) mod 8 = m"
proof -
  have "d = m + (64 * q + r) * 8" using assms(1) by simp
  then have "d mod 8 = m mod 8" by (simp only: mod_mult_self1)
  then show 8: "d mod 8 = m" "(8 * r + m) div 8 = r" "(8 * r + m) mod 8 = m" using assms(3) by simp_all
  show n: "d div 8 = 64 * q + r" using assms by simp
  show q: "d div 8 mod 64 = r" "d div 8 div 64 = q" using assms(2) by (simp_all add: n)
  have "d mod (8 * 64) = 8 * (d div 8 mod 64) + d mod 8" "d div (8 * 64) = d div 8 div 64"
    by (rule mod_mult2_eq, rule div_mult2_eq)
  then show "d mod 512 = 8 * r + m" "d div 512 = q" unfolding q 8 by simp_all
qed

lemma rest_block_length:
  assumes "d = 512 * q + 8 * r + m" "r < 64" "m < 8" "64 * q + r \<le> length data"
  shows "jh_rest_block data d = take r (drop (64 * q) data) @
      ((if m = 0 then 0 else data ! (64 * q + r)) OR push_bit (7 - m) 1) # replicate (63 - r) 0"
    "length (jh_rest_block data d) = 64"
proof -
  note o = jh_offsets [OF assms(1-3)]
  have t: "drop (q * 64) (take (64 * q + r) data) = take r (drop (64 * q) data)" by (simp add: drop_take mult.commute)
  show "jh_rest_block data d = take r (drop (64 * q) data) @
      ((if m = 0 then 0 else data ! (64 * q + r)) OR push_bit (7 - m) 1) # replicate (63 - r) 0"
    unfolding jh_rest_block_def Let_def o(2) o(4) o(5) unfolding o(3) t by (rule refl)
  then show "length (jh_rest_block data d) = 64" using assms(2,4) by simp
qed

lemma jh_fill_mark:
  assumes "r < 64" "length buf = 64" "take (r + e) buf = t @ (if e = 0 then [] else [c])" "length t = r" "e = 0 \<or> e = 1"
  shows "(let b = take (r + e) buf @ replicate (64 - (r + e)) 0 in b[r := b ! r OR x]) =
    t @ ((if e = 0 then 0 else c) OR x) # replicate (63 - r) (0 :: byte)"
proof -
  have z: "replicate (64 - r) (0 :: byte) = 0 # replicate (63 - r) 0"
    using assms(1) by (simp flip: replicate_Suc add: Suc_diff_Suc)
  have "take (r + e) buf @ replicate (64 - (r + e)) 0 = t @ (if e = 0 then 0 else c) # replicate (63 - r) 0"
    using assms(5)
  proof
    assume "e = 0"
    then show ?thesis using assms(3) z by simp
  next
    assume "e = 1"
    then show ?thesis using assms(3) by simp
  qed
  then show ?thesis using assms(4) by (simp add: nth_append list_update_append Let_def)
qed

lemma close_block:
  assumes S: "length (jh_x S) = 16" "length (jh_buffer S) = 64" "jh_databitlen S = of_nat d" "datasize_in_buffer S = 8 * r + m"
    and d: "d = 512 * q + 8 * r + m" "r < 64" "m < 8" "8 * r + m \<noteq> 0"
    and n: "64 * q + r \<le> length data"
    and buf: "take (r + (if m = 0 then 0 else 1)) (jh_buffer S) =
      take r (drop (64 * q) data) @ (if m = 0 then [] else [data ! (64 * q + r)])"
  shows "jh_x (jh_close S) = jh_compress (jh_compress (jh_x S) (jh_rest_block data d)) (replicate 56 0 @ be_bytes 8 (of_nat d :: u64))"
    "jh_hashbitlen (jh_close S) = jh_hashbitlen S"
proof -
  define e :: nat where "e = (if m = 0 then 0 else 1)"
  define b where "b = jh_rest_block data d"
  note o = jh_offsets [OF d(1-3)]
  note R = rest_block_length [OF d(1-3) n]
  have "(let b = take (r + e) (jh_buffer S) @ replicate (64 - (r + e)) 0 in b[r := b ! r OR push_bit (7 - m) 1]) = b"
    using jh_fill_mark [OF d(2) S(2), of e "take r (drop (64 * q) data)" "data ! (64 * q + r)" "push_bit (7 - m) 1"] buf n R(1)
    by (simp add: e_def b_def split: if_splits)
  then have "jh_close S = F8 (jh_length_block 0 (F8 (S\<lparr>jh_buffer := b\<rparr>)))"
    using d(4) by (simp only: jh_close_def S(3,4) jh_rest_bits o(1,2,7,8) e_def Let_def if_False)
  moreover have "F8 (S\<lparr>jh_buffer := b\<rparr>) = S\<lparr>jh_buffer := b, jh_x := jh_compress (jh_x S) b\<rparr>"
    using F8_compress [of "S\<lparr>jh_buffer := b\<rparr>"] S R(2) by (simp add: b_def)
  moreover have "length (jh_compress (jh_x S) b) = 16" using S R(2) by (simp add: b_def)
  moreover have "replicate 56 (0 :: byte) = 0 # replicate 55 0" by (simp add: numeral_eq_Suc)
  ultimately show "jh_x (jh_close S) = jh_compress (jh_compress (jh_x S) b) (replicate 56 0 @ be_bytes 8 (of_nat d :: u64))"
    "jh_hashbitlen (jh_close S) = jh_hashbitlen S"
    using jh_length_F8 [of "S\<lparr>jh_buffer := b, jh_x := jh_compress (jh_x S) b\<rparr>" 0] S(3) by simp_all
qed

lemma length_chain: "length (foldl jh_compress (jh_words_of (jh_iv bits)) (chunks 64 data)) = 16"
proof -
  have "length x = 16 \<Longrightarrow> \<forall>b \<in> set bs. length b = 64 \<Longrightarrow> length (foldl jh_compress x bs) = 16" for x bs
    by (induction bs arbitrary: x) simp_all
  moreover have "\<forall>b \<in> set (chunks 64 data). length b = 64" using chunks_length_all by blast
  ultimately show ?thesis by simp
qed

lemma length_state: "length (concat (map (le_bytes 8) h)) = 8 * length h"
  by (induction h) simp_all

lemma jh_spec_eq:
  assumes J: "length (jh_buffer junk) = 64" and n: "d div 8 + (if d mod 8 = 0 then 0 else 1) \<le> length data"
  shows "jh_hash junk bits data d =
    (if bits = 224 \<or> bits = 256 \<or> bits = 384 \<or> bits = 512 then Some (jh_spec bits data d) else None)"
proof (cases "bits = 224 \<or> bits = 256 \<or> bits = 384 \<or> bits = 512")
  case True
  define q r m where "q = d div 512" and "r = d mod 512 div 8" and "m = d mod 512 mod 8"
  have d: "d = 512 * q + 8 * r + m" "r < 64" "m < 8"
    using mult_div_mod_eq [of 512 d] mult_div_mod_eq [of 8 "d mod 512"] by (simp_all add: q_def r_def m_def)
  note o = jh_offsets [OF d]
  have len: "64 * q + r + (if m = 0 then 0 else 1) \<le> length data" using n by (simp add: o)
  define h where "h = foldl jh_compress (jh_words_of (jh_iv bits)) (chunks 64 (take (64 * q) data))"
  have lh: "length h = 16" unfolding h_def by (rule length_chain)
  define S where "S = junk\<lparr>jh_databitlen := of_nat d, datasize_in_buffer := 0, jh_hashbitlen := bits, jh_x := jh_words_of (jh_iv bits)\<rparr>"
  obtain b where b: "length b = 64" "jh_blocks S data d = (S\<lparr>jh_x := h, jh_buffer := b\<rparr>, drop (64 * q) data, 8 * r + m)"
    using jh_blocks_chunks [of S d data] J len o by (auto simp: S_def h_def)
  define U where "U = (if 8 * r + m > 0 then (jh_memcpy 0 (drop (64 * q) data) (r + (if m = 0 then 0 else 1)) (S\<lparr>jh_x := h, jh_buffer := b\<rparr>))
      \<lparr>datasize_in_buffer := 8 * r + m\<rparr> else S\<lparr>jh_x := h, jh_buffer := b\<rparr>)"
  have I: "(jh_Init junk bits)\<lparr>jh_databitlen := jh_databitlen (jh_Init junk bits) + of_nat d\<rparr> = S" "datasize_in_buffer S = 0"
    using True by (simp_all add: Init_iv S_def)
  have "jh_Update (jh_Init junk bits) data d = Some U"
  proof -
    have l: "(8 * r + m) mod 512 = 8 * r + m" using d(2,3) by simp
    show ?thesis unfolding jh_Update_def Let_def I(1) by (simp add: b(2) I(2) U_def o(7,8) l d(3))
  qed
  moreover have "jh_x (jh_close U) = foldl jh_compress (jh_words_of (jh_iv bits)) (chunks 64 (jh_pad data d)) \<and>
      jh_hashbitlen (jh_close U) = bits"
  proof (cases "8 * r + m = 0")
    case True
    then have U: "U = S\<lparr>jh_x := h, jh_buffer := b\<rparr>" by (simp add: U_def)
    have "jh_close U = F8 (jh_length_block 0x80 U)"
      unfolding jh_close_def Let_def by (simp add: U S_def jh_rest_bits o(1) True [simplified])
    moreover have "jh_pad data d = take (64 * q) data @ (0x80 # replicate 55 0 @ be_bytes 8 (of_nat d :: u64))"
      using True unfolding jh_pad_def Let_def o(1) o(3) by simp
    moreover have "length (take (64 * q) data) = 64 * q" using len by simp
    ultimately show ?thesis
      using jh_length_F8 [where S = U and b = "0x80"] lh by (simp add: U S_def h_def chunks_append chunks_one)
  next
    case False
    define e :: nat where "e = (if m = 0 then 0 else 1)"
    define U' where "U' = jh_memcpy 0 (drop (64 * q) data) (r + e) (S\<lparr>jh_x := h, jh_buffer := b\<rparr>)"
    have U: "U = U'\<lparr>datasize_in_buffer := 8 * r + m\<rparr>" using False by (simp add: U_def U'_def e_def)
    have buf: "take (r + e) (jh_buffer U') = take r (drop (64 * q) data) @ (if m = 0 then [] else [data ! (64 * q + r)])"
    proof -
      have "m \<noteq> 0 \<Longrightarrow> take (Suc r) (drop (64 * q) data) = take r (drop (64 * q) data) @ [drop (64 * q) data ! r]"
        using len by (intro take_Suc_conv_app_nth) simp
      then show ?thesis using len by (simp add: U'_def jh_memcpy_def e_def)
    qed
    have "length (jh_buffer U') = 64" using len b(1) d(2) by (simp add: U'_def jh_memcpy_def e_def)
    then have "jh_x (jh_close U) = jh_compress (jh_compress h (jh_rest_block data d)) (replicate 56 0 @ be_bytes 8 (of_nat d :: u64))"
      "jh_hashbitlen (jh_close U) = jh_hashbitlen U"
      using close_block [where S = U and d = d and r = r and m = m and q = q and data = data] d False len buf lh by (simp_all add: U U'_def jh_memcpy_def S_def e_def)
    moreover have "jh_pad data d = take (64 * q) data @ jh_rest_block data d @ (replicate 56 0 @ be_bytes 8 (of_nat d :: u64))"
    proof -
      have "take (64 * q + r) data = take (64 * q) data @ take r (drop (64 * q) data)" by (rule take_add)
      then show ?thesis using False rest_block_length(1) [OF d, where data = data] len
        unfolding jh_pad_def Let_def o(1-3) by (auto simp: d(2))
    qed
    moreover have "length (jh_rest_block data d) = 64" using rest_block_length(2) [OF d, where data = data] len by simp
    moreover have "length (take (64 * q) data) = 64 * q" using len by simp
    ultimately show ?thesis
      by (simp add: h_def chunks_append chunks_one U U'_def jh_memcpy_def S_def)
  qed
  ultimately show ?thesis
    using True by (auto simp: jh_hash_def Final_close jh_spec_def Let_def length_state length_chain)
next
  case False
  then show ?thesis by (simp add: jh_hash_def)
qed

text \<open>C16: for the four digest sizes, every message of whole or partial bytes and whatever the stack holds, jh_hash
  succeeds with the digest of the specification: the blocks of the message padded with a one bit, zeros and its
  length, compressed one by one into the initial value of the size, and the last bytes of the state. Any other
  size is refused.\<close>
theorem jh_hash_is_spec:
  assumes J: "length (jh_buffer junk) = 64" and n: "d div 8 + (if d mod 8 = 0 then 0 else 1) \<le> length data"
  shows "jh_hash junk bits data d =
    (if bits = 224 \<or> bits = 256 \<or> bits = 384 \<or> bits = 512 then Some (jh_spec bits data d) else None)"
  by (rule jh_spec_eq [OF assms])

theorem jh_hash_is_spec_witness:
  "jh_hash \<lparr>jh_hashbitlen = 1, jh_databitlen = 2, datasize_in_buffer = 3, jh_x = [], jh_buffer = replicate 64 9\<rparr> 256 [1, 2, 0xF0] 20 =
    Some (jh_spec 256 [1, 2, 0xF0] 20)"
  using jh_hash_is_spec [of "\<lparr>jh_hashbitlen = 1, jh_databitlen = 2, datasize_in_buffer = 3, jh_x = [], jh_buffer = replicate 64 9\<rparr>"
     20 "[1, 2, 0xF0]" 256] by simp

lemma jh_spec_take: "jh_spec bits (take n data) (8 * n) = jh_spec bits data (8 * n)"
  by (simp add: jh_spec_def jh_pad_def)

end
