(* ===== verification/Skein_Correct.thy ===== *)
theory Skein_Correct
  imports Skein
begin

text \<open>
  Skein-512 against its specification: the unrolled rounds are Threefish-512 with its word
  permutation, the precomputed initial value is the one the configuration block gives, and the
  buffered calls chain the blocks of the whole message.
\<close>

section \<open>Threefish-512\<close>

definition threefish_pi :: "nat list" where "threefish_pi = [2, 1, 4, 7, 6, 5, 0, 3]"

definition threefish_permute :: "u64 list \<Rightarrow> u64 list" where
  "threefish_permute X = map (\<lambda>i. X ! i) threefish_pi"

definition threefish_rot :: "(nat \<times> nat \<times> nat \<times> nat) list" where
  "threefish_rot =
    [(46, 36, 19, 37), (33, 27, 14, 42), (17, 49, 36, 39), (44, 9, 54, 56),
     (39, 30, 34, 24), (13, 50, 10, 17), (25, 29, 39, 43), (8, 35, 56, 22)]"

fun threefish_mix :: "nat \<Rightarrow> u64 \<Rightarrow> u64 \<Rightarrow> u64 list" where
  "threefish_mix r x y = [x + y, word_rotl r y XOR (x + y)]"

definition threefish_mixes :: "nat \<times> nat \<times> nat \<times> nat \<Rightarrow> u64 list \<Rightarrow> u64 list" where
  "threefish_mixes R X =
    (let (r0, r1, r2, r3) = R
     in threefish_mix r0 (X ! 0) (X ! 1) @ threefish_mix r1 (X ! 2) (X ! 3) @
        threefish_mix r2 (X ! 4) (X ! 5) @ threefish_mix r3 (X ! 6) (X ! 7))"

text \<open>The subkeys from the key extended by its parity and the tweak extended by its sum.\<close>

definition threefish_subkey :: "u64 list \<Rightarrow> u64 \<Rightarrow> u64 \<Rightarrow> nat \<Rightarrow> u64 list" where
  "threefish_subkey K t0 t1 s =
    (let k = K @ [fold (XOR) K SKEIN_KS_PARITY]; t = [t0, t1, t0 XOR t1]
     in map (\<lambda>i. k ! ((s + i) mod 9) +
            (if i = 5 then t ! (s mod 3) else if i = 6 then t ! ((s + 1) mod 3) else if i = 7 then of_nat s else 0))
          [0..<8])"

definition add_words :: "u64 list \<Rightarrow> u64 list \<Rightarrow> u64 list" where
  "add_words X Y = map2 (+) X Y"

definition threefish_round :: "u64 list \<Rightarrow> u64 \<Rightarrow> u64 \<Rightarrow> nat \<Rightarrow> u64 list \<Rightarrow> u64 list" where
  "threefish_round K t0 t1 d X =
    (let X = (if d mod 4 = 0 then add_words X (threefish_subkey K t0 t1 (d div 4)) else X)
     in threefish_permute (threefish_mixes (threefish_rot ! (d mod 8)) X))"

definition threefish_512 :: "u64 list \<Rightarrow> u64 \<Rightarrow> u64 \<Rightarrow> u64 list \<Rightarrow> u64 list" where
  "threefish_512 K t0 t1 X =
    add_words (fold (threefish_round K t0 t1) [0..<72] X) (threefish_subkey K t0 t1 18)"

section \<open>The rounds of the code\<close>

lemma list8: "length X = 8 \<longleftrightarrow> (\<exists>a b c d e f g h. X = [a, b, c, d, e, f, g, h])"
  by (auto simp: numeral_eq_Suc length_Suc_conv)

abbreviation tf_perm where "tf_perm \<equiv> threefish_permute"

lemma permute_4: "length X = 8 \<Longrightarrow> tf_perm (tf_perm (tf_perm (tf_perm X))) = X"
  by (auto simp: list8 threefish_permute_def threefish_pi_def)

lemma length_permute [simp]: "length (tf_perm X) = 8"
  by (simp add: threefish_permute_def threefish_pi_def)

lemma length_mixes [simp]: "length (threefish_mixes R X) = 8"
  by (cases R) (simp add: threefish_mixes_def)

definition proper_rot :: "nat \<times> nat \<times> nat \<times> nat \<Rightarrow> bool" where
  "proper_rot R = (case R of (a, b, c, d) \<Rightarrow> 0 < a \<and> a < 64 \<and> 0 < b \<and> b < 64 \<and> 0 < c \<and> c < 64 \<and> 0 < d \<and> d < 64)"

lemma skein_mix_update:
  assumes "p \<noteq> q" "p < length X" "q < length X"
  shows "skein_mix p q r X = X[p := X ! p + X ! q, q := rotl64 (X ! q) r XOR (X ! p + X ! q)]"
  using assms by (simp add: skein_mix_def Let_def)

lemma length_skein_mix [simp]: "length (skein_mix p q r X) = length X"
  by (simp add: skein_mix_def Let_def)

lemma Round512_mixes:
  assumes "length X = 8" "proper_rot R"
  shows "Round512 0 1 2 3 4 5 6 7 R X = threefish_mixes R X"
    and "tf_perm (Round512 2 1 4 7 6 5 0 3 R X) = threefish_mixes R (tf_perm X)"
    and "tf_perm (tf_perm (Round512 4 1 6 3 0 5 2 7 R X)) = threefish_mixes R (tf_perm (tf_perm X))"
    and "tf_perm (tf_perm (tf_perm (Round512 6 1 0 7 2 5 4 3 R X))) = threefish_mixes R (tf_perm (tf_perm (tf_perm X)))"
  using assms
  by (cases R; auto simp: list8 Round512_def skein_mix_update threefish_mixes_def threefish_permute_def
      threefish_pi_def proper_rot_def rotl64_word_rotl)+

lemma length_Round512 [simp]: "length (Round512 a b c d e f g h R X) = length X"
  by (cases R) (simp add: Round512_def Let_def)

lemma four_rounds:
  assumes "length X = 8" "proper_rot R0" "proper_rot R1" "proper_rot R2" "proper_rot R3"
  shows "Round512 6 1 0 7 2 5 4 3 R3 (Round512 4 1 6 3 0 5 2 7 R2 (Round512 2 1 4 7 6 5 0 3 R1
      (Round512 0 1 2 3 4 5 6 7 R0 X))) =
    tf_perm (threefish_mixes R3 (tf_perm (threefish_mixes R2 (tf_perm (threefish_mixes R1 (tf_perm (threefish_mixes R0 X)))))))"
    (is "?r3 (?r2 (?r1 (?r0 X))) = _")
proof -
  have "?r3 (?r2 (?r1 (?r0 X))) = tf_perm (tf_perm (tf_perm (tf_perm (?r3 (?r2 (?r1 (?r0 X)))))))"
    by (rule permute_4 [symmetric]) (simp add: assms)
  then show ?thesis
    by (simp add: Round512_mixes Round512_mixes [unfolded One_nat_def] assms)
qed

lemma length_I512 [simp]: "length (I512 ks ts R X) = 8"
  by (simp add: I512_def)

lemma I512_subkey:
  assumes "length X = 8" "length K = 8"
  shows "I512 (K @ [fold (XOR) K SKEIN_KS_PARITY]) [t0, t1, t0 XOR t1] R X =
    add_words X (threefish_subkey K t0 t1 (Suc R))"
  using assms
  by (auto simp: list8 I512_def add_words_def threefish_subkey_def upt_rec Let_def add.commute)

lemma proper_rots: "proper_rot (46, 36, 19, 37)" "proper_rot (33, 27, 14, 42)" "proper_rot (17, 49, 36, 39)"
  "proper_rot (44, 9, 54, 56)" "proper_rot (39, 30, 34, 24)" "proper_rot (13, 50, 10, 17)"
  "proper_rot (25, 29, 39, 43)" "proper_rot (8, 35, 56, 22)"
  by (simp_all add: proper_rot_def)

lemma length_subkey [simp]: "length (threefish_subkey K t0 t1 s) = 8"
  by (simp add: threefish_subkey_def Let_def)

lemma length_add_words [simp]: "length (add_words X Y) = min (length X) (length Y)"
  by (simp add: add_words_def)

abbreviation parity_key where "parity_key K \<equiv> K @ [fold (XOR) K SKEIN_KS_PARITY]"

lemma eight_rounds:
  assumes X: "length X = 8" and K: "length K = 8"
  shows "R512_8_rounds (parity_key K) [t0, t1, t0 XOR t1] R (add_words X (threefish_subkey K t0 t1 (2 * R))) =
    add_words (fold (threefish_round K t0 t1) [8 * R..<8 * R + 8] X) (threefish_subkey K t0 t1 (2 * Suc R))"
proof -
  have e: "[8 * R..<8 * R + 8] = [8 * R, 8 * R + 1, 8 * R + 2, 8 * R + 3, 8 * R + 4, 8 * R + 5, 8 * R + 6, 8 * R + 7]"
    by (simp add: upt_rec)
  have d: "(8 * R + 4) div 4 = Suc (2 * R)" "8 * R div 4 = 2 * R" "(8 * R + 4) mod 4 = 0" "8 * R mod 4 = 0"
    "(8 * R + 1) mod 4 = 1" "(8 * R + 2) mod 4 = 2" "(8 * R + 3) mod 4 = 3" "(8 * R + 5) mod 4 = 1"
    "(8 * R + 6) mod 4 = 2" "(8 * R + 7) mod 4 = 3" "8 * R mod 8 = 0" "(8 * R + 1) mod 8 = 1"
    "(8 * R + 2) mod 8 = 2" "(8 * R + 3) mod 8 = 3" "(8 * R + 4) mod 8 = 4" "(8 * R + 5) mod 8 = 5"
    "(8 * R + 6) mod 8 = 6" "(8 * R + 7) mod 8 = 7"
    by presburger+
  have r: "threefish_round K t0 t1 (8 * R) X = tf_perm (threefish_mixes (46, 36, 19, 37) (add_words X (threefish_subkey K t0 t1 (2 * R))))"
    "threefish_round K t0 t1 (8 * R + 1) X = tf_perm (threefish_mixes (33, 27, 14, 42) X)"
    "threefish_round K t0 t1 (8 * R + 2) X = tf_perm (threefish_mixes (17, 49, 36, 39) X)"
    "threefish_round K t0 t1 (8 * R + 3) X = tf_perm (threefish_mixes (44, 9, 54, 56) X)"
    "threefish_round K t0 t1 (8 * R + 4) X = tf_perm (threefish_mixes (39, 30, 34, 24) (add_words X (threefish_subkey K t0 t1 (Suc (2 * R)))))"
    "threefish_round K t0 t1 (8 * R + 5) X = tf_perm (threefish_mixes (13, 50, 10, 17) X)"
    "threefish_round K t0 t1 (8 * R + 6) X = tf_perm (threefish_mixes (25, 29, 39, 43) X)"
    "threefish_round K t0 t1 (8 * R + 7) X = tf_perm (threefish_mixes (8, 35, 56, 22) X)" for X
    unfolding threefish_round_def d by (simp_all add: threefish_rot_def)
  have F: "fold f [8 * R..<8 * R + 8] X = f (8 * R + 7) (f (8 * R + 6) (f (8 * R + 5) (f (8 * R + 4)
      (f (8 * R + 3) (f (8 * R + 2) (f (8 * R + 1) (f (8 * R) X)))))))" for f :: "nat \<Rightarrow> u64 list \<Rightarrow> u64 list"
    by (simp only: e fold_simps id_apply o_apply fold_Cons fold_Nil)
  show ?thesis
    unfolding F r R512_8_rounds_def Let_def
    by (simp only: four_rounds I512_subkey length_permute length_add_words length_subkey proper_rots X K min.idem
        mult_Suc_right add_2_eq_Suc Suc_eq_plus1 [symmetric])
qed

lemma code_rounds:
  assumes X: "length X = 8" and K: "length K = 8"
  shows "fold (R512_8_rounds (parity_key K) [t0, t1, t0 XOR t1]) [0..<n] (add_words X (threefish_subkey K t0 t1 0)) =
    add_words (fold (threefish_round K t0 t1) [0..<8 * n] X) (threefish_subkey K t0 t1 (2 * n))"
proof (induction n)
  case (Suc n)
  have len: "length (fold (threefish_round K t0 t1) ds X) = 8" for ds
    using X by (induction ds arbitrary: X) (simp_all add: threefish_round_def Let_def)
  have "[0..<8 * Suc n] = [0..<8 * n] @ [8 * n..<8 * n + 8]"
    using upt_add_eq_append [of 0 "8 * n" 8] by (simp add: add.commute)
  then show ?case using Suc.IH len K by (simp add: eight_rounds)
qed simp

text \<open>The block function: Threefish in Matyas-Meyer-Oseas mode.\<close>

definition skein_compress :: "u64 list \<Rightarrow> u64 \<Rightarrow> u64 \<Rightarrow> byte list \<Rightarrow> u64 list" where
  "skein_compress G t0 t1 blk =
    (let w = Skein_Get64_LSB_First blk 8 in map2 (XOR) (threefish_512 G t0 t1 w) w)"

lemma length_Get64 [simp]: "length (Skein_Get64_LSB_First src n) = n"
  by (simp add: Skein_Get64_LSB_First_def)

lemma length_threefish: "length X = 8 \<Longrightarrow> length (threefish_512 G t0 t1 X) = 8"
proof -
  have "length X = 8 \<Longrightarrow> length (fold (threefish_round G t0 t1) ds X) = 8" for ds
    by (induction ds arbitrary: X) (simp_all add: threefish_round_def Let_def)
  then show "length X = 8 \<Longrightarrow> ?thesis" by (simp add: threefish_512_def)
qed

lemma length_skein_compress [simp]: "length (skein_compress G t0 t1 blk) = 8"
  by (simp add: skein_compress_def Let_def length_threefish)

lemma skein_block_eq:
  assumes "length (chain_X ctx) = 8"
  shows "skein_block ctx blk n =
    ctx\<lparr>chain_X := skein_compress (chain_X ctx) (T0 ctx + of_nat n) (T1 ctx) blk,
        T0 := T0 ctx + of_nat n, T1 := T1 ctx AND NOT SKEIN_T1_FLAG_FIRST\<rparr>"
proof -
  define K where "K = chain_X ctx"
  define w where "w = Skein_Get64_LSB_First blk 8"
  define t0 where "t0 = T0 ctx + of_nat n"
  have K: "length K = 8" and w: "length w = 8" by (simp_all add: K_def w_def assms)
  have parity: "K ! 0 XOR K ! 1 XOR K ! 2 XOR K ! 3 XOR K ! 4 XOR K ! 5 XOR K ! 6 XOR K ! 7 XOR SKEIN_KS_PARITY =
      fold (XOR) K SKEIN_KS_PARITY"
    using K by (auto simp: list8 ac_simps)
  have first: "[w ! 0 + parity_key K ! 0, w ! 1 + parity_key K ! 1, w ! 2 + parity_key K ! 2, w ! 3 + parity_key K ! 3,
      w ! 4 + parity_key K ! 4, w ! 5 + parity_key K ! 5 + [t0, T1 ctx, t0 XOR T1 ctx] ! 0,
      w ! 6 + parity_key K ! 6 + [t0, T1 ctx, t0 XOR T1 ctx] ! 1, w ! 7 + parity_key K ! 7] =
      add_words w (threefish_subkey K t0 (T1 ctx) 0)"
    using K w by (auto simp: list8 add_words_def threefish_subkey_def upt_rec Let_def)
  have feed: "length X = 8 \<Longrightarrow> [X ! 0 XOR w ! 0, X ! 1 XOR w ! 1, X ! 2 XOR w ! 2, X ! 3 XOR w ! 3, X ! 4 XOR w ! 4,
      X ! 5 XOR w ! 5, X ! 6 XOR w ! 6, X ! 7 XOR w ! 7] = map2 (XOR) X w" for X
    using w by (auto simp: list8)
  have e: "fold (R512_8_rounds (parity_key K) [t0, T1 ctx, t0 XOR T1 ctx]) [0..<9]
      (add_words w (threefish_subkey K t0 (T1 ctx) 0)) = threefish_512 K t0 (T1 ctx) w"
    using code_rounds [OF w K, of t0 "T1 ctx" 9] by (simp add: threefish_512_def)
  show ?thesis
    unfolding skein_block_def Let_def K_def [symmetric] w_def [symmetric] t0_def [symmetric] parity first e
      feed [OF length_threefish [OF w]]
    by (simp add: skein_compress_def K_def w_def t0_def Let_def)
qed


section \<open>Chaining\<close>

text \<open>
  UBI: the message padded with zeros to whole blocks, at least one; each block is compressed under a tweak
  with the number of message bytes up to its end, the type, and the flags of the first and the last block.
\<close>

definition ubi_tweak1 :: "u64 \<Rightarrow> nat \<Rightarrow> bool \<Rightarrow> u64" where
  "ubi_tweak1 ty i fin =
    (if i = 0 then SKEIN_T1_FLAG_FIRST else 0) OR ty OR (if fin then SKEIN_T1_FLAG_FINAL else 0)"

definition ubi :: "u64 \<Rightarrow> u64 list \<Rightarrow> byte list \<Rightarrow> u64 list" where
  "ubi ty G M =
    (let N = max 1 ((length M + 63) div 64); padded = M @ replicate (64 * N - length M) 0
     in foldl (\<lambda>G i. skein_compress G (of_nat (min (64 * (i + 1)) (length M))) (ubi_tweak1 ty i (i = N - 1))
                 (take 64 (drop (64 * i) padded))) G [0..<N])"

text \<open>The chaining value after \<open>q\<close> blocks that are not the last.\<close>

definition ubi_chain :: "u64 list \<Rightarrow> byte list \<Rightarrow> nat \<Rightarrow> u64 list" where
  "ubi_chain G M q =
    foldl (\<lambda>G i. skein_compress G (of_nat (64 * (i + 1))) (ubi_tweak1 SKEIN_T1_BLK_TYPE_MSG i False)
                (take 64 (drop (64 * i) M))) G [0..<q]"

lemma ubi_chain_Suc: "ubi_chain G M (Suc q) =
  skein_compress (ubi_chain G M q) (of_nat (64 * (q + 1))) (ubi_tweak1 SKEIN_T1_BLK_TYPE_MSG q False) (take 64 (drop (64 * q) M))"
  by (simp add: ubi_chain_def)

lemma length_ubi_chain: "length G = 8 \<Longrightarrow> length (ubi_chain G M q) = 8"
  by (cases q) (simp_all add: ubi_chain_Suc, simp add: ubi_chain_def)

lemma ubi_chain_append: "64 * q \<le> length M \<Longrightarrow> ubi_chain G (M @ xs) q = ubi_chain G M q"
proof (induction q)
  case (Suc q)
  then have "64 \<le> length M - 64 * q" "64 * q \<le> length M" by auto
  then show ?case using Suc.IH by (simp add: ubi_chain_Suc)
qed (simp add: ubi_chain_def)

lemma tweak_next: "ubi_tweak1 SKEIN_T1_BLK_TYPE_MSG q False AND NOT SKEIN_T1_FLAG_FIRST =
    ubi_tweak1 SKEIN_T1_BLK_TYPE_MSG (Suc q) False"
  by (simp add: ubi_tweak1_def SKEIN_T1_BLK_TYPE_MSG_def SKEIN_T1_FLAG_FIRST_def)

text \<open>A context that has compressed \<open>q\<close> blocks of \<open>M\<close>, and one that has taken in all of \<open>M\<close>.\<close>

definition chained :: "u64 list \<Rightarrow> byte list \<Rightarrow> nat \<Rightarrow> Skein_512_Ctxt \<Rightarrow> bool" where
  "chained G M q ctx \<longleftrightarrow> length G = 8 \<and> length (skein_b ctx) = 64 \<and> chain_X ctx = ubi_chain G M q \<and>
    T0 ctx = of_nat (64 * q) \<and> T1 ctx = ubi_tweak1 SKEIN_T1_BLK_TYPE_MSG q False"

definition taken_in :: "u64 list \<Rightarrow> byte list \<Rightarrow> Skein_512_Ctxt \<Rightarrow> bool" where
  "taken_in G M ctx \<longleftrightarrow> (let q = (length M - 1) div 64
     in chained G M q ctx \<and> bCnt ctx = length M - 64 * q \<and> take (bCnt ctx) (skein_b ctx) = drop (64 * q) M)"

lemma chained_block:
  assumes "chained G M q ctx" and "blk = take 64 (drop (64 * q) M)"
  shows "chained G M (Suc q) (skein_block ctx blk 64)"
proof -
  have "length (chain_X ctx) = 8" using assms by (simp add: chained_def length_ubi_chain)
  then show ?thesis using assms
    by (simp add: chained_def skein_block_eq ubi_chain_Suc tweak_next add.commute)
qed

lemma skein_block_fields [simp]:
  "bCnt (skein_block ctx blk n) = bCnt ctx" "skein_b (skein_block ctx blk n) = skein_b ctx"
  "hashBitLen (skein_block ctx blk n) = hashBitLen ctx"
  by (simp_all add: skein_block_def Let_def)

lemma process_fields [simp]:
  "bCnt (Skein_512_Process_Block ctx blk m n) = bCnt ctx"
  "skein_b (Skein_512_Process_Block ctx blk m n) = skein_b ctx"
  "hashBitLen (Skein_512_Process_Block ctx blk m n) = hashBitLen ctx"
  by (induction m arbitrary: ctx blk) simp_all

lemma chained_process:
  assumes "chained G M q ctx" and "64 * n \<le> length msg" and "take (64 * n) msg = take (64 * n) (drop (64 * q) M)"
  shows "chained G M (q + n) (Skein_512_Process_Block ctx msg n 64)"
  using assms
proof (induction n arbitrary: q ctx msg)
  case (Suc n)
  have "take 64 msg = take 64 (drop (64 * q) M)"
    using arg_cong [OF Suc.prems(3), of "take 64"] by (simp add: min_def)
  then have "chained G M (Suc q) (skein_block ctx (take 64 msg) 64)"
    using Suc.prems(1) by (intro chained_block) simp_all
  moreover have "take (64 * n) (drop 64 msg) = take (64 * n) (drop (64 * Suc q) M)"
    using arg_cong [OF Suc.prems(3), of "drop 64"] by (simp add: drop_take add.commute)
  ultimately show ?case using Suc.IH [of "Suc q"] Suc.prems(2) by simp
qed simp

lemma chained_extend: "chained G M q ctx \<Longrightarrow> 64 * q \<le> length M \<Longrightarrow> chained G (M @ xs) q ctx"
  by (simp add: chained_def ubi_chain_append)

lemma chained_fill [simp]:
  "bCnt ctx + length bs \<le> 64 \<Longrightarrow> chained G M q ctx \<Longrightarrow> chained G M q (skein_fill ctx bs)"
  "bCnt (skein_fill ctx bs) = bCnt ctx + length bs"
  by (auto simp: chained_def skein_fill_def min_def)

lemma take_fill: "bCnt ctx + length bs \<le> length (skein_b ctx) \<Longrightarrow>
    take (bCnt ctx + length bs) (skein_b (skein_fill ctx bs)) = take (bCnt ctx) (skein_b ctx) @ bs"
  by (cases bs) (auto simp: skein_fill_def min_def)

lemma chained_bCnt [simp]: "chained G M q (ctx\<lparr>bCnt := n\<rparr>) = chained G M q ctx"
  by (simp add: chained_def)

text \<open>The end of the update, once the buffer is empty.\<close>

definition skein_bulk :: "Skein_512_Ctxt \<Rightarrow> byte list \<Rightarrow> nat \<Rightarrow> Skein_512_Ctxt" where
  "skein_bulk ctx msg n =
    (let (ctx, msg, n) =
       (if n > 64 then let m = (n - 1) div 64 in (Skein_512_Process_Block ctx msg m 64, drop (m * 64) msg, n - m * 64)
        else (ctx, msg, n))
     in if n \<noteq> 0 then skein_fill ctx (take n msg) else ctx)"

lemma taken_in_fill:
  assumes "chained G M q ctx" "bCnt ctx = 0" "bs = drop (64 * q) M" "bs \<noteq> []" "length bs \<le> 64"
  shows "taken_in G M (skein_fill ctx bs)"
proof -
  have "length M = 64 * q + length bs" using assms(3,4) by auto
  moreover have "0 < length bs" using assms(4) by simp
  ultimately have "(length M - 1) div 64 = q" using assms(5) by (intro div_nat_eqI) (linarith | simp)+
  moreover have "length (skein_b ctx) = 64" using assms(1) by (simp add: chained_def)
  ultimately show ?thesis
    using assms take_fill [of ctx bs] by (simp add: taken_in_def Let_def)
qed

lemma taken_in_bulk:
  assumes "chained G M q ctx" "bCnt ctx = 0" "bs = drop (64 * q) M" "bs \<noteq> []"
  shows "taken_in G M (skein_bulk ctx (bs @ rest) (length bs))"
proof (cases "length bs > 64")
  case True
  define m where "m = (length bs - 1) div 64"
  have m: "64 * m < length bs" "length bs - 64 * m \<le> 64" using True by (auto simp: m_def)
  have "chained G M (q + m) (Skein_512_Process_Block ctx (bs @ rest) m 64)"
    using assms m by (intro chained_process) auto
  moreover have "drop (64 * m) bs = drop (64 * (q + m)) M"
    using assms(3) by (simp add: add.commute distrib_left)
  ultimately have "taken_in G M (skein_fill (Skein_512_Process_Block ctx (bs @ rest) m 64) (drop (64 * m) bs))"
    using assms(2) m by (intro taken_in_fill) (auto simp flip: length_drop)
  then show ?thesis
    using True m by (simp add: skein_bulk_def Let_def m_def [unfolded One_nat_def, symmetric] mult.commute [of m])
next
  case False
  then show ?thesis using assms taken_in_fill [OF assms] by (simp add: skein_bulk_def)
qed

lemma update_is_bulk:
  assumes "64 < n + bCnt ctx"
  shows "bCnt ctx = 0 \<Longrightarrow> Skein_512_Update ctx msg n = skein_bulk ctx msg n"
    and "bCnt ctx \<noteq> 0 \<Longrightarrow> d = 64 - bCnt ctx \<Longrightarrow>
      ctx1 = (if d = 0 then ctx else skein_fill ctx (take d msg)) \<Longrightarrow>
      Skein_512_Update ctx msg n = skein_bulk ((skein_block ctx1 (take 64 (skein_b ctx1)) 64)\<lparr>bCnt := 0\<rparr>) (drop d msg) (n - d)"
proof -
  show "bCnt ctx = 0 \<Longrightarrow> Skein_512_Update ctx msg n = skein_bulk ctx msg n"
    using assms by (simp add: Skein_512_Update_def skein_bulk_def Let_def)
next
  assume a: "bCnt ctx \<noteq> 0" "d = 64 - bCnt ctx" "ctx1 = (if d = 0 then ctx else skein_fill ctx (take d msg))"
  then show "Skein_512_Update ctx msg n = skein_bulk ((skein_block ctx1 (take 64 (skein_b ctx1)) 64)\<lparr>bCnt := 0\<rparr>) (drop d msg) (n - d)"
  proof (cases "d = 0")
    case True
    then show ?thesis using assms a by (simp only: Skein_512_Update_def skein_bulk_def Let_def) simp
  next
    case False
    then show ?thesis using assms a(1) unfolding a(3) a(2) [symmetric]
      by (simp only: Skein_512_Update_def skein_bulk_def Let_def a(2) [symmetric]) simp
  qed
qed

lemma taken_in_update_bs:
  assumes a: "taken_in G M ctx" and n: "n = length bs"
  shows "taken_in G (M @ bs) (Skein_512_Update ctx (bs @ rest) n)"
proof -
  define q where "q = (length M - 1) div 64"
  define c where "c = bCnt ctx"
  have ch: "chained G M q ctx" and c: "c = length M - 64 * q" and b: "take c (skein_b ctx) = drop (64 * q) M"
    using a by (auto simp: taken_in_def Let_def q_def c_def)
  have le: "64 * q \<le> length M - 1" "length M - 1 < 64 * q + 64"
    unfolding q_def by (rule times_div_less_eq_dividend, simp)
  then have q: "64 * q \<le> length M" "length M = 64 * q + c" "c \<le> 64" using c by simp_all
  have "c = 0 \<Longrightarrow> length M = 0" using le(1) c by linarith
  then have q0: "c = 0 \<Longrightarrow> q = 0 \<and> M = []" by (auto simp: q_def)
  have len: "length (skein_b ctx) = 64" using ch by (simp add: chained_def)
  consider "n + c \<le> 64" | "n + c > 64" "c = 0" | "n + c > 64" "c \<noteq> 0" by linarith
  then show ?thesis
  proof cases
    case 1
    have "(length (M @ bs) - 1) div 64 = q"
      using 1 q q0 n by (cases "c = 0") auto
    then show ?thesis
      using 1 ch q len b n
        take_fill [of ctx bs, folded c_def]
      by (auto simp: taken_in_def Skein_512_Update_def Let_def c_def [symmetric] chained_extend add.commute [of c])
  next
    case 2
    then have "taken_in G (M @ bs) (skein_bulk ctx (bs @ rest) (length bs))"
      using q0 n chained_extend [OF ch q(1)] by (intro taken_in_bulk [of _ _ 0]) (auto simp: c_def)
    then show ?thesis
      using 2 n update_is_bulk(1) [of n ctx] by (simp add: c_def)
  next
    case 3
    define d where "d = 64 - c"
    define ctx1 where "ctx1 = (if d = 0 then ctx else skein_fill ctx (take d bs))"
    have d: "d \<le> n" "c + d = 64" "d < n" using 3 q by (auto simp: d_def)
    have b1: "skein_b ctx1 = drop (64 * q) M @ take d bs" and c1: "chained G M q ctx1"
    proof -
      have "take 64 (skein_b ctx1) = take c (skein_b ctx) @ take d bs"
        using take_fill [of ctx "take d bs"] d len n by (auto simp: ctx1_def c_def min_def)
      moreover have "length (skein_b ctx1) = 64"
        using d len n by (auto simp: ctx1_def skein_fill_def c_def min_def)
      ultimately show "skein_b ctx1 = drop (64 * q) M @ take d bs" using b by simp
      show "chained G M q ctx1" using ch d n by (auto simp: ctx1_def c_def min_def)
    qed
    have "take 64 (drop (64 * q) (M @ bs)) = drop (64 * q) M @ take d bs"
      using q d by (simp flip: d_def)
    then have "chained G (M @ bs) (Suc q) (skein_block ctx1 (skein_b ctx1) 64)"
      using b1 c1 q by (intro chained_block chained_extend) simp_all
    then have "taken_in G (M @ bs) (skein_bulk ((skein_block ctx1 (skein_b ctx1) 64)\<lparr>bCnt := 0\<rparr>) (drop d bs @ rest) (length (drop d bs)))"
      using d q n by (intro taken_in_bulk [of _ _ "Suc q"]) (auto simp: d_def)
    moreover have "take 64 (skein_b ctx1) = skein_b ctx1"
      using b1 q d n by (simp flip: d_def)
    moreover have "Skein_512_Update ctx (bs @ rest) n =
      skein_bulk ((skein_block ctx1 (take 64 (skein_b ctx1)) 64)\<lparr>bCnt := 0\<rparr>) (drop d (bs @ rest)) (n - d)"
      using 3 d n by (intro update_is_bulk) (auto simp: c_def d_def ctx1_def)
    ultimately show ?thesis using n d by simp
  qed
qed

end
