(* ===== verification/Skein_Hash.thy ===== *)
theory Skein_Hash
  imports Skein_Correct
begin

text \<open>
  The Skein-512 calls against their specification: the stored initial value is the chaining value of the
  configuration block, the buffered update with any cut of the message and the finalisation compute
  the unique block iteration of the whole message, and the output is that of the counter mode.
\<close>

section \<open>The initial value\<close>

lemma u64_mask: "(w :: u64) AND 0xFFFFFFFFFFFFFFFF = w"
proof -
  have "(0xFFFFFFFFFFFFFFFF :: u64) = mask 64" by (simp add: mask_eq_exp_minus_1)
  moreover have "w AND mask 64 = w" by (simp add: take_bit_word_eq_self flip: take_bit_eq_mask)
  ultimately show ?thesis by (simp only:)
qed

lemma threefish_mix_eval:
  assumes "0 < r" "r < 64"
  shows "threefish_mix r x y =
    [(x + y) AND 0xFFFFFFFFFFFFFFFF,
     ((push_bit r y AND 0xFFFFFFFFFFFFFFFF) OR drop_bit (64 - r) y) XOR ((x + y) AND 0xFFFFFFFFFFFFFFFF)]"
  using rotl64_word_rotl [OF assms, of y] by (simp add: u64_mask rotl64_def)

lemma add_words_eval: "add_words (x # xs) (y # ys) = ((x + y) AND 0xFFFFFFFFFFFFFFFF) # add_words xs ys"
  "add_words [] ys = []"
  by (simp_all add: add_words_def u64_mask)

lemma config_subkeys:
  "threefish_subkey [0, 0, 0, 0, 0, 0, 0, 0] 32 0xC400000000000000 0 =
    [0x0, 0x0, 0x0, 0x0, 0x0, 0x20, 0xc400000000000000, 0x0]"
  "threefish_subkey [0, 0, 0, 0, 0, 0, 0, 0] 32 0xC400000000000000 (Suc 0) =
    [0x0, 0x0, 0x0, 0x0, 0x0, 0xc400000000000000, 0xc400000000000020, 0x1bd11bdaa9fc1a23]"
  "threefish_subkey [0, 0, 0, 0, 0, 0, 0, 0] 32 0xC400000000000000 2 =
    [0x0, 0x0, 0x0, 0x0, 0x0, 0xc400000000000020, 0x1bd11bdaa9fc1a42, 0x2]"
  "threefish_subkey [0, 0, 0, 0, 0, 0, 0, 0] 32 0xC400000000000000 3 =
    [0x0, 0x0, 0x0, 0x0, 0x0, 0x1bd11bdaa9fc1a42, 0xc400000000000000, 0x3]"
  "threefish_subkey [0, 0, 0, 0, 0, 0, 0, 0] 32 0xC400000000000000 4 =
    [0x0, 0x0, 0x0, 0x0, 0x1bd11bdaa9fc1a22, 0xc400000000000000, 0xc400000000000020, 0x4]"
  "threefish_subkey [0, 0, 0, 0, 0, 0, 0, 0] 32 0xC400000000000000 5 =
    [0x0, 0x0, 0x0, 0x1bd11bdaa9fc1a22, 0x0, 0xc400000000000020, 0x20, 0x5]"
  "threefish_subkey [0, 0, 0, 0, 0, 0, 0, 0] 32 0xC400000000000000 6 =
    [0x0, 0x0, 0x1bd11bdaa9fc1a22, 0x0, 0x0, 0x20, 0xc400000000000000, 0x6]"
  "threefish_subkey [0, 0, 0, 0, 0, 0, 0, 0] 32 0xC400000000000000 7 =
    [0x0, 0x1bd11bdaa9fc1a22, 0x0, 0x0, 0x0, 0xc400000000000000, 0xc400000000000020, 0x7]"
  "threefish_subkey [0, 0, 0, 0, 0, 0, 0, 0] 32 0xC400000000000000 8 =
    [0x1bd11bdaa9fc1a22, 0x0, 0x0, 0x0, 0x0, 0xc400000000000020, 0x20, 0x8]"
  "threefish_subkey [0, 0, 0, 0, 0, 0, 0, 0] 32 0xC400000000000000 9 =
    [0x0, 0x0, 0x0, 0x0, 0x0, 0x20, 0xc400000000000000, 0x9]"
  "threefish_subkey [0, 0, 0, 0, 0, 0, 0, 0] 32 0xC400000000000000 10 =
    [0x0, 0x0, 0x0, 0x0, 0x0, 0xc400000000000000, 0xc400000000000020, 0x1bd11bdaa9fc1a2c]"
  "threefish_subkey [0, 0, 0, 0, 0, 0, 0, 0] 32 0xC400000000000000 11 =
    [0x0, 0x0, 0x0, 0x0, 0x0, 0xc400000000000020, 0x1bd11bdaa9fc1a42, 0xb]"
  "threefish_subkey [0, 0, 0, 0, 0, 0, 0, 0] 32 0xC400000000000000 12 =
    [0x0, 0x0, 0x0, 0x0, 0x0, 0x1bd11bdaa9fc1a42, 0xc400000000000000, 0xc]"
  "threefish_subkey [0, 0, 0, 0, 0, 0, 0, 0] 32 0xC400000000000000 13 =
    [0x0, 0x0, 0x0, 0x0, 0x1bd11bdaa9fc1a22, 0xc400000000000000, 0xc400000000000020, 0xd]"
  "threefish_subkey [0, 0, 0, 0, 0, 0, 0, 0] 32 0xC400000000000000 14 =
    [0x0, 0x0, 0x0, 0x1bd11bdaa9fc1a22, 0x0, 0xc400000000000020, 0x20, 0xe]"
  "threefish_subkey [0, 0, 0, 0, 0, 0, 0, 0] 32 0xC400000000000000 15 =
    [0x0, 0x0, 0x1bd11bdaa9fc1a22, 0x0, 0x0, 0x20, 0xc400000000000000, 0xf]"
  "threefish_subkey [0, 0, 0, 0, 0, 0, 0, 0] 32 0xC400000000000000 16 =
    [0x0, 0x1bd11bdaa9fc1a22, 0x0, 0x0, 0x0, 0xc400000000000000, 0xc400000000000020, 0x10]"
  "threefish_subkey [0, 0, 0, 0, 0, 0, 0, 0] 32 0xC400000000000000 17 =
    [0x1bd11bdaa9fc1a22, 0x0, 0x0, 0x0, 0x0, 0xc400000000000020, 0x20, 0x11]"
  "threefish_subkey [0, 0, 0, 0, 0, 0, 0, 0] 32 0xC400000000000000 18 =
    [0x0, 0x0, 0x0, 0x0, 0x0, 0x20, 0xc400000000000000, 0x12]"
  by (simp_all add: threefish_subkey_def upt_rec SKEIN_KS_PARITY_def SKEIN_MK_64_def)

lemmas config_round_eval = threefish_round_def threefish_mixes_def threefish_mix_eval add_words_eval
  threefish_permute_def threefish_pi_def threefish_rot_def

lemma config_rounds_0:
  "fold (threefish_round [0, 0, 0, 0, 0, 0, 0, 0] 32 0xC400000000000000) [0, 1, 2, 3]
    [0x133414853, 0x100, 0x0, 0x0, 0x0, 0x0, 0x0, 0x0] =
    [0x984010a46daa92e3, 0xebc3b5de1af69471, 0x98c0024eadaa96e6, 0x703e34a869303a4d, 0x816892a868047962, 0xc435224e3ef784b5, 0xd38cf526d5a4ce67, 0x1860d6d6af38734b]"
  by (simp add: config_round_eval config_subkeys del: threefish_mix.simps)

lemma config_rounds_1:
  "fold (threefish_round [0, 0, 0, 0, 0, 0, 0, 0] 32 0xC400000000000000) [4, 5, 6, 7]
    [0x984010a46daa92e3, 0xebc3b5de1af69471, 0x98c0024eadaa96e6, 0x703e34a869303a4d, 0x816892a868047962, 0xc435224e3ef784b5, 0xd38cf526d5a4ce67, 0x1860d6d6af38734b] =
    [0x1f0dceeec45890bc, 0x1aa5142d63764f5f, 0x62471161bc600595, 0x8424eea4ecc3a71c, 0xe523ce11fdc9e2c7, 0x3c6a7719a2f14895, 0xe47ed5064b757c60, 0x5f60cdf879b69183]"
  by (simp add: config_round_eval config_subkeys del: threefish_mix.simps)

lemma config_rounds_2:
  "fold (threefish_round [0, 0, 0, 0, 0, 0, 0, 0] 32 0xC400000000000000) [8, 9, 10, 11]
    [0x1f0dceeec45890bc, 0x1aa5142d63764f5f, 0x62471161bc600595, 0x8424eea4ecc3a71c, 0xe523ce11fdc9e2c7, 0x3c6a7719a2f14895, 0xe47ed5064b757c60, 0x5f60cdf879b69183] =
    [0x4b7ac38c9ab5e1e, 0xcf970385e7f35a71, 0x9b28522fa13b6a27, 0xa0032a73ca0d5b44, 0x5bb4436852c2e9bc, 0xed63895cf23640ac, 0x9a3053477e6bc782, 0xa769b008b4f4a26e]"
  by (simp add: config_round_eval config_subkeys del: threefish_mix.simps)

lemma config_rounds_3:
  "fold (threefish_round [0, 0, 0, 0, 0, 0, 0, 0] 32 0xC400000000000000) [12, 13, 14, 15]
    [0x4b7ac38c9ab5e1e, 0xcf970385e7f35a71, 0x9b28522fa13b6a27, 0xa0032a73ca0d5b44, 0x5bb4436852c2e9bc, 0xed63895cf23640ac, 0x9a3053477e6bc782, 0xa769b008b4f4a26e] =
    [0xb403574e652d7368, 0x3ee410b3a252fc9d, 0x3583d0866019ace4, 0x9524894407e837c3, 0x8da8e5b36d97dcf1, 0x39da886e3f9590f9, 0xd6b6353e7665cd6e, 0xdfe55215d7866e98]"
  by (simp add: config_round_eval config_subkeys del: threefish_mix.simps)

lemma config_rounds_4:
  "fold (threefish_round [0, 0, 0, 0, 0, 0, 0, 0] 32 0xC400000000000000) [16, 17, 18, 19]
    [0xb403574e652d7368, 0x3ee410b3a252fc9d, 0x3583d0866019ace4, 0x9524894407e837c3, 0x8da8e5b36d97dcf1, 0x39da886e3f9590f9, 0xd6b6353e7665cd6e, 0xdfe55215d7866e98] =
    [0x207aca2db0d6282b, 0x334dede39ec02c50, 0x417864dfe83424b1, 0xb1cc00d74a3335b0, 0xa7599dd23194ea5, 0x8e8f5f6260483c0d, 0x13257efaa832d590, 0x869dfde2ff8c40c0]"
  by (simp add: config_round_eval config_subkeys del: threefish_mix.simps)

lemma config_rounds_5:
  "fold (threefish_round [0, 0, 0, 0, 0, 0, 0, 0] 32 0xC400000000000000) [20, 21, 22, 23]
    [0x207aca2db0d6282b, 0x334dede39ec02c50, 0x417864dfe83424b1, 0xb1cc00d74a3335b0, 0xa7599dd23194ea5, 0x8e8f5f6260483c0d, 0x13257efaa832d590, 0x869dfde2ff8c40c0] =
    [0xf94aa93eaef7ac96, 0x4fbac5bc55546da1, 0x46dfe7b0f40053e, 0xac057c89e7907d7a, 0x7564cdf93dd3760f, 0x4fa6e79cbe618872, 0xdba96e92790cd2a5, 0x9594a75cc3f82741]"
  by (simp add: config_round_eval config_subkeys del: threefish_mix.simps)

lemma config_rounds_6:
  "fold (threefish_round [0, 0, 0, 0, 0, 0, 0, 0] 32 0xC400000000000000) [24, 25, 26, 27]
    [0xf94aa93eaef7ac96, 0x4fbac5bc55546da1, 0x46dfe7b0f40053e, 0xac057c89e7907d7a, 0x7564cdf93dd3760f, 0x4fa6e79cbe618872, 0xdba96e92790cd2a5, 0x9594a75cc3f82741] =
    [0x88625bf69cd395a1, 0xa04fad58e9baa533, 0xea2ae29fd2198b9a, 0x8740efdb8aa51500, 0x39f5590297bfd1ea, 0xf250ed28f08d2edc, 0xe0a39cbd3062483e, 0x96939233a615ce36]"
  by (simp add: config_round_eval config_subkeys del: threefish_mix.simps)

lemma config_rounds_7:
  "fold (threefish_round [0, 0, 0, 0, 0, 0, 0, 0] 32 0xC400000000000000) [28, 29, 30, 31]
    [0x88625bf69cd395a1, 0xa04fad58e9baa533, 0xea2ae29fd2198b9a, 0x8740efdb8aa51500, 0x39f5590297bfd1ea, 0xf250ed28f08d2edc, 0xe0a39cbd3062483e, 0x96939233a615ce36] =
    [0x7e14b06d56c53cb3, 0xc6d104b958a1ccb8, 0xd346e73efb626f73, 0x95c8aa69d8a8c073, 0xea47b1db54b4ee21, 0xf693eddf5b869ba4, 0xa3e5e41feff124, 0x25b3d42aadb86b7f]"
  by (simp add: config_round_eval config_subkeys del: threefish_mix.simps)

lemma config_rounds_8:
  "fold (threefish_round [0, 0, 0, 0, 0, 0, 0, 0] 32 0xC400000000000000) [32, 33, 34, 35]
    [0x7e14b06d56c53cb3, 0xc6d104b958a1ccb8, 0xd346e73efb626f73, 0x95c8aa69d8a8c073, 0xea47b1db54b4ee21, 0xf693eddf5b869ba4, 0xa3e5e41feff124, 0x25b3d42aadb86b7f] =
    [0x85a152a2bf202588, 0xb7df002c036c169b, 0xfe6b03f4ca82fde, 0x75d1c943b60ffe0c, 0x6735054233344276, 0x102de56f1149dd6b, 0xe2df1b286a3af570, 0x12a8b8c3f9ff42c9]"
  by (simp add: config_round_eval config_subkeys del: threefish_mix.simps)

lemma config_rounds_9:
  "fold (threefish_round [0, 0, 0, 0, 0, 0, 0, 0] 32 0xC400000000000000) [36, 37, 38, 39]
    [0x85a152a2bf202588, 0xb7df002c036c169b, 0xfe6b03f4ca82fde, 0x75d1c943b60ffe0c, 0x6735054233344276, 0x102de56f1149dd6b, 0xe2df1b286a3af570, 0x12a8b8c3f9ff42c9] =
    [0xc38938186243af38, 0x7a342734e60c33bc, 0xd42dd576590b899, 0x680bf29568fa748c, 0xc2af3344382dffbb, 0x390b2b11727d1761, 0xad60ac6b25f431ab, 0x4326e93162317a41]"
  by (simp add: config_round_eval config_subkeys del: threefish_mix.simps)

lemma config_rounds_10:
  "fold (threefish_round [0, 0, 0, 0, 0, 0, 0, 0] 32 0xC400000000000000) [40, 41, 42, 43]
    [0xc38938186243af38, 0x7a342734e60c33bc, 0xd42dd576590b899, 0x680bf29568fa748c, 0xc2af3344382dffbb, 0x390b2b11727d1761, 0xad60ac6b25f431ab, 0x4326e93162317a41] =
    [0x26855a1a1e54d479, 0xe23ac8af6ac76750, 0xd6668c85ca39499e, 0x9a7b424d8ff222a1, 0x7847bc3431d57cd3, 0xa5a9b17f786e7b9a, 0x16114ff390b55694, 0xd4f5d00d6c341628]"
  by (simp add: config_round_eval config_subkeys del: threefish_mix.simps)

lemma config_rounds_11:
  "fold (threefish_round [0, 0, 0, 0, 0, 0, 0, 0] 32 0xC400000000000000) [44, 45, 46, 47]
    [0x26855a1a1e54d479, 0xe23ac8af6ac76750, 0xd6668c85ca39499e, 0x9a7b424d8ff222a1, 0x7847bc3431d57cd3, 0xa5a9b17f786e7b9a, 0x16114ff390b55694, 0xd4f5d00d6c341628] =
    [0x5bf6f635d18e8d49, 0x503d721b0195c5e6, 0xe1a029356ae2985c, 0x2fa211429609f4b5, 0x482bd32a5538208, 0x1f7ea04932996323, 0x31ad5f92fa506875, 0x781a74d506d3221e]"
  by (simp add: config_round_eval config_subkeys del: threefish_mix.simps)

lemma config_rounds_12:
  "fold (threefish_round [0, 0, 0, 0, 0, 0, 0, 0] 32 0xC400000000000000) [48, 49, 50, 51]
    [0x5bf6f635d18e8d49, 0x503d721b0195c5e6, 0xe1a029356ae2985c, 0x2fa211429609f4b5, 0x482bd32a5538208, 0x1f7ea04932996323, 0x31ad5f92fa506875, 0x781a74d506d3221e] =
    [0xd2790d84a95dd23f, 0xe6b5524b754638f, 0x61ea1d6a589a3d51, 0xb2a70773cb9e0f66, 0xe35d168803cb6fe1, 0x1582e04abd09b553, 0x3ed8f9b843bd0275, 0x2a6f6af53fc6aaaf]"
  by (simp add: config_round_eval config_subkeys del: threefish_mix.simps)

lemma config_rounds_13:
  "fold (threefish_round [0, 0, 0, 0, 0, 0, 0, 0] 32 0xC400000000000000) [52, 53, 54, 55]
    [0xd2790d84a95dd23f, 0xe6b5524b754638f, 0x61ea1d6a589a3d51, 0xb2a70773cb9e0f66, 0xe35d168803cb6fe1, 0x1582e04abd09b553, 0x3ed8f9b843bd0275, 0x2a6f6af53fc6aaaf] =
    [0xf531d92688ff0149, 0x9594e9347365f285, 0xb6c5b16537f1f447, 0xc76cc03061106eb, 0x3a327a3d2af6575a, 0x73582674d96dcd47, 0xa5653701b9bd5447, 0xddaccdafbe46548c]"
  by (simp add: config_round_eval config_subkeys del: threefish_mix.simps)

lemma config_rounds_14:
  "fold (threefish_round [0, 0, 0, 0, 0, 0, 0, 0] 32 0xC400000000000000) [56, 57, 58, 59]
    [0xf531d92688ff0149, 0x9594e9347365f285, 0xb6c5b16537f1f447, 0xc76cc03061106eb, 0x3a327a3d2af6575a, 0x73582674d96dcd47, 0xa5653701b9bd5447, 0xddaccdafbe46548c] =
    [0x5b3763d1770568a9, 0xa38e5515bcc5f656, 0x4fff8e62e1a8fc2, 0x7261f64fde0dba38, 0x266e1274f4edb31f, 0x972ee655d41d9b83, 0x601637a889ed9e5a, 0xd46e74fd0c6cec88]"
  by (simp add: config_round_eval config_subkeys del: threefish_mix.simps)

lemma config_rounds_15:
  "fold (threefish_round [0, 0, 0, 0, 0, 0, 0, 0] 32 0xC400000000000000) [60, 61, 62, 63]
    [0x5b3763d1770568a9, 0xa38e5515bcc5f656, 0x4fff8e62e1a8fc2, 0x7261f64fde0dba38, 0x266e1274f4edb31f, 0x972ee655d41d9b83, 0x601637a889ed9e5a, 0xd46e74fd0c6cec88] =
    [0x20b51eb4c99a99a3, 0xa37f449a5bac482, 0x85da45dd4db96181, 0xc645995a6a047e62, 0xf336b24528c8bc0c, 0x4ddf732aa96f9572, 0x5ca8c60438b45f5, 0xfd5a419741dfe22c]"
  by (simp add: config_round_eval config_subkeys del: threefish_mix.simps)

lemma config_rounds_16:
  "fold (threefish_round [0, 0, 0, 0, 0, 0, 0, 0] 32 0xC400000000000000) [64, 65, 66, 67]
    [0x20b51eb4c99a99a3, 0xa37f449a5bac482, 0x85da45dd4db96181, 0xc645995a6a047e62, 0xf336b24528c8bc0c, 0x4ddf732aa96f9572, 0x5ca8c60438b45f5, 0xfd5a419741dfe22c] =
    [0x8f05d9d661339868, 0x7744ce903c34dbc8, 0xe12c03df1db8f94f, 0xddc949254a6e7102, 0xe79769cd64021fac, 0xb6b4d68e9236c00e, 0x30a31c3f8aca3416, 0x8a1ad88071d9b52e]"
  by (simp add: config_round_eval config_subkeys del: threefish_mix.simps)

lemma config_rounds_17:
  "fold (threefish_round [0, 0, 0, 0, 0, 0, 0, 0] 32 0xC400000000000000) [68, 69, 70, 71]
    [0x8f05d9d661339868, 0x7744ce903c34dbc8, 0xe12c03df1db8f94f, 0xddc949254a6e7102, 0xe79769cd64021fac, 0xb6b4d68e9236c00e, 0x30a31c3f8aca3416, 0x8a1ad88071d9b52e] =
    [0xccd044a01c9a7640, 0xe83590301a79a8eb, 0x55aea0614f816e6f, 0x2a2767a4ae9b94db, 0xec06025e74dd7683, 0xe7a436cdc4746231, 0xff6fbaf9393ad185, 0x3eedba1833edfc01]"
  by (simp add: config_round_eval config_subkeys del: threefish_mix.simps)

lemma upt_72: "[0..<72] = [0, 1, 2, 3] @ [4, 5, 6, 7] @ [8, 9, 10, 11] @ [12, 13, 14, 15] @ [16, 17, 18, 19] @
  [20, 21, 22, 23] @ [24, 25, 26, 27] @ [28, 29, 30, 31] @ [32, 33, 34, 35] @ [36, 37, 38, 39] @
  [40, 41, 42, 43] @ [44, 45, 46, 47] @ [48, 49, 50, 51] @ [52, 53, 54, 55] @ [56, 57, 58, 59] @
  [60, 61, 62, 63] @ [64, 65, 66, 67] @ [68, 69, 70, 71]"
  by (simp add: upt_rec)

lemma config_block_256:
  "map2 (XOR) (threefish_512 [0, 0, 0, 0, 0, 0, 0, 0] 32 0xC400000000000000
      [0x133414853, 256, 0, 0, 0, 0, 0, 0]) [0x133414853, 256, 0, 0, 0, 0, 0, 0] =
   [0xCCD044A12FDB3E13, 0xE83590301A79A9EB, 0x55AEA0614F816E6F, 0x2A2767A4AE9B94DB,
    0xEC06025E74DD7683, 0xE7A436CDC4746251, 0xC36FBAF9393AD185, 0x3EEDBA1833EDFC13]"
proof -
  have "fold (threefish_round [0, 0, 0, 0, 0, 0, 0, 0] 32 0xC400000000000000) [0..<72]
      [0x133414853, 0x100, 0x0, 0x0, 0x0, 0x0, 0x0, 0x0] =
    [0xccd044a01c9a7640, 0xe83590301a79a8eb, 0x55aea0614f816e6f, 0x2a2767a4ae9b94db, 0xec06025e74dd7683, 0xe7a436cdc4746231, 0xff6fbaf9393ad185, 0x3eedba1833edfc01]"
    unfolding upt_72 fold_append o_apply by (simp only: config_rounds_0 config_rounds_1 config_rounds_2 config_rounds_3 config_rounds_4 config_rounds_5 config_rounds_6 config_rounds_7 config_rounds_8 config_rounds_9 config_rounds_10 config_rounds_11 config_rounds_12 config_rounds_13 config_rounds_14 config_rounds_15 config_rounds_16 config_rounds_17)
  then show ?thesis by (simp add: threefish_512_def config_subkeys add_words_eval)
qed

definition config_bytes :: "nat \<Rightarrow> byte list" where
  "config_bytes bits = state_bytes [SKEIN_SCHEMA_VER, of_nat bits, SKEIN_CFG_TREE_INFO_SEQUENTIAL, 0]"

lemma state_bytes_append: "state_bytes (xs @ ys) = state_bytes xs @ state_bytes ys"
  by (simp add: state_bytes_def)

lemma state_bytes_zeros: "state_bytes (replicate n 0) = replicate (8 * n) 0"
  by (induction n) (simp_all add: state_bytes_def le_bytes_def upt_rec replicate_add [symmetric] numeral_eq_Suc)

lemma Get64_state_bytes: "length ws = n \<Longrightarrow> Skein_Get64_LSB_First (state_bytes ws) n = ws"
proof (rule nth_equalityI)
  fix i assume ws: "length ws = n" and "i < length (Skein_Get64_LSB_First (state_bytes ws) n)"
  then have i: "i < length ws" by simp
  have "take 8 (drop (8 * i) (state_bytes ws)) = le_bytes 8 (ws ! i)"
    using i
  proof (induction ws arbitrary: i)
    case (Cons w ws)
    then show ?case by (cases i) (simp_all add: state_bytes_def)
  qed simp
  then show "Skein_Get64_LSB_First (state_bytes ws) n ! i = ws ! i"
    using i ws by (simp add: Skein_Get64_LSB_First_def word_of_le_bytes)
qed simp

lemma ubi_short:
  assumes "length M \<le> 64"
  shows "ubi ty G M = skein_compress G (of_nat (length M)) (ubi_tweak1 ty 0 True) (M @ replicate (64 - length M) 0)"
proof -
  have "max 1 ((length M + 63) div 64) = 1" using assms by (cases "length M = 0") (auto simp: max_def)
  then show ?thesis using assms by (simp add: ubi_def Let_def min_def)
qed

lemma config_chain:
  "ubi SKEIN_T1_BLK_TYPE_CFG (replicate 8 0) (config_bytes bits) =
    skein_compress (replicate 8 0) 32 0xC400000000000000
      (state_bytes [SKEIN_SCHEMA_VER, of_nat bits, SKEIN_CFG_TREE_INFO_SEQUENTIAL, 0, 0, 0, 0, 0])"
proof -
  have four: "replicate 4 (0 :: u64) = [0, 0, 0, 0]" by (simp add: numeral_eq_Suc)
  have "config_bytes bits @ replicate 32 0 =
      state_bytes [SKEIN_SCHEMA_VER, of_nat bits, SKEIN_CFG_TREE_INFO_SEQUENTIAL, 0, 0, 0, 0, 0]"
    using state_bytes_append [of "[SKEIN_SCHEMA_VER, of_nat bits, SKEIN_CFG_TREE_INFO_SEQUENTIAL, 0]" "[0, 0, 0, 0]"]
      state_bytes_zeros [of 4] four
    by (simp only: config_bytes_def append.simps) simp
  moreover have "length (config_bytes bits) = 32" by (simp add: config_bytes_def)
  moreover have "ubi_tweak1 SKEIN_T1_BLK_TYPE_CFG 0 True = 0xC400000000000000"
    by (simp add: ubi_tweak1_def SKEIN_T1_BLK_TYPE_CFG_def SKEIN_T1_FLAG_FIRST_def SKEIN_T1_FLAG_FINAL_def)
  ultimately show ?thesis using ubi_short [of "config_bytes bits"] by simp
qed

lemma iv_256: "ubi SKEIN_T1_BLK_TYPE_CFG (replicate 8 0) (config_bytes 256) = SKEIN_512_IV_256"
proof -
  have eight: "replicate 8 (0 :: u64) = [0, 0, 0, 0, 0, 0, 0, 0]" by (simp add: numeral_eq_Suc)
  have "skein_compress (replicate 8 0) 32 0xC400000000000000
      (state_bytes [SKEIN_SCHEMA_VER, of_nat 256, SKEIN_CFG_TREE_INFO_SEQUENTIAL, 0, 0, 0, 0, 0]) = SKEIN_512_IV_256"
    unfolding skein_compress_def Let_def
    by (subst Get64_state_bytes, simp, subst Get64_state_bytes, simp)
      (use config_block_256 eight in \<open>simp add: SKEIN_SCHEMA_VER_def SKEIN_MK_64_def SKEIN_CFG_TREE_INFO_SEQUENTIAL_def
          SKEIN_512_IV_256_def\<close>)
  then show ?thesis by (simp only: config_chain)
qed

section \<open>The hash\<close>

lemma taken_in_final:
  assumes "taken_in G M ctx"
  shows "chain_X (Skein_512_Process_Block (ctx\<lparr>T1 := T1 ctx OR SKEIN_T1_FLAG_FINAL,
      skein_b := take (bCnt ctx) (skein_b ctx) @ replicate (64 - bCnt ctx) 0\<rparr>)
     (take (bCnt ctx) (skein_b ctx) @ replicate (64 - bCnt ctx) 0) 1 (bCnt ctx)) = ubi SKEIN_T1_BLK_TYPE_MSG G M"
proof -
  define q where "q = (length M - 1) div 64"
  define c where "c = bCnt ctx"
  have ch: "chained G M q ctx" and c: "c = length M - 64 * q" and b: "take c (skein_b ctx) = drop (64 * q) M"
    using assms by (auto simp: taken_in_def Let_def q_def c_def)
  have le: "64 * q \<le> length M - 1" "length M - 1 < 64 * q + 64"
    unfolding q_def by (rule times_div_less_eq_dividend, simp)
  then have len: "length M = 64 * q + c" "c \<le> 64" using c by simp_all
  have X: "length (chain_X ctx) = 8" "chain_X ctx = ubi_chain G M q" "T0 ctx = of_nat (64 * q)"
    "T1 ctx = ubi_tweak1 SKEIN_T1_BLK_TYPE_MSG q False"
    using ch by (simp_all add: chained_def length_ubi_chain)
  have N: "max 1 ((length M + 63) div 64) = Suc q"
  proof (cases "length M = 0")
    case True then show ?thesis by (simp add: q_def)
  next
    case False
    then have "length M + 63 = (length M - 1) + 64" by simp
    then show ?thesis by (simp add: q_def)
  qed
  define padded where "padded = M @ replicate (64 * Suc q - length M) 0"
  have blocks: "take 64 (drop (64 * i) padded) = take 64 (drop (64 * i) M)" "min (64 * (i + 1)) (length M) = 64 * (i + 1)"
    if "i < q" for i
  proof -
    have "64 * (i + 1) \<le> 64 * q" using that by simp
    then have "64 * i + 64 \<le> length M" using len(1) by simp
    then show "take 64 (drop (64 * i) padded) = take 64 (drop (64 * i) M)" "min (64 * (i + 1)) (length M) = 64 * (i + 1)"
      by (auto simp: padded_def)
  qed
  have "foldl (\<lambda>G i. skein_compress G (of_nat (min (64 * (i + 1)) (length M))) (ubi_tweak1 SKEIN_T1_BLK_TYPE_MSG i (i = q))
      (take 64 (drop (64 * i) padded))) G [0..<k] = ubi_chain G M k" if "k \<le> q" for k
    using that
  proof (induction k)
    case (Suc k)
    then show ?case using blocks [of k] by (simp add: ubi_chain_Suc)
  qed (simp add: ubi_chain_def)
  moreover have "take 64 (drop (64 * q) padded) = drop (64 * q) M @ replicate (64 - c) 0"
    using len by (auto simp: padded_def)
  moreover have "min (64 * (q + 1)) (length M) = length M" using len by simp
  ultimately have "ubi SKEIN_T1_BLK_TYPE_MSG G M = skein_compress (ubi_chain G M q) (of_nat (length M))
      (ubi_tweak1 SKEIN_T1_BLK_TYPE_MSG q True) (drop (64 * q) M @ replicate (64 - c) 0)"
    unfolding ubi_def Let_def N padded_def [symmetric] by simp
  moreover have "ubi_tweak1 SKEIN_T1_BLK_TYPE_MSG q False OR SKEIN_T1_FLAG_FINAL = ubi_tweak1 SKEIN_T1_BLK_TYPE_MSG q True"
    by (simp add: ubi_tweak1_def or.assoc)
  moreover have blk: "take 64 (drop (64 * q) M @ replicate (64 - c) 0) = drop (64 * q) M @ replicate (64 - c) 0"
    using len by simp
  moreover have "(of_nat (64 * q) :: u64) + of_nat c = of_nat (length M)" by (simp add: len(1))
  ultimately show ?thesis
    using X b blk by (simp add: skein_block_eq c_def [symmetric] del: take_append drop_append)
qed


text \<open>The output: the first bytes of the blocks that a counter gives under the chaining value.\<close>

definition skein_out :: "nat \<Rightarrow> u64 list \<Rightarrow> byte list" where
  "skein_out bits X =
    (let n = (bits + 7) div 8
     in concat (map (\<lambda>i. take (n - 64 * i) (state_bytes (ubi SKEIN_T1_BLK_TYPE_OUT X (le_bytes 8 (of_nat i :: u64)))))
          [0..<(n + 63) div 64]))"

definition skein_spec :: "nat \<Rightarrow> byte list \<Rightarrow> byte list" where
  "skein_spec bits M =
    skein_out bits (ubi SKEIN_T1_BLK_TYPE_MSG (ubi SKEIN_T1_BLK_TYPE_CFG (replicate 8 0) (config_bytes bits)) M)"

lemma skein_output_concat:
  assumes "length X = 8" "chain_X ctx = X" "length (skein_b ctx) = 64" "drop 8 (skein_b ctx) = replicate 56 0"
  shows "snd (skein_output ctx X n k i) =
    concat (map (\<lambda>i. take (n - 64 * i) (state_bytes (ubi SKEIN_T1_BLK_TYPE_OUT X (le_bytes 8 (of_nat i :: u64)))))
      [i..<i + k])"
  using assms
proof (induction k arbitrary: ctx i)
  case (Suc k)
  define blk where "blk = le_bytes 8 (of_nat i :: u64) @ replicate 56 0"
  have blk: "length blk = 64" "take 64 blk = blk" "drop 8 blk = replicate 56 0" by (simp_all add: blk_def)
  have t: "SKEIN_T1_FLAG_FIRST OR SKEIN_T1_BLK_TYPE_OUT_FINAL = ubi_tweak1 SKEIN_T1_BLK_TYPE_OUT 0 True"
    by (simp add: ubi_tweak1_def SKEIN_T1_BLK_TYPE_OUT_FINAL_def or.assoc)
  have u: "ubi SKEIN_T1_BLK_TYPE_OUT X (le_bytes 8 (of_nat i :: u64)) =
      skein_compress X 8 (ubi_tweak1 SKEIN_T1_BLK_TYPE_OUT 0 True) blk"
    by (simp add: ubi_short blk_def)
  define ctx1 where "ctx1 = skein_block (Skein_Start_New_Type (ctx\<lparr>skein_b := blk\<rparr>) SKEIN_T1_BLK_TYPE_OUT_FINAL) blk 8"
  have c: "chain_X ctx1 = skein_compress X 8 (ubi_tweak1 SKEIN_T1_BLK_TYPE_OUT 0 True) blk" "skein_b ctx1 = blk"
    using Suc.prems t by (simp_all add: ctx1_def Skein_Start_New_Type_def skein_block_eq)
  have m: "take (min (n - i * 64) 64) (state_bytes (chain_X ctx1)) = take (n - 64 * i) (state_bytes (chain_X ctx1))"
    by (simp add: min_def mult.commute c)
  have "snd (skein_output (ctx1\<lparr>chain_X := X\<rparr>) X n k (Suc i)) =
    concat (map (\<lambda>i. take (n - 64 * i) (state_bytes (ubi SKEIN_T1_BLK_TYPE_OUT X (le_bytes 8 (of_nat i :: u64)))))
      [Suc i..<Suc i + k])"
    using Suc.prems(1) c blk by (intro Suc.IH) simp_all
  moreover have "[i..<i + Suc k] = i # [Suc i..<Suc i + k]" by (simp add: upt_conv_Cons)
  moreover have st: "skein_b (Skein_Start_New_Type c ty) = skein_b c" for c ty
    by (simp add: Skein_Start_New_Type_def)
  then have "Skein_512_Process_Block (Skein_Start_New_Type (ctx\<lparr>skein_b := blk\<rparr>) SKEIN_T1_BLK_TYPE_OUT_FINAL)
      (skein_b (Skein_Start_New_Type (ctx\<lparr>skein_b := blk\<rparr>) SKEIN_T1_BLK_TYPE_OUT_FINAL)) 1 8 = ctx1"
    using blk(2) by (simp add: ctx1_def)
  then have "snd (skein_output ctx X n (Suc k) i) = take (n - 64 * i) (state_bytes (chain_X ctx1)) @
      snd (skein_output (ctx1\<lparr>chain_X := X\<rparr>) X n k (Suc i))"
    unfolding skein_output.simps Let_def split_beta Suc.prems(4) blk_def [symmetric] Skein_Put64_LSB_First_def
    by (simp only: m [symmetric] snd_conv Suc_eq_plus1)
  ultimately show ?case using c u by simp
qed simp

lemma length_ubi: "length G = 8 \<Longrightarrow> length (ubi ty G M) = 8"
proof -
  have "length G = 8 \<Longrightarrow> length (foldl (\<lambda>G i. skein_compress G (a i) (b i) (c i)) G xs) = 8" for a b c and xs :: "nat list"
    by (induction xs arbitrary: G) simp_all
  then show "length G = 8 \<Longrightarrow> ?thesis" by (simp add: ubi_def Let_def)
qed

lemma taken_in_output:
  assumes "taken_in G M ctx" "length G = 8"
  shows "snd (Skein_512_Final ctx) = skein_out (hashBitLen ctx) (ubi SKEIN_T1_BLK_TYPE_MSG G M)"
proof -
  define b where "b = take (bCnt ctx) (skein_b ctx) @ replicate (64 - bCnt ctx) 0"
  have len: "length (skein_b ctx) = 64" "bCnt ctx \<le> 64" 
    using assms by (auto simp: taken_in_def Let_def chained_def)
  then have b: "skein_b (if bCnt ctx < 64 then ctx\<lparr>skein_b := b\<rparr> else ctx) = b" by (auto simp: b_def)
  define ctx1 where "ctx1 = Skein_512_Process_Block (ctx\<lparr>T1 := T1 ctx OR SKEIN_T1_FLAG_FINAL, skein_b := b\<rparr>) b 1 (bCnt ctx)"
  have X: "chain_X ctx1 = ubi SKEIN_T1_BLK_TYPE_MSG G M"
    using taken_in_final [OF assms(1)] by (simp add: ctx1_def b_def)
  then have l: "length (chain_X ctx1) = 8" using assms by (simp add: length_ubi)
  have "snd (Skein_512_Final ctx) = snd (skein_output (ctx1\<lparr>skein_b := replicate 64 0\<rparr>) (chain_X ctx1)
     ((hashBitLen ctx + 7) div 8) (((hashBitLen ctx + 7) div 8 + 63) div 64) 0)"
    using b len by (auto simp: Skein_512_Final_def Let_def ctx1_def b_def)
  then show ?thesis using l X by (simp add: skein_output_concat skein_out_def Let_def)
qed

section \<open>The calls\<close>

abbreviation skein_iv :: "nat \<Rightarrow> u64 list" where
  "skein_iv bits \<equiv> ubi SKEIN_T1_BLK_TYPE_CFG (replicate 8 0) (config_bytes bits)"

lemma length_skein_iv: "length (skein_iv bits) = 8"
  by (rule length_ubi) simp

lemma taken_in_start:
  assumes "length (skein_b ctx) = 64" "chain_X ctx = G" "length G = 8"
  shows "taken_in G [] (Skein_Start_New_Type ctx SKEIN_T1_BLK_TYPE_MSG)"
  using assms by (simp add: taken_in_def chained_def Skein_Start_New_Type_def ubi_chain_def ubi_tweak1_def)

lemma init_taken_in:
  assumes "length (skein_b junk) = 64"
  shows "taken_in (skein_iv bits) [] (Skein_512_Init junk bits)" "hashBitLen (Skein_512_Init junk bits) = bits"
proof -
  define cfg where "cfg = state_bytes ([SKEIN_SCHEMA_VER, of_nat bits, SKEIN_CFG_TREE_INFO_SEQUENTIAL] @ replicate 5 0)"
  have five: "[SKEIN_SCHEMA_VER, of_nat bits, SKEIN_CFG_TREE_INFO_SEQUENTIAL] @ replicate 5 (0 :: u64) =
      [SKEIN_SCHEMA_VER, of_nat bits, SKEIN_CFG_TREE_INFO_SEQUENTIAL, 0, 0, 0, 0, 0]"
    by (simp add: numeral_eq_Suc)
  have cfg: "take 64 cfg = cfg" "cfg = state_bytes [SKEIN_SCHEMA_VER, of_nat bits, SKEIN_CFG_TREE_INFO_SEQUENTIAL, 0, 0, 0, 0, 0]"
    by (simp add: cfg_def) (simp only: cfg_def five)
  define ctx where "ctx = (Skein_Start_New_Type (junk\<lparr>hashBitLen := bits\<rparr>) SKEIN_T1_BLK_TYPE_CFG_FINAL)\<lparr>chain_X := replicate 8 0\<rparr>"
  have t: "T1 ctx = 0xC400000000000000" "T0 ctx = 0" "length (chain_X ctx) = 8" "chain_X ctx = replicate 8 0"
    "skein_b ctx = skein_b junk" "hashBitLen ctx = bits"
    by (simp_all add: ctx_def Skein_Start_New_Type_def SKEIN_T1_BLK_TYPE_CFG_FINAL_def SKEIN_T1_BLK_TYPE_CFG_def
        SKEIN_T1_FLAG_FIRST_def SKEIN_T1_FLAG_FINAL_def)
  have "chain_X (Skein_512_Process_Block ctx cfg 1 SKEIN_CFG_STR_LEN) = skein_iv bits"
    using t cfg config_chain [of bits] by (simp add: skein_block_eq SKEIN_CFG_STR_LEN_def)
  then have "chain_X (if bits = 256 then junk\<lparr>hashBitLen := bits, chain_X := SKEIN_512_IV_256\<rparr>
      else Skein_512_Process_Block ctx cfg 1 SKEIN_CFG_STR_LEN) = skein_iv bits"
    using iv_256 by simp
  moreover have "Skein_512_Init junk bits = Skein_Start_New_Type (if bits = 256 then junk\<lparr>hashBitLen := bits, chain_X := SKEIN_512_IV_256\<rparr>
      else Skein_512_Process_Block ctx cfg 1 SKEIN_CFG_STR_LEN) SKEIN_T1_BLK_TYPE_MSG"
    unfolding Skein_512_Init_def Let_def cfg_def [symmetric] by (simp add: ctx_def)
  moreover have "hashBitLen (Skein_Start_New_Type c ty) = hashBitLen c" for c ty by (simp add: Skein_Start_New_Type_def)
  ultimately show "taken_in (skein_iv bits) [] (Skein_512_Init junk bits)" "hashBitLen (Skein_512_Init junk bits) = bits"
    using assms t length_skein_iv by (auto intro!: taken_in_start)
qed

lemma update_hashBitLen [simp]: "hashBitLen (Skein_512_Update ctx msg n) = hashBitLen ctx"
  by (simp add: Skein_512_Update_def Let_def skein_fill_def)

lemma taken_in_update:
  assumes "taken_in G M ctx" "n \<le> length data"
  shows "taken_in G (M @ take n data) (Skein_512_Update ctx data n)"
  using taken_in_update_bs [OF assms(1), where bs = "take n data" and rest = "drop n data" and n = n] assms(2) by simp

text \<open>C4: whatever the stack holds, for every number of output bits and every message of whole bytes, skein_hash is the
  specification: the configuration block gives the initial value (the stored one for 256 bits), the message is
  chained through Threefish-512 in blocks, whatever its length is, and the counter mode makes the output.\<close>
theorem skein_hash_is_spec:
  assumes "length (skein_b junk) = 64" "n \<le> length data"
  shows "skein_hash junk bits data (8 * n) = skein_spec bits (take n data)"
proof -
  have "taken_in (skein_iv bits) (take n data) (Skein_512_Update (Skein_512_Init junk bits) data n)"
    using taken_in_update [OF init_taken_in(1) [OF assms(1)] assms(2), of bits] by simp
  then show ?thesis
    using taken_in_output [OF _ length_skein_iv] init_taken_in(2) [OF assms(1)]
    by (simp add: skein_hash_def skein_Update_def skein_spec_def)
qed

theorem skein_hash_is_spec_witness:
  "skein_hash \<lparr>hashBitLen = 7, bCnt = 5, T0 = 1, T1 = 2, chain_X = [], skein_b = replicate 64 9\<rparr> 512 [1, 2, 3, 4] (8 * 3) =
    skein_spec 512 [1, 2, 3]"
  using skein_hash_is_spec [of "\<lparr>hashBitLen = 7, bCnt = 5, T0 = 1, T1 = 2, chain_X = [], skein_b = replicate 64 9\<rparr>" 3 "[1, 2, 3, 4]" 512]
  by simp

text \<open>C38: a message given to Skein in two calls of skein_Update, cut anywhere between bytes, gives the digest of the
  whole message: the lazily emptied buffer loses nothing.\<close>
theorem skein_Update_streams:
  assumes "length (skein_b junk) = 64" "m \<le> length a" "n \<le> length b"
  shows "snd (Skein_512_Final (skein_Update (skein_Update (Skein_512_Init junk bits) a (8 * m)) b (8 * n))) =
    skein_spec bits (take m a @ take n b)"
proof -
  have "taken_in (skein_iv bits) (take m a @ take n b)
      (Skein_512_Update (Skein_512_Update (Skein_512_Init junk bits) a m) b n)"
    using taken_in_update [OF taken_in_update [OF init_taken_in(1) [OF assms(1)] assms(2), of bits] assms(3)] by simp
  then show ?thesis
    using taken_in_output [OF _ length_skein_iv] init_taken_in(2) [OF assms(1)]
    by (simp add: skein_Update_def skein_spec_def)
qed

theorem skein_Update_streams_witness:
  "snd (Skein_512_Final (skein_Update (skein_Update (Skein_512_Init
      \<lparr>hashBitLen = 0, bCnt = 0, T0 = 0, T1 = 0, chain_X = [], skein_b = replicate 64 0\<rparr> 256) [1, 2] (8 * 2)) [3, 4] (8 * 1))) =
    skein_spec 256 [1, 2, 3]"
  using skein_Update_streams [of "\<lparr>hashBitLen = 0, bCnt = 0, T0 = 0, T1 = 0, chain_X = [], skein_b = replicate 64 0\<rparr>" 2 "[1, 2]" 1 "[3, 4]" 256]
  by simp

lemma xmr_skein_hash: "xmr_skein junk data = skein_hash junk 256 data (8 * 200)"
  by (simp add: xmr_skein_def skein_hash_def XMR_HASHBITLEN_def XMR_DATABITLEN_def skein_Update_def Skein_512_Init_def)

lemma xmr_skein_is_spec:
  assumes "length (skein_b junk) = 64" "200 \<le> length data"
  shows "xmr_skein junk data = skein_spec 256 (take 200 data)"
proof -
  have "taken_in (skein_iv 256) (take 200 data) (Skein_512_Update (Skein_512_Init junk 256) data 200)"
    using taken_in_update [OF init_taken_in(1) [OF assms(1)] assms(2), of 256] by simp
  then show ?thesis
    using taken_in_output [OF _ length_skein_iv] init_taken_in(2) [OF assms(1)]
    by (simp add: xmr_skein_hash skein_hash_def skein_Update_def skein_spec_def)
qed

end
