(* ===== verification/CryptoNight_Hash.thy ===== *)
theory CryptoNight_Hash
  imports CryptoNight_Lanes Groestl_Hash Jh_Correct Skein_Hash Blake256_Final
begin

text \<open>
  CryptoNight as a function of one blob, and the proof that the class template and its five
  specialisations give its digest for every lane, whatever the context and the stack held before.
\<close>

section \<open>Filling a pad\<close>

lemma pads_update:
  assumes "pads n num mem f" "k < num" "j < n"
  shows "pads n num (mem[k * n + j := v]) (f(k := (f k)[j := v]))"
  using assms update_put [of k num n mem j v] pads_put(1) [of n num mem f k "(f k)[j := v]"] pads_length [of n num mem f k]
  by (simp add: pads_def)

lemma store_blocks_lane:
  assumes "pads n num mem f" "k < num" "pos + 8 \<le> n"
  shows "pads n num (store_blocks (k * n + pos) xs mem) (f(k := store_blocks pos xs (f k)))"
proof -
  have "pads n num (fold (\<lambda>j mem. mem[k * n + pos + j := xs ! j]) js mem)
      (f(k := fold (\<lambda>j mem. mem[pos + j := xs ! j]) js (f k)))" if "pads n num mem f" "\<forall>j \<in> set js. j < 8" for js mem f
    using that
  proof (induction js arbitrary: mem f)
    case (Cons j js)
    have "pads n num (mem[k * n + (pos + j) := xs ! j]) (f(k := (f k)[pos + j := xs ! j]))"
      using Cons.prems assms(2,3) by (intro pads_update) auto
    from Cons.IH [OF this] Cons.prems(2) show ?case by (auto simp: add.assoc elim!: pads_upto)
  qed simp
  from this [OF assms(1), of "[0..<8]"] show ?thesis by (simp add: store_blocks_def)
qed

lemma store_blocks_eq:
  assumes "pos + 8 \<le> length p" "length xs = 8"
  shows "store_blocks pos xs p = take pos p @ xs @ drop (pos + 8) p"
proof -
  have "fold (\<lambda>j mem. mem[pos + j := xs ! j]) [0..<j] p = take pos p @ take j xs @ drop (pos + j) p" if "j \<le> 8" for j
    using that
  proof (induction j)
    case (Suc j)
    have "drop (pos + j) p = p ! (pos + j) # drop (Suc (pos + j)) p"
      using Suc.prems assms(1) by (intro Cons_nth_drop_Suc [symmetric]) simp
    then show ?case using Suc assms
      by (simp add: list_update_append take_Suc_conv_app_nth split: nat.split)
  qed simp
  from this [of 8] assms show ?thesis by (simp add: store_blocks_def)
qed

lemma length_rounds [simp]: "length (cn_rounds SOFT_AES isa ks xs) = length xs"
proof -
  have "length (aes_round SOFT_AES isa k xs) = length xs" for k xs by (simp add: aes_round_def)
  then show ?thesis by (induction ks arbitrary: xs) (simp_all add: cn_rounds_def)
qed

definition explode_loop :: "bool \<Rightarrow> aes_isa \<Rightarrow> m128i list \<Rightarrow> nat \<Rightarrow> nat \<Rightarrow> m128i list \<times> m128i list \<Rightarrow> m128i list \<times> m128i list" where
  "explode_loop SOFT_AES isa ks l m =
    fold (\<lambda>i (xin, mem). let xin = cn_rounds SOFT_AES isa ks xin in (xin, store_blocks (l + i) xin mem)) (map ((*) 8) [0..<m])"

lemma explode_loop_simps:
  "explode_loop S isa ks l 0 st = st"
  "explode_loop S isa ks l (Suc m) st = (let x = cn_rounds S isa ks (fst (explode_loop S isa ks l m st))
     in (x, store_blocks (l + 8 * m) x (snd (explode_loop S isa ks l m st))))"
  by (simp_all add: explode_loop_def split_beta)

lemma explode_loop_lane:
  assumes "pads n num mem f" "k < num" "8 * m \<le> n"
  shows "fst (explode_loop S isa ks (k * n) m (xin, mem)) = fst (explode_loop S isa ks 0 m (xin, f k)) \<and>
    pads n num (snd (explode_loop S isa ks (k * n) m (xin, mem))) (f(k := snd (explode_loop S isa ks 0 m (xin, f k))))"
  using assms(3)
proof (induction m)
  case (Suc m)
  then have "8 * m \<le> n" by simp
  note IH = Suc.IH [OF this]
  define B where "B = snd (explode_loop S isa ks 0 m (xin, f k))"
  define x where "x = cn_rounds S isa ks (fst (explode_loop S isa ks 0 m (xin, f k)))"
  have st: "pads n num (store_blocks (k * n + 8 * m) x (snd (explode_loop S isa ks (k * n) m (xin, mem))))
      (f(k := store_blocks (8 * m) x B))"
    using pads_upto [OF store_blocks_lane [OF IH [THEN conjunct2] assms(2), of "8 * m" x]] Suc.prems
    by (simp add: B_def)
  show ?case
    unfolding explode_loop_simps(2) Let_def fst_conv snd_conv IH [THEN conjunct1] x_def [symmetric] B_def [symmetric] add_0
    using st by (intro conjI refl)
qed (simp add: assms explode_loop_simps)

lemma explode_loop_fills:
  assumes "length p = n" "length p' = n" "length xin = 8" "8 * m \<le> n"
  shows "fst (explode_loop S isa ks 0 m (xin, p)) = fst (explode_loop S isa ks 0 m (xin, p')) \<and>
      length (fst (explode_loop S isa ks 0 m (xin, p))) = 8 \<and>
      length (snd (explode_loop S isa ks 0 m (xin, p))) = n \<and> length (snd (explode_loop S isa ks 0 m (xin, p'))) = n \<and>
      take (8 * m) (snd (explode_loop S isa ks 0 m (xin, p))) = take (8 * m) (snd (explode_loop S isa ks 0 m (xin, p')))"
  using assms(4)
proof (induction m)
  case (Suc m)
  define x q q' where "x = fst (explode_loop S isa ks 0 m (xin, p))" and "q = snd (explode_loop S isa ks 0 m (xin, p))"
    and "q' = snd (explode_loop S isa ks 0 m (xin, p'))"
  from Suc have IH: "fst (explode_loop S isa ks 0 m (xin, p')) = x" "length x = 8" "length q = n" "length q' = n"
    "take (8 * m) q = take (8 * m) q'" unfolding x_def q_def q'_def by auto
  have s: "store_blocks (8 * m) (cn_rounds S isa ks x) r = take (8 * m) r @ cn_rounds S isa ks x @ drop (8 * m + 8) r"
    if "length r = n" for r using Suc.prems that IH(2) by (intro store_blocks_eq) simp_all
  have "explode_loop S isa ks 0 (Suc m) (xin, p) = (cn_rounds S isa ks x, take (8 * m) q @ cn_rounds S isa ks x @ drop (8 * m + 8) q)"
    "explode_loop S isa ks 0 (Suc m) (xin, p') = (cn_rounds S isa ks x, take (8 * m) q' @ cn_rounds S isa ks x @ drop (8 * m + 8) q')"
    using IH s by (simp_all add: explode_loop_simps Let_def x_def [symmetric] q_def [symmetric] q'_def [symmetric])
  then show ?case using IH Suc.prems by simp
qed (simp add: assms explode_loop_simps)

text \<open>The pad of a lane after the expansion of its row.\<close>

definition cn_fill :: "nat \<Rightarrow> bool \<Rightarrow> aes_isa \<Rightarrow> u64 list \<Rightarrow> m128i list" where
  "cn_fill MEM SOFT_AES isa h = cn_explode_scratchpad MEM SOFT_AES isa h 0 (replicate (MEM div 16) 0)"

lemma explode_any:
  assumes "length p = MEM div 16" "MEM = 128 * m"
  shows "cn_explode_scratchpad MEM S isa h 0 p = cn_fill MEM S isa h"
proof -
  have m: "(MEM div 16 + 7) div 8 = m" "8 * m = MEM div 16" using assms(2) by simp_all
  define ks where "ks = aes_genkey S isa (row_block h 0) (row_block h 1)"
  define xin where "xin = map (row_block h) [4, 5, 6, 7, 8, 9, 10, 11]"
  have e: "cn_explode_scratchpad MEM S isa h 0 q = snd (explode_loop S isa ks 0 m (xin, q))" for q
    unfolding cn_explode_scratchpad_def explode_loop_def Let_def m(1) ks_def xin_def by (rule refl)
  have "length xin = 8" by (simp add: xin_def)
  from explode_loop_fills [OF assms(1) _ this, of "replicate (MEM div 16) 0" m S isa ks] show ?thesis
    using m(2) by (auto simp: e cn_fill_def)
qed

lemma explode_lane:
  assumes "pads (MEM div 16) num mem f" "MEM = 128 * m" "k < num" "l = k * (MEM div 16)"
  shows "pads (MEM div 16) num (cn_explode_scratchpad MEM S isa h l mem) (f(k := cn_fill MEM S isa h))"
proof -
  have m: "(MEM div 16 + 7) div 8 = m" "8 * m = MEM div 16" using assms(2) by simp_all
  define ks where "ks = aes_genkey S isa (row_block h 0) (row_block h 1)"
  define xin where "xin = map (row_block h) [4, 5, 6, 7, 8, 9, 10, 11]"
  have e: "cn_explode_scratchpad MEM S isa h l q = snd (explode_loop S isa ks l m (xin, q))" for l q
    unfolding cn_explode_scratchpad_def explode_loop_def Let_def m(1) ks_def xin_def by (rule refl)
  have "pads (MEM div 16) num (cn_explode_scratchpad MEM S isa h l mem)
      (f(k := cn_explode_scratchpad MEM S isa h 0 (f k)))"
    using explode_loop_lane [OF assms(1,3), of m S isa ks xin] m(2) by (simp add: e assms(4))
  then show ?thesis by (simp only: explode_any [OF pads_length [OF assms(1,3)] assms(2)])
qed

lemma explode_length:
  "length (cn_explode_scratchpad MEM S isa h l mem) = length mem"
proof -
  have "length (store_blocks pos xs mem) = length mem" for pos and xs mem :: "m128i list"
  proof -
    have "length (fold (\<lambda>j mem. mem[pos + j := xs ! j]) js mem) = length mem" for js
      by (induction js arbitrary: mem) simp_all
    then show ?thesis by (simp add: store_blocks_def)
  qed
  then have "length (snd (fold (\<lambda>i (xin, mem). let xin = cn_rounds S isa ks xin in (xin, store_blocks (l + i) xin mem)) is x)) =
      length (snd x)" for ks "is" x
    by (induction "is" arbitrary: x) (simp_all add: split_beta Let_def)
  then show ?thesis by (simp add: cn_explode_scratchpad_def Let_def)
qed

lemma implode_lane:
  assumes "pads (MEM div 16) num mem f" "MEM = 128 * m" "k < num" "l = k * (MEM div 16)"
  shows "cn_implode_scratchpad MEM S isa mem l h = cn_implode_scratchpad MEM S isa (f k) 0 h"
proof -
  have m: "(MEM div 16 + 7) div 8 = m" "8 * m = MEM div 16" using assms(2) by simp_all
  have "mem ! (l + i + j) = f k ! (0 + i + j)" if "i \<in> set (map ((*) 8) [0..<m])" "j < 8" for i j
  proof -
    have "i + j < MEM div 16" using that m(2) by auto
    then show ?thesis using assms nth_pad [of k num "MEM div 16" mem "i + j"] by (simp add: pads_def add.assoc)
  qed
  then have "fold (\<lambda>i xout. cn_rounds S isa ks (map (\<lambda>j. mm_xor_si128 (mem ! (l + i + j)) (xout ! j)) [0..<8])) (map ((*) 8) [0..<m]) x =
      fold (\<lambda>i xout. cn_rounds S isa ks (map (\<lambda>j. mm_xor_si128 (f k ! (0 + i + j)) (xout ! j)) [0..<8])) (map ((*) 8) [0..<m]) x" for ks x
    by (intro fold_cong [OF refl refl] ext arg_cong [of _ _ "cn_rounds S isa ks"] map_cong [OF refl]) auto
  then show ?thesis unfolding cn_implode_scratchpad_def Let_def m(1) by simp
qed

section \<open>Rows\<close>

text \<open>Only the first 25 words of a row take part.\<close>

lemma row_block_append: "length r = 25 \<Longrightarrow> i < 12 \<Longrightarrow> row_block (r @ x) i = row_block r i"
  by (simp add: row_block_def nth_append)

lemma explode_row: "length r = 25 \<Longrightarrow> cn_explode_scratchpad MEM S isa (r @ x) l mem = cn_explode_scratchpad MEM S isa r l mem"
  by (simp add: cn_explode_scratchpad_def row_block_append)

lemma lane_init_row: "length r = 25 \<Longrightarrow> cn_lane_init (r @ x) = cn_lane_init r"
  by (simp add: cn_lane_init_def nth_append)

lemma length_store_row [simp]: "length (store_row_block i v h) = length h"
  by (simp add: store_row_block_def)

lemma length_implode [simp]: "length (cn_implode_scratchpad MEM S isa mem l h) = length h"
proof -
  have "length (fold (\<lambda>j. store_row_block (4 + j) (xs ! j)) js h) = length h" for xs js
    by (induction js arbitrary: h) simp_all
  then show ?thesis by (simp add: cn_implode_scratchpad_def Let_def)
qed

lemma implode_row:
  assumes "length r = 25"
  shows "cn_implode_scratchpad MEM S isa mem l (r @ x) = cn_implode_scratchpad MEM S isa mem l r @ x"
proof -
  have "fold (\<lambda>j. store_row_block (4 + j) (xs ! j)) js (r @ x) = fold (\<lambda>j. store_row_block (4 + j) (xs ! j)) js r @ x"
    if "length r = 25" "\<forall>j \<in> set js. j < 8" for xs js r
    using that by (induction js arbitrary: r) (simp_all add: store_row_block_def list_update_append)
  then show ?thesis using assms by (simp add: cn_implode_scratchpad_def Let_def row_block_append)
qed

lemma keccakf_row: "length r = 25 \<Longrightarrow> cn_keccakf (r @ x) = keccakf r 24 @ x"
  by (simp add: cn_keccakf_def)

section \<open>The hash of one blob\<close>

text \<open>
  CryptoNight as a function of the blob alone: Keccak of the blob, a pad filled from its state, the iterations
  on the pad, the state updated from the pad, the permutation, and the hash its first bits choose.
\<close>

definition cn_state0 :: "byte list \<Rightarrow> u64 list" where
  "cn_state0 blob = map (\<lambda>i. word_of_le (take 8 (drop (8 * i) (keccak_spec 136 200 blob)))) [0..<25]"

definition final_hash :: "nat \<Rightarrow> byte list \<Rightarrow> byte list" where
  "final_hash i m =
    (if i = 0 then blake_spec iv256 0x01 m else if i = 1 then groestl_spec m 1600
     else if i = 2 then jh_spec 256 m 1600 else skein_spec 256 m)"

definition cn_slow_hash :: "nat \<Rightarrow> nat \<Rightarrow> u64 \<Rightarrow> bool \<Rightarrow> aes_isa \<Rightarrow> byte list \<Rightarrow> byte list" where
  "cn_slow_hash ITERATIONS MEM MASK SOFT_AES isa blob =
    (let r = cn_state0 blob;
         (v, p) = (cn_iter1 MASK SOFT_AES isa 0 ^^ ITERATIONS) (cn_lane_init r, cn_fill MEM SOFT_AES isa r);
         r = keccakf (cn_implode_scratchpad MEM SOFT_AES isa p 0 r) 24
     in final_hash (unat (r ! 0 AND 3)) (state_bytes r))"

definition junk_ok :: "extra_junk \<Rightarrow> bool" where
  "junk_ok J \<longleftrightarrow> length (blake_junk J) = 64 \<and> length (groestl_buffer (groestl_junk J)) = 64 \<and>
    length (jh_buffer (jh_junk J)) = 64 \<and> length (skein_b (skein_junk J)) = 64"

text \<open>A context with room for the lanes: rows of 208 bytes and the memory of their pads.\<close>

definition ctx_ok :: "nat \<Rightarrow> nat \<Rightarrow> cryptonight_ctx \<Rightarrow> bool" where
  "ctx_ok num MEM ctx \<longleftrightarrow> num \<le> length (cn_state ctx) \<and> (\<forall>row \<in> set (cn_state ctx). length row = 26) \<and>
    num * (MEM div 16) \<le> length (cn_memory ctx)"

lemma length_state0 [simp]: "length (cn_state0 blob) = 25"
  by (simp add: cn_state0_def)

lemma cn_keccak_row: "cn_keccak blob row = cn_state0 blob @ drop 25 row"
proof -
  have "keccak_rsiz 200 = Some 136" by (simp add: keccak_rsiz_def HASH_DATA_AREA_def)
  then have "keccak blob 200 = Some (keccak_spec 136 200 blob)" by (rule keccak_sponge) simp
  then show ?thesis by (simp add: cn_keccak_def cn_state0_def)
qed

lemma extra_hash_row:
  assumes "junk_ok J" "length r = 25"
  shows "cn_extra_hash J (r @ x) = final_hash (unat (r ! 0 AND 3)) (state_bytes r)"
proof -
  define m where "m = state_bytes (r @ x)"
  have m: "take 200 m = state_bytes r" "200 \<le> length m"
    using assms(2) by (simp_all add: m_def state_bytes_append)
  have w: "(r @ x) ! 0 = r ! 0" using assms(2) by (simp add: nth_append)
  have "unat (r ! 0 AND 3) \<le> unat (3 :: u64)" using word_and_le1 [of "r ! 0" 3] by (simp only: word_le_nat_alt)
  then have "unat (r ! 0 AND 3) \<in> {0, 1, 2, 3}" by auto
  moreover have "do_blake_hash J m 200 = final_hash 0 (state_bytes r)"
    using assms m hash256 [of "blake_junk J" "state_bytes r"] by (simp add: do_blake_hash_def final_hash_def junk_ok_def)
  moreover have "do_groestl_hash J m 200 = final_hash 1 (state_bytes r)"
    using assms m groestl_spec_eq [of "groestl_junk J" 1600 m] groestl_spec_take [of 200 m]
    by (simp add: do_groestl_hash_def final_hash_def junk_ok_def)
  moreover have "do_jh_hash J m 200 = final_hash 2 (state_bytes r)"
    using assms m jh_spec_eq [of "jh_junk J" 1600 m 256] jh_spec_take [of 256 200 m]
    by (simp add: do_jh_hash_def final_hash_def junk_ok_def)
  moreover have "do_skein_hash J m 200 = final_hash 3 (state_bytes r)"
    using assms m xmr_skein_is_spec [of "skein_junk J" m] by (simp add: do_skein_hash_def final_hash_def junk_ok_def)
  ultimately show ?thesis
    by (auto simp: cn_extra_hash_def w m_def [symmetric] extra_hashes_def numeral_2_eq_2 numeral_3_eq_3)
qed

section \<open>The lanes of the class template\<close>

lemma cn_blob_0: "take (nat (int_size sz)) input = cn_blob input sz 0" "take (nat (int_size sz)) (drop sz input) = cn_blob input sz (Suc 0)"
  by (simp_all add: cn_blob_def)

text \<open>The end of a lane, after the loop.\<close>

lemma lane_output:
  assumes "pads (MEM div 16) num mem g" "MEM = 128 * m" "k < num" "l = k * (MEM div 16)" "junk_ok J"
    and "g k = snd ((cn_iter1 MASK S isa 0 ^^ ITERATIONS) (cn_lane_init (cn_state0 blob), cn_fill MEM S isa (cn_state0 blob)))"
  shows "cn_extra_hash J (cn_keccakf (cn_implode_scratchpad MEM S isa mem l (cn_state0 blob @ x))) =
      cn_slow_hash ITERATIONS MEM MASK S isa blob"
    "length (cn_keccakf (cn_implode_scratchpad MEM S isa mem l (cn_state0 blob @ x))) = 25 + length x"
proof -
  define r where "r = cn_implode_scratchpad MEM S isa (g k) 0 (cn_state0 blob)"
  have r: "length r = 25" "length (keccakf r 24) = 25" by (simp_all add: r_def)
  have "cn_keccakf (cn_implode_scratchpad MEM S isa mem l (cn_state0 blob @ x)) = keccakf r 24 @ x"
    by (simp add: implode_lane [OF assms(1-4)] implode_row keccakf_row r_def)
  then show "cn_extra_hash J (cn_keccakf (cn_implode_scratchpad MEM S isa mem l (cn_state0 blob @ x))) =
      cn_slow_hash ITERATIONS MEM MASK S isa blob"
    "length (cn_keccakf (cn_implode_scratchpad MEM S isa mem l (cn_state0 blob @ x))) = 25 + length x"
    using extra_hash_row [OF assms(5) r(2)] r
    by (simp_all add: cn_slow_hash_def Let_def split_beta assms(6) [symmetric] r_def [symmetric])
qed

lemma ctx_pads: "ctx_ok num MEM ctx \<Longrightarrow> pads (MEM div 16) num (cn_memory ctx) (\<lambda>k. pad (MEM div 16) k (cn_memory ctx))"
  by (simp add: ctx_ok_def pads_def)

lemma ctx_row: "ctx_ok num MEM ctx \<Longrightarrow> k < num \<Longrightarrow> length (drop 25 (cn_state ctx ! k)) = 1"
  by (simp add: ctx_ok_def)

text \<open>What the calls leave: the context keeps its shape.\<close>

definition same_shape :: "cryptonight_ctx \<Rightarrow> cryptonight_ctx \<Rightarrow> bool" where
  "same_shape ctx ctx' \<longleftrightarrow> length (cn_state ctx') = length (cn_state ctx) \<and> length (cn_memory ctx') = length (cn_memory ctx) \<and>
    ((\<forall>row \<in> set (cn_state ctx). length row = 26) \<longrightarrow> (\<forall>row \<in> set (cn_state ctx'). length row = 26))"

lemma same_shape_ok: "same_shape ctx ctx' \<Longrightarrow> ctx_ok num MEM ctx \<Longrightarrow> ctx_ok num MEM ctx'"
  by (auto simp: same_shape_def ctx_ok_def)

lemma rows_update: "\<forall>row \<in> set rows. length row = 26 \<Longrightarrow> length h = 26 \<Longrightarrow> \<forall>row \<in> set (rows[k := h]). length row = 26"
  using set_update_subset_insert [of rows k h] by auto

lemma CryptoNightMultiHash_1_lanes:
  assumes M: "MEM = 128 * m" "unat MASK div 16 < MEM div 16" and J: "junk_ok J" and Z: "\<not> int_size sz < 0" and C: "ctx_ok 1 MEM ctx"
  shows "\<exists>ctx'. CryptoNightMultiHash_1 ITERATIONS MEM MASK S isa J input sz ctx =
    Some (concat (map (\<lambda>k. cn_slow_hash ITERATIONS MEM MASK S isa (cn_blob input sz k)) [0..<1]), ctx') \<and> same_shape ctx ctx'"
proof -
  define r0 x0 where "r0 = cn_state0 (cn_blob input sz 0)" and "x0 = drop 25 (cn_state ctx ! 0)"
  have lr: "length r0 = 25" by (simp_all add: r0_def)
  define m0 where "m0 = cn_explode_scratchpad MEM S isa r0 (0) (cn_memory ctx)"
  have P0: "pads (MEM div 16) 1 m0 ((\<lambda>k. pad (MEM div 16) k (cn_memory ctx))(0 := cn_fill MEM S isa r0))"
    unfolding m0_def by (rule explode_lane [OF ctx_pads [OF C] M(1)]) simp_all
  have lm: "length m0 = length (cn_memory ctx)" by (simp add: m0_def explode_length)
  obtain vs' mem' where loop: "((cn_iter1 MASK S isa 0) ^^ ITERATIONS) (cn_lane_init r0, m0) = (vs', mem')" "length mem' = length m0"
    "pads (MEM div 16) 1 mem' (\<lambda>k. snd ((cn_iter1 MASK S isa 0 ^^ ITERATIONS) (cn_lane_init r0, ((\<lambda>k. pad (MEM div 16) k (cn_memory ctx))(0 := cn_fill MEM S isa r0)) k)))"
    using lanes1.loop_lanes [OF M(2) TrueI P0, where vs = "cn_lane_init r0" and SOFT_AES = S and isa = isa and i = ITERATIONS] by blast
  define h0 where "h0 = cn_keccakf (cn_implode_scratchpad MEM S isa mem' (0) (r0 @ x0))"
  have h0: "cn_extra_hash J h0 = cn_slow_hash ITERATIONS MEM MASK S isa (cn_blob input sz 0)" "length h0 = 26"
    unfolding h0_def r0_def using lane_output [OF loop(3) M(1), where k = 0 and l = "0" and J = J and S = S and isa = isa and MASK = MASK and ITERATIONS = ITERATIONS and blob = "cn_blob input sz 0" and x = x0] J ctx_row [OF C, of 0]
    by (simp_all add: r0_def x0_def)
  define ctx' where "ctx' = ctx\<lparr>cn_state := (cn_state ctx)[0 := h0], cn_memory := mem'\<rparr>"
  have k: "cn_keccak (take (nat (int_size sz)) input) (cn_state ctx ! 0) = r0 @ x0"
    by (simp_all add: cn_keccak_row cn_blob_def r0_def x0_def)
  have "CryptoNightMultiHash_1 ITERATIONS MEM MASK S isa J input sz ctx = Some (cn_extra_hash J h0, ctx')"
    unfolding CryptoNightMultiHash_1_def if_not_P [OF Z] Let_def k
    by (simp only: lane_init_row [OF lr(1)] explode_row [OF lr(1)] lane_init_row [OF lr(1)] m0_def [symmetric] loop(1) prod.case h0_def [symmetric] ctx'_def [symmetric])
  moreover have "same_shape ctx ctx'"
    using loop(2) lm h0(2) unfolding same_shape_def ctx'_def by (intro conjI impI) (simp_all, intro rows_update, simp_all)
  moreover have "[0..<1] = [0 :: nat]" by (simp add: upt_rec)
  ultimately show ?thesis by (simp add: h0(1))
qed

lemma CryptoNightMultiHash_2_lanes:
  assumes M: "MEM = 128 * m" "unat MASK div 16 < MEM div 16" and J: "junk_ok J" and Z: "\<not> int_size sz < 0" and C: "ctx_ok 2 MEM ctx"
  shows "\<exists>ctx'. CryptoNightMultiHash_2 ITERATIONS MEM MASK S isa J input sz ctx =
    Some (concat (map (\<lambda>k. cn_slow_hash ITERATIONS MEM MASK S isa (cn_blob input sz k)) [0..<2]), ctx') \<and> same_shape ctx ctx'"
proof -
  define r0 x0 where "r0 = cn_state0 (cn_blob input sz 0)" and "x0 = drop 25 (cn_state ctx ! 0)"
  define r1 x1 where "r1 = cn_state0 (cn_blob input sz 1)" and "x1 = drop 25 (cn_state ctx ! 1)"
  have lr: "length r0 = 25" "length r1 = 25" by (simp_all add: r0_def r1_def)
  define m0 where "m0 = cn_explode_scratchpad MEM S isa r0 (0) (cn_memory ctx)"
  define m1 where "m1 = cn_explode_scratchpad MEM S isa r1 (MEM div 16) (m0)"
  have P0: "pads (MEM div 16) 2 m0 ((\<lambda>k. pad (MEM div 16) k (cn_memory ctx))(0 := cn_fill MEM S isa r0))"
    unfolding m0_def by (rule explode_lane [OF ctx_pads [OF C] M(1)]) simp_all
  have P1: "pads (MEM div 16) 2 m1 ((\<lambda>k. pad (MEM div 16) k (cn_memory ctx))(0 := cn_fill MEM S isa r0, 1 := cn_fill MEM S isa r1))"
    unfolding m1_def by (rule explode_lane [OF P0 M(1)]) simp_all
  have lm: "length m1 = length (cn_memory ctx)" by (simp add: m0_def m1_def explode_length)
  obtain vs' mem' where loop: "((cn_iter2 MASK S isa 0 (MEM div 16)) ^^ ITERATIONS) ((cn_lane_init r0, cn_lane_init r1), m1) = (vs', mem')" "length mem' = length m1"
    "pads (MEM div 16) 2 mem' (\<lambda>k. snd ((cn_iter1 MASK S isa 0 ^^ ITERATIONS) (lanes_2 (cn_lane_init r0, cn_lane_init r1) k, ((\<lambda>k. pad (MEM div 16) k (cn_memory ctx))(0 := cn_fill MEM S isa r0, 1 := cn_fill MEM S isa r1)) k)))"
    using lanes2.loop_lanes [OF M(2) TrueI P1, where vs = "(cn_lane_init r0, cn_lane_init r1)" and SOFT_AES = S and isa = isa and i = ITERATIONS] by blast
  obtain w0 w1 where w: "vs' = (w0, w1)" by (metis prod.collapse)
  define h0 where "h0 = cn_keccakf (cn_implode_scratchpad MEM S isa mem' (0) (r0 @ x0))"
  have h0: "cn_extra_hash J h0 = cn_slow_hash ITERATIONS MEM MASK S isa (cn_blob input sz 0)" "length h0 = 26"
    unfolding h0_def r0_def using lane_output [OF loop(3) M(1), where k = 0 and l = "0" and J = J and S = S and isa = isa and MASK = MASK and ITERATIONS = ITERATIONS and blob = "cn_blob input sz 0" and x = x0] J ctx_row [OF C, of 0]
    by (simp_all add: r0_def x0_def)
  define h1 where "h1 = cn_keccakf (cn_implode_scratchpad MEM S isa mem' (MEM div 16) (r1 @ x1))"
  have h1: "cn_extra_hash J h1 = cn_slow_hash ITERATIONS MEM MASK S isa (cn_blob input sz 1)" "length h1 = 26"
    unfolding h1_def r1_def using lane_output [OF loop(3) M(1), where k = 1 and l = "MEM div 16" and J = J and S = S and isa = isa and MASK = MASK and ITERATIONS = ITERATIONS and blob = "cn_blob input sz 1" and x = x1] J ctx_row [OF C, of 1]
    by (simp_all add: r1_def x1_def)
  define ctx' where "ctx' = ctx\<lparr>cn_state := (cn_state ctx)[0 := h0, 1 := h1], cn_memory := mem'\<rparr>"
  have k: "cn_keccak (take (nat (int_size sz)) input) (cn_state ctx ! 0) = r0 @ x0" "cn_keccak (take (nat (int_size sz)) (drop sz input)) (cn_state ctx ! 1) = r1 @ x1"
    by (simp_all add: cn_keccak_row cn_blob_def r0_def x0_def r1_def x1_def)
  have "CryptoNightMultiHash_2 ITERATIONS MEM MASK S isa J input sz ctx = Some (cn_extra_hash J h0 @ cn_extra_hash J h1, ctx')"
    unfolding CryptoNightMultiHash_2_def if_not_P [OF Z] Let_def k
    by (simp only: lane_init_row [OF lr(1)] explode_row [OF lr(1)] lane_init_row [OF lr(1)] explode_row [OF lr(2)] lane_init_row [OF lr(2)] m0_def [symmetric] m1_def [symmetric] loop(1) w prod.case h0_def [symmetric] h1_def [symmetric] ctx'_def [symmetric])
  moreover have "same_shape ctx ctx'"
    using loop(2) lm h0(2) h1(2) unfolding same_shape_def ctx'_def by (intro conjI impI) (simp_all, intro rows_update, simp_all)
  moreover have "[0..<2] = [0 :: nat, 1]" by (simp add: upt_rec)
  ultimately show ?thesis by (simp add: h0(1) h1(1))
qed

lemma CryptoNightMultiHash_3_lanes:
  assumes M: "MEM = 128 * m" "unat MASK div 16 < MEM div 16" and J: "junk_ok J" and Z: "\<not> int_size sz < 0" and C: "ctx_ok 3 MEM ctx"
  shows "\<exists>ctx'. CryptoNightMultiHash_3 ITERATIONS MEM MASK S isa J input sz ctx =
    Some (concat (map (\<lambda>k. cn_slow_hash ITERATIONS MEM MASK S isa (cn_blob input sz k)) [0..<3]), ctx') \<and> same_shape ctx ctx'"
proof -
  define r0 x0 where "r0 = cn_state0 (cn_blob input sz 0)" and "x0 = drop 25 (cn_state ctx ! 0)"
  define r1 x1 where "r1 = cn_state0 (cn_blob input sz 1)" and "x1 = drop 25 (cn_state ctx ! 1)"
  define r2 x2 where "r2 = cn_state0 (cn_blob input sz 2)" and "x2 = drop 25 (cn_state ctx ! 2)"
  have lr: "length r0 = 25" "length r1 = 25" "length r2 = 25" by (simp_all add: r0_def r1_def r2_def)
  define m0 where "m0 = cn_explode_scratchpad MEM S isa r0 (0) (cn_memory ctx)"
  define m1 where "m1 = cn_explode_scratchpad MEM S isa r1 (MEM div 16) (m0)"
  define m2 where "m2 = cn_explode_scratchpad MEM S isa r2 (2 * (MEM div 16)) (m1)"
  have P0: "pads (MEM div 16) 3 m0 ((\<lambda>k. pad (MEM div 16) k (cn_memory ctx))(0 := cn_fill MEM S isa r0))"
    unfolding m0_def by (rule explode_lane [OF ctx_pads [OF C] M(1)]) simp_all
  have P1: "pads (MEM div 16) 3 m1 ((\<lambda>k. pad (MEM div 16) k (cn_memory ctx))(0 := cn_fill MEM S isa r0, 1 := cn_fill MEM S isa r1))"
    unfolding m1_def by (rule explode_lane [OF P0 M(1)]) simp_all
  have P2: "pads (MEM div 16) 3 m2 ((\<lambda>k. pad (MEM div 16) k (cn_memory ctx))(0 := cn_fill MEM S isa r0, 1 := cn_fill MEM S isa r1, 2 := cn_fill MEM S isa r2))"
    unfolding m2_def by (rule explode_lane [OF P1 M(1)]) simp_all
  have lm: "length m2 = length (cn_memory ctx)" by (simp add: m0_def m1_def m2_def explode_length)
  obtain vs' mem' where loop: "((cn_iter3 MASK S isa 0 (MEM div 16) (2 * (MEM div 16))) ^^ ITERATIONS) ((cn_lane_init r0, cn_lane_init r1, cn_lane_init r2), m2) = (vs', mem')" "length mem' = length m2"
    "pads (MEM div 16) 3 mem' (\<lambda>k. snd ((cn_iter1 MASK S isa 0 ^^ ITERATIONS) (lanes_3 (cn_lane_init r0, cn_lane_init r1, cn_lane_init r2) k, ((\<lambda>k. pad (MEM div 16) k (cn_memory ctx))(0 := cn_fill MEM S isa r0, 1 := cn_fill MEM S isa r1, 2 := cn_fill MEM S isa r2)) k)))"
    using lanes3.loop_lanes [OF M(2) TrueI P2, where vs = "(cn_lane_init r0, cn_lane_init r1, cn_lane_init r2)" and SOFT_AES = S and isa = isa and i = ITERATIONS] by blast
  obtain w0 w1 w2 where w: "vs' = (w0, w1, w2)" by (metis prod.collapse)
  define h0 where "h0 = cn_keccakf (cn_implode_scratchpad MEM S isa mem' (0) (r0 @ x0))"
  have h0: "cn_extra_hash J h0 = cn_slow_hash ITERATIONS MEM MASK S isa (cn_blob input sz 0)" "length h0 = 26"
    unfolding h0_def r0_def using lane_output [OF loop(3) M(1), where k = 0 and l = "0" and J = J and S = S and isa = isa and MASK = MASK and ITERATIONS = ITERATIONS and blob = "cn_blob input sz 0" and x = x0] J ctx_row [OF C, of 0]
    by (simp_all add: r0_def x0_def)
  define h1 where "h1 = cn_keccakf (cn_implode_scratchpad MEM S isa mem' (MEM div 16) (r1 @ x1))"
  have h1: "cn_extra_hash J h1 = cn_slow_hash ITERATIONS MEM MASK S isa (cn_blob input sz 1)" "length h1 = 26"
    unfolding h1_def r1_def using lane_output [OF loop(3) M(1), where k = 1 and l = "MEM div 16" and J = J and S = S and isa = isa and MASK = MASK and ITERATIONS = ITERATIONS and blob = "cn_blob input sz 1" and x = x1] J ctx_row [OF C, of 1]
    by (simp_all add: r1_def x1_def)
  define h2 where "h2 = cn_keccakf (cn_implode_scratchpad MEM S isa mem' (2 * (MEM div 16)) (r2 @ x2))"
  have h2: "cn_extra_hash J h2 = cn_slow_hash ITERATIONS MEM MASK S isa (cn_blob input sz 2)" "length h2 = 26"
    unfolding h2_def r2_def using lane_output [OF loop(3) M(1), where k = 2 and l = "2 * (MEM div 16)" and J = J and S = S and isa = isa and MASK = MASK and ITERATIONS = ITERATIONS and blob = "cn_blob input sz 2" and x = x2] J ctx_row [OF C, of 2]
    by (simp_all add: r2_def x2_def)
  define ctx' where "ctx' = ctx\<lparr>cn_state := (cn_state ctx)[0 := h0, 1 := h1, 2 := h2], cn_memory := mem'\<rparr>"
  have k: "cn_keccak (take (nat (int_size sz)) input) (cn_state ctx ! 0) = r0 @ x0" "cn_keccak (take (nat (int_size sz)) (drop sz input)) (cn_state ctx ! 1) = r1 @ x1" "cn_keccak (take (nat (int_size sz)) (drop (2 * sz) input)) (cn_state ctx ! 2) = r2 @ x2"
    by (simp_all add: cn_keccak_row cn_blob_def r0_def x0_def r1_def x1_def r2_def x2_def)
  have "CryptoNightMultiHash_3 ITERATIONS MEM MASK S isa J input sz ctx = Some (cn_extra_hash J h0 @ cn_extra_hash J h1 @ cn_extra_hash J h2, ctx')"
    unfolding CryptoNightMultiHash_3_def if_not_P [OF Z] Let_def k
    by (simp only: lane_init_row [OF lr(1)] explode_row [OF lr(1)] lane_init_row [OF lr(1)] explode_row [OF lr(2)] lane_init_row [OF lr(2)] explode_row [OF lr(3)] lane_init_row [OF lr(3)] m0_def [symmetric] m1_def [symmetric] m2_def [symmetric] loop(1) w prod.case h0_def [symmetric] h1_def [symmetric] h2_def [symmetric] ctx'_def [symmetric])
  moreover have "same_shape ctx ctx'"
    using loop(2) lm h0(2) h1(2) h2(2) unfolding same_shape_def ctx'_def by (intro conjI impI) (simp_all, intro rows_update, simp_all)
  moreover have "[0..<3] = [0 :: nat, 1, 2]" by (simp add: upt_rec)
  ultimately show ?thesis by (simp add: h0(1) h1(1) h2(1))
qed

lemma CryptoNightMultiHash_4_lanes:
  assumes M: "MEM = 128 * m" "unat MASK div 16 < MEM div 16" and J: "junk_ok J" and Z: "\<not> int_size sz < 0" and C: "ctx_ok 4 MEM ctx"
  shows "\<exists>ctx'. CryptoNightMultiHash_4 ITERATIONS MEM MASK S isa J input sz ctx =
    Some (concat (map (\<lambda>k. cn_slow_hash ITERATIONS MEM MASK S isa (cn_blob input sz k)) [0..<4]), ctx') \<and> same_shape ctx ctx'"
proof -
  define r0 x0 where "r0 = cn_state0 (cn_blob input sz 0)" and "x0 = drop 25 (cn_state ctx ! 0)"
  define r1 x1 where "r1 = cn_state0 (cn_blob input sz 1)" and "x1 = drop 25 (cn_state ctx ! 1)"
  define r2 x2 where "r2 = cn_state0 (cn_blob input sz 2)" and "x2 = drop 25 (cn_state ctx ! 2)"
  define r3 x3 where "r3 = cn_state0 (cn_blob input sz 3)" and "x3 = drop 25 (cn_state ctx ! 3)"
  have lr: "length r0 = 25" "length r1 = 25" "length r2 = 25" "length r3 = 25" by (simp_all add: r0_def r1_def r2_def r3_def)
  define m0 where "m0 = cn_explode_scratchpad MEM S isa r0 (0) (cn_memory ctx)"
  define m1 where "m1 = cn_explode_scratchpad MEM S isa r1 (MEM div 16) (m0)"
  define m2 where "m2 = cn_explode_scratchpad MEM S isa r2 (2 * (MEM div 16)) (m1)"
  define m3 where "m3 = cn_explode_scratchpad MEM S isa r3 (3 * (MEM div 16)) (m2)"
  have P0: "pads (MEM div 16) 4 m0 ((\<lambda>k. pad (MEM div 16) k (cn_memory ctx))(0 := cn_fill MEM S isa r0))"
    unfolding m0_def by (rule explode_lane [OF ctx_pads [OF C] M(1)]) simp_all
  have P1: "pads (MEM div 16) 4 m1 ((\<lambda>k. pad (MEM div 16) k (cn_memory ctx))(0 := cn_fill MEM S isa r0, 1 := cn_fill MEM S isa r1))"
    unfolding m1_def by (rule explode_lane [OF P0 M(1)]) simp_all
  have P2: "pads (MEM div 16) 4 m2 ((\<lambda>k. pad (MEM div 16) k (cn_memory ctx))(0 := cn_fill MEM S isa r0, 1 := cn_fill MEM S isa r1, 2 := cn_fill MEM S isa r2))"
    unfolding m2_def by (rule explode_lane [OF P1 M(1)]) simp_all
  have P3: "pads (MEM div 16) 4 m3 ((\<lambda>k. pad (MEM div 16) k (cn_memory ctx))(0 := cn_fill MEM S isa r0, 1 := cn_fill MEM S isa r1, 2 := cn_fill MEM S isa r2, 3 := cn_fill MEM S isa r3))"
    unfolding m3_def by (rule explode_lane [OF P2 M(1)]) simp_all
  have lm: "length m3 = length (cn_memory ctx)" by (simp add: m0_def m1_def m2_def m3_def explode_length)
  obtain vs' mem' where loop: "((cn_iter4 MASK S isa 0 (MEM div 16) (2 * (MEM div 16)) (3 * (MEM div 16))) ^^ ITERATIONS) ((cn_lane_init r0, cn_lane_init r1, cn_lane_init r2, cn_lane_init r3), m3) = (vs', mem')" "length mem' = length m3"
    "pads (MEM div 16) 4 mem' (\<lambda>k. snd ((cn_iter1 MASK S isa 0 ^^ ITERATIONS) (lanes_4 (cn_lane_init r0, cn_lane_init r1, cn_lane_init r2, cn_lane_init r3) k, ((\<lambda>k. pad (MEM div 16) k (cn_memory ctx))(0 := cn_fill MEM S isa r0, 1 := cn_fill MEM S isa r1, 2 := cn_fill MEM S isa r2, 3 := cn_fill MEM S isa r3)) k)))"
    using lanes4.loop_lanes [OF M(2) TrueI P3, where vs = "(cn_lane_init r0, cn_lane_init r1, cn_lane_init r2, cn_lane_init r3)" and SOFT_AES = S and isa = isa and i = ITERATIONS] by blast
  obtain w0 w1 w2 w3 where w: "vs' = (w0, w1, w2, w3)" by (metis prod.collapse)
  define h0 where "h0 = cn_keccakf (cn_implode_scratchpad MEM S isa mem' (0) (r0 @ x0))"
  have h0: "cn_extra_hash J h0 = cn_slow_hash ITERATIONS MEM MASK S isa (cn_blob input sz 0)" "length h0 = 26"
    unfolding h0_def r0_def using lane_output [OF loop(3) M(1), where k = 0 and l = "0" and J = J and S = S and isa = isa and MASK = MASK and ITERATIONS = ITERATIONS and blob = "cn_blob input sz 0" and x = x0] J ctx_row [OF C, of 0]
    by (simp_all add: r0_def x0_def)
  define h1 where "h1 = cn_keccakf (cn_implode_scratchpad MEM S isa mem' (MEM div 16) (r1 @ x1))"
  have h1: "cn_extra_hash J h1 = cn_slow_hash ITERATIONS MEM MASK S isa (cn_blob input sz 1)" "length h1 = 26"
    unfolding h1_def r1_def using lane_output [OF loop(3) M(1), where k = 1 and l = "MEM div 16" and J = J and S = S and isa = isa and MASK = MASK and ITERATIONS = ITERATIONS and blob = "cn_blob input sz 1" and x = x1] J ctx_row [OF C, of 1]
    by (simp_all add: r1_def x1_def)
  define h2 where "h2 = cn_keccakf (cn_implode_scratchpad MEM S isa mem' (2 * (MEM div 16)) (r2 @ x2))"
  have h2: "cn_extra_hash J h2 = cn_slow_hash ITERATIONS MEM MASK S isa (cn_blob input sz 2)" "length h2 = 26"
    unfolding h2_def r2_def using lane_output [OF loop(3) M(1), where k = 2 and l = "2 * (MEM div 16)" and J = J and S = S and isa = isa and MASK = MASK and ITERATIONS = ITERATIONS and blob = "cn_blob input sz 2" and x = x2] J ctx_row [OF C, of 2]
    by (simp_all add: r2_def x2_def)
  define h3 where "h3 = cn_keccakf (cn_implode_scratchpad MEM S isa mem' (3 * (MEM div 16)) (r3 @ x3))"
  have h3: "cn_extra_hash J h3 = cn_slow_hash ITERATIONS MEM MASK S isa (cn_blob input sz 3)" "length h3 = 26"
    unfolding h3_def r3_def using lane_output [OF loop(3) M(1), where k = 3 and l = "3 * (MEM div 16)" and J = J and S = S and isa = isa and MASK = MASK and ITERATIONS = ITERATIONS and blob = "cn_blob input sz 3" and x = x3] J ctx_row [OF C, of 3]
    by (simp_all add: r3_def x3_def)
  define ctx' where "ctx' = ctx\<lparr>cn_state := (cn_state ctx)[0 := h0, 1 := h1, 2 := h2, 3 := h3], cn_memory := mem'\<rparr>"
  have k: "cn_keccak (take (nat (int_size sz)) input) (cn_state ctx ! 0) = r0 @ x0" "cn_keccak (take (nat (int_size sz)) (drop sz input)) (cn_state ctx ! 1) = r1 @ x1" "cn_keccak (take (nat (int_size sz)) (drop (2 * sz) input)) (cn_state ctx ! 2) = r2 @ x2" "cn_keccak (take (nat (int_size sz)) (drop (3 * sz) input)) (cn_state ctx ! 3) = r3 @ x3"
    by (simp_all add: cn_keccak_row cn_blob_def r0_def x0_def r1_def x1_def r2_def x2_def r3_def x3_def)
  have "CryptoNightMultiHash_4 ITERATIONS MEM MASK S isa J input sz ctx = Some (cn_extra_hash J h0 @ cn_extra_hash J h1 @ cn_extra_hash J h2 @ cn_extra_hash J h3, ctx')"
    unfolding CryptoNightMultiHash_4_def if_not_P [OF Z] Let_def k
    by (simp only: lane_init_row [OF lr(1)] explode_row [OF lr(1)] lane_init_row [OF lr(1)] explode_row [OF lr(2)] lane_init_row [OF lr(2)] explode_row [OF lr(3)] lane_init_row [OF lr(3)] explode_row [OF lr(4)] lane_init_row [OF lr(4)] m0_def [symmetric] m1_def [symmetric] m2_def [symmetric] m3_def [symmetric] loop(1) w prod.case h0_def [symmetric] h1_def [symmetric] h2_def [symmetric] h3_def [symmetric] ctx'_def [symmetric])
  moreover have "same_shape ctx ctx'"
    using loop(2) lm h0(2) h1(2) h2(2) h3(2) unfolding same_shape_def ctx'_def by (intro conjI impI) (simp_all, intro rows_update, simp_all)
  moreover have "[0..<4] = [0 :: nat, 1, 2, 3]" by (simp add: upt_rec)
  ultimately show ?thesis by (simp add: h0(1) h1(1) h2(1) h3(1))
qed

lemma CryptoNightMultiHash_5_lanes:
  assumes M: "MEM = 128 * m" "unat MASK div 16 < MEM div 16" and J: "junk_ok J" and Z: "\<not> int_size sz < 0" and C: "ctx_ok 5 MEM ctx"
  shows "\<exists>ctx'. CryptoNightMultiHash_5 ITERATIONS MEM MASK S isa J input sz ctx =
    Some (concat (map (\<lambda>k. cn_slow_hash ITERATIONS MEM MASK S isa (cn_blob input sz k)) [0..<5]), ctx') \<and> same_shape ctx ctx'"
proof -
  define r0 x0 where "r0 = cn_state0 (cn_blob input sz 0)" and "x0 = drop 25 (cn_state ctx ! 0)"
  define r1 x1 where "r1 = cn_state0 (cn_blob input sz 1)" and "x1 = drop 25 (cn_state ctx ! 1)"
  define r2 x2 where "r2 = cn_state0 (cn_blob input sz 2)" and "x2 = drop 25 (cn_state ctx ! 2)"
  define r3 x3 where "r3 = cn_state0 (cn_blob input sz 3)" and "x3 = drop 25 (cn_state ctx ! 3)"
  define r4 x4 where "r4 = cn_state0 (cn_blob input sz 4)" and "x4 = drop 25 (cn_state ctx ! 4)"
  have lr: "length r0 = 25" "length r1 = 25" "length r2 = 25" "length r3 = 25" "length r4 = 25" by (simp_all add: r0_def r1_def r2_def r3_def r4_def)
  define m0 where "m0 = cn_explode_scratchpad MEM S isa r0 (0) (cn_memory ctx)"
  define m1 where "m1 = cn_explode_scratchpad MEM S isa r1 (MEM div 16) (m0)"
  define m2 where "m2 = cn_explode_scratchpad MEM S isa r2 (2 * (MEM div 16)) (m1)"
  define m3 where "m3 = cn_explode_scratchpad MEM S isa r3 (3 * (MEM div 16)) (m2)"
  define m4 where "m4 = cn_explode_scratchpad MEM S isa r4 (4 * (MEM div 16)) (m3)"
  have P0: "pads (MEM div 16) 5 m0 ((\<lambda>k. pad (MEM div 16) k (cn_memory ctx))(0 := cn_fill MEM S isa r0))"
    unfolding m0_def by (rule explode_lane [OF ctx_pads [OF C] M(1)]) simp_all
  have P1: "pads (MEM div 16) 5 m1 ((\<lambda>k. pad (MEM div 16) k (cn_memory ctx))(0 := cn_fill MEM S isa r0, 1 := cn_fill MEM S isa r1))"
    unfolding m1_def by (rule explode_lane [OF P0 M(1)]) simp_all
  have P2: "pads (MEM div 16) 5 m2 ((\<lambda>k. pad (MEM div 16) k (cn_memory ctx))(0 := cn_fill MEM S isa r0, 1 := cn_fill MEM S isa r1, 2 := cn_fill MEM S isa r2))"
    unfolding m2_def by (rule explode_lane [OF P1 M(1)]) simp_all
  have P3: "pads (MEM div 16) 5 m3 ((\<lambda>k. pad (MEM div 16) k (cn_memory ctx))(0 := cn_fill MEM S isa r0, 1 := cn_fill MEM S isa r1, 2 := cn_fill MEM S isa r2, 3 := cn_fill MEM S isa r3))"
    unfolding m3_def by (rule explode_lane [OF P2 M(1)]) simp_all
  have P4: "pads (MEM div 16) 5 m4 ((\<lambda>k. pad (MEM div 16) k (cn_memory ctx))(0 := cn_fill MEM S isa r0, 1 := cn_fill MEM S isa r1, 2 := cn_fill MEM S isa r2, 3 := cn_fill MEM S isa r3, 4 := cn_fill MEM S isa r4))"
    unfolding m4_def by (rule explode_lane [OF P3 M(1)]) simp_all
  have lm: "length m4 = length (cn_memory ctx)" by (simp add: m0_def m1_def m2_def m3_def m4_def explode_length)
  obtain vs' mem' where loop: "((cn_iter5 MASK S isa 0 (MEM div 16) (2 * (MEM div 16)) (3 * (MEM div 16)) (4 * (MEM div 16))) ^^ ITERATIONS) ((cn_lane_init r0, cn_lane_init r1, cn_lane_init r2, cn_lane_init r3, cn_lane_init r4), m4) = (vs', mem')" "length mem' = length m4"
    "pads (MEM div 16) 5 mem' (\<lambda>k. snd ((cn_iter1 MASK S isa 0 ^^ ITERATIONS) (lanes_5 (cn_lane_init r0, cn_lane_init r1, cn_lane_init r2, cn_lane_init r3, cn_lane_init r4) k, ((\<lambda>k. pad (MEM div 16) k (cn_memory ctx))(0 := cn_fill MEM S isa r0, 1 := cn_fill MEM S isa r1, 2 := cn_fill MEM S isa r2, 3 := cn_fill MEM S isa r3, 4 := cn_fill MEM S isa r4)) k)))"
    using lanes5.loop_lanes [OF M(2) TrueI P4, where vs = "(cn_lane_init r0, cn_lane_init r1, cn_lane_init r2, cn_lane_init r3, cn_lane_init r4)" and SOFT_AES = S and isa = isa and i = ITERATIONS] by blast
  obtain w0 w1 w2 w3 w4 where w: "vs' = (w0, w1, w2, w3, w4)" by (metis prod.collapse)
  define h0 where "h0 = cn_keccakf (cn_implode_scratchpad MEM S isa mem' (0) (r0 @ x0))"
  have h0: "cn_extra_hash J h0 = cn_slow_hash ITERATIONS MEM MASK S isa (cn_blob input sz 0)" "length h0 = 26"
    unfolding h0_def r0_def using lane_output [OF loop(3) M(1), where k = 0 and l = "0" and J = J and S = S and isa = isa and MASK = MASK and ITERATIONS = ITERATIONS and blob = "cn_blob input sz 0" and x = x0] J ctx_row [OF C, of 0]
    by (simp_all add: r0_def x0_def)
  define h1 where "h1 = cn_keccakf (cn_implode_scratchpad MEM S isa mem' (MEM div 16) (r1 @ x1))"
  have h1: "cn_extra_hash J h1 = cn_slow_hash ITERATIONS MEM MASK S isa (cn_blob input sz 1)" "length h1 = 26"
    unfolding h1_def r1_def using lane_output [OF loop(3) M(1), where k = 1 and l = "MEM div 16" and J = J and S = S and isa = isa and MASK = MASK and ITERATIONS = ITERATIONS and blob = "cn_blob input sz 1" and x = x1] J ctx_row [OF C, of 1]
    by (simp_all add: r1_def x1_def)
  define h2 where "h2 = cn_keccakf (cn_implode_scratchpad MEM S isa mem' (2 * (MEM div 16)) (r2 @ x2))"
  have h2: "cn_extra_hash J h2 = cn_slow_hash ITERATIONS MEM MASK S isa (cn_blob input sz 2)" "length h2 = 26"
    unfolding h2_def r2_def using lane_output [OF loop(3) M(1), where k = 2 and l = "2 * (MEM div 16)" and J = J and S = S and isa = isa and MASK = MASK and ITERATIONS = ITERATIONS and blob = "cn_blob input sz 2" and x = x2] J ctx_row [OF C, of 2]
    by (simp_all add: r2_def x2_def)
  define h3 where "h3 = cn_keccakf (cn_implode_scratchpad MEM S isa mem' (3 * (MEM div 16)) (r3 @ x3))"
  have h3: "cn_extra_hash J h3 = cn_slow_hash ITERATIONS MEM MASK S isa (cn_blob input sz 3)" "length h3 = 26"
    unfolding h3_def r3_def using lane_output [OF loop(3) M(1), where k = 3 and l = "3 * (MEM div 16)" and J = J and S = S and isa = isa and MASK = MASK and ITERATIONS = ITERATIONS and blob = "cn_blob input sz 3" and x = x3] J ctx_row [OF C, of 3]
    by (simp_all add: r3_def x3_def)
  define h4 where "h4 = cn_keccakf (cn_implode_scratchpad MEM S isa mem' (4 * (MEM div 16)) (r4 @ x4))"
  have h4: "cn_extra_hash J h4 = cn_slow_hash ITERATIONS MEM MASK S isa (cn_blob input sz 4)" "length h4 = 26"
    unfolding h4_def r4_def using lane_output [OF loop(3) M(1), where k = 4 and l = "4 * (MEM div 16)" and J = J and S = S and isa = isa and MASK = MASK and ITERATIONS = ITERATIONS and blob = "cn_blob input sz 4" and x = x4] J ctx_row [OF C, of 4]
    by (simp_all add: r4_def x4_def)
  define ctx' where "ctx' = ctx\<lparr>cn_state := (cn_state ctx)[0 := h0, 1 := h1, 2 := h2, 3 := h3, 4 := h4], cn_memory := mem'\<rparr>"
  have k: "cn_keccak (take (nat (int_size sz)) input) (cn_state ctx ! 0) = r0 @ x0" "cn_keccak (take (nat (int_size sz)) (drop sz input)) (cn_state ctx ! 1) = r1 @ x1" "cn_keccak (take (nat (int_size sz)) (drop (2 * sz) input)) (cn_state ctx ! 2) = r2 @ x2" "cn_keccak (take (nat (int_size sz)) (drop (3 * sz) input)) (cn_state ctx ! 3) = r3 @ x3" "cn_keccak (take (nat (int_size sz)) (drop (4 * sz) input)) (cn_state ctx ! 4) = r4 @ x4"
    by (simp_all add: cn_keccak_row cn_blob_def r0_def x0_def r1_def x1_def r2_def x2_def r3_def x3_def r4_def x4_def)
  have "CryptoNightMultiHash_5 ITERATIONS MEM MASK S isa J input sz ctx = Some (cn_extra_hash J h0 @ cn_extra_hash J h1 @ cn_extra_hash J h2 @ cn_extra_hash J h3 @ cn_extra_hash J h4, ctx')"
    unfolding CryptoNightMultiHash_5_def if_not_P [OF Z] Let_def k
    by (simp only: lane_init_row [OF lr(1)] explode_row [OF lr(1)] lane_init_row [OF lr(1)] explode_row [OF lr(2)] lane_init_row [OF lr(2)] explode_row [OF lr(3)] lane_init_row [OF lr(3)] explode_row [OF lr(4)] lane_init_row [OF lr(4)] explode_row [OF lr(5)] lane_init_row [OF lr(5)] m0_def [symmetric] m1_def [symmetric] m2_def [symmetric] m3_def [symmetric] m4_def [symmetric] loop(1) w prod.case h0_def [symmetric] h1_def [symmetric] h2_def [symmetric] h3_def [symmetric] h4_def [symmetric] ctx'_def [symmetric])
  moreover have "same_shape ctx ctx'"
    using loop(2) lm h0(2) h1(2) h2(2) h3(2) h4(2) unfolding same_shape_def ctx'_def by (intro conjI impI) (simp_all, intro rows_update, simp_all)
  moreover have "[0..<5] = [0 :: nat, 1, 2, 3, 4]" by (simp add: upt_rec)
  ultimately show ?thesis by (simp add: h0(1) h1(1) h2(1) h3(1) h4(1))
qed

section \<open>The loop over the lanes\<close>

lemma keccak_rows:
  assumes "j \<le> length s"
  shows "length (fold (\<lambda>k s. s[k := cn_keccak (cn_blob input sz k) (s ! k)]) [0..<j] s) = length s \<and>
    (\<forall>k < length s. fold (\<lambda>k s. s[k := cn_keccak (cn_blob input sz k) (s ! k)]) [0..<j] s ! k =
      (if k < j then cn_state0 (cn_blob input sz k) @ drop 25 (s ! k) else s ! k))"
  using assms
proof (induction j)
  case (Suc j)
  then show ?case by (auto simp: cn_keccak_row nth_list_update less_Suc_eq)
qed simp

lemma explode_rows:
  assumes "pads (MEM div 16) num mem f" "MEM = 128 * m" "j \<le> num"
    and "\<forall>k < num. length (r k) = 25 \<and> s ! k = r k @ x k"
  shows "pads (MEM div 16) num (fold (\<lambda>k. cn_explode_scratchpad MEM S isa (s ! k) (k * (MEM div 16))) [0..<j] mem)
      (\<lambda>k. if k < j then cn_fill MEM S isa (r k) else f k) \<and>
    length (fold (\<lambda>k. cn_explode_scratchpad MEM S isa (s ! k) (k * (MEM div 16))) [0..<j] mem) = length mem"
  using assms(3)
proof (induction j)
  case (Suc j)
  define mj where "mj = fold (\<lambda>k. cn_explode_scratchpad MEM S isa (s ! k) (k * (MEM div 16))) [0..<j] mem"
  have IH: "pads (MEM div 16) num mj (\<lambda>k. if k < j then cn_fill MEM S isa (r k) else f k)" "length mj = length mem"
    using Suc by (simp_all add: mj_def)
  have j: "j < num" "s ! j = r j @ x j" "length (r j) = 25" using Suc.prems assms(4) by simp_all
  have "pads (MEM div 16) num (cn_explode_scratchpad MEM S isa (r j) (j * (MEM div 16)) mj)
      (\<lambda>k. if k < Suc j then cn_fill MEM S isa (r k) else f k)"
    using explode_lane [OF IH(1) assms(2) j(1) refl, of S isa "r j"] by (rule pads_upto) (auto simp: less_Suc_eq)
  then show ?case using IH(2) j by (simp add: mj_def [symmetric] explode_row explode_length)
qed (use assms(1) in simp)

lemma output_rows:
  assumes "pads (MEM div 16) num mem g" "MEM = 128 * m" "junk_ok J" "num \<le> length s" "j \<le> num"
    and "\<forall>k < num. s ! k = cn_state0 (b k) @ x k \<and> length (x k) = 1"
    and "\<forall>k < num. g k = snd ((cn_iter1 MASK S isa 0 ^^ I) (cn_lane_init (cn_state0 (b k)), cn_fill MEM S isa (cn_state0 (b k))))"
  shows "\<exists>s'. fold (\<lambda>k (s, output).
       let h = cn_implode_scratchpad MEM S isa mem (k * (MEM div 16)) (s ! k); h = cn_keccakf h
       in (s[k := h], output @ cn_extra_hash J h)) [0..<j] (s, []) =
      (s', concat (map (\<lambda>k. cn_slow_hash I MEM MASK S isa (b k)) [0..<j])) \<and> length s' = length s \<and>
      (\<forall>k < length s. if k < j then length (s' ! k) = 26 else s' ! k = s ! k)"
  using assms(5)
proof (induction j)
  case (Suc j)
  then obtain s' where IH: "fold (\<lambda>k (s, output).
       let h = cn_implode_scratchpad MEM S isa mem (k * (MEM div 16)) (s ! k); h = cn_keccakf h
       in (s[k := h], output @ cn_extra_hash J h)) [0..<j] (s, []) =
      (s', concat (map (\<lambda>k. cn_slow_hash I MEM MASK S isa (b k)) [0..<j]))" "length s' = length s"
      "\<forall>k < length s. if k < j then length (s' ! k) = 26 else s' ! k = s ! k" by auto
  have j: "j < num" "j < length s" "s' ! j = cn_state0 (b j) @ x j" "length (x j) = 1" using Suc.prems IH(3) assms(4,6) by auto
  define h where "h = cn_keccakf (cn_implode_scratchpad MEM S isa mem (j * (MEM div 16)) (cn_state0 (b j) @ x j))"
  have h: "cn_extra_hash J h = cn_slow_hash I MEM MASK S isa (b j)" "length h = 26"
    using lane_output [OF assms(1,2) j(1) refl assms(3), where blob = "b j" and x = "x j" and ITERATIONS = I and MASK = MASK
        and S = S and isa = isa] assms(7) j(1,4) by (simp_all add: h_def)
  show ?case
    using IH j h by (intro exI [of _ "s'[j := h]"])
      (auto simp: Let_def h_def [symmetric] nth_list_update less_Suc_eq)
qed simp

lemma CryptoNightMultiHash_lanes:
  assumes M: "MEM = 128 * m" "unat MASK div 16 < MEM div 16" and J: "junk_ok J" and Z: "\<not> int_size sz < 0" and C: "ctx_ok num MEM ctx"
  shows "\<exists>ctx'. CryptoNightMultiHash ITERATIONS MEM MASK S isa J num input sz ctx =
    Some (concat (map (\<lambda>k. cn_slow_hash ITERATIONS MEM MASK S isa (cn_blob input sz k)) [0..<num]), ctx') \<and> same_shape ctx ctx'"
proof -
  define b where "b = cn_blob input sz"
  define r where "r k = cn_state0 (b k)" for k
  define x where "x k = drop 25 (cn_state ctx ! k)" for k
  define state where "state = fold (\<lambda>k s. s[k := cn_keccak (b k) (s ! k)]) [0..<num] (cn_state ctx)"
  have num: "num \<le> length (cn_state ctx)" using C by (simp add: ctx_ok_def)
  have st: "length state = length (cn_state ctx)" "\<And>k. k < length (cn_state ctx) \<Longrightarrow> state ! k = (if k < num then r k @ x k else cn_state ctx ! k)"
    using keccak_rows [OF num, of input sz] by (simp_all add: state_def b_def r_def x_def)
  have rows: "\<forall>k < num. length (r k) = 25 \<and> state ! k = r k @ x k" "\<forall>k < num. state ! k = cn_state0 (b k) @ x k \<and> length (x k) = 1"
    using st(2) num ctx_row [OF C] by (simp_all add: r_def x_def)
  define m1 where "m1 = fold (\<lambda>k. cn_explode_scratchpad MEM S isa (state ! k) (k * (MEM div 16))) [0..<num] (cn_memory ctx)"
  have P: "pads (MEM div 16) num m1 (\<lambda>k. cn_fill MEM S isa (r k))" "length m1 = length (cn_memory ctx)"
    using explode_rows [OF ctx_pads [OF C] M(1) order_refl rows(1), of S isa] by (auto simp: m1_def elim!: pads_upto)
  define vs where "vs = map (\<lambda>k. cn_lane_init (state ! k)) [0..<num]"
  have vs: "length vs = num" "\<And>k. k < num \<Longrightarrow> vs ! k = cn_lane_init (r k)"
    using rows(1) by (simp_all add: vs_def lane_init_row)
  obtain vs' mem' where loop: "(cn_iteration MEM MASK S isa num ^^ ITERATIONS) (vs, m1) = (vs', mem')" "length mem' = length m1"
    "pads (MEM div 16) num mem' (\<lambda>k. snd ((cn_iter1 MASK S isa 0 ^^ ITERATIONS) (vs ! k, cn_fill MEM S isa (r k))))"
    using lanes_n.loop_lanes [OF M(2) vs(1) P(1), where SOFT_AES = S and isa = isa and i = ITERATIONS] by blast
  have g: "\<forall>k < num. snd ((cn_iter1 MASK S isa 0 ^^ ITERATIONS) (vs ! k, cn_fill MEM S isa (r k))) =
      snd ((cn_iter1 MASK S isa 0 ^^ ITERATIONS) (cn_lane_init (cn_state0 (b k)), cn_fill MEM S isa (cn_state0 (b k))))"
    using vs(2) by (simp add: r_def)
  obtain s' where out: "fold (\<lambda>k (s, output).
       let h = cn_implode_scratchpad MEM S isa mem' (k * (MEM div 16)) (s ! k); h = cn_keccakf h
       in (s[k := h], output @ cn_extra_hash J h)) [0..<num] (state, []) =
      (s', concat (map (\<lambda>k. cn_slow_hash ITERATIONS MEM MASK S isa (b k)) [0..<num]))" "length s' = length state"
      "\<forall>k < length state. if k < num then length (s' ! k) = 26 else s' ! k = state ! k"
    using output_rows [OF loop(3) M(1) J num [folded st(1)] order_refl rows(2) g] by blast
  have "CryptoNightMultiHash ITERATIONS MEM MASK S isa J num input sz ctx =
      Some (concat (map (\<lambda>k. cn_slow_hash ITERATIONS MEM MASK S isa (b k)) [0..<num]), ctx\<lparr>cn_state := s', cn_memory := mem'\<rparr>)"
    unfolding CryptoNightMultiHash_def if_not_P [OF Z] b_def [symmetric] state_def [symmetric] Let_def m1_def [symmetric] vs_def [symmetric]
    by (simp only: loop(1) prod.case out(1) [unfolded Let_def])
  moreover have "same_shape ctx (ctx\<lparr>cn_state := s', cn_memory := mem'\<rparr>)"
    using out(2,3) st loop(2) P(2) by (auto simp: same_shape_def in_set_conv_nth) (metis nth_mem)
  ultimately show ?thesis by (simp add: b_def)
qed

end
