(* ===== verification/CryptoNight_Spec.thy ===== *)
theory CryptoNight_Spec
  imports CryptoNight_Hash Soft_AES_Correct
begin

text \<open>
  CryptoNight as its standard, CNS008, states it: on bytes and natural numbers, with the AES round and the
  key expansion of FIPS 197, the Keccak sponge and permutation, and a scratchpad of 16-byte blocks. No function
  of the code takes part, but the permutation of JH, which \<^theory_text>\<open>Jh_Correct\<close> shares with the code. The digest of one blob that \<^theory_text>\<open>CryptoNight_Hash\<close> derives from the code is
  proved to be this one.
\<close>

section \<open>The standard\<close>

text \<open>Little-endian numbers.\<close>

fun nat_of_bytes :: "byte list \<Rightarrow> nat" where
  "nat_of_bytes [] = 0"
| "nat_of_bytes (b # bs) = unat b + 256 * nat_of_bytes bs"

definition bytes_of_nat :: "nat \<Rightarrow> nat \<Rightarrow> byte list" where
  "bytes_of_nat k n = map (\<lambda>i. word_of_nat (n div 256 ^ i)) [0..<k]"

text \<open>
  \<open>8byte_mul\<close>: the product of the first halves, its high half first. \<open>8byte_add\<close> adds the halves modulo
  \<open>2^64\<close>.
\<close>

definition mul8 :: "byte list \<Rightarrow> byte list \<Rightarrow> byte list" where
  "mul8 x y =
    (let p = nat_of_bytes (take 8 x) * nat_of_bytes (take 8 y)
     in bytes_of_nat 8 (p div 2 ^ 64) @ bytes_of_nat 8 (p mod 2 ^ 64))"

definition add8 :: "byte list \<Rightarrow> byte list \<Rightarrow> byte list" where
  "add8 x y =
    bytes_of_nat 8 ((nat_of_bytes (take 8 x) + nat_of_bytes (take 8 y)) mod 2 ^ 64) @
    bytes_of_nat 8 ((nat_of_bytes (drop 8 x) + nat_of_bytes (drop 8 y)) mod 2 ^ 64)"

definition aes_block :: "byte list \<Rightarrow> byte list \<Rightarrow> byte list" where
  "aes_block x key = xor_bytes (MixColumns (ShiftRows (SubBytes x))) key"

text \<open>The first ten round keys of AES-256 for 32 bytes, and the ten rounds with them.\<close>

definition ten_keys :: "byte list \<Rightarrow> byte list list" where
  "ten_keys key =
    (let w = (key_expansion_step ^^ 32) (map (\<lambda>i. word_of_le (take 4 (drop (4 * i) key))) [0..<8])
     in map (\<lambda>i. concat (map (le_bytes 4) (take 4 (drop (4 * i) w)))) [0..<10])"

definition encrypt :: "byte list list \<Rightarrow> byte list \<Rightarrow> byte list" where
  "encrypt ks x = foldl aes_block x ks"

definition blocks :: "nat \<Rightarrow> byte list \<Rightarrow> byte list list" where
  "blocks n bs = map (\<lambda>i. take 16 (drop (16 * i) bs)) [0..<n]"

text \<open>
  The scratchpad of \<open>mem\<close> bytes: the eight blocks from byte 64 of the state, encrypted again and again. The
  state is then updated from it, with the keys from byte 32 on.
\<close>

definition scratchpad :: "nat \<Rightarrow> byte list \<Rightarrow> byte list list" where
  "scratchpad mem st =
    concat (map (\<lambda>i. ((map (encrypt (ten_keys (take 32 st)))) ^^ Suc i) (blocks 8 (take 128 (drop 64 st)))) [0..<mem div 128])"

definition collect :: "nat \<Rightarrow> byte list list \<Rightarrow> byte list \<Rightarrow> byte list" where
  "collect mem sp st =
    (let ks = ten_keys (take 32 (drop 32 st));
         xs = fold (\<lambda>i xs. map (encrypt ks) (map2 xor_bytes (take 8 (drop (8 * i) sp)) xs)) [0..<mem div 128]
                (blocks 8 (take 128 (drop 64 st)))
     in take 64 st @ concat xs @ drop 192 st)"

text \<open>One of the iterations on \<open>a\<close>, \<open>b\<close> and the scratchpad, with two accesses to it.\<close>

definition slot_of :: "nat \<Rightarrow> byte list \<Rightarrow> nat" where
  "slot_of mem x = nat_of_bytes x mod mem div 16"

definition memory_hard_step :: "nat \<Rightarrow> byte list \<times> byte list \<times> byte list list \<Rightarrow> byte list \<times> byte list \<times> byte list list" where
  "memory_hard_step mem = (\<lambda>(a, b, sp).
    let c = aes_block (sp ! slot_of mem a) a;
        sp = sp[slot_of mem a := xor_bytes b c];
        d = sp ! slot_of mem c;
        a = add8 a (mul8 c d);
        sp = sp[slot_of mem c := a]
    in (xor_bytes a d, c, sp))"

definition slow_hash :: "nat \<Rightarrow> nat \<Rightarrow> byte list \<Rightarrow> byte list" where
  "slow_hash iterations mem blob =
    (let st = keccak_spec 136 200 blob;
         a = xor_bytes (take 16 st) (take 16 (drop 32 st));
         b = xor_bytes (take 16 (drop 16 st)) (take 16 (drop 48 st));
         (a, b, sp) = (memory_hard_step mem ^^ iterations) (a, b, scratchpad mem st);
         st = f_bytes (collect mem sp st)
     in final_hash (unat (hd st) mod 4) st)"

section \<open>Words and bytes\<close>

lemma nat_of_bytes_unat:
  assumes "LENGTH('a) = 8 * n"
  shows "nat_of_bytes (le_bytes n w) = unat (w :: 'a::len word)"
proof -
  have D: "unat (drop_bit m w) = unat w div 2 ^ m" for m
  proof -
    have "unat (drop_bit m w) = drop_bit m (unat w)" by (simp add: unsigned_drop_bit_eq take_bit_nat_eq_self)
    also have "\<dots> = unat w div 2 ^ m" by (rule drop_bit_eq_div)
    finally show ?thesis .
  qed
  have e: "nat_of_bytes (map (\<lambda>i. ucast (drop_bit (8 * i) w)) [k..<k + m]) = unat (drop_bit (8 * k) w) mod 2 ^ (8 * m)" for k m
  proof (induction m arbitrary: k)
    case (Suc m)
    let ?u = "unat (drop_bit (8 * k) w)"
    have "[k..<k + Suc m] = k # [Suc k..<Suc k + m]" by (simp add: upt_conv_Cons)
    moreover have "unat (drop_bit (8 * Suc k) w) = ?u div 256"
      by (simp only: D div_mult2_eq [symmetric]) (simp add: power_add mult.commute)
    moreover have "unat (ucast (drop_bit (8 * k) w) :: byte) = ?u mod 256" by (simp add: unsigned_ucast_eq take_bit_eq_mod)
    moreover have "?u mod 256 + 256 * (?u div 256 mod 2 ^ (8 * m)) = ?u mod 2 ^ (8 * Suc m)"
      using mod_mult2_eq [of ?u 256 "2 ^ (8 * m)"] by (simp add: power_add)
    ultimately show ?case using Suc.IH [of "Suc k"] by simp
  qed simp
  have "unat w < 2 ^ (8 * n)" using unsigned_less [of w] assms by simp
  then show ?thesis using e [of 0 n] by (simp add: le_bytes_def)
qed

lemma bytes_of_word: "bytes_of_nat n m = le_bytes n (of_nat m :: 'a::len word)" if "8 * n \<le> LENGTH('a)"
proof -
  have "word_of_nat (m div 256 ^ i) = (ucast (drop_bit (8 * i) (of_nat m :: 'a word)) :: byte)" if "i < n" for i
  proof -
    have i: "8 * i + 8 \<le> LENGTH('a)" using that \<open>8 * n \<le> LENGTH('a)\<close> by linarith
    have "(256 :: nat) ^ i = 2 ^ (8 * i)" by (simp add: power_mult)
    then show ?thesis using i
      by (intro bit_word_eqI) (auto simp: bit_simps bit_of_nat_iff [where ?'a = nat] drop_bit_eq_div [symmetric])
  qed
  then show ?thesis by (simp add: bytes_of_nat_def le_bytes_def)
qed

lemma le_bytes_xor_words: "le_bytes n (v XOR w) = xor_bytes (le_bytes n v) (le_bytes n w)"
  by (rule nth_equalityI) (simp_all add: xor_bytes_def le_bytes_xor)

lemma length_xor_bytes [simp]: "length (xor_bytes a b) = min (length a) (length b)"
  by (simp add: xor_bytes_def)

lemma le_bytes_set: "le_bytes 16 (mm_set_epi64x hi lo) = le_bytes 8 lo @ le_bytes 8 hi"
proof (rule nth_equalityI)
  fix i assume "i < length (le_bytes 16 (mm_set_epi64x hi lo))"
  then have i: "i < 16" by simp
  show "le_bytes 16 (mm_set_epi64x hi lo) ! i = (le_bytes 8 lo @ le_bytes 8 hi) ! i"
  proof (rule bit_word_eqI)
    fix k assume "k < LENGTH(8)"
    then have k: "k < 8" by simp
    have b: "\<not> bit lo (8 * i + k)" if "8 \<le> i" using that by (intro impossible_bit) simp
    show "bit (le_bytes 16 (mm_set_epi64x hi lo) ! i) k = bit ((le_bytes 8 lo @ le_bytes 8 hi) ! i) k"
    proof (cases "i < 8")
      case True
      then show ?thesis using k by (simp add: nth_append le_bytes_def mm_set_epi64x_def bit_simps)
    next
      case False
      then have "8 * i + k - 64 = 8 * (i - 8) + k" "64 \<le> 8 * i + k" "8 * (i - 8) + k < 128" using i k by auto
      then show ?thesis using False i k b by (simp add: nth_append le_bytes_def mm_set_epi64x_def bit_simps)
    qed
  qed
qed simp

lemma halves: "x = mm_set_epi64x (ucast (drop_bit 64 x)) (mm_cvtsi128_si64 x)"
  by (rule bit_word_eqI) (auto simp: mm_set_epi64x_def mm_cvtsi128_si64_def bit_simps)

lemma le_bytes_halves:
  "take 8 (le_bytes 16 (x :: m128i)) = le_bytes 8 (mm_cvtsi128_si64 x)"
  "drop 8 (le_bytes 16 x) = le_bytes 8 (ucast (drop_bit 64 x) :: u64)"
  using le_bytes_set [of "ucast (drop_bit 64 x)" "mm_cvtsi128_si64 x"] halves [of x] by simp_all

lemma length_MixColumns: "length (MixColumns s) = 16" if "length s = 16"
proof -
  have "length (MixColumn t) = length t" for t by (cases t rule: MixColumn.cases) simp_all
  then show ?thesis using that by (simp add: MixColumns_def length_concat o_def upt_rec)
qed

lemma le_bytes_aesenc: "le_bytes 16 (aesenc_spec x k) = aes_block (le_bytes 16 x) (le_bytes 16 k)"
proof -
  have "length (MixColumns (ShiftRows (SubBytes (le_bytes 16 x)))) = 16"
    by (intro length_MixColumns) (simp add: ShiftRows_def)
  then show ?thesis by (simp add: aesenc_spec_def aes_block_def le_bytes_xor_words le_bytes_word_of_le)
qed

text \<open>The product of two words as two words.\<close>

lemma unat_u64: "unat (w :: u64) < 2 ^ 64"
  using unsigned_less [of w] by simp

lemma umul128_words: "umul128 x y = (hi, lo) \<longleftrightarrow> unat x * unat y = unat hi * 2 ^ 64 + unat lo"
proof -
  define P where "P = unat x * unat y"
  have P: "P < 2 ^ 128"
  proof -
    have "P \<le> (2 ^ 64 - 1) * (2 ^ 64 - 1)" unfolding P_def
      using unat_u64 [of x] unat_u64 [of y] by (intro mult_le_mono) simp_all
    then show ?thesis by simp
  qed
  define r where "r = (ucast x :: 128 word) * ucast y"
  have u: "unat (ucast w :: 128 word) = unat w" for w :: u64
  proof -
    have "unat w < 2 ^ LENGTH(128)" using unat_u64 [of w] by (rule less_trans) simp
    then show ?thesis by (simp add: unsigned_ucast_eq take_bit_nat_eq_self_iff)
  qed
  have r: "unat r = P" using P by (simp add: r_def unat_word_ariths u P_def)
  have "unat (ucast r :: u64) = P mod 2 ^ 64" by (simp add: unsigned_ucast_eq take_bit_eq_mod r)
  moreover have "unat (ucast (drop_bit 64 r) :: u64) = P div 2 ^ 64"
  proof -
    have "P div 2 ^ 64 < 2 ^ 64" using P by (simp add: div_less_iff_less_mult)
    then show ?thesis by (simp add: unsigned_ucast_eq unat_div take_bit_eq_mod drop_bit_eq_div r)
  qed
  ultimately have e: "umul128 x y = (hi, lo) \<longleftrightarrow> unat hi = P div 2 ^ 64 \<and> unat lo = P mod 2 ^ 64"
    by (auto simp: umul128_def Let_def r_def [symmetric] word_unat_eq_iff)
  show ?thesis unfolding e P_def [symmetric]
  proof
    assume "unat hi = P div 2 ^ 64 \<and> unat lo = P mod 2 ^ 64"
    then show "P = unat hi * 2 ^ 64 + unat lo" by (simp only: div_mult_mod_eq)
  next
    assume "P = unat hi * 2 ^ 64 + unat lo"
    then show "unat hi = P div 2 ^ 64 \<and> unat lo = P mod 2 ^ 64" using unat_u64 [of lo] by simp
  qed
qed

lemma bytes_of_unat: "bytes_of_nat 8 (unat (w :: u64)) = le_bytes 8 w"
  using bytes_of_word [of 8 "unat w", where ?'a = 64] by simp

lemma mul8_words:
  assumes "umul128 (mm_cvtsi128_si64 c) (mm_cvtsi128_si64 d) = (hi, lo)"
  shows "mul8 (le_bytes 16 c) (le_bytes 16 d) = le_bytes 8 hi @ le_bytes 8 lo"
proof -
  have p: "nat_of_bytes (take 8 (le_bytes 16 c)) * nat_of_bytes (take 8 (le_bytes 16 d)) = unat hi * 2 ^ 64 + unat lo"
    using assms [unfolded umul128_words] by (simp only: le_bytes_halves nat_of_bytes_unat) (simp add: nat_of_bytes_unat)
  have "(unat hi * 2 ^ 64 + unat lo) div 2 ^ 64 = unat hi" "(unat hi * 2 ^ 64 + unat lo) mod 2 ^ 64 = unat lo"
    using unat_u64 [of lo] by simp_all
  then show ?thesis by (simp only: mul8_def Let_def p bytes_of_unat)
qed

lemma add8_words:
  "add8 (le_bytes 8 al @ le_bytes 8 ah) (le_bytes 8 hi @ le_bytes 8 lo) = le_bytes 8 (al + hi :: u64) @ le_bytes 8 (ah + lo :: u64)"
proof -
  have s: "bytes_of_nat 8 ((unat v + unat w) mod 2 ^ 64) = le_bytes 8 (v + w)" for v w :: u64
    using bytes_of_unat [of "v + w"] by (simp add: unat_word_ariths)
  have "nat_of_bytes (le_bytes 8 w) = unat w" for w :: u64 by (simp add: nat_of_bytes_unat)
  then show ?thesis by (simp only: add8_def take_append drop_append) (simp add: s [simplified])
qed

section \<open>One iteration\<close>

text \<open>The masks keep the bits of an address in the scratchpad, without the four lowest.\<close>

lemma mask_slot:
  assumes "MASK = push_bit 4 (mask (k - 4))" "4 \<le> k" "k \<le> 64"
  shows "unat (w AND MASK :: u64) div 16 = unat w mod 2 ^ k div 16"
proof -
  have "drop_bit 4 (w AND MASK) = drop_bit 4 (take_bit k w)"
    using assms(2,3) by (intro bit_word_eqI) (auto simp: assms(1) bit_simps)
  then have "unat (drop_bit 4 (w AND MASK)) = unat (drop_bit 4 (take_bit k w))" by simp
  moreover have "unat (take_bit k w) = take_bit k (unat w)" by (rule unsigned_take_bit_eq)
  then have "unat (take_bit k w) = unat w mod 2 ^ k" by (simp only: take_bit_eq_mod)
  ultimately show ?thesis by (simp add: drop_bit_eq_div unat_div)
qed

lemma slot_low:
  assumes "mem = 2 ^ k" "k \<le> 64" "MASK = push_bit 4 (mask (k - 4))" "4 \<le> k"
  shows "cn_slot MASK 0 (mm_cvtsi128_si64 x) = slot_of mem (le_bytes 16 x)"
proof -
  have "unat (mm_cvtsi128_si64 x) = unat x mod 2 ^ 64"
    by (simp add: mm_cvtsi128_si64_def unsigned_ucast_eq take_bit_eq_mod)
  moreover have "(unat x mod 2 ^ 64) mod 2 ^ k = unat x mod 2 ^ k"
    using assms(2) by (intro mod_mod_cancel le_imp_power_dvd)
  ultimately have "unat (mm_cvtsi128_si64 x) mod 2 ^ k = unat x mod 2 ^ k" by simp
  moreover have "nat_of_bytes (le_bytes 16 x) = unat x" by (rule nat_of_bytes_unat) simp
  ultimately show ?thesis using mask_slot [OF assms(3,4,2)] by (simp add: cn_slot_def slot_of_def assms(1))
qed

text \<open>The AES unit of FIPS 197.\<close>

definition fips_unit :: aes_isa where
  "fips_unit = \<lparr>mm_aesenc_si128 = aesenc_spec, mm_aeskeygenassist_si128 = aeskeygenassist_spec\<rparr>"

interpretation fips: aes_unit fips_unit
  by unfold_locales (simp_all add: fips_unit_def)

text \<open>The variables of a lane as bytes.\<close>

definition lane_bytes :: "lane_vars \<times> m128i list \<Rightarrow> byte list \<times> byte list \<times> byte list list" where
  "lane_bytes = (\<lambda>((al, ah, bx, idx), mem). (le_bytes 8 al @ le_bytes 8 ah, le_bytes 16 bx, map (le_bytes 16) mem))"

definition lane_ok :: "nat \<Rightarrow> lane_vars \<times> m128i list \<Rightarrow> bool" where
  "lane_ok n = (\<lambda>((al, ah, bx, idx), mem). idx = al \<and> length mem = n)"

lemma slot_less:
  assumes "16 dvd mem" "0 < mem"
  shows "slot_of mem x < mem div 16"
proof -
  obtain n where n: "mem = 16 * n" using assms(1) by (elim dvdE)
  have "nat_of_bytes x mod mem < mem" using assms(2) by simp
  then show ?thesis using n by (simp add: slot_of_def div_less_iff_less_mult mult.commute)
qed

lemma iter_step:
  assumes M: "mem = 2 ^ k" "k \<le> 64" "MASK = push_bit 4 (mask (k - 4))" "4 \<le> k" and S: "lane_ok (mem div 16) st"
  shows "lane_ok (mem div 16) (cn_iter1 MASK False fips_unit 0 st) \<and>
    lane_bytes (cn_iter1 MASK False fips_unit 0 st) = memory_hard_step mem (lane_bytes st)"
proof -
  obtain al ah bx p where st: "st = ((al, ah, bx, al), p)" and p: "length p = mem div 16"
    using S by (auto simp: lane_ok_def)
  define a where "a = mm_set_epi64x ah al"
  have a: "le_bytes 16 a = le_bytes 8 al @ le_bytes 8 ah" "mm_cvtsi128_si64 a = al"
    by (simp_all add: a_def le_bytes_set) (rule bit_word_eqI, auto simp: mm_cvtsi128_si64_def mm_set_epi64x_def bit_simps)
  have "16 dvd mem" using M(1,4) le_imp_power_dvd [of 4 k 2] by simp
  then have less: "slot_of mem x < length p" for x using slot_less [of mem x] M(1) p by simp
  define i where "i = slot_of mem (le_bytes 16 a)"
  have i: "cn_slot MASK 0 al = i" using slot_low [OF M, of a] a(2) by (simp add: i_def)
  define c where "c = aesenc_spec (p ! i) a"
  define q where "q = p[i := mm_xor_si128 bx c]"
  define j where "j = slot_of mem (le_bytes 16 c)"
  have j: "cn_slot MASK 0 (mm_cvtsi128_si64 c) = j" using slot_low [OF M, of c] by (simp add: j_def)
  define d where "d = q ! j"
  obtain hi lo where u: "umul128 (mm_cvtsi128_si64 c) (mm_cvtsi128_si64 d) = (hi, lo)" by fastforce
  define e where "e = mm_set_epi64x (ah + lo) (al + hi)"
  define cl :: u64 where "cl = mm_cvtsi128_si64 d"
  define ch :: u64 where "ch = ucast (drop_bit 64 d)"
  have code: "cn_iter1 MASK False fips_unit 0 st =
      (((al + hi) XOR cl, (ah + lo) XOR ch, c, (al + hi) XOR cl), q[j := e])"
    by (simp add: st cn_iter1_def Let_def i cn_aes_def fips_unit_def a_def [symmetric] c_def [symmetric] q_def [symmetric]
        cn_mul_part_def j d_def [symmetric] cl_def [symmetric] ch_def [symmetric] u [folded cl_def] e_def)
  have lc: "le_bytes 16 c = aes_block (map (le_bytes 16) p ! i) (le_bytes 16 a)"
    using less by (simp add: c_def le_bytes_aesenc i_def)
  have lq: "map (le_bytes 16) q = (map (le_bytes 16) p)[i := xor_bytes (le_bytes 16 bx) (le_bytes 16 c)]"
    by (simp add: q_def map_update mm_xor_si128_def le_bytes_xor_words)
  have ld: "le_bytes 16 d = map (le_bytes 16) q ! j" using less by (simp add: d_def q_def j_def)
  have le: "le_bytes 16 e = add8 (le_bytes 16 a) (mul8 (le_bytes 16 c) (le_bytes 16 d))"
    by (simp only: e_def le_bytes_set a(1) mul8_words [OF u] add8_words)
  have lx: "le_bytes 8 ((al + hi) XOR cl) @ le_bytes 8 ((ah + lo) XOR ch) = xor_bytes (le_bytes 16 e) (le_bytes 16 d)"
  proof -
    have "le_bytes 16 d = le_bytes 8 cl @ le_bytes 8 ch"
      using halves [of d] le_bytes_set [of ch cl] by (simp add: cl_def ch_def)
    then show ?thesis by (simp add: e_def le_bytes_set le_bytes_xor_words xor_bytes_def)
  qed
  have "lane_bytes (cn_iter1 MASK False fips_unit 0 st) = memory_hard_step mem (le_bytes 16 a, le_bytes 16 bx, map (le_bytes 16) p)"
    unfolding code memory_hard_step_def prod.case Let_def i_def [symmetric] lc [symmetric] lq [symmetric] j_def [symmetric]
      ld [symmetric] le [symmetric] lx [symmetric] by (simp add: lane_bytes_def map_update)
  then show ?thesis using p by (simp add: code lane_ok_def q_def) (simp add: st lane_bytes_def a(1))
qed

lemma iter_steps:
  assumes "mem = 2 ^ k" "k \<le> 64" "MASK = push_bit 4 (mask (k - 4))" "4 \<le> k" "lane_ok (mem div 16) st"
  shows "lane_ok (mem div 16) ((cn_iter1 MASK False fips_unit 0 ^^ n) st) \<and>
    lane_bytes ((cn_iter1 MASK False fips_unit 0 ^^ n) st) = (memory_hard_step mem ^^ n) (lane_bytes st)"
  by (induction n) (use assms iter_step [OF assms(1-4)] in simp_all)

section \<open>The round keys and the rounds\<close>

lemma le_bytes_dwords: "le_bytes 16 x = concat (map (le_bytes 4) (dwords x))"
  by (rule nth_equalityI)
    (simp_all add: dwords_def dword_def le_bytes_def upt_rec less_Suc_eq numeral_eq_Suc, auto intro!: bit_word_eqI simp: bit_simps)

lemma take_drop_concat:
  assumes "\<forall>x \<in> set xs. length (f x) = n" "i < length xs"
  shows "take n (drop (n * i) (concat (map f xs))) = f (xs ! i)"
  using assms
proof (induction xs arbitrary: i)
  case (Cons x xs)
  then show ?case by (cases i) simp_all
qed simp

lemma ten_keys_genkey:
  "map (le_bytes 16) (aes_genkey False fips_unit m0 m1) = ten_keys (le_bytes 16 m0 @ le_bytes 16 m1)"
proof -
  define keys where "keys = aes_genkey False fips_unit m0 m1"
  have keys: "length keys = 10" by (simp add: keys_def aes_genkey_def split_beta Let_def)
  have "concat (map dwords keys) = (key_expansion_step ^^ 32) (dwords m0 @ dwords m1)"
    using aes_genkey_expansion [of fips_unit m0 m1] by (simp add: keys_def fips.genkey_soft [where other = fips_unit])
  moreover have "dwords m0 @ dwords m1 = map (\<lambda>i. word_of_le (take 4 (drop (4 * i) (le_bytes 16 m0 @ le_bytes 16 m1)))) [0..<8]"
  proof -
    define ws where "ws = dwords m0 @ dwords m1"
    have ws: "length ws = 8" "le_bytes 16 m0 @ le_bytes 16 m1 = concat (map (le_bytes 4) ws)"
      by (simp add: ws_def dwords_def) (simp only: ws_def le_bytes_dwords map_append concat_append)
    have "take 4 (drop (4 * i) (concat (map (le_bytes 4) ws))) = le_bytes 4 (ws ! i)" if "i < 8" for i
      using that ws(1) by (intro take_drop_concat) simp_all
    then have "map (\<lambda>i. word_of_le (take 4 (drop (4 * i) (concat (map (le_bytes 4) ws))))) [0..<8] = map (\<lambda>i. ws ! i) [0..<8]"
      by (intro map_cong refl) (simp add: word_of_le_bytes)
    also have "\<dots> = ws" using map_nth [of ws] by (simp only: ws(1))
    finally show ?thesis by (simp only: ws(2) ws_def [symmetric])
  qed
  ultimately have w: "(key_expansion_step ^^ 32) (map (\<lambda>i. word_of_le (take 4 (drop (4 * i) (le_bytes 16 m0 @ le_bytes 16 m1)))) [0..<8]) =
    concat (map dwords keys)" by simp
  have "take 4 (drop (4 * i) (concat (map dwords keys))) = dwords (keys ! i)" if "i < 10" for i
    using that keys by (intro take_drop_concat) (simp_all add: dwords_def)
  then have "ten_keys (le_bytes 16 m0 @ le_bytes 16 m1) = map (\<lambda>i. le_bytes 16 (keys ! i)) [0..<10]"
    unfolding ten_keys_def w Let_def by (intro map_cong refl) (simp add: le_bytes_dwords)
  also have "\<dots> = map (le_bytes 16) (map ((!) keys) [0..<length keys])" by (simp add: keys)
  also have "\<dots> = map (le_bytes 16) keys" by (simp only: map_nth)
  finally show ?thesis by (simp only: keys_def)
qed

lemma encrypt_rounds:
  "map (le_bytes 16) (cn_rounds False fips_unit ks xs) = map (encrypt (map (le_bytes 16) ks)) (map (le_bytes 16) xs)"
proof (induction ks arbitrary: xs)
  case (Cons k ks)
  have "cn_rounds False fips_unit (k # ks) xs = cn_rounds False fips_unit ks (map (\<lambda>x. aesenc_spec x k) xs)"
    by (simp add: cn_rounds_def aes_round_def fips_unit_def)
  then show ?case by (simp add: Cons.IH encrypt_def le_bytes_aesenc o_def)
qed (simp add: cn_rounds_def encrypt_def)

section \<open>Rows of the state\<close>

lemma take_drop_row:
  assumes "2 * i + 1 < length r"
  shows "take 16 (drop (16 * i) (state_bytes r)) = le_bytes 16 (row_block r i)"
proof -
  have "take 16 (drop (16 * i) (state_bytes r)) =
      take 8 (drop (8 * (2 * i)) (state_bytes r)) @ take 8 (drop (8 * (2 * i + 1)) (state_bytes r))"
    using take_add [of 8 8 "drop (16 * i) (state_bytes r)"] by (simp add: add.commute)
  then show ?thesis using assms by (simp only: take_drop_state_bytes row_block_def le_bytes_set)
qed

lemma row_blocks:
  assumes "length r = 25"
  shows "blocks 8 (take 128 (drop 64 (state_bytes r))) = map (le_bytes 16) (map (row_block r) [4, 5, 6, 7, 8, 9, 10, 11])"
proof -
  have "blocks 8 (take 128 (drop 64 (state_bytes r))) = map (\<lambda>i. le_bytes 16 (row_block r (4 + i))) [0..<8]"
    unfolding blocks_def
  proof (intro map_cong refl)
    fix i :: nat assume "i \<in> set [0..<8]"
    then have "i < 8" by simp
    then have "take 16 (drop (16 * i) (take 128 (drop 64 (state_bytes r)))) = take 16 (drop (16 * (4 + i)) (state_bytes r))"
      by (simp add: drop_take add.commute)
    then show "take 16 (drop (16 * i) (take 128 (drop 64 (state_bytes r)))) = le_bytes 16 (row_block r (4 + i))"
      using assms \<open>i < 8\<close> take_drop_row [of "4 + i" r] by simp
  qed
  then show ?thesis by (simp add: upt_rec)
qed

lemma store_row_bytes:
  assumes "2 * i + 1 < length r"
  shows "state_bytes (store_row_block i v r) = take (16 * i) (state_bytes r) @ le_bytes 16 v @ drop (16 * i + 16) (state_bytes r)"
proof -
  define x y where "x = mm_cvtsi128_si64 v" and "y = (ucast (drop_bit 64 v) :: u64)"
  have v: "le_bytes 16 v = le_bytes 8 x @ le_bytes 8 y" using halves [of v] le_bytes_set [of y x] by (simp add: x_def y_def)
  have "r[2 * i := x, 2 * i + 1 := y] = take (2 * i) r @ [x, y] @ drop (2 * i + 2) r"
    using assms by (simp add: upd_conv_take_nth_drop take_Suc_conv_app_nth list_update_append)
  then have "store_row_block i v r = take (2 * i) r @ [x, y] @ drop (2 * i + 2) r" by (simp add: store_row_block_def x_def y_def)
  moreover have "state_bytes (take k r) = take (8 * k) (state_bytes r)" "state_bytes (drop k r) = drop (8 * k) (state_bytes r)" for k
  proof -
    have "state_bytes (take k r) = take (8 * k) (state_bytes r) \<and> state_bytes (drop k r) = drop (8 * k) (state_bytes r)"
    proof (induction r arbitrary: k)
      case (Cons w r)
      then show ?case by (cases k) (simp_all add: state_bytes_Cons state_bytes_def [of "[]"])
    qed (simp add: state_bytes_def)
    then show "state_bytes (take k r) = take (8 * k) (state_bytes r)" "state_bytes (drop k r) = drop (8 * k) (state_bytes r)" by auto
  qed
  ultimately show ?thesis by (simp add: state_bytes_append state_bytes_Cons v state_bytes_def [of "[]"] numeral_2_eq_2 add.commute)
qed

section \<open>The scratchpad\<close>

lemma funpow_rounds:
  "map (le_bytes 16) ((cn_rounds False fips_unit ks ^^ n) xs) =
    (map (encrypt (map (le_bytes 16) ks)) ^^ n) (map (le_bytes 16) xs)"
  by (induction n) (simp_all add: encrypt_rounds)

lemma explode_loop_blocks:
  assumes "length p = n" "length xin = 8" "8 * m \<le> n"
  shows "fst (explode_loop S isa ks 0 m (xin, p)) = (cn_rounds S isa ks ^^ m) xin \<and>
    length (snd (explode_loop S isa ks 0 m (xin, p))) = n \<and>
    take (8 * m) (snd (explode_loop S isa ks 0 m (xin, p))) = concat (map (\<lambda>i. (cn_rounds S isa ks ^^ Suc i) xin) [0..<m])"
  using assms(3)
proof (induction m)
  case (Suc m)
  define x where "x = (cn_rounds S isa ks ^^ Suc m) xin"
  have lx: "length ((cn_rounds S isa ks ^^ k) xin) = 8" for k by (induction k) (simp_all add: assms(2))
  have "store_blocks (0 + 8 * m) x q = take (8 * m) q @ x @ drop (8 * m + 8) q" if "length q = n" for q
    using store_blocks_eq [of "8 * m" q x] Suc.prems that lx [of "Suc m"] by (simp add: x_def)
  moreover define q where "q = snd (explode_loop S isa ks 0 m (xin, p))"
  moreover have f: "fst (explode_loop S isa ks 0 m (xin, p)) = (cn_rounds S isa ks ^^ m) xin" "length q = n"
    "take (8 * m) q = concat (map (\<lambda>i. (cn_rounds S isa ks ^^ Suc i) xin) [0..<m])"
    using Suc by (simp_all add: q_def)
  moreover have "cn_rounds S isa ks ((cn_rounds S isa ks ^^ m) xin) = x" by (simp add: x_def)
  ultimately have e: "explode_loop S isa ks 0 (Suc m) (xin, p) = (x, take (8 * m) q @ x @ drop (8 * m + 8) q)"
    by (simp add: explode_loop_simps Let_def split_beta)
  have "length (take (8 * m) q) = 8 * m" "length x = 8" using f(2) Suc.prems lx [of "Suc m"] by (simp_all del: funpow.simps add: x_def)
  then show ?case using f Suc.prems unfolding e
    by (simp add: x_def [symmetric] del: funpow.simps)
qed (simp add: assms explode_loop_simps)

lemma fill_scratchpad:
  assumes "length r = 25"
  shows "map (le_bytes 16) (cn_fill (128 * m) False fips_unit r) = scratchpad (128 * m) (state_bytes r)"
    "length (cn_fill (128 * m) False fips_unit r) = 8 * m"
proof -
  define ks where "ks = aes_genkey False fips_unit (row_block r 0) (row_block r 1)"
  define xin where "xin = map (row_block r) [4, 5, 6, 7, 8, 9, 10, 11]"
  have m: "128 * m div 16 = 8 * m" "(8 * m + 7) div 8 = m" by simp_all
  have "cn_fill (128 * m) False fips_unit r = snd (explode_loop False fips_unit ks 0 m (xin, replicate (8 * m) 0))"
    unfolding cn_fill_def cn_explode_scratchpad_def explode_loop_def Let_def m ks_def xin_def by (rule refl)
  moreover define q where "q = snd (explode_loop False fips_unit ks 0 m (xin, replicate (8 * m) 0))"
  moreover have "length q = 8 * m \<and> take (8 * m) q = concat (map (\<lambda>i. (cn_rounds False fips_unit ks ^^ Suc i) xin) [0..<m])"
    using explode_loop_blocks [of "replicate (8 * m) 0" "8 * m" xin m False fips_unit ks] by (simp only: q_def) (simp add: xin_def)
  ultimately have f: "cn_fill (128 * m) False fips_unit r = concat (map (\<lambda>i. (cn_rounds False fips_unit ks ^^ Suc i) xin) [0..<m])"
    "length (cn_fill (128 * m) False fips_unit r) = 8 * m" by auto
  have "take 32 (state_bytes r) = take 16 (state_bytes r) @ take 16 (drop 16 (state_bytes r))"
    using take_add [of 16 16 "state_bytes r"] by simp
  then have "take 32 (state_bytes r) = le_bytes 16 (row_block r 0) @ le_bytes 16 (row_block r 1)"
    using assms take_drop_row [of 0 r] take_drop_row [of 1 r] by simp
  then have k: "ten_keys (take 32 (state_bytes r)) = map (le_bytes 16) ks" by (simp only: ks_def ten_keys_genkey)
  have b: "blocks 8 (take 128 (drop 64 (state_bytes r))) = map (le_bytes 16) xin" by (simp only: row_blocks [OF assms] xin_def)
  have "128 * m div 128 = m" by simp
  then show "map (le_bytes 16) (cn_fill (128 * m) False fips_unit r) = scratchpad (128 * m) (state_bytes r)"
    unfolding scratchpad_def k b f(1) by (simp only: map_concat map_map o_def funpow_rounds)
  show "length (cn_fill (128 * m) False fips_unit r) = 8 * m" by (rule f(2))
qed

lemma store_rows_bytes:
  assumes "length r = 25" "length xs = 8" "n \<le> 8"
  shows "length (fold (\<lambda>j. store_row_block (4 + j) (xs ! j)) [0..<n] r) = 25 \<and>
    state_bytes (fold (\<lambda>j. store_row_block (4 + j) (xs ! j)) [0..<n] r) =
      take 64 (state_bytes r) @ concat (map (le_bytes 16) (take n xs)) @ drop (64 + 16 * n) (state_bytes r)"
  using assms(3)
proof (induction n)
  case (Suc n)
  define h where "h = fold (\<lambda>j. store_row_block (4 + j) (xs ! j)) [0..<n] r"
  have IH: "length h = 25" "state_bytes h = take 64 (state_bytes r) @ concat (map (le_bytes 16) (take n xs)) @ drop (64 + 16 * n) (state_bytes r)"
    using Suc by (simp_all add: h_def)
  have l: "length (concat (map (le_bytes 16) (take n xs))) = 16 * n" using Suc.prems assms(2)
    by (simp add: length_concat o_def sum_list_triv)
  have "state_bytes (store_row_block (4 + n) (xs ! n) h) =
      take (16 * (4 + n)) (state_bytes h) @ le_bytes 16 (xs ! n) @ drop (16 * (4 + n) + 16) (state_bytes h)"
    using Suc.prems IH(1) by (intro store_row_bytes) simp
  moreover have "take (16 * (4 + n)) (state_bytes h) = take 64 (state_bytes r) @ concat (map (le_bytes 16) (take n xs))"
    using l assms(1) by (simp add: IH(2))
  moreover have "drop (16 * (4 + n) + 16) (state_bytes h) = drop (64 + 16 * Suc n) (state_bytes r)"
    using l assms(1) by (simp add: IH(2))
  ultimately show ?case using Suc.prems assms(2) IH(1)
    by (simp add: h_def [symmetric] take_Suc_conv_app_nth)
qed (use assms(1) in simp)

lemma implode_collect:
  assumes "length r = 25" "length p = 8 * m"
  shows "length (cn_implode_scratchpad (128 * m) False fips_unit p 0 r) = 25"
    "state_bytes (cn_implode_scratchpad (128 * m) False fips_unit p 0 r) = collect (128 * m) (map (le_bytes 16) p) (state_bytes r)"
proof -
  define ks where "ks = aes_genkey False fips_unit (row_block r 2) (row_block r 3)"
  define xin where "xin = map (row_block r) [4, 5, 6, 7, 8, 9, 10, 11]"
  define step where "step = (\<lambda>i xout. cn_rounds False fips_unit ks (map (\<lambda>j. mm_xor_si128 (p ! (8 * i + j)) (xout ! j)) [0..<8]))"
  define out where "out = fold step [0..<m] xin"
  have m: "(128 * m div 16 + 7) div 8 = m" "128 * m div 128 = m" by simp_all
  have impl: "cn_implode_scratchpad (128 * m) False fips_unit p 0 r = fold (\<lambda>j. store_row_block (4 + j) (out ! j)) [0..<8] r"
    unfolding cn_implode_scratchpad_def Let_def m ks_def [symmetric] xin_def [symmetric] out_def step_def
    by (simp add: fold_map o_def)
  have "take 32 (drop 32 (state_bytes r)) = take 16 (drop (16 * 2) (state_bytes r)) @ take 16 (drop (16 * 3) (state_bytes r))"
    using take_add [of 16 16 "drop 32 (state_bytes r)"] by simp
  then have "take 32 (drop 32 (state_bytes r)) = le_bytes 16 (row_block r 2) @ le_bytes 16 (row_block r 3)"
    using assms(1) by (simp only: take_drop_row)
  then have k: "ten_keys (take 32 (drop 32 (state_bytes r))) = map (le_bytes 16) ks" by (simp only: ks_def ten_keys_genkey)
  have b: "blocks 8 (take 128 (drop 64 (state_bytes r))) = map (le_bytes 16) xin" by (simp only: row_blocks [OF assms(1)] xin_def)
  have st: "map (le_bytes 16) (step i xs) =
      map (encrypt (map (le_bytes 16) ks)) (map2 xor_bytes (take 8 (drop (8 * i) (map (le_bytes 16) p))) (map (le_bytes 16) xs))"
    if "i < m" "length xs = 8" for i xs
  proof -
    have "map (le_bytes 16) (map (\<lambda>j. mm_xor_si128 (p ! (8 * i + j)) (xs ! j)) [0..<8]) =
        map2 xor_bytes (take 8 (drop (8 * i) (map (le_bytes 16) p))) (map (le_bytes 16) xs)"
      using that assms(2) by (intro nth_equalityI) (simp_all add: mm_xor_si128_def le_bytes_xor_words)
    then show ?thesis by (simp only: step_def encrypt_rounds)
  qed
  have "length (fold step [0..<n] xin) = 8 \<and> map (le_bytes 16) (fold step [0..<n] xin) =
      fold (\<lambda>i xs. map (encrypt (map (le_bytes 16) ks)) (map2 xor_bytes (take 8 (drop (8 * i) (map (le_bytes 16) p))) xs)) [0..<n] (map (le_bytes 16) xin)"
    if "n \<le> m" for n using that
  proof (induction n)
    case (Suc n)
    then show ?case using st [of n "fold step [0..<n] xin"] by (simp add: step_def)
  qed (simp add: xin_def)
  then have o: "length out = 8" "map (le_bytes 16) out =
      fold (\<lambda>i xs. map (encrypt (map (le_bytes 16) ks)) (map2 xor_bytes (take 8 (drop (8 * i) (map (le_bytes 16) p))) xs)) [0..<m] (map (le_bytes 16) xin)"
    by (simp_all add: out_def)
  show "length (cn_implode_scratchpad (128 * m) False fips_unit p 0 r) = 25" using assms(1) by simp
  show "state_bytes (cn_implode_scratchpad (128 * m) False fips_unit p 0 r) = collect (128 * m) (map (le_bytes 16) p) (state_bytes r)"
    using store_rows_bytes [OF assms(1) o(1), of 8] o(1) by (simp add: impl collect_def Let_def k b m(2) o(2))
qed

section \<open>The hash\<close>

lemma state0_bytes: "state_bytes (cn_state0 blob) = keccak_spec 136 200 blob"
proof -
  have l: "length (keccak_spec 136 200 blob) = 200"
  proof -
    have "length (absorb_spec 136 S b) = 200" for S b
      by (simp add: absorb_spec_def f_bytes_def length_concat o_def sum_list_triv of_lanes_def)
    then have "length (foldl (absorb_spec 136) S bs) = 200" if "length S = 200" for S bs
      using that by (induction bs arbitrary: S) simp_all
    then show ?thesis by (simp add: keccak_spec_def)
  qed
  show ?thesis
  proof (rule nth_equalityI)
    fix i assume "i < length (state_bytes (cn_state0 blob))"
    then have i: "i < 200" by simp
    then have "i div 8 < 25" by auto
    moreover have "length (take 8 (drop (8 * (i div 8)) (keccak_spec 136 200 blob))) = 8" using l \<open>i div 8 < 25\<close> by simp
    ultimately show "state_bytes (cn_state0 blob) ! i = keccak_spec 136 200 blob ! i"
      using i l by (simp add: nth_state_bytes cn_state0_def le_bytes_word_of_le del: nth_take nth_drop) simp
  qed (simp add: l)
qed

lemma first_byte:
  assumes "length r = 25"
  shows "unat (r ! 0 AND 3) = unat (hd (state_bytes r)) mod 4"
proof -
  obtain w r' where r: "r = w # r'" using assms by (cases r) auto
  have "hd (state_bytes r) = ucast w" by (simp add: r state_bytes_Cons le_bytes_def upt_conv_Cons)
  moreover have "unat (w AND 3) = unat w mod 4"
  proof -
    have "(3 :: u64) = mask 2" by (simp add: mask_eq_exp_minus_1)
    then have "unat (w AND 3) = unat (take_bit 2 w)" by (simp only: take_bit_eq_mask)
    also have "\<dots> = take_bit 2 (unat w)" by (rule unsigned_take_bit_eq)
    finally show ?thesis by (simp add: take_bit_eq_mod)
  qed
  moreover have "unat w mod 256 mod 4 = unat w mod 4" by (simp add: mod_mod_cancel)
  ultimately show ?thesis by (simp add: r unsigned_ucast_eq take_bit_eq_mod)
qed

text \<open>The digest the code computes for a blob is that of the standard.\<close>

lemma slow_hash_eq:
  assumes "mem = 2 ^ k" "7 \<le> k" "k \<le> 64" "MASK = push_bit 4 (mask (k - 4))"
  shows "cn_slow_hash iterations mem MASK False fips_unit blob = slow_hash iterations mem blob"
proof -
  define r where "r = cn_state0 blob"
  define st where "st = keccak_spec 136 200 blob"
  have r: "length r = 25" "state_bytes r = st" by (simp_all add: r_def st_def state0_bytes)
  define m :: nat where "m = 2 ^ (k - 7)"
  have m: "mem = 128 * m" using assms(1,2) power_add [of "2 :: nat" 7 "k - 7"] by (simp add: m_def)
  define s0 where "s0 = (cn_lane_init r, cn_fill mem False fips_unit r)"
  have ok: "lane_ok (mem div 16) s0"
    by (simp add: s0_def lane_ok_def cn_lane_init_def fill_scratchpad [OF r(1)] m)
  obtain v p where vp: "(cn_iter1 MASK False fips_unit 0 ^^ iterations) s0 = (v, p)" by fastforce
  have it: "lane_ok (mem div 16) (v, p)" "lane_bytes (v, p) = (memory_hard_step mem ^^ iterations) (lane_bytes s0)"
    using iter_steps [OF assms(1,3,4) _ ok, of iterations] assms(2) by (simp_all add: vp)
  have t: "take 16 (drop (16 * i) st) = le_bytes 8 (r ! (2 * i)) @ le_bytes 8 (r ! (2 * i + 1))" if "i < 12" for i
    using that take_drop_row [of i r] r by (simp add: row_block_def le_bytes_set)
  have b0: "lane_bytes s0 = (xor_bytes (take 16 st) (take 16 (drop 32 st)), xor_bytes (take 16 (drop 16 st)) (take 16 (drop 48 st)),
      scratchpad mem st)"
  proof -
    have x: "le_bytes 8 (a XOR b) @ le_bytes 8 (c XOR d) = xor_bytes (le_bytes 8 a @ le_bytes 8 c) (le_bytes 8 b @ le_bytes 8 d)" for a b c d :: u64
      by (simp add: le_bytes_xor_words xor_bytes_def)
    have rows: "take 16 st = le_bytes 8 (r ! 0) @ le_bytes 8 (r ! 1)" "take 16 (drop 16 st) = le_bytes 8 (r ! 2) @ le_bytes 8 (r ! 3)"
      "take 16 (drop 32 st) = le_bytes 8 (r ! 4) @ le_bytes 8 (r ! 5)" "take 16 (drop 48 st) = le_bytes 8 (r ! 6) @ le_bytes 8 (r ! 7)"
      using t [of 0] t [of 1] t [of 2] t [of 3] by simp_all
    have "map (le_bytes 16) (cn_fill mem False fips_unit r) = scratchpad mem st"
      using fill_scratchpad(1) [OF r(1), of m] by (simp only: m r(2))
    then show ?thesis
      by (simp only: s0_def lane_bytes_def cn_lane_init_def prod.case le_bytes_set x rows)
  qed
  obtain a b sp where sp: "(memory_hard_step mem ^^ iterations) (xor_bytes (take 16 st) (take 16 (drop 32 st)),
      xor_bytes (take 16 (drop 16 st)) (take 16 (drop 48 st)), scratchpad mem st) = (a, b, sp)" by (metis prod_cases3)
  have p: "length p = 8 * m" "map (le_bytes 16) p = sp"
    using it b0 sp m by (auto simp: lane_ok_def lane_bytes_def split: prod.splits)
  define h where "h = cn_implode_scratchpad mem False fips_unit p 0 r"
  have h: "length h = 25" "state_bytes h = collect mem sp st"
    using implode_collect [OF r(1) p(1)] by (simp_all add: h_def m p(2) r(2))
  have f: "state_bytes (keccakf h 24) = f_bytes (collect mem sp st)" using f_bytes_refines [OF h(1)] h(2) by simp
  have "cn_slow_hash iterations mem MASK False fips_unit blob =
      final_hash (unat (keccakf h 24 ! 0 AND 3)) (state_bytes (keccakf h 24))"
    by (simp add: cn_slow_hash_def Let_def r_def [symmetric] s0_def [symmetric] vp h_def)
  also have "\<dots> = slow_hash iterations mem blob"
    using first_byte [of "keccakf h 24"] h(1) by (simp add: slow_hash_def Let_def st_def [symmetric] sp f)
  finally show ?thesis .
qed

end
