(* ===== verification/CryptoNight_Correct.thy ===== *)
theory CryptoNight_Correct
  imports CryptoNight_Spec
begin

text \<open>
  The hash methods, with AES instructions or tables, the table of methods, \<open>CryptoNight::hash\<close> and
  the self test, and the helpers for 32-bit targets.
\<close>

section \<open>The hash methods\<close>

lemma cn_instance_lanes:
  assumes "MEM = 128 * m" "unat MASK div 16 < MEM div 16" "junk_ok J" "\<not> int_size sz < 0" "ctx_ok num MEM ctx"
  shows "\<exists>ctx'. cn_instance ITERATIONS MEM MASK S isa J num input sz ctx =
    Some (concat (map (\<lambda>k. cn_slow_hash ITERATIONS MEM MASK S isa (cn_blob input sz k)) [0..<num]), ctx') \<and> same_shape ctx ctx'"
proof -
  note lanes = CryptoNightMultiHash_1_lanes [OF assms(1-4)] CryptoNightMultiHash_2_lanes [OF assms(1-4)]
    CryptoNightMultiHash_3_lanes [OF assms(1-4)] CryptoNightMultiHash_4_lanes [OF assms(1-4)]
    CryptoNightMultiHash_5_lanes [OF assms(1-4)]
  consider "num = 1" | "num = 2" | "num = 3" | "num = 4" | "num = 5" | "num \<notin> {1, 2, 3, 4, 5}" by blast
  then show ?thesis
  proof cases
    case 1 then show ?thesis using lanes(1) assms(5) by (simp only: cn_instance_def if_True refl)
  next
    case 2 then show ?thesis using lanes(2) assms(5) by (simp add: cn_instance_def)
  next
    case 3 then show ?thesis using lanes(3) assms(5) by (simp add: cn_instance_def)
  next
    case 4 then show ?thesis using lanes(4) assms(5) by (simp add: cn_instance_def)
  next
    case 5 then show ?thesis using lanes(5) assms(5) by (simp add: cn_instance_def)
  next
    case 6
    then have "cn_instance ITERATIONS MEM MASK S isa J num = CryptoNightMultiHash ITERATIONS MEM MASK S isa J num"
      by (simp add: cn_instance_def)
    then show ?thesis using CryptoNightMultiHash_lanes [OF assms] by simp
  qed
qed

text \<open>For a negative length both the loop and the specialisations have no result.\<close>

lemma lanes_unrolled:
  assumes "MEM = 128 * m" "unat MASK div 16 < MEM div 16" "junk_ok J" "ctx_ok num MEM ctx"
  shows "map_option fst (CryptoNightMultiHash ITERATIONS MEM MASK S isa J num input sz ctx) =
    map_option fst (cn_instance ITERATIONS MEM MASK S isa J num input sz ctx)"
proof (cases "int_size sz < 0")
  case True
  then show ?thesis
    by (simp add: cn_instance_def CryptoNightMultiHash_def CryptoNightMultiHash_1_def CryptoNightMultiHash_2_def
        CryptoNightMultiHash_3_def CryptoNightMultiHash_4_def CryptoNightMultiHash_5_def)
next
  case False
  from CryptoNightMultiHash_lanes [OF assms(1-3) False assms(4), of ITERATIONS S isa input]
    cn_instance_lanes [OF assms(1-3) False assms(4), of ITERATIONS S isa input] show ?thesis by auto
qed

fun method_lanes :: "hash_method \<Rightarrow> nat" where
  "method_lanes (cryptonight_aesni n) = n"
| "method_lanes (cryptonight_softaes n) = n"
| "method_lanes (cryptonight_lite_aesni n) = n"
| "method_lanes (cryptonight_lite_softaes n) = n"

fun method_algo :: "hash_method \<Rightarrow> Algo" where
  "method_algo (cryptonight_aesni n) = ALGO_CRYPTONIGHT"
| "method_algo (cryptonight_softaes n) = ALGO_CRYPTONIGHT"
| "method_algo (cryptonight_lite_aesni n) = ALGO_CRYPTONIGHT_LITE"
| "method_algo (cryptonight_lite_softaes n) = ALGO_CRYPTONIGHT_LITE"

definition pad_bytes :: "Algo \<Rightarrow> nat" where
  "pad_bytes algo = (if algo = ALGO_CRYPTONIGHT then MEMORY else MEMORY_LITE)"

text \<open>The hash of the two algorithms, as the standard has it.\<close>

definition cryptonight :: "Algo \<Rightarrow> byte list \<Rightarrow> byte list" where
  "cryptonight algo blob =
    (if algo = ALGO_CRYPTONIGHT then slow_hash 524288 (2 ^ 21) blob else slow_hash 262144 (2 ^ 20) blob)"

lemma mask_eqs: "(0x1FFFF0 :: u64) = push_bit 4 (mask (21 - 4))" "(0xFFFF0 :: u64) = push_bit 4 (mask (20 - 4))"
  by (simp_all add: mask_eq_exp_minus_1)

lemma cryptonight_slow:
  "cn_slow_hash 0x80000 MEMORY 0x1FFFF0 False fips_unit blob = cryptonight ALGO_CRYPTONIGHT blob"
  "cn_slow_hash 0x40000 MEMORY_LITE 0xFFFF0 False fips_unit blob = cryptonight ALGO_CRYPTONIGHT_LITE blob"
  using slow_hash_eq [of "2 ^ 21" 21 "0x1FFFF0" 524288 blob, OF refl _ _ mask_eqs(1)]
    slow_hash_eq [of "2 ^ 20" 20 "0xFFFF0" 262144 blob, OF refl _ _ mask_eqs(2)]
  by (simp_all add: cryptonight_def MEMORY_def MEMORY_LITE_def)

lemma isa_fips: "aes_unit isa \<Longrightarrow> isa = fips_unit"
proof -
  assume "aes_unit isa"
  then have "mm_aesenc_si128 isa = aesenc_spec" "mm_aeskeygenassist_si128 isa = aeskeygenassist_spec"
    by (simp_all add: aes_unit_def fun_eq_iff)
  then show ?thesis by (simp add: fips_unit_def)
qed

text \<open>The table-driven rounds and the key schedule on them give the same hash as the instructions.\<close>

lemma soft_rounds: "cn_rounds True isa ks xs = cn_rounds False fips_unit ks xs"
  unfolding cn_rounds_def by (intro fold_cong refl ext) (rule fips.round_soft [symmetric])

lemma soft_explode: "cn_explode_scratchpad MEM True isa h l mem = cn_explode_scratchpad MEM False fips_unit h l mem"
  by (simp add: cn_explode_scratchpad_def soft_rounds fips.genkey_soft [of _ _ isa, symmetric])

lemma soft_implode: "cn_implode_scratchpad MEM True isa mem l h = cn_implode_scratchpad MEM False fips_unit mem l h"
  by (simp add: cn_implode_scratchpad_def soft_rounds fips.genkey_soft [of _ _ isa, symmetric])

lemma soft_iter: "cn_iter1 MASK True isa l = cn_iter1 MASK False fips_unit l"
  by (simp add: cn_iter1_def fun_eq_iff cn_aes_def fips.aesenc_soft)

lemma soft_slow_hash: "cn_slow_hash I MEM MASK True isa blob = cn_slow_hash I MEM MASK False fips_unit blob"
  by (simp add: cn_slow_hash_def cn_fill_def soft_explode soft_implode soft_iter)

lemma pad_sizes:
  "MEMORY = 128 * 16384" "MEMORY_LITE = 128 * 8192" "unat (0x1FFFF0 :: u64) div 16 < MEMORY div 16"
  "unat (0xFFFF0 :: u64) div 16 < MEMORY_LITE div 16"
  by (simp_all add: MEMORY_def MEMORY_LITE_def)

lemma call_method_lanes:
  assumes "junk_ok J" "\<not> int_size sz < 0" "ctx_ok (method_lanes m) (pad_bytes (method_algo m)) ctx"
    and "aes_unit isa \<or> m \<in> range cryptonight_softaes \<union> range cryptonight_lite_softaes"
  shows "\<exists>ctx'. call_method isa J m input sz ctx =
    Some (concat (map (\<lambda>k. cryptonight (method_algo m) (cn_blob input sz k)) [0..<method_lanes m]), ctx') \<and> same_shape ctx ctx'"
proof (cases m)
  case (cryptonight_aesni n)
  then have "isa = fips_unit" using assms(4) isa_fips by auto
  then show ?thesis
    using cn_instance_lanes [OF pad_sizes(1,3) assms(1,2), of n ctx "0x80000" False fips_unit] assms(3) cryptonight_aesni
    by (simp add: cryptonight_slow pad_bytes_def)
next
  case (cryptonight_softaes n)
  then show ?thesis
    using cn_instance_lanes [OF pad_sizes(1,3) assms(1,2), of n ctx "0x80000" True isa] assms(3)
    by (simp add: cryptonight_slow pad_bytes_def soft_slow_hash)
next
  case (cryptonight_lite_aesni n)
  then have "isa = fips_unit" using assms(4) isa_fips by auto
  then show ?thesis
    using cn_instance_lanes [OF pad_sizes(2,4) assms(1,2), of n ctx "0x40000" False fips_unit] assms(3) cryptonight_lite_aesni
    by (simp add: cryptonight_slow pad_bytes_def)
next
  case (cryptonight_lite_softaes n)
  then show ?thesis
    using cn_instance_lanes [OF pad_sizes(2,4) assms(1,2), of n ctx "0x40000" True isa] assms(3)
    by (simp add: cryptonight_slow pad_bytes_def soft_slow_hash)
qed

section \<open>The table of methods\<close>

definition method_for :: "Algo \<Rightarrow> bool \<Rightarrow> nat \<Rightarrow> hash_method" where
  "method_for algo aesni n = (case algo of
       ALGO_CRYPTONIGHT \<Rightarrow> if aesni then cryptonight_aesni n else cryptonight_softaes n
     | ALGO_CRYPTONIGHT_LITE \<Rightarrow> if aesni then cryptonight_lite_aesni n else cryptonight_lite_softaes n)"

lemma method_for_simps: "method_lanes (method_for algo aesni n) = n" "method_algo (method_for algo aesni n) = algo"
  "\<not> aesni \<Longrightarrow> method_for algo aesni n \<in> range cryptonight_softaes \<union> range cryptonight_lite_softaes"
  by (cases algo; simp add: method_for_def)+

lemma setMethods_table:
  assumes "n \<le> length t"
  shows "length (setCryptoNightHashMethods n algo aesni t) = length t"
    "setCryptoNightHashMethods n algo aesni t ! i = (if i < n then Some (method_for algo aesni (Suc i)) else t ! i)"
proof -
  have "length (setCryptoNightHashMethods n algo aesni t) = length t \<and>
      setCryptoNightHashMethods n algo aesni t ! i = (if i < n then Some (method_for algo aesni (Suc i)) else t ! i)"
    using assms
  proof (induction n arbitrary: t)
    case (Suc n)
    have "setCryptoNightHashMethods (Suc n) algo aesni t = setCryptoNightHashMethods n algo aesni (t[n := Some (method_for algo aesni (Suc n))])"
      by (simp add: method_for_def split: Algo.split)
    moreover have "n \<le> length (t[n := Some (method_for algo aesni (Suc n))])" using Suc.prems by simp
    ultimately show ?case using Suc.IH Suc.prems by (auto simp: nth_list_update less_Suc_eq)
  qed simp
  then show "length (setCryptoNightHashMethods n algo aesni t) = length t"
    "setCryptoNightHashMethods n algo aesni t ! i = (if i < n then Some (method_for algo aesni (Suc i)) else t ! i)" by auto
qed

lemma method_call:
  assumes "junk_ok J" "\<not> int_size sz < 0" "ctx_ok n (pad_bytes algo) ctx" "aes_unit isa \<or> \<not> aesni"
  shows "\<exists>ctx'. call_method isa J (method_for algo aesni n) input sz ctx =
    Some (concat (map (\<lambda>k. cryptonight algo (cn_blob input sz k)) [0..<n]), ctx') \<and> same_shape ctx ctx'"
  using call_method_lanes [of J sz "method_for algo aesni n" ctx isa input] assms method_for_simps by auto

section \<open>Hashing and the self test\<close>

text \<open>A size below \<open>2^31\<close> survives the cast to \<open>int\<close>.\<close>

lemma int_size_small: "sz < 2 ^ 31 \<Longrightarrow> int_size sz = int sz"
  by (simp only: int_size_def sint_length)

lemma cn_blob_small: "sz < 2 ^ 31 \<Longrightarrow> cn_blob input sz k = take sz (drop (k * sz) input)"
  by (simp add: cn_blob_def int_size_small)

lemma CryptoNight_hash_init:
  assumes "length t = MAX_NUM_HASH_BLOCKS" "junk_ok J" "aes_unit isa \<or> \<not> aesni" "sz < 2 ^ 31"
    and "1 \<le> factor" "factor \<le> MAX_NUM_HASH_BLOCKS" "ctx_ok factor (pad_bytes algo) ctx"
  shows "\<exists>ctx'. CryptoNight_hash isa J (setCryptoNightHashMethods MAX_NUM_HASH_BLOCKS algo aesni t) factor input sz ctx =
    Some (concat (map (\<lambda>k. cryptonight algo (take sz (drop (k * sz) input))) [0..<factor]), ctx') \<and> same_shape ctx ctx'"
proof -
  have "MAX_NUM_HASH_BLOCKS \<le> length t" using assms(1) by simp
  note T = setMethods_table [OF this, of algo aesni]
  have e: "setCryptoNightHashMethods MAX_NUM_HASH_BLOCKS algo aesni t ! (factor - 1) = Some (method_for algo aesni factor)"
    using assms(5,6) by (cases factor) (simp_all add: T(2))
  have z: "\<not> int_size sz < 0" using assms(4) by (simp add: int_size_small)
  show ?thesis
    using method_call [OF assms(2) z assms(7,3), of input] assms(1,5,6) T(1) e cn_blob_small [OF assms(4)] by (auto simp: CryptoNight_hash_def)
qed

lemma length_final_hash:
  assumes "length m = 200"
  shows "length (final_hash i m) = 32"
proof -
  have "length (blake_spec iv256 0x01 m) = 32" by (rule length_blake_spec) (simp add: iv256_def)
  moreover have "length (groestl_spec m 1600) = 32"
  proof -
    obtain junk :: groestlHashState where "length (groestl_buffer junk) = 64"
      using that [of "\<lparr>chaining = [], block_counter1 = 0, block_counter2 = 0, groestl_buffer = replicate 64 0, groestl_buf_ptr = 0,
        bits_in_last_byte = 0\<rparr>"] by simp
    then have "groestl_spec m 1600 = groestl junk m 1600" using groestl_spec_eq [of junk 1600 m] assms by simp
    moreover have "length (groestl junk m 1600) = 32"
      by (simp add: groestl_def Final_parts OutputTransformation_def)
    ultimately show ?thesis by simp
  qed
  moreover have "length (jh_spec 256 m 1600) = 32"
    by (simp add: jh_spec_def Let_def length_state length_chain)
  moreover have "length (skein_spec 256 m) = 32"
    by (simp add: skein_spec_def skein_out_def Let_def length_ubi)
  ultimately show ?thesis by (simp add: final_hash_def)
qed

lemma length_cryptonight: "length (cryptonight algo blob) = 32"
proof -
  have "length (cn_slow_hash I MEM MASK S isa blob) = 32" for I MEM MASK S isa
  proof -
    have "length (keccakf (cn_implode_scratchpad MEM S isa p 0 (cn_state0 blob)) 24) = 25" for p by simp
    then show ?thesis by (simp add: cn_slow_hash_def Let_def split_beta length_final_hash)
  qed
  then show ?thesis using cryptonight_slow [of blob] by (cases algo) metis+
qed

text \<open>Comparing the first \<open>32 n\<close> bytes compares the digests of \<open>n\<close> lanes.\<close>

lemma memcmp_lanes:
  assumes "\<And>k. length (f k) = 32" "32 * n \<le> length e"
  shows "take (32 * n) (concat (map f [0..<n])) = take (32 * n) e \<longleftrightarrow> (\<forall>k < n. f k = cn_blob e 32 k)"
  using assms(2)
proof (induction n)
  case (Suc n)
  have l: "length (concat (map f [0..<n])) = 32 * n" for n using assms(1) by (induction n) simp_all
  have "take (32 * Suc n) e = take (32 * n) e @ cn_blob e 32 n"
    using take_add [of "32 * n" 32 e] by (simp add: cn_blob_small mult.commute add.commute)
  moreover have "take (32 * Suc n) (concat (map f [0..<Suc n])) = concat (map f [0..<n]) @ f n"
    using l [of "Suc n"] by simp
  moreover have "length (concat (map f [0..<n])) = length (take (32 * n) e)" using Suc.prems l by simp
  ultimately show ?case using Suc l [of n] by (auto simp: less_Suc_eq)
qed simp

abbreviation test_output :: "Algo \<Rightarrow> byte list" where
  "test_output algo \<equiv> (if algo = ALGO_CRYPTONIGHT_LITE then test_output1 else test_output0)"

text \<open>The test input is two blobs that alternate, and so is the output expected.\<close>

lemma test_blobs:
  "cn_blob test_input 76 2 = cn_blob test_input 76 0" "cn_blob test_input 76 3 = cn_blob test_input 76 (Suc 0)"
  "cn_blob test_input 76 4 = cn_blob test_input 76 0"
  by (simp_all add: cn_blob_small test_input_def)

lemma test_outputs:
  "cn_blob (test_output algo) 32 2 = cn_blob (test_output algo) 32 0"
  "cn_blob (test_output algo) 32 3 = cn_blob (test_output algo) 32 (Suc 0)"
  "cn_blob (test_output algo) 32 4 = cn_blob (test_output algo) 32 0" "length (test_output algo) = 192"
  by (simp_all add: cn_blob_small test_output0_def test_output1_def)

lemma selfTest_lanes:
  assumes "length t = MAX_NUM_HASH_BLOCKS" "junk_ok J" "aes_unit isa \<or> \<not> aesni" "ctx_ok 5 (pad_bytes algo) ctx"
  shows "selfTest isa J (setCryptoNightHashMethods MAX_NUM_HASH_BLOCKS algo aesni t) algo ctx =
    Some (cryptonight algo (cn_blob test_input 76 0) = cn_blob (test_output algo) 32 0 \<and>
          cryptonight algo (cn_blob test_input 76 1) = cn_blob (test_output algo) 32 1)"
proof -
  define T where "T = setCryptoNightHashMethods MAX_NUM_HASH_BLOCKS algo aesni t"
  define good where "good n \<longleftrightarrow> (\<forall>k < n. cryptonight algo (cn_blob test_input 76 k) = cn_blob (test_output algo) 32 k)" for n :: nat
  have "MAX_NUM_HASH_BLOCKS \<le> length t" using assms(1) by simp
  then have T: "T ! i = Some (method_for algo aesni (Suc i))" if "i < 5" for i
    using that setMethods_table(2) [of MAX_NUM_HASH_BLOCKS t algo aesni i] by (simp add: T_def MAX_NUM_HASH_BLOCKS_def)
  have call: "\<exists>c'. call_method isa J (method_for algo aesni n) test_input 76 c =
      Some (concat (map (\<lambda>k. cryptonight algo (cn_blob test_input 76 k)) [0..<n]), c') \<and> ctx_ok 5 (pad_bytes algo) c'"
    if "n \<le> 5" "ctx_ok 5 (pad_bytes algo) c" for n c
  proof -
    have "ctx_ok n (pad_bytes algo) c"
      using that order_trans [OF mult_le_mono1 [OF that(1), of "pad_bytes algo div 16"]] by (simp add: ctx_ok_def)
    have z: "\<not> int_size 76 < 0" by (simp add: int_size_small)
    from method_call [OF assms(2) z \<open>ctx_ok n (pad_bytes algo) c\<close> assms(3)] show ?thesis using that(2) by (meson same_shape_ok)
  qed
  obtain c1 where c1: "call_method isa J (method_for algo aesni 1) test_input 76 ctx =
      Some (concat (map (\<lambda>k. cryptonight algo (cn_blob test_input 76 k)) [0..<1]), c1)" "ctx_ok 5 (pad_bytes algo) c1"
    using call [of 1 ctx] assms(4) by auto
  obtain c2 where c2: "call_method isa J (method_for algo aesni 2) test_input 76 c1 =
      Some (concat (map (\<lambda>k. cryptonight algo (cn_blob test_input 76 k)) [0..<2]), c2)" "ctx_ok 5 (pad_bytes algo) c2"
    using call [of 2 c1] c1(2) by auto
  obtain c3 where c3: "call_method isa J (method_for algo aesni 3) test_input 76 c2 =
      Some (concat (map (\<lambda>k. cryptonight algo (cn_blob test_input 76 k)) [0..<3]), c3)" "ctx_ok 5 (pad_bytes algo) c3"
    using call [of 3 c2] c2(2) by auto
  obtain c4 where c4: "call_method isa J (method_for algo aesni 4) test_input 76 c3 =
      Some (concat (map (\<lambda>k. cryptonight algo (cn_blob test_input 76 k)) [0..<4]), c4)" "ctx_ok 5 (pad_bytes algo) c4"
    using call [of 4 c3] c3(2) by auto
  obtain c5 where c5: "call_method isa J (method_for algo aesni 5) test_input 76 c4 =
      Some (concat (map (\<lambda>k. cryptonight algo (cn_blob test_input 76 k)) [0..<5]), c5)"
    using call [of 5 c4] c4(2) by auto
  note T' = T [of 0, simplified] T [of 1, simplified] T [of 2, simplified] T [of 3, simplified] T [of 4, simplified]
  have cmp: "take (32 * n) (concat (map (\<lambda>k. cryptonight algo (cn_blob test_input 76 k)) [0..<n])) = take (32 * n) (test_output algo) \<longleftrightarrow> good n"
    if "n \<le> 5" for n
    using memcmp_lanes [of "\<lambda>k. cryptonight algo (cn_blob test_input 76 k)" n "test_output algo"] that
    by (simp only: good_def length_cryptonight test_outputs)
  have "selfTest isa J T algo ctx = Some (good 1 \<and> good 2 \<and> good 3 \<and> good 4 \<and> good 5)"
    using cmp [of 1] cmp [of 2] cmp [of 3] cmp [of 4] cmp [of 5]
    by (simp add: selfTest_def T' c1(1) [simplified] c2(1) c3(1) c4(1) c5 numeral_2_eq_2 [symmetric] Let_def split: if_splits)
  moreover have "good 5 \<Longrightarrow> good 1 \<and> good 2 \<and> good 3 \<and> good 4" by (simp add: good_def)
  moreover have "good 5 \<longleftrightarrow> cryptonight algo (cn_blob test_input 76 0) = cn_blob (test_output algo) 32 0 \<and>
          cryptonight algo (cn_blob test_input 76 1) = cn_blob (test_output algo) 32 1"
  proof -
    have "k < 5 \<longleftrightarrow> k = 0 \<or> k = Suc 0 \<or> k = 2 \<or> k = 3 \<or> k = 4" for k :: nat by auto
    then show ?thesis unfolding good_def by (auto simp: test_blobs test_outputs(1-3) simp del: if_split)
  qed
  ultimately show ?thesis unfolding T_def by auto
qed

section \<open>The 32-bit helpers\<close>

lemma unat_low_half: "unat (w AND 0xFFFFFFFF :: u64) = unat w mod 2 ^ 32"
proof -
  have "(0xFFFFFFFF :: u64) = mask 32" by (simp add: mask_eq_exp_minus_1)
  then have "unat (w AND 0xFFFFFFFF) = unat (take_bit 32 w)" by (simp only: take_bit_eq_mask)
  also have "\<dots> = take_bit 32 (unat w)" by (rule unsigned_take_bit_eq)
  finally show ?thesis by (simp only: take_bit_eq_mod)
qed

lemma unat_high_half: "unat (drop_bit 32 w :: u64) = unat w div 2 ^ 32"
  by (simp add: drop_bit_eq_div unat_div)

lemma unat_half_up: "unat (push_bit 32 w :: u64) = (unat w mod 2 ^ 32) * 2 ^ 32"
proof -
  have "unat (push_bit 32 w :: u64) = take_bit 64 (push_bit 32 (unat w))" by (simp add: unsigned_push_bit_eq)
  also have "\<dots> = unat w * 2 ^ 32 mod (2 ^ 32 * 2 ^ 32)" by (simp add: take_bit_eq_mod push_bit_eq_mult)
  also have "\<dots> = (unat w mod 2 ^ 32) * 2 ^ 32" by (simp only: mult_mod_left)
  finally show ?thesis .
qed

text \<open>A wrapped sum is below a summand exactly when it carries.\<close>

lemma carry_of_sum:
  fixes x y :: u64
  shows "unat x + unat y = unat (x + y) + 2 ^ 64 * (if x + y < x then 1 else 0)"
proof (cases "unat x + unat y < 2 ^ 64")
  case True
  then have "unat (x + y) = unat x + unat y" by (simp add: unat_word_ariths)
  then show ?thesis by (simp add: word_less_nat_alt)
next
  case False
  have "unat x + unat y < 2 ^ 64 + 2 ^ 64" using unat_u64 [of x] unat_u64 [of y] by linarith
  then have "(unat x + unat y) mod 2 ^ 64 = unat x + unat y - 2 ^ 64" using False by (simp add: mod_if)
  then have s: "unat (x + y) = unat x + unat y - 2 ^ 64" by (simp add: unat_word_ariths)
  then have "x + y < x" using False unat_u64 [of y] by (simp add: word_less_nat_alt)
  then show ?thesis using s False by simp
qed

lemma small_product: "a < 2 ^ 32 \<Longrightarrow> b < 2 ^ 32 \<Longrightarrow> a * b \<le> (2 ^ 32 - 1) * (2 ^ 32 - 1 :: nat)"
  by (rule mult_le_mono) simp_all

lemma unat_small_mult:
  assumes "unat (v :: u64) < 2 ^ 32" "unat w < 2 ^ 32"
  shows "unat (v * w) = unat v * unat w"
proof -
  have "unat v * unat w < 2 ^ 64" using small_product [OF assms] by (rule le_less_trans) simp
  then show ?thesis by (simp add: unat_word_ariths)
qed

lemma umul128_i386_eq: "umul128_i386 x y = umul128 x y"
proof -
  define a b c d where "a = drop_bit 32 x" and "b = x AND 0xFFFFFFFF" and "c = drop_bit 32 y" and "d = y AND 0xFFFFFFFF"
  define adbc where "adbc = a * d + b * c"
  define c1 :: u64 where "c1 = (if adbc < a * d then 1 else 0)"
  define lo where "lo = b * d + push_bit 32 adbc"
  define c2 :: u64 where "c2 = (if lo < b * d then 1 else 0)"
  define hi where "hi = a * c + drop_bit 32 adbc + push_bit 32 c1 + c2"
  have e: "umul128_i386 x y = (hi, lo)"
    by (simp add: umul128_i386_def Let_def a_def b_def c_def d_def adbc_def c1_def lo_def c2_def hi_def)
  have half: "unat w div 2 ^ 32 < 2 ^ 32" "unat w mod 2 ^ 32 < 2 ^ 32" for w :: u64
    using unat_u64 [of w] by (simp_all add: div_less_iff_less_mult)
  have u: "unat a = unat x div 2 ^ 32" "unat b = unat x mod 2 ^ 32" "unat c = unat y div 2 ^ 32" "unat d = unat y mod 2 ^ 32"
    by (simp_all only: a_def b_def c_def d_def unat_high_half unat_low_half)
  have l: "unat a < 2 ^ 32" "unat b < 2 ^ 32" "unat c < 2 ^ 32" "unat d < 2 ^ 32" by (simp_all only: u half)
  have xy: "unat x = unat a * 2 ^ 32 + unat b" "unat y = unat c * 2 ^ 32 + unat d"
    by (simp_all only: u div_mult_mod_eq)
  have m: "unat (a * d) = unat a * unat d" "unat (b * c) = unat b * unat c" "unat (b * d) = unat b * unat d"
    "unat (a * c) = unat a * unat c" using l by (simp_all only: unat_small_mult)
  have s: "unat a * unat d + unat b * unat c = unat adbc + 2 ^ 64 * unat c1"
    using carry_of_sum [of "a * d" "b * c"] by (simp add: m adbc_def [symmetric] c1_def)
  have p: "unat b * unat d + (unat adbc mod 2 ^ 32) * 2 ^ 32 = unat lo + 2 ^ 64 * unat c2"
    using carry_of_sum [of "b * d" "push_bit 32 adbc"] by (simp add: m lo_def [symmetric] c2_def unat_half_up)
  have "unat c1 \<le> 1" by (simp add: c1_def)
  then have "unat c1 mod 2 ^ 32 = unat c1" by simp
  then have q: "unat (push_bit 32 c1) = unat c1 * 2 ^ 32" by (simp only: unat_half_up)
  define X where "X = unat a * unat c + unat adbc div 2 ^ 32 + unat c1 * 2 ^ 32 + unat c2"
  have prod: "unat x * unat y = X * 2 ^ 64 + unat lo"
  proof -
    define sh sl where "sh = unat adbc div 2 ^ 32" and "sl = unat adbc mod 2 ^ 32"
    have S: "unat adbc = sh * 2 ^ 32 + sl" by (simp only: sh_def sl_def div_mult_mod_eq)
    have "unat x * unat y = unat a * unat c * 2 ^ 64 + (unat a * unat d + unat b * unat c) * 2 ^ 32 + unat b * unat d"
      by (simp add: xy algebra_simps)
    also have "\<dots> = unat a * unat c * 2 ^ 64 + (sh * 2 ^ 32 + sl + 2 ^ 64 * unat c1) * 2 ^ 32 + unat b * unat d" by (simp only: s S)
    also have "\<dots> = unat a * unat c * 2 ^ 64 + unat c1 * 2 ^ 96 + sh * 2 ^ 64 + (unat b * unat d + sl * 2 ^ 32)"
      by (simp add: algebra_simps)
    also have "\<dots> = X * 2 ^ 64 + unat lo" by (simp only: p [folded sl_def] X_def [folded sh_def]) (simp add: algebra_simps)
    finally show ?thesis .
  qed
  have "X < 2 ^ 64"
  proof (rule ccontr)
    assume "\<not> X < 2 ^ 64"
    then have "2 ^ 64 * 2 ^ 64 \<le> X * 2 ^ 64" by (intro mult_le_mono1) simp
    moreover have "unat x * unat y < 2 ^ 64 * 2 ^ 64" using unat_u64 by (intro mult_strict_mono) simp_all
    ultimately show False using prod by linarith
  qed
  moreover have "hi = of_nat X"
  proof -
    have "of_nat X = (of_nat (unat (a * c) + unat (drop_bit 32 adbc) + unat (push_bit 32 c1) + unat c2) :: u64)"
      by (simp only: X_def m q unat_high_half)
    then show ?thesis by (simp add: hi_def)
  qed
  ultimately have "unat hi = X" by (simp add: unsigned_of_nat take_bit_nat_eq_self_iff)
  then have "umul128 x y = (hi, lo)" using prod by (simp only: umul128_words)
  then show ?thesis using e by simp
qed

lemma EXTRACT64_i386_eq: "EXTRACT64_i386 X = mm_cvtsi128_si64 X"
  by (rule bit_word_eqI)
    (auto simp: EXTRACT64_i386_def mm_cvtsi128_si32_def mm_cvtsi128_si64_def mm_srli_si128_def bit_simps)

section \<open>The properties\<close>

text \<open>A stack and a context with some content, for the instances below.\<close>

definition some_junk :: extra_junk where
  "some_junk =
    \<lparr>blake_junk = replicate 64 1,
     groestl_junk = \<lparr>chaining = [], block_counter1 = 7, block_counter2 = 8, groestl_buffer = replicate 64 9,
       groestl_buf_ptr = 5, bits_in_last_byte = 3\<rparr>,
     jh_junk = \<lparr>jh_hashbitlen = 1, jh_databitlen = 2, datasize_in_buffer = 3, jh_x = [], jh_buffer = replicate 64 4\<rparr>,
     skein_junk = \<lparr>hashBitLen = 7, bCnt = 5, T0 = 1, T1 = 2, chain_X = [], skein_b = replicate 64 9\<rparr>\<rparr>"

definition some_ctx :: cryptonight_ctx where
  "some_ctx = \<lparr>cn_state = replicate 5 (replicate 26 0xA5), cn_memory = replicate (5 * (MEMORY div 16)) 0x5A\<rparr>"

lemma some_ok: "junk_ok some_junk" "n \<le> 5 \<Longrightarrow> ctx_ok n (pad_bytes algo) some_ctx"
proof -
  show "junk_ok some_junk" by (simp add: junk_ok_def some_junk_def)
  have "n * (pad_bytes algo div 16) \<le> 5 * (MEMORY div 16)" if "n \<le> 5"
    using that by (intro mult_le_mono) (simp_all add: pad_bytes_def MEMORY_def MEMORY_LITE_def)
  then show "n \<le> 5 \<Longrightarrow> ctx_ok n (pad_bytes algo) some_ctx" by (simp add: ctx_ok_def some_ctx_def)
qed

text \<open>C1: after the hash methods are set, CryptoNight::hash with any factor gives, for every lane, the CryptoNight digest
  of the standard of the blob of that lane and of nothing else: it does not depend on the other lanes, on what the
  context and the stack held before, on the number of lanes or on whether AES is done by instructions (that do what
  FIPS 197 says) or by the tables. The digest is that of slow_hash, which is written on bytes and numbers without any
  function of the code (but the permutation and initial values of JH): the Keccak sponge, a scratchpad filled with AES rounds, the iterations with their 16-byte reads
  and writes and the product of 64-bit halves, the scratchpad folded back, the Keccak permutation, and BLAKE-256,
  Groestl-256, JH-256 or Skein-512-256 of the state. Sizes from 2^31 on, which the code casts to a negative int, are
  excluded.\<close>
theorem hash_of_every_lane:
  assumes "length t = MAX_NUM_HASH_BLOCKS" "junk_ok J" "aes_unit isa \<or> \<not> aesni" "sz < 2 ^ 31"
    and "1 \<le> factor" "factor \<le> MAX_NUM_HASH_BLOCKS" "ctx_ok factor (pad_bytes algo) ctx"
  shows "\<exists>ctx'. CryptoNight_hash isa J (setCryptoNightHashMethods MAX_NUM_HASH_BLOCKS algo aesni t) factor input sz ctx =
    Some (concat (map (\<lambda>k. cryptonight algo (take sz (drop (k * sz) input))) [0..<factor]), ctx') \<and> same_shape ctx ctx'"
  by (rule CryptoNight_hash_init [OF assms])

theorem hash_of_every_lane_witness:
  "\<exists>ctx'. CryptoNight_hash soft_isa some_junk (setCryptoNightHashMethods MAX_NUM_HASH_BLOCKS ALGO_CRYPTONIGHT_LITE True cryptonight_hash_ctx)
      3 test_input 76 some_ctx =
    Some (concat (map (\<lambda>k. cryptonight ALGO_CRYPTONIGHT_LITE (take 76 (drop (k * 76) test_input))) [0..<3]), ctx') \<and> same_shape some_ctx ctx'"
  by (rule hash_of_every_lane)
    (simp_all add: cryptonight_hash_ctx_def some_ok soft_unit.aes_unit_axioms MAX_NUM_HASH_BLOCKS_def)

text \<open>C15: the self test passes exactly when two digests are right, those of the two blobs that alternate in its input:
  the calls with two to five lanes run every specialisation, and by the lanes' independence they can only fail
  together with the first two digests.\<close>
theorem selfTest_two_blobs:
  assumes "length t = MAX_NUM_HASH_BLOCKS" "junk_ok J" "aes_unit isa \<or> \<not> aesni" "ctx_ok 5 (pad_bytes algo) ctx"
  shows "selfTest isa J (setCryptoNightHashMethods MAX_NUM_HASH_BLOCKS algo aesni t) algo ctx =
    Some (cryptonight algo (cn_blob test_input 76 0) = cn_blob (test_output algo) 32 0 \<and>
          cryptonight algo (cn_blob test_input 76 1) = cn_blob (test_output algo) 32 1)"
  by (rule selfTest_lanes [OF assms])

theorem selfTest_two_blobs_witness:
  "selfTest soft_isa some_junk (setCryptoNightHashMethods MAX_NUM_HASH_BLOCKS ALGO_CRYPTONIGHT True cryptonight_hash_ctx)
      ALGO_CRYPTONIGHT some_ctx =
    Some (cryptonight ALGO_CRYPTONIGHT (cn_blob test_input 76 0) = cn_blob test_output0 32 0 \<and>
          cryptonight ALGO_CRYPTONIGHT (cn_blob test_input 76 1) = cn_blob test_output0 32 1)"
  using selfTest_two_blobs [of cryptonight_hash_ctx some_junk soft_isa True ALGO_CRYPTONIGHT some_ctx]
  by (simp add: cryptonight_hash_ctx_def some_ok soft_unit.aes_unit_axioms)

text \<open>C17: the loop over the lanes of the class template and the unrolled specialisation for two to five lanes give the
  same digests, for every scratchpad size and mask that fits it, although they order the loads, the rounds, the
  stores and the multiplications of the lanes differently.\<close>
theorem lane_loop_is_unrolled:
  assumes "MEM = 128 * m" "unat MASK div 16 < MEM div 16" "junk_ok J" "ctx_ok num MEM ctx"
  shows "map_option fst (CryptoNightMultiHash ITERATIONS MEM MASK S isa J num input sz ctx) =
    map_option fst (cn_instance ITERATIONS MEM MASK S isa J num input sz ctx)"
  by (rule lanes_unrolled [OF assms])

theorem lane_loop_is_unrolled_witness:
  "map_option fst (CryptoNightMultiHash 0x80000 MEMORY 0x1FFFF0 False soft_isa some_junk 5 test_input 76 some_ctx) =
    map_option fst (CryptoNightMultiHash_5 0x80000 MEMORY 0x1FFFF0 False soft_isa some_junk test_input 76 some_ctx)"
  using lane_loop_is_unrolled [OF pad_sizes(1,3) some_ok(1), of 5 some_ctx "0x80000" False soft_isa test_input 76]
    some_ok(2) [of 5 ALGO_CRYPTONIGHT] by (simp add: cn_instance_def pad_bytes_def)

text \<open>C39: the multiplication and the extraction written for 32-bit targets are those of 64-bit targets.\<close>
theorem i386_helpers:
  "umul128_i386 x y = umul128 x y \<and> EXTRACT64_i386 X = mm_cvtsi128_si64 X"
  by (simp add: umul128_i386_eq EXTRACT64_i386_eq)

text \<open>The self test checks the third slot of the table twice and the second never: with a null second slot it calls
  the null pointer, and does not report a failure.\<close>
theorem selfTest_calls_null:
  assumes "t ! 0 \<noteq> None" "t ! 2 \<noteq> None" "t ! 3 \<noteq> None" "t ! 4 \<noteq> None" "t ! 1 = None"
  shows "selfTest isa J t algo ctx = None"
  using assms by (simp add: selfTest_def)

theorem selfTest_calls_null_witness:
  "selfTest soft_isa some_junk [Some (cryptonight_softaes 1), None, Some (cryptonight_softaes 3), Some (cryptonight_softaes 4),
     Some (cryptonight_softaes 5)] ALGO_CRYPTONIGHT some_ctx = None"
  by (rule selfTest_calls_null) simp_all

end
