(* ===== verification/Spec2Isabelle.thy ===== *)
theory Spec2Isabelle
  imports Keccak Blake256_Final Job Url Hashrate Client Strategies_Correct NetworkState Workers_Threads
    Options_Correct Mem Network_Correct Soft_AES_Correct CryptoNight_Correct
begin

text \<open>
  A verification library of the XMRigCC miner, \<^verbatim>\<open>src/src\<close>: a CryptoNight miner that takes jobs from
  pools over the stratum protocol, mines them in one thread per processor, and submits shares.

  \<^bold>\<open>How the program fits together.\<close> The network thread runs an event loop. A \<open>Client\<close> is one
  connection to a pool; a strategy (fail-over, single pool, donation) owns clients and listens to them;
  \<open>Network\<close> listens to the strategies, hands jobs to \<open>Workers\<close> and results to the strategies. A miner
  (\<open>MultiWorker\<close>) reads the job and a sequence number that \<open>Workers\<close> shares, hashes and queues results,
  which the network thread collects. \<open>Options\<close> configures all of it.

  \<^bold>\<open>Theories.\<close>
  \<^item> \<^theory_text>\<open>Prelude\<close>: bytes and words, little-endian views, block loops.
  \<^item> \<^theory_text>\<open>Keccak\<close> (\<^verbatim>\<open>crypto/c_keccak.c\<close>), \<^theory_text>\<open>Blake256\<close>, \<^theory_text>\<open>Blake256_Correct\<close>,
    \<^theory_text>\<open>Blake256_Final\<close> (\<^verbatim>\<open>crypto/c_blake256.c\<close>): the functions of the files on lists of words, and their
    equivalence with the standard's sponge, permutation and padded compression, and HMAC.
  \<^item> \<^theory_text>\<open>Soft_AES\<close>, \<^theory_text>\<open>Soft_AES_Correct\<close> (\<^verbatim>\<open>crypto/soft_aes.h\<close>, the key schedule of
    \<^verbatim>\<open>crypto/CryptoNight_x86.h\<close>): 16-byte blocks as words of 128 bits, the table-driven round and the round
    keys, and their equivalence with FIPS 197; the locale \<open>aes_unit\<close> is the contract of the processor's instructions.
  \<^item> \<^theory_text>\<open>Groestl\<close>, \<^theory_text>\<open>Groestl_Correct\<close>, \<^theory_text>\<open>Groestl_Hash\<close> (\<^verbatim>\<open>crypto/c_groestl.c\<close>),
    \<^theory_text>\<open>Skein\<close>, \<^theory_text>\<open>Skein_Correct\<close>, \<^theory_text>\<open>Skein_Hash\<close> (\<^verbatim>\<open>crypto/c_skein.c\<close>),
    \<^theory_text>\<open>Jh\<close>, \<^theory_text>\<open>Jh_Correct\<close> (\<^verbatim>\<open>crypto/c_jh.c\<close>): the contexts with their buffers, partial bytes
    included, first the rounds against the specification, then the buffered calls.
  \<^item> \<^theory_text>\<open>CryptoNight\<close> (\<^verbatim>\<open>crypto/CryptoNight_x86.h\<close>, \<^verbatim>\<open>CryptoNight.cpp\<close>): the scratchpad, the class
    template \<open>CryptoNightMultiHash\<close> and its five unrolled specialisations, the table of hash methods, the self
    test. \<^theory_text>\<open>CryptoNight_Lanes\<close>: the lanes are independent, by the locale \<open>lockstep\<close> that every
    loop body interprets. \<^theory_text>\<open>CryptoNight_Hash\<close>: every class gives the digest of one lane on its own for
    each lane. \<^theory_text>\<open>CryptoNight_Spec\<close>: CryptoNight as its standard (CNS008) has it, on bytes and numbers and without
    the functions of the code, and the proof that the digest of a lane is that one.
    \<^theory_text>\<open>CryptoNight_Correct\<close>: the same for the methods, with AES instructions or tables, and the self test.
  \<^item> \<^theory_text>\<open>Job\<close> (\<^verbatim>\<open>net/Job.cpp\<close>, \<^verbatim>\<open>JobId.h\<close>, \<^verbatim>\<open>JobResult.h\<close>), \<^theory_text>\<open>Url\<close> (\<^verbatim>\<open>net/Url.cpp\<close>),
    \<^theory_text>\<open>Hashrate\<close> (\<^verbatim>\<open>workers/Hashrate.cpp\<close>), \<^theory_text>\<open>NetworkState\<close> (\<^verbatim>\<open>api/NetworkState.cpp\<close>): the data
    of the miner, as records with the members of the classes, and what each operation does on every branch.
  \<^item> \<^theory_text>\<open>Client\<close> and \<^theory_text>\<open>Client_Correct\<close> (\<^verbatim>\<open>net/Client.cpp\<close>): a connection as a state machine over the
    callbacks of libuv, its invariant and its line buffer. The listener of a client is a function, and the locale
    \<open>client_listener\<close> has the laws a listener obeys.
  \<^item> \<^theory_text>\<open>Strategies\<close> and \<^theory_text>\<open>Strategies_Correct\<close> (\<^verbatim>\<open>net/strategies\<close>): the three strategies, each an
    interpretation of \<open>client_listener\<close>, and the states they reach.
  \<^item> \<^theory_text>\<open>Workers\<close> and \<^theory_text>\<open>Workers_Correct\<close> (\<^verbatim>\<open>workers/Workers.cpp\<close>, \<^verbatim>\<open>MultiWorker.cpp\<close>): the shared
    state and a miner with one program point for each access to it; the calls of the other threads, access by access too.
    \<^theory_text>\<open>Workers_Threads\<close>: a miner, the other miners, the network thread and the detached thread \<open>Check\<close> of
    \<^verbatim>\<open>App.cpp\<close>, in any order of their accesses.
  \<^item> \<^theory_text>\<open>Network\<close> and \<^theory_text>\<open>Network_Correct\<close> (\<^verbatim>\<open>net/Network.cpp\<close>): the network thread over strategies,
    counters and workers.
  \<^item> \<^theory_text>\<open>Options\<close> and \<^theory_text>\<open>Options_Correct\<close> (\<^verbatim>\<open>Options.cpp\<close>, \<^verbatim>\<open>Cpu.cpp\<close>), \<^theory_text>\<open>Mem\<close> (\<^verbatim>\<open>Mem.cpp\<close>,
    \<^verbatim>\<open>Mem_unix.cpp\<close>): configuration, the choice of threads and the memory of the threads.

  \<^bold>\<open>Conventions.\<close> A pointer that may be null is an option, an access outside an array, a division by zero or an
  exception is \<open>None\<close>. Machine integers that can wrap are words. Memory that the code does not initialise is an
  argument (\<open>junk\<close>). Clocks, libuv, rapidjson, \<^verbatim>\<open>getopt_long\<close> and the operating system are parameters,
  collected in the records \<open>uv\<close>, \<open>machine\<close>, \<open>opt_env\<close> and \<open>os\<close>. Loops are structural, or functions with
  a measure; no fuel is used. A miner runs for ever by design: its steps are iterated, and
  \<open>steps_left\<close> bounds what it still does once it is stopped.

  \<^bold>\<open>What the properties show.\<close> CryptoNight: whatever the number of lanes, the way AES is done and the old
  content of the context, every lane gets the CryptoNight digest of its own blob, by a specification on bytes that shares
  nothing with the code but the permutation of JH; what the self test can and cannot detect. Hash functions: equivalence with the
  standard constructions for every length, and where they
  differ from it. Client and strategies: invariants of all reachable states, delivery of lines, hand-over between
  pools, what happens to results. Miners: shares are valid for the job they are submitted for, nonces are never
  reused, results are delivered once and in order, stopping ends the miners; the two ways in which a
  miner works on a job that is not the current one, and the race that leaves miners running while mining is disabled. Options and memory: everything in range, scratchpads disjoint.

  \<^bold>\<open>Bounds.\<close> The loops of CryptoNight have the iteration counts of the code, 0x80000 and 0x40000, so its
  digest is computable but not evaluated here: the digests of the self test are stated, not checked. Messages are lists;
  Keccak, Groestl, JH and Skein get at most 208 bytes from CryptoNight. The two lengths that the code casts to \<^verbatim>\<open>int\<close>, the
  size of a blob and the number of bytes of a Groestl message, are cut to 32 bits here too, and their theorems hold below
  \<open>2^31\<close>; other lengths are not cut to the width of the C types beyond the counters, which are words.

  \<^bold>\<open>Not modelled.\<close> The variant of CryptoNight for ARM, whose intrinsics are not in the repository. The
  permutation of JH is related to the specification by its S-boxes and its linear layer; its bit-sliced
  swaps, round constants and initial values are those of the code, also in the specification of CryptoNight. The control server and client (\<^verbatim>\<open>cc\<close>) and the miner API,
  which are HTTP; the detection of the processor, platform files, logging, console and start-up.
\<close>

end
